(* ===== verification/Sandbox_Prelude.thy ===== *)
theory Sandbox_Prelude
  imports Main "HOL-Library.Word" "HOL-Library.Signed_Division"
begin

text \<open>
  Shared vocabulary of the development: the machine integers the Rust code uses, the result type
  behind its question-mark operator, the transaction monad behind every function that takes a
  database transaction, frame reasoning for that monad, and decimal printing of integers.
\<close>

section \<open>Identifiers and instants\<close>

text \<open>
  A UUID is an opaque identifier; an instant is a number of nanoseconds since the Unix epoch. The
  libraries behind them (the crates uuid and time) are not part of the repository; what the code
  uses of them beyond equality and addition is a parameter of the definitions that use it.
\<close>

type_synonym uuid = nat
type_synonym instant = int

definition seconds :: "int \<Rightarrow> int" where
  "seconds n = n * 1000000000"

section \<open>Machine integers\<close>

text \<open>
  A signed 64-bit value is an \<^typ>\<open>int\<close> with its range written out. Checked operations give
  \<^const>\<open>None\<close> outside the range; unchecked ones wrap around as a release build does.
\<close>

definition i64_min :: int where
  "i64_min = - (2 ^ 63)"

definition i64_max :: int where
  "i64_max = 2 ^ 63 - 1"

definition in_i64 :: "int \<Rightarrow> bool" where
  "in_i64 x \<longleftrightarrow> i64_min \<le> x \<and> x \<le> i64_max"

definition checked_i64 :: "int \<Rightarrow> int option" where
  "checked_i64 x = (if in_i64 x then Some x else None)"

definition wrap64 :: "int \<Rightarrow> int" where
  "wrap64 x = signed_take_bit 63 x"

definition wrap16 :: "int \<Rightarrow> int" where
  "wrap16 x = signed_take_bit 15 x"

lemma in_i64_iff: "in_i64 x \<longleftrightarrow> -9223372036854775808 \<le> x \<and> x \<le> 9223372036854775807"
  by (simp add: in_i64_def i64_min_def i64_max_def)

lemma checked_i64_Some [simp]: "checked_i64 x = Some y \<longleftrightarrow> in_i64 x \<and> y = x"
  by (auto simp: checked_i64_def)

lemma checked_i64_None [simp]: "checked_i64 x = None \<longleftrightarrow> \<not> in_i64 x"
  by (simp add: checked_i64_def)

lemma checked_i64_in: "in_i64 x \<Longrightarrow> checked_i64 x = Some x"
  by simp

lemma wrap64_id: "in_i64 x \<Longrightarrow> wrap64 x = x"
  by (simp add: wrap64_def in_i64_iff signed_take_bit_int_eq_self)

lemma wrap64_in: "in_i64 (wrap64 x)"
  using signed_take_bit_int_greater_eq_minus_exp [of 63 x] signed_take_bit_int_less_exp [of 63 x]
  by (simp add: wrap64_def in_i64_iff)

lemma wrap64_word: "wrap64 x = sint (word_of_int x :: 64 word)"
  by (simp add: wrap64_def signed_of_int)

lemma wrap16_id: "- 32768 \<le> x \<Longrightarrow> x < 32768 \<Longrightarrow> wrap16 x = x"
  by (simp add: wrap16_def signed_take_bit_int_eq_self)

lemma wrap16_over:
  assumes "32768 \<le> x" and "x < 65536"
  shows "wrap16 x = x - 65536"
proof -
  have "(x + 32768) mod 65536 = (x - 32768 + 65536) mod 65536" by (simp add: add.commute)
  also have "\<dots> = x - 32768" using assms by (simp only: mod_add_self2) simp
  finally show ?thesis
    by (simp add: wrap16_def signed_take_bit_eq_take_bit_shift take_bit_eq_mod)
qed

section \<open>Results\<close>

text \<open>
  Rust's \<open>Result<T, E>\<close> is \<open>'e + 'a\<close> with the error on the left; \<open>rbind\<close> is the question-mark
  operator inside a function that returns one.
\<close>

definition rbind :: "'e + 'a \<Rightarrow> ('a \<Rightarrow> 'e + 'b) \<Rightarrow> 'e + 'b" where
  "rbind r f = (case r of Inl e \<Rightarrow> Inl e | Inr a \<Rightarrow> f a)"

definition ok_or :: "'a option \<Rightarrow> 'e \<Rightarrow> 'e + 'a" where
  "ok_or v e = (case v of None \<Rightarrow> Inl e | Some a \<Rightarrow> Inr a)"

definition map_err :: "('e \<Rightarrow> 'f) \<Rightarrow> 'e + 'a \<Rightarrow> 'f + 'a" where
  "map_err g r = (case r of Inl e \<Rightarrow> Inl (g e) | Inr a \<Rightarrow> Inr a)"

definition is_ok :: "'e + 'a \<Rightarrow> bool" where
  "is_ok r = (case r of Inl _ \<Rightarrow> False | Inr _ \<Rightarrow> True)"

lemma rbind_simps [simp]: "rbind (Inl e) f = Inl e" "rbind (Inr a) f = f a"
  by (simp_all add: rbind_def)

lemma rbind_Inr: "rbind r f = Inr b \<longleftrightarrow> (\<exists>a. r = Inr a \<and> f a = Inr b)"
  by (cases r) auto

lemma ok_or_simps [simp]: "ok_or None e = Inl e" "ok_or (Some a) e = Inr a"
  by (simp_all add: ok_or_def)

lemma ok_or_Inr [simp]: "ok_or v e = Inr a \<longleftrightarrow> v = Some a"
  by (cases v) auto

lemma map_err_simps [simp]: "map_err g (Inl e) = Inl (g e)" "map_err g (Inr a) = Inr a"
  by (simp_all add: map_err_def)

lemma map_err_Inr [simp]: "map_err g r = Inr a \<longleftrightarrow> r = Inr a"
  by (cases r) auto

lemma is_ok_simps [simp]: "is_ok (Inl e) = False" "is_ok (Inr a) = True"
  by (simp_all add: is_ok_def)

text \<open>\<open>collect\<close> of an iterator of results: the first error, or all the values.\<close>

fun traverse :: "('a \<Rightarrow> 'e + 'b) \<Rightarrow> 'a list \<Rightarrow> 'e + 'b list" where
  "traverse f [] = Inr []"
| "traverse f (x # xs) = rbind (f x) (\<lambda>y. rbind (traverse f xs) (\<lambda>ys. Inr (y # ys)))"

lemma traverse_Inr: "traverse f xs = Inr ys \<longleftrightarrow> list_all2 (\<lambda>x y. f x = Inr y) xs ys"
  by (induction xs arbitrary: ys) (auto simp: rbind_Inr list_all2_Cons1)

section \<open>Text codecs\<close>

text \<open>
  The contract of the enumerations that are stored and sent as text (\<open>as_str\<close> with a parser): every
  value reads back, and nothing but the text of a value reads as it.
\<close>

definition res_ok :: "'e + 'a \<Rightarrow> 'a option" where
  "res_ok r = (case r of Inl _ \<Rightarrow> None | Inr a \<Rightarrow> Some a)"

lemma res_ok_Some [simp]: "res_ok r = Some a \<longleftrightarrow> r = Inr a"
  by (cases r) (auto simp: res_ok_def)

locale string_codec =
  fixes enc :: "'a \<Rightarrow> string" and dec :: "string \<Rightarrow> 'a option"
  assumes dec_enc: "dec (enc a) = Some a"
    and dec_only: "dec s = Some a \<Longrightarrow> s = enc a"
begin

lemma dec_iff: "dec s = Some a \<longleftrightarrow> s = enc a"
  using dec_enc dec_only by blast

lemma enc_eq_iff: "enc a = enc b \<longleftrightarrow> a = b"
  using dec_enc by (metis option.inject)

lemma decode_list: "List.map_filter dec (map enc xs) = xs"
  by (induction xs) (simp_all add: List.map_filter_def dec_enc)

lemma decode_list_set: "set (List.map_filter dec ss) = {a. enc a \<in> set ss}"
proof -
  have "set (List.map_filter dec ss) = {a. \<exists>s \<in> set ss. dec s = Some a}"
    by (induction ss) (auto simp: List.map_filter_simps split: option.splits)
  then show ?thesis by (auto simp: dec_iff)
qed

end

section \<open>The transaction monad\<close>

text \<open>
  A function that works on a database transaction takes the world and returns its result with the
  world it leaves; \<open>tbind\<close> sequences two such steps and stops at the first error.
\<close>

type_synonym ('w, 'e, 'a) tx = "'w \<Rightarrow> ('e + 'a) \<times> 'w"

definition tbind :: "('w, 'e, 'a) tx \<Rightarrow> ('a \<Rightarrow> ('w, 'e, 'b) tx) \<Rightarrow> ('w, 'e, 'b) tx" where
  "tbind m f = (\<lambda>w. case m w of (Inl e, w') \<Rightarrow> (Inl e, w') | (Inr a, w') \<Rightarrow> f a w')"

definition treturn :: "'a \<Rightarrow> ('w, 'e, 'a) tx" where
  "treturn a = (\<lambda>w. (Inr a, w))"

definition tthrow :: "'e \<Rightarrow> ('w, 'e, 'a) tx" where
  "tthrow e = (\<lambda>w. (Inl e, w))"

definition tlift :: "'e + 'a \<Rightarrow> ('w, 'e, 'a) tx" where
  "tlift r = (\<lambda>w. (r, w))"

definition tget :: "('w \<Rightarrow> 'a) \<Rightarrow> ('w, 'e, 'a) tx" where
  "tget f = (\<lambda>w. (Inr (f w), w))"

definition tmap_err :: "('e \<Rightarrow> 'f) \<Rightarrow> ('w, 'e, 'a) tx \<Rightarrow> ('w, 'f, 'a) tx" where
  "tmap_err g m = (\<lambda>w. case m w of (r, w') \<Rightarrow> (map_err g r, w'))"

fun tfor :: "'a list \<Rightarrow> ('a \<Rightarrow> ('w, 'e, unit) tx) \<Rightarrow> ('w, 'e, unit) tx" where
  "tfor [] f = treturn ()"
| "tfor (x # xs) f = tbind (f x) (\<lambda>_. tfor xs f)"

lemma tbind_Inr:
  "tbind m f w = (Inr b, w'') \<longleftrightarrow> (\<exists>a w'. m w = (Inr a, w') \<and> f a w' = (Inr b, w''))"
  by (auto simp: tbind_def split: prod.splits sum.splits)

lemma tbind_Inl:
  "tbind m f w = (Inl e, w'') \<longleftrightarrow>
     m w = (Inl e, w'') \<or> (\<exists>a w'. m w = (Inr a, w') \<and> f a w' = (Inl e, w''))"
  by (auto simp: tbind_def split: prod.splits sum.splits)

lemma tbind_ok: "m w = (Inr a, w') \<Longrightarrow> tbind m f w = f a w'"
  by (simp add: tbind_def)

lemma tbind_err: "m w = (Inl e, w') \<Longrightarrow> tbind m f w = (Inl e, w')"
  by (simp add: tbind_def)

lemma treturn_apply [simp]: "treturn a w = (Inr a, w)"
  by (simp add: treturn_def)

lemma tthrow_apply [simp]: "tthrow e w = (Inl e, w)"
  by (simp add: tthrow_def)

lemma tlift_apply [simp]: "tlift r w = (r, w)"
  by (simp add: tlift_def)

lemma tget_apply [simp]: "tget f w = (Inr (f w), w)"
  by (simp add: tget_def)

lemma tmap_err_Inr [simp]: "tmap_err g m w = (Inr a, w') \<longleftrightarrow> m w = (Inr a, w')"
  by (auto simp: tmap_err_def split: prod.splits)

lemma tmap_err_ok: "m w = (Inr a, w') \<Longrightarrow> tmap_err g m w = (Inr a, w')"
  by simp

lemma tmap_err_err: "m w = (Inl e, w') \<Longrightarrow> tmap_err g m w = (Inl (g e), w')"
  by (simp add: tmap_err_def)

lemma tbind_simps [simp]:
  "tbind (treturn a) f = f a"
  "tbind (tthrow e) f = tthrow e"
  "tbind (tlift (Inr a)) f = f a"
  "tbind (tlift (Inl e)) f = tthrow e"
  "tbind (tget g) f w = f (g w) w"
  by (simp_all add: tbind_def fun_eq_iff)

lemma tfor_Cons_Inr:
  "tfor (x # xs) f w = (Inr u, w'') \<longleftrightarrow> (\<exists>w'. f x w = (Inr (), w') \<and> tfor xs f w' = (Inr u, w''))"
  by (auto simp: tbind_Inr)

lemma tbind_assoc: "tbind (tbind m f) g = tbind m (\<lambda>a. tbind (f a) g)"
  by (auto simp: tbind_def fun_eq_iff split: prod.splits sum.splits)

text \<open>Running a step and keeping its error as a value, as \<open>if let Ok(x) = step\<close> does.\<close>

definition tattempt :: "('w, 'e, 'a) tx \<Rightarrow> ('w, 'f, 'e + 'a) tx" where
  "tattempt m = (\<lambda>w. case m w of (r, w') \<Rightarrow> (Inr r, w'))"

lemma tattempt_Inr [simp]: "tattempt m w = (Inr r, w') \<longleftrightarrow> m w = (r, w')"
  by (auto simp: tattempt_def split: prod.splits)

lemma tattempt_Inl [simp]: "tattempt m w \<noteq> (Inl e, w')"
  by (auto simp: tattempt_def split: prod.splits)

text \<open>A run that was evaluated: its result and a fact about the world it leaves.\<close>

lemma run_result:
  "(case m of (r, w') \<Rightarrow> r = Inr a \<and> P w') \<Longrightarrow> \<exists>w'. m = (Inr a, w') \<and> P w'"
  by (cases m) auto

section \<open>Frames\<close>

text \<open>
  \<open>keeps f m\<close>: whatever \<open>m\<close> does and however it ends, the projection \<open>f\<close> of the world is what it was.
\<close>

definition keeps :: "('w \<Rightarrow> 'p) \<Rightarrow> ('w, 'e, 'a) tx \<Rightarrow> bool" where
  "keeps f m \<longleftrightarrow> (\<forall>w. f (snd (m w)) = f w)"

named_theorems keeps_intros

lemma keepsD: "keeps f m \<Longrightarrow> m w = (r, w') \<Longrightarrow> f w' = f w"
  unfolding keeps_def by (metis snd_conv)

lemma keepsI: "(\<And>w. f (snd (m w)) = f w) \<Longrightarrow> keeps f m"
  by (simp add: keeps_def)

lemma keeps_tbind [keeps_intros]:
  assumes "keeps f m" and "\<And>a. keeps f (k a)"
  shows "keeps f (tbind m k)"
  using assms by (auto simp: keeps_def tbind_def split: prod.splits sum.splits) (metis snd_conv)+

lemma keeps_basic [keeps_intros]:
  "keeps f (treturn a)" "keeps f (tthrow e)" "keeps f (tlift r)" "keeps f (tget g)"
  by (simp_all add: keeps_def)

lemma keeps_tmap_err [keeps_intros]: "keeps f m \<Longrightarrow> keeps f (tmap_err g m)"
  by (auto simp: keeps_def tmap_err_def split: prod.splits) (metis snd_conv)

lemma keeps_tfor [keeps_intros]: "(\<And>x. x \<in> set xs \<Longrightarrow> keeps f (k x)) \<Longrightarrow> keeps f (tfor xs k)"
  by (induction xs) (auto intro: keeps_intros)

lemma keeps_if [keeps_intros]: "keeps f a \<Longrightarrow> keeps f b \<Longrightarrow> keeps f (if c then a else b)"
  by simp

lemma keeps_option [keeps_intros]:
  "keeps f a \<Longrightarrow> (\<And>x. keeps f (b x)) \<Longrightarrow> keeps f (case v of None \<Rightarrow> a | Some x \<Rightarrow> b x)"
  by (cases v) auto

lemma keeps_sum [keeps_intros]:
  "(\<And>x. keeps f (a x)) \<Longrightarrow> (\<And>x. keeps f (b x)) \<Longrightarrow> keeps f (case v of Inl x \<Rightarrow> a x | Inr x \<Rightarrow> b x)"
  by (cases v) auto

lemma keeps_prod [keeps_intros]:
  "(\<And>x y. keeps f (a x y)) \<Longrightarrow> keeps f (case v of (x, y) \<Rightarrow> a x y)"
  by (cases v) auto

end
