(* ===== verification/Json.thy ===== *)
theory Json
  imports Sandbox_Prelude "HOL-Library.List_Lexorder" "HOL-Library.Char_ord"
begin

text \<open>
  The JSON values the code builds and stores (\<open>serde_json::Value\<close>), and the free-form notes of orders
  and payments (\<open>HashMap<String, String>\<close>). A map is the list of its pairs in the order of their
  keys, which is how \<open>serde_json\<close> keeps an object; two maps are equal when their lists are.
\<close>

datatype json =
    JNull
  | JBool bool
  | JNum int
  | JStr string
  | JArr "json list"
  | JObj "(string \<times> json) list"

type_synonym note_map = "(string \<times> string) list"

text \<open>The \<open>json!\<close> macro on an object: its members in the order of their keys.\<close>

definition jobject :: "(string \<times> json) list \<Rightarrow> json" where
  "jobject kvs = JObj (sort_key fst kvs)"

definition jopt :: "('a \<Rightarrow> json) \<Rightarrow> 'a option \<Rightarrow> json" where
  "jopt f v = (case v of None \<Rightarrow> JNull | Some a \<Rightarrow> f a)"

text \<open>\<open>Value::get\<close>: the member of an object.\<close>

definition jget :: "string \<Rightarrow> json \<Rightarrow> json option" where
  "jget k j = (case j of JObj kvs \<Rightarrow> map_of kvs k | _ \<Rightarrow> None)"

definition jas_str :: "json \<Rightarrow> string option" where
  "jas_str j = (case j of JStr s \<Rightarrow> Some s | _ \<Rightarrow> None)"

definition notes_to_value :: "note_map \<Rightarrow> json" where
  "notes_to_value n = JObj (map (\<lambda>(k, v). (k, JStr v)) n)"

fun notes_pairs :: "(string \<times> json) list \<Rightarrow> note_map option" where
  "notes_pairs [] = Some []"
| "notes_pairs ((k, JStr v) # rest) = map_option (\<lambda>n. (k, v) # n) (notes_pairs rest)"
| "notes_pairs (_ # rest) = None"

text \<open>\<open>serde_json::from_value\<close> at the type of the notes: an object whose members are all strings.\<close>

definition notes_from_value :: "json \<Rightarrow> note_map option" where
  "notes_from_value j = (case j of JObj kvs \<Rightarrow> notes_pairs kvs | _ \<Rightarrow> None)"

lemma notes_pairs_map: "notes_pairs (map (\<lambda>(k, v). (k, JStr v)) n) = Some n"
  by (induction n) auto

lemma notes_roundtrip [simp]: "notes_from_value (notes_to_value n) = Some n"
  by (simp add: notes_from_value_def notes_to_value_def notes_pairs_map)

lemma map_of_insort_key:
  "k \<notin> fst ` set xs \<Longrightarrow> map_of (insort_key fst (k, v) xs) = (map_of xs)(k \<mapsto> v)"
  by (induction xs) (auto simp: fun_eq_iff)

lemma map_of_sort_key: "distinct (map fst xs) \<Longrightarrow> map_of (sort_key fst xs) = map_of xs"
proof (induction xs)
  case (Cons x xs)
  then show ?case by (cases x) (auto simp: map_of_insort_key)
qed simp

lemma jget_jobject: "distinct (map fst kvs) \<Longrightarrow> jget k (jobject kvs) = map_of kvs k"
  by (simp add: jget_def jobject_def map_of_sort_key)

end
