(* ===== verification/External.thy ===== *)
theory External
  imports Decimal Json
begin

text \<open>
  What the code uses of libraries and services that are not part of the repository, as one record
  of parameters that the definitions which depend on it take as an argument: the uuid crate (the
  n-th identifier \<open>Uuid::now_v7\<close> hands out, printing and parsing), the time crate (calendar fields
  and RFC 3339 text), HMAC-SHA256, SHA-256, hexadecimal text and AES-256-GCM (a key, a nonce
  and a text) over bytes, the text \<open>serde_json\<close> prints a value as, and the message texts of \<open>serde_json\<close> (for a
  value that is not a map of strings, or not of a named struct) and of the database (for an error code and a
  constraint), the text sqlx shows for one of its errors, and the database's \<open>lower\<close>.
\<close>

datatype sqlx_error =
    DatabaseError "string option" "string option" string
  | RowNotFound

record ext =
  now_v7 :: "nat \<Rightarrow> uuid"
  uuid_show :: "uuid \<Rightarrow> string"
  uuid_parse :: "string \<Rightarrow> uuid option"
  rfc3339_format :: "instant \<Rightarrow> string option"
  rfc3339_parse :: "string \<Rightarrow> instant option"
  year_of :: "instant \<Rightarrow> int"
  month_of :: "instant \<Rightarrow> nat"
  hmac_sha256 :: "string \<Rightarrow> string \<Rightarrow> string"
  sha256 :: "string \<Rightarrow> string"
  hex_encode :: "string \<Rightarrow> string"
  hex_decode :: "string \<Rightarrow> string option"
  aes_gcm_encrypt :: "string \<Rightarrow> string \<Rightarrow> string \<Rightarrow> string option"
  aes_gcm_decrypt :: "string \<Rightarrow> string \<Rightarrow> string \<Rightarrow> string option"
  json_text :: "json \<Rightarrow> string"
  serde_map_error :: "json \<Rightarrow> string"
  db_message :: "string \<Rightarrow> string \<Rightarrow> string"
  db_lower :: "string \<Rightarrow> string"
  sqlx_display :: "sqlx_error \<Rightarrow> string"
  serde_struct_error :: "string \<Rightarrow> json \<Rightarrow> string"

text \<open>Documented behaviour that some properties take as a hypothesis.\<close>

definition uuid_text_ok :: "ext \<Rightarrow> bool" where
  "uuid_text_ok X \<longleftrightarrow> (\<forall>u. uuid_parse X (uuid_show X u) = Some u)"

definition uuids_unique :: "ext \<Rightarrow> bool" where
  "uuids_unique X \<longleftrightarrow> inj (now_v7 X)"

definition hex_text_ok :: "ext \<Rightarrow> bool" where
  "hex_text_ok X \<longleftrightarrow> (\<forall>m. hex_decode X (hex_encode X m) = Some m \<and> (m \<noteq> [] \<longrightarrow> hex_encode X m \<noteq> []) \<and>
     list_all (\<lambda>c. is_digit c \<or> c \<in> set ''abcdef'') (hex_encode X m))"

definition aes_gcm_ok :: "ext \<Rightarrow> bool" where
  "aes_gcm_ok X \<longleftrightarrow>
     (\<forall>k n m c. aes_gcm_encrypt X k n m = Some c \<longrightarrow> aes_gcm_decrypt X k n c = Some m)"

text \<open>A concrete instance, on which witnesses evaluate.\<close>

definition hex_char :: "nat \<Rightarrow> char" where
  "hex_char d = ''0123456789abcdef'' ! d"

fun hex_val :: "char \<Rightarrow> nat" where
  "hex_val c = (if is_digit c then digit_val c else of_char c - 87)"

fun demo_unhex :: "string \<Rightarrow> string option" where
  "demo_unhex [] = Some []"
| "demo_unhex [c] = None"
| "demo_unhex (c # d # r) = map_option (\<lambda>m. char_of (16 * hex_val c + hex_val d) # m) (demo_unhex r)"

definition demo_ext :: ext where
  "demo_ext = \<lparr>
     now_v7 = (\<lambda>n. n + 1000),
     uuid_show = show_nat,
     uuid_parse = (\<lambda>s. if s \<noteq> [] \<and> list_all is_digit s then Some (digits_val s) else None),
     rfc3339_format = (\<lambda>t. Some (show_int t)),
     rfc3339_parse = (\<lambda>s. if s \<noteq> [] \<and> list_all is_digit s then Some (int (digits_val s)) else None),
     year_of = (\<lambda>t. 1970 + t div (31556952 * 1000000000)),
     month_of = (\<lambda>t. nat (t div (2629746 * 1000000000) mod 12) + 1),
     hmac_sha256 = (\<lambda>k m. rev (take 32 (rev (k @ m)))),
     sha256 = (\<lambda>m. take 32 m),
     hex_encode = (\<lambda>m. concat (map (\<lambda>c. [hex_char (of_char c div 16), hex_char (of_char c mod 16)]) m)),
     hex_decode = demo_unhex,
     aes_gcm_encrypt = (\<lambda>k n m. Some (k @ n @ m)),
     aes_gcm_decrypt = (\<lambda>k n c. if take (length (k @ n)) c = k @ n then Some (drop (length (k @ n)) c) else None),
     json_text = (\<lambda>_. ''{}''),
     serde_map_error = (\<lambda>_. ''invalid type, expected a map''),
     db_message = (\<lambda>code constraint. code @ '' '' @ constraint),
     db_lower = (\<lambda>s. s),
     sqlx_display = (\<lambda>e. case e of DatabaseError _ _ m \<Rightarrow> m | RowNotFound \<Rightarrow> ''no rows''),
     serde_struct_error = (\<lambda>name _. ''invalid '' @ name)\<rparr>"

lemma demo_uuid_text_ok: "uuid_text_ok demo_ext"
  by (simp add: uuid_text_ok_def demo_ext_def show_nat_nonempty show_nat_digits)

lemma demo_uuids_unique: "uuids_unique demo_ext"
  by (simp add: uuids_unique_def demo_ext_def inj_def)

lemma hex_digit_cases:
  assumes "d < (16::nat)"
  shows "d = 0 \<or> d = 1 \<or> d = 2 \<or> d = 3 \<or> d = 4 \<or> d = 5 \<or> d = 6 \<or> d = 7 \<or> d = 8 \<or> d = 9 \<or>
    d = 10 \<or> d = 11 \<or> d = 12 \<or> d = 13 \<or> d = 14 \<or> d = 15"
  using assms by arith

lemma hex_val_char: "d < 16 \<Longrightarrow> hex_val (hex_char d) = d"
  by (drule hex_digit_cases) (auto simp: hex_char_def is_digit_def digit_val_def)

lemma hex_char_hex: "d < 16 \<Longrightarrow> is_digit (hex_char d) \<or> hex_char d \<in> set ''abcdef''"
  by (drule hex_digit_cases) (auto simp: hex_char_def is_digit_def)

lemma of_char_lt: "(of_char c :: nat) < 256"
  using of_char_of [of "of_char c :: nat"] by (metis mod_less_divisor char_of_def of_char_mod_256 zero_less_numeral)

lemma demo_hex_text_ok: "hex_text_ok demo_ext"
proof -
  have a: "of_char c div 16 < (16::nat)" for c :: char
    using of_char_lt [of c] by (intro less_mult_imp_div_less) simp
  have b: "16 * (of_char c div 16) + of_char c mod 16 = (of_char c :: nat)" for c :: char by simp
  have "demo_unhex (concat (map (\<lambda>c. [hex_char (of_char c div 16), hex_char (of_char c mod 16)]) m)) = Some m" for m
    by (induction m) (simp_all add: hex_val_char a b del: hex_val.simps)
  moreover have "list_all (\<lambda>c. is_digit c \<or> c \<in> set ''abcdef'')
      (concat (map (\<lambda>c. [hex_char (of_char c div 16), hex_char (of_char c mod 16)]) m))" for m
  proof (induction m)
    case (Cons c m)
    then show ?case using hex_char_hex [OF a, of c] hex_char_hex [of "of_char c mod 16"] by auto
  qed simp
  ultimately show ?thesis by (simp add: hex_text_ok_def demo_ext_def)
qed

lemma demo_aes_gcm_ok: "aes_gcm_ok demo_ext"
  by (simp add: aes_gcm_ok_def demo_ext_def)

section \<open>String operations of the standard library\<close>

definition strip_prefix :: "string \<Rightarrow> string \<Rightarrow> string option" where
  "strip_prefix p s = (if take (length p) s = p then Some (drop (length p) s) else None)"

text \<open>\<open>split_once\<close> at the first occurrence of a character.\<close>

fun split_once :: "char \<Rightarrow> string \<Rightarrow> (string \<times> string) option" where
  "split_once c [] = None"
| "split_once c (x # xs) =
     (if x = c then Some ([], xs) else map_option (\<lambda>(a, b). (x # a, b)) (split_once c xs))"

text \<open>\<open>split(c)\<close>: the pieces between the occurrences of a character, at least one.\<close>

fun split_on :: "char \<Rightarrow> string \<Rightarrow> string list" where
  "split_on c [] = [[]]"
| "split_on c (x # xs) =
     (if x = c then [] # split_on c xs
      else case split_on c xs of [] \<Rightarrow> [[x]] | p # ps \<Rightarrow> (x # p) # ps)"

lemma strip_prefix_append [simp]: "strip_prefix p (p @ s) = Some s"
  by (simp add: strip_prefix_def)

lemma strip_prefix_Some: "strip_prefix p s = Some r \<longleftrightarrow> s = p @ r"
proof
  assume "strip_prefix p s = Some r"
  then have "take (length p) s = p" "drop (length p) s = r"
    by (auto simp: strip_prefix_def split: if_splits)
  then show "s = p @ r" by (metis append_take_drop_id)
qed simp

lemma split_once_Some: "split_once c s = Some (a, b) \<longleftrightarrow> s = a @ c # b \<and> c \<notin> set a"
proof (induction s arbitrary: a)
  case (Cons x xs)
  show ?case
  proof (cases a)
    case Nil
    then show ?thesis by auto
  next
    case (Cons y ys)
    then show ?thesis using Cons.IH [of ys] by auto
  qed
qed simp

lemma split_once_None: "split_once c s = None \<longleftrightarrow> c \<notin> set s"
  by (induction s) auto

lemma split_on_no_sep: "c \<notin> set s \<Longrightarrow> split_on c s = [s]"
  by (induction s) auto

lemma split_on_sep: "c \<notin> set a \<Longrightarrow> split_on c (a @ c # b) = a # split_on c b"
  by (induction a) auto

text \<open>
  \<open>trim\<close> removes the characters with the Unicode property \<open>White_Space\<close> at both ends; they are given
  by their UTF-8 bytes.
\<close>

definition white_chars :: "nat list list" where
  "white_chars = [[9], [10], [11], [12], [13], [32], [194, 133], [194, 160], [225, 154, 128],
     [226, 128, 128], [226, 128, 129], [226, 128, 130], [226, 128, 131], [226, 128, 132],
     [226, 128, 133], [226, 128, 134], [226, 128, 135], [226, 128, 136], [226, 128, 137],
     [226, 128, 138], [226, 128, 168], [226, 128, 169], [226, 128, 175], [226, 129, 159],
     [227, 128, 128]]"

function drop_white :: "nat list list \<Rightarrow> string \<Rightarrow> string" where
  "drop_white ws s =
     (case find (\<lambda>w. w \<noteq> [] \<and> map of_char (take (length w) s) = w) ws of
        None \<Rightarrow> s | Some w \<Rightarrow> drop_white ws (drop (length w) s))"
  by auto
termination
proof (relation "measure (length \<circ> snd)")
  fix ws s w
  assume "find (\<lambda>w. w \<noteq> [] \<and> map of_char (take (length w) s) = w) ws = Some w"
  then have "w \<noteq> []" "s \<noteq> []" by (auto simp: find_Some_iff)
  then show "((ws, drop (length w) s), ws, s) \<in> measure (length \<circ> snd)" by simp
qed simp

declare drop_white.simps [simp del]

definition trim :: "string \<Rightarrow> string" where
  "trim s = rev (drop_white (map rev white_chars) (rev (drop_white white_chars s)))"

definition ascii_visible :: "char \<Rightarrow> bool" where
  "ascii_visible c \<longleftrightarrow> 33 \<le> (of_char c :: nat) \<and> (of_char c :: nat) < 128"

lemma drop_white_visible:
  assumes "ascii_visible c"
  shows "drop_white white_chars (c # s) = c # s" "drop_white (map rev white_chars) (c # s) = c # s"
  using assms
  by (auto simp: drop_white.simps [of _ "c # s"] find_None_iff white_chars_def ascii_visible_def
      split: option.splits)

lemma trim_visible:
  assumes "ascii_visible c" and "ascii_visible d"
  shows "trim (c # s @ [d]) = c # s @ [d]"
  using drop_white_visible [OF assms(1), of "s @ [d]"] drop_white_visible [OF assms(2), of "rev s @ [c]"]
  by (simp add: trim_def)

text \<open>\<open>i64::from_str\<close>: an optional sign and at least one digit, in range.\<close>

definition parse_i64 :: "string \<Rightarrow> int option" where
  "parse_i64 s =
     (let (neg, t) = (case s of [] \<Rightarrow> (False, [])
        | c # r \<Rightarrow> if c = CHR ''-'' then (True, r) else if c = CHR ''+'' then (False, r) else (False, s))
      in if t \<noteq> [] \<and> list_all is_digit t
         then checked_i64 (if neg then - int (digits_val t) else int (digits_val t)) else None)"

lemma digit_not_sign: "is_digit c \<Longrightarrow> c \<noteq> CHR ''-'' \<and> c \<noteq> CHR ''+'' \<and> c \<noteq> CHR '','' \<and> ascii_visible c"
  by (auto simp: is_digit_def ascii_visible_def)

lemma parse_i64_show [simp]: "in_i64 i \<Longrightarrow> parse_i64 (show_int i) = Some i"
proof (cases "i < 0")
  case True
  then show "in_i64 i \<Longrightarrow> parse_i64 (show_int i) = Some i"
    by (simp add: parse_i64_def show_int_def show_nat_nonempty show_nat_digits)
next
  case False
  obtain c r where s: "show_nat (nat i) = c # r" by (cases "show_nat (nat i)") (simp_all add: show_nat_nonempty)
  have d: "list_all is_digit (c # r)" using show_nat_digits [of "nat i"] s by simp
  have "digits_val (c # r) = nat i" using digits_val_show_nat [of "nat i"] s by simp
  with False d show "in_i64 i \<Longrightarrow> parse_i64 (show_int i) = Some i"
    using digit_not_sign [of c] by (simp add: parse_i64_def show_int_def s)
qed

lemma show_int_plain: "\<exists>s d. show_int i = s @ [d] \<and> ascii_visible d \<and> CHR '','' \<notin> set (show_int i)"
proof -
  have "\<exists>s d. show_nat n = s @ [d] \<and> ascii_visible d \<and> CHR '','' \<notin> set (show_nat n)" for n
    using show_nat_nonempty [of n] show_nat_digits [of n]
    by (cases "show_nat n" rule: rev_cases) (auto simp: list_all_iff dest: digit_not_sign)
  then show ?thesis unfolding show_int_def by (auto simp: ) (metis append_Cons)
qed

end
