(* ===== verification/Ids.thy ===== *)
theory Ids
  imports External
begin

text \<open>
  \<open>crates/domain/src/id.rs\<close>: prefixed identifiers. An \<open>Id<T>\<close> is a UUID; the marker type \<open>T\<close> only
  fixes the prefix of its text, so the model passes the marker as a value where text is made or read.
\<close>

datatype marker =
    PaymentIntentMarker | PaymentMethodMarker | CustomerMarker | RefundMarker | DisputeMarker
  | MerchantMarker | ApiKeyMarker | EventMarker | WebhookEndpointMarker | SettlementMarker
  | LedgerTransactionMarker | JobMarker | OrderMarker | PaymentMarker | LedgerAccountMarker

fun marker_prefix :: "marker \<Rightarrow> string" where
  "marker_prefix PaymentIntentMarker = ''pi''"
| "marker_prefix PaymentMethodMarker = ''pm''"
| "marker_prefix CustomerMarker = ''cus''"
| "marker_prefix RefundMarker = ''re''"
| "marker_prefix DisputeMarker = ''dp''"
| "marker_prefix MerchantMarker = ''mer''"
| "marker_prefix ApiKeyMarker = ''key''"
| "marker_prefix EventMarker = ''evt''"
| "marker_prefix WebhookEndpointMarker = ''we''"
| "marker_prefix SettlementMarker = ''set''"
| "marker_prefix LedgerTransactionMarker = ''ltx''"
| "marker_prefix JobMarker = ''job''"
| "marker_prefix OrderMarker = ''order''"
| "marker_prefix PaymentMarker = ''pay''"
| "marker_prefix LedgerAccountMarker = ''acct''"

datatype id_parse_error = WrongPrefix string string | InvalidUuid

definition id_to_string :: "ext \<Rightarrow> marker \<Rightarrow> uuid \<Rightarrow> string" where
  "id_to_string X k u = marker_prefix k @ ''_'' @ uuid_show X u"

definition id_from_str :: "ext \<Rightarrow> marker \<Rightarrow> string \<Rightarrow> id_parse_error + uuid" where
  "id_from_str X k s =
     (case Option.bind (strip_prefix (marker_prefix k) s) (strip_prefix ''_'') of
        None \<Rightarrow> Inl (WrongPrefix (marker_prefix k) s)
      | Some rest \<Rightarrow>
          (case uuid_parse X rest of None \<Rightarrow> Inl InvalidUuid | Some u \<Rightarrow> Inr u))"

lemma id_rest_iff:
  "Option.bind (strip_prefix p s) (strip_prefix ''_'') = Some r \<longleftrightarrow> s = p @ ''_'' @ r"
  by (auto simp: bind_eq_Some_conv strip_prefix_Some)

lemma marker_prefix_no_underscore: "CHR ''_'' \<notin> set (marker_prefix k)"
  by (cases k) simp_all

lemma marker_prefix_inj: "marker_prefix k = marker_prefix l \<Longrightarrow> k = l"
  by (cases k; cases l) simp_all

lemma id_from_own_text:
  assumes "uuid_text_ok X"
  shows "id_from_str X k (id_to_string X k u) = Inr u"
proof -
  have "Option.bind (strip_prefix (marker_prefix k) (id_to_string X k u)) (strip_prefix ''_'') = Some (uuid_show X u)"
    by (simp only: id_rest_iff id_to_string_def)
  with assms show ?thesis by (simp add: id_from_str_def uuid_text_ok_def)
qed

text \<open>
  Printing an identifier and parsing it back as the same kind gives the identifier; parsing it
  as any other kind is refused as a wrong prefix, so an id of one resource is never accepted as an
  id of another.
\<close>
theorem id_text_roundtrip:
  assumes "uuid_text_ok X"
  shows "id_from_str X k (id_to_string X l u) =
    (if k = l then Inr u else Inl (WrongPrefix (marker_prefix k) (id_to_string X l u)))"
proof (cases "k = l")
  case True
  have "Option.bind (strip_prefix (marker_prefix k) (id_to_string X l u)) (strip_prefix ''_'')
      = Some (uuid_show X u)"
    using True by (simp only: id_rest_iff id_to_string_def)
  with True assms show ?thesis by (simp add: id_from_str_def uuid_text_ok_def)
next
  case False
  have "Option.bind (strip_prefix (marker_prefix k) (id_to_string X l u)) (strip_prefix ''_'') \<noteq> Some r" for r
  proof
    assume "Option.bind (strip_prefix (marker_prefix k) (id_to_string X l u)) (strip_prefix ''_'') = Some r"
    then have "marker_prefix l @ CHR ''_'' # uuid_show X u = marker_prefix k @ CHR ''_'' # r"
      by (simp add: id_rest_iff id_to_string_def)
    then have "split_once CHR ''_'' (marker_prefix l @ CHR ''_'' # uuid_show X u) = Some (marker_prefix k, r)"
      by (simp add: split_once_Some marker_prefix_no_underscore)
    moreover have "split_once CHR ''_'' (marker_prefix l @ CHR ''_'' # uuid_show X u)
        = Some (marker_prefix l, uuid_show X u)"
      by (simp add: split_once_Some marker_prefix_no_underscore)
    ultimately show False using False marker_prefix_inj by fastforce
  qed
  then show ?thesis using False by (simp add: id_from_str_def split: option.splits)
qed

theorem id_text_roundtrip_witness:
  "uuid_text_ok demo_ext \<and>
   id_from_str demo_ext OrderMarker (id_to_string demo_ext OrderMarker 42) = Inr 42 \<and>
   id_from_str demo_ext PaymentMarker (id_to_string demo_ext OrderMarker 42)
     = Inl (WrongPrefix ''pay'' (id_to_string demo_ext OrderMarker 42))"
  using id_text_roundtrip [OF demo_uuid_text_ok, of OrderMarker OrderMarker 42]
    id_text_roundtrip [OF demo_uuid_text_ok, of PaymentMarker OrderMarker 42]
  by (simp add: demo_uuid_text_ok)

end
