(* ===== verification/Money.thy ===== *)
theory Money
  imports Decimal
begin

text \<open>
  \<open>crates/domain/src/money.rs\<close>: currencies, amounts in minor units, and checked arithmetic on them.
\<close>

section \<open>Currencies\<close>

datatype currency = INR | USD | EUR | JPY | KWD

fun exponent :: "currency \<Rightarrow> nat" where
  "exponent INR = 2"
| "exponent USD = 2"
| "exponent EUR = 2"
| "exponent JPY = 0"
| "exponent KWD = 3"

fun code :: "currency \<Rightarrow> string" where
  "code INR = ''INR''"
| "code USD = ''USD''"
| "code EUR = ''EUR''"
| "code JPY = ''JPY''"
| "code KWD = ''KWD''"

datatype money_error =
    CurrencyMismatch currency currency
  | MoneyOverflow
  | Negative int
  | UnknownCurrency string

definition currency_from_str :: "string \<Rightarrow> money_error + currency" where
  "currency_from_str s =
     (if s = ''INR'' then Inr INR
      else if s = ''USD'' then Inr USD
      else if s = ''EUR'' then Inr EUR
      else if s = ''JPY'' then Inr JPY
      else if s = ''KWD'' then Inr KWD
      else Inl (UnknownCurrency s))"

section \<open>Amounts\<close>

record money =
  minor :: int
  curr :: currency

definition money_new :: "int \<Rightarrow> currency \<Rightarrow> money" where
  "money_new m c = \<lparr>minor = m, curr = c\<rparr>"

definition new_non_negative :: "int \<Rightarrow> currency \<Rightarrow> money_error + money" where
  "new_non_negative m c = (if m < 0 then Inl (Negative m) else Inr \<lparr>minor = m, curr = c\<rparr>)"

definition money_zero :: "currency \<Rightarrow> money" where
  "money_zero c = \<lparr>minor = 0, curr = c\<rparr>"

definition is_zero :: "money \<Rightarrow> bool" where
  "is_zero m \<longleftrightarrow> minor m = 0"

definition is_negative :: "money \<Rightarrow> bool" where
  "is_negative m \<longleftrightarrow> minor m < 0"

definition is_positive :: "money \<Rightarrow> bool" where
  "is_positive m \<longleftrightarrow> minor m > 0"

definition check_same_currency :: "money \<Rightarrow> money \<Rightarrow> money_error + unit" where
  "check_same_currency a b =
     (if curr a \<noteq> curr b then Inl (CurrencyMismatch (curr a) (curr b)) else Inr ())"

definition money_add :: "money \<Rightarrow> money \<Rightarrow> money_error + money" where
  "money_add a b =
     rbind (check_same_currency a b) (\<lambda>_.
     rbind (ok_or (checked_i64 (minor a + minor b)) MoneyOverflow) (\<lambda>m.
     Inr \<lparr>minor = m, curr = curr a\<rparr>))"

definition money_sub :: "money \<Rightarrow> money \<Rightarrow> money_error + money" where
  "money_sub a b =
     rbind (check_same_currency a b) (\<lambda>_.
     rbind (ok_or (checked_i64 (minor a - minor b)) MoneyOverflow) (\<lambda>m.
     Inr \<lparr>minor = m, curr = curr a\<rparr>))"

text \<open>
  The rounded quotient of \<open>percent\<close>. The source computes it in \<open>i128\<close> with a division that
  truncates; \<open>percent_fits_i128\<close> shows that no intermediate value leaves that type.
\<close>

definition rounded_quotient :: "int \<Rightarrow> int \<Rightarrow> int" where
  "rounded_quotient numer denom =
     (if numer \<ge> 0 then (numer + denom sdiv 2) sdiv denom else (numer - denom sdiv 2) sdiv denom)"

definition percent :: "money \<Rightarrow> int \<Rightarrow> int \<Rightarrow> money_error + money" where
  "percent m numerator denominator =
     (if denominator = 0 then Inl MoneyOverflow
      else rbind (ok_or (checked_i64 (rounded_quotient (minor m * numerator) denominator)) MoneyOverflow)
             (\<lambda>r. Inr \<lparr>minor = r, curr = curr m\<rparr>))"

definition money_negate :: "money \<Rightarrow> money_error + money" where
  "money_negate m =
     rbind (ok_or (checked_i64 (- minor m)) MoneyOverflow) (\<lambda>r. Inr \<lparr>minor = r, curr = curr m\<rparr>)"

definition money_format :: "money \<Rightarrow> string" where
  "money_format m =
     (let exp = exponent (curr m) in
      if exp = 0 then show_int (minor m) @ '' '' @ code (curr m)
      else
        let divisor = 10 ^ exp;
            major = minor m sdiv divisor;
            frac = \<bar>minor m smod divisor\<bar>;
            sign = (if minor m < 0 \<and> major = 0 then ''-'' else '''')
        in sign @ show_int major @ ''.'' @ pad_zeros exp (show_int frac) @ '' '' @ code (curr m))"

definition valid_money :: "money \<Rightarrow> bool" where
  "valid_money m \<longleftrightarrow> in_i64 (minor m)"

lemma currency_roundtrip [simp]: "currency_from_str (code c) = Inr c"
  by (cases c) (simp_all add: currency_from_str_def)

lemma currency_from_str_Inr: "currency_from_str s = Inr c \<longleftrightarrow> s = code c"
  by (cases c) (auto simp: currency_from_str_def)

interpretation currency_codec: string_codec code "\<lambda>s. res_ok (currency_from_str s)"
  by unfold_locales (auto simp: currency_from_str_Inr)

lemmas code_inj = currency_codec.enc_eq_iff

lemma money_new_sel [simp]: "minor (money_new m c) = m" "curr (money_new m c) = c"
  by (simp_all add: money_new_def)

lemma money_eqI: "minor a = minor b \<Longrightarrow> curr a = curr b \<Longrightarrow> a = (b :: money)"
  by simp

lemma new_non_negative_Inr: "new_non_negative m c = Inr a \<longleftrightarrow> 0 \<le> m \<and> a = money_new m c"
  by (auto simp: new_non_negative_def money_new_def)

lemma money_negate_Inr:
  "money_negate m = Inr r \<longleftrightarrow> in_i64 (- minor m) \<and> r = money_new (- minor m) (curr m)"
  by (auto simp: money_negate_def rbind_Inr money_new_def)

lemma check_same_currency_Inr [simp]: "check_same_currency a b = Inr u \<longleftrightarrow> curr a = curr b"
  by (simp add: check_same_currency_def)

lemma percent_Inr:
  "percent m n d = Inr r \<longleftrightarrow>
     d \<noteq> 0 \<and> in_i64 (rounded_quotient (minor m * n) d) \<and>
     r = money_new (rounded_quotient (minor m * n) d) (curr m)"
  by (auto simp: percent_def rbind_Inr money_new_def)

section \<open>The rounded quotient\<close>

lemma sdiv_nonneg: "0 \<le> (a::int) \<Longrightarrow> 0 < b \<Longrightarrow> a sdiv b = a div b"
  by (auto simp: signed_divide_int_def sgn_if)

lemma sdiv_neg: "(a::int) < 0 \<Longrightarrow> 0 < b \<Longrightarrow> a sdiv b = - ((- a) div b)"
  by (simp add: signed_divide_int_def sgn_if)

lemma rounded_quotient_nonneg_eq:
  "0 \<le> n \<Longrightarrow> 0 < d \<Longrightarrow> rounded_quotient n d = (n + d div 2) div d"
  by (simp add: rounded_quotient_def sdiv_nonneg)

lemma rounded_quotient_neg_eq:
  assumes "n < 0" and "0 < d"
  shows "rounded_quotient n d = - ((- n + d div 2) div d)"
proof -
  have "n - d div 2 < 0" using assms by (simp add: pos_imp_zdiv_nonneg_iff order_less_le_trans)
  with assms show ?thesis by (simp add: rounded_quotient_def sdiv_nonneg sdiv_neg algebra_simps)
qed

lemma rounded_quotient_uminus:
  assumes "0 < d"
  shows "rounded_quotient (- n) d = - rounded_quotient n d"
proof (cases n "0::int" rule: linorder_cases)
  case less
  with assms show ?thesis
    by (simp add: rounded_quotient_neg_eq rounded_quotient_nonneg_eq)
next
  case equal
  with assms show ?thesis by (simp add: rounded_quotient_nonneg_eq)
next
  case greater
  with assms show ?thesis
    by (simp add: rounded_quotient_neg_eq rounded_quotient_nonneg_eq)
qed

lemma nearest_quotient_aux:
  fixes k e p r d :: int
  assumes "k + e = p + r" and "0 \<le> r" and "r < d" and "d - 1 \<le> 2 * e" and "2 * e \<le> d"
  shows "2 * \<bar>p - k\<bar> \<le> d"
proof (cases "0 \<le> p - k")
  case True
  with assms show ?thesis by simp
next
  case False
  then have *: "\<bar>p - k\<bar> = k - p" by simp
  have "2 * (k - p) \<le> d" using assms by arith
  then show ?thesis by (simp only: *)
qed

lemma rounded_quotient_nearest:
  assumes "0 < d"
  shows "2 * \<bar>rounded_quotient n d * d - n\<bar> \<le> d"
proof -
  have *: "2 * \<bar>(k + d div 2) div d * d - k\<bar> \<le> d" if "0 \<le> k" for k
  proof -
    define q where "q = (k + d div 2) div d"
    have "k + d div 2 = q * d + (k + d div 2) mod d"
      unfolding q_def by (metis div_mult_mod_eq)
    moreover have "0 \<le> (k + d div 2) mod d" "(k + d div 2) mod d < d"
      using assms by simp_all
    moreover have "d - 1 \<le> 2 * (d div 2)" "2 * (d div 2) \<le> d" by presburger+
    ultimately show ?thesis unfolding q_def [symmetric] by (rule nearest_quotient_aux)
  qed
  show ?thesis
  proof (cases "0 \<le> n")
    case True
    with * [of n] assms show ?thesis by (simp add: rounded_quotient_nonneg_eq)
  next
    case False
    then have "n < 0" by simp
    have "2 * \<bar>(- n + d div 2) div d * d - (- n)\<bar> \<le> d" using False by (intro *) simp
    moreover have "\<bar>(- n + d div 2) div d * d - (- n)\<bar> = \<bar>rounded_quotient n d * d - n\<bar>"
      unfolding rounded_quotient_neg_eq [OF \<open>n < 0\<close> assms] by (simp add: abs_if algebra_simps)
    ultimately show ?thesis by simp
  qed
qed

lemma rounded_quotient_mono:
  assumes "0 \<le> a" and "a \<le> b" and "0 < d"
  shows "rounded_quotient a d \<le> rounded_quotient b d"
  using assms by (simp add: rounded_quotient_nonneg_eq zdiv_mono1)

lemma rounded_quotient_nonneg: "0 \<le> a \<Longrightarrow> 0 < d \<Longrightarrow> 0 \<le> rounded_quotient a d"
  by (simp add: rounded_quotient_nonneg_eq pos_imp_zdiv_nonneg_iff)

lemma rounded_quotient_mult: "0 \<le> a \<Longrightarrow> 0 < d \<Longrightarrow> rounded_quotient (a * d) d = a"
  by (simp add: rounded_quotient_nonneg_eq)

lemma rounded_quotient_zero [simp]: "0 < d \<Longrightarrow> rounded_quotient 0 d = 0"
  using rounded_quotient_mult [of 0 d] by simp

lemma rounded_quotient_le:
  assumes "0 \<le> a" and "a \<le> c * d" and "0 \<le> c" and "0 < d"
  shows "rounded_quotient a d \<le> c"
proof -
  have "rounded_quotient a d \<le> rounded_quotient (c * d) d"
    using assms by (intro rounded_quotient_mono) simp_all
  with assms show ?thesis by (simp add: rounded_quotient_mult)
qed

section \<open>The width of the intermediate values\<close>

lemma in_i64_abs: "in_i64 a \<Longrightarrow> \<bar>a\<bar> \<le> 2 ^ 63"
  by (auto simp: in_i64_iff abs_if)

lemma percent_fits_i128:
  assumes "in_i64 a" and "in_i64 n" and "in_i64 d"
  shows "\<bar>a * n\<bar> + \<bar>d\<bar> < 2 ^ 127"
proof -
  have "\<bar>a * n\<bar> \<le> 2 ^ 63 * 2 ^ 63"
    unfolding abs_mult using in_i64_abs [OF assms(1)] in_i64_abs [OF assms(2)] by (intro mult_mono) simp_all
  then show ?thesis using in_i64_abs [OF assms(3)] by simp
qed

text \<open>
  \<open>percent\<close> on values of the machine's width: no intermediate value leaves \<open>i128\<close>; with a positive
  denominator the result is within half a unit of the exact quotient and odd in the amount, and it is
  returned exactly when it fits \<open>i64\<close>, as an overflow otherwise.
\<close>
theorem percent_rounds_to_nearest:
  assumes "in_i64 (minor m)" and "in_i64 n" and "in_i64 d" and "0 < d"
  shows "\<bar>minor m * n\<bar> + \<bar>d\<bar> < 2 ^ 127 \<and>
    2 * \<bar>rounded_quotient (minor m * n) d * d - minor m * n\<bar> \<le> d \<and>
    rounded_quotient (- (minor m * n)) d = - rounded_quotient (minor m * n) d \<and>
    percent m n d =
      (if in_i64 (rounded_quotient (minor m * n) d)
       then Inr (money_new (rounded_quotient (minor m * n) d) (curr m)) else Inl MoneyOverflow)"
  using percent_fits_i128 [OF assms(1-3)] rounded_quotient_nearest [OF assms(4)]
    rounded_quotient_uminus [OF assms(4)] assms(4)
  by (simp add: percent_def checked_i64_def money_new_def)

theorem percent_rounds_to_nearest_witness:
  "percent (money_new 150 INR) 1 100 = Inr (money_new 2 INR) \<and>
   percent (money_new (- 150) INR) 1 100 = Inr (money_new (- 2) INR) \<and>
   percent (money_new 149 INR) 1 100 = Inr (money_new 1 INR)"
proof -
  have "rounded_quotient 150 100 = 2" "rounded_quotient (- 150) 100 = - 2" "rounded_quotient 149 100 = 1"
    by (simp_all add: rounded_quotient_nonneg_eq rounded_quotient_neg_eq)
  then show ?thesis
    using percent_rounds_to_nearest [of "money_new 150 INR" 1 100]
      percent_rounds_to_nearest [of "money_new (- 150) INR" 1 100]
      percent_rounds_to_nearest [of "money_new 149 INR" 1 100]
    by (simp add: in_i64_iff)
qed

text \<open>
  Addition and subtraction are exact or refused: on amounts of one currency the result is the
  integer sum or difference exactly when that fits \<open>i64\<close>, amounts of two currencies never combine, and
  subtracting what was added gives the amount back.
\<close>
theorem add_sub_exact:
  "money_add a b =
     (if curr a \<noteq> curr b then Inl (CurrencyMismatch (curr a) (curr b))
      else if in_i64 (minor a + minor b) then Inr (money_new (minor a + minor b) (curr a))
      else Inl MoneyOverflow) \<and>
   money_sub a b =
     (if curr a \<noteq> curr b then Inl (CurrencyMismatch (curr a) (curr b))
      else if in_i64 (minor a - minor b) then Inr (money_new (minor a - minor b) (curr a))
      else Inl MoneyOverflow) \<and>
   (money_add a b = Inr c \<and> valid_money a \<longrightarrow> money_sub c b = Inr a)"
  by (auto simp: money_add_def money_sub_def check_same_currency_def checked_i64_def money_new_def
      valid_money_def)

theorem add_sub_exact_witness:
  "money_add (money_new 9223372036854775807 USD) (money_new 1 USD) = Inl MoneyOverflow \<and>
   money_sub (money_new 7 USD) (money_new 2 USD) = Inr (money_new 5 USD)"
  using add_sub_exact [of "money_new 9223372036854775807 USD" "money_new 1 USD"]
    add_sub_exact [of "money_new 5 USD" "money_new 2 USD" "money_new 7 USD"]
  by (simp add: in_i64_iff valid_money_def)

end
