(* ===== verification/Status.thy ===== *)
theory Status
  imports Sandbox_Prelude
begin

text \<open>
  \<open>crates/domain/src/order_status.rs\<close> and \<open>payment_status.rs\<close>: the two status machines. Both are a
  table of legal transitions behind a checked \<open>transition\<close>; the locale \<open>status_machine\<close> states that
  contract once, with a rank that every proper transition raises, and proves what follows from it.
\<close>

section \<open>The contract of a status machine\<close>

locale status_machine =
  fixes can :: "'s \<Rightarrow> 's \<Rightarrow> bool"
    and trans :: "'s \<Rightarrow> 's \<Rightarrow> 'e + 's"
    and refuse :: "'s \<Rightarrow> 's \<Rightarrow> 'e"
    and every :: "'s list"
    and rank :: "'s \<Rightarrow> nat"
  assumes trans_ok: "can s t \<Longrightarrow> trans s t = Inr t"
    and trans_refused: "\<not> can s t \<Longrightarrow> trans s t = Inl (refuse s t)"
    and every_complete: "s \<in> set every"
    and rank_grows: "can s t \<Longrightarrow> s \<noteq> t \<Longrightarrow> rank s < rank t"
begin

lemma trans_Inr_iff: "trans s t = Inr u \<longleftrightarrow> can s t \<and> u = t"
  using trans_ok trans_refused by (metis Inl_Inr_False sum.inject(2))

lemma reachable_rank: "can\<^sup>*\<^sup>* s t \<Longrightarrow> s = t \<or> rank s < rank t"
proof (induction rule: rtranclp_induct)
  case (step t u)
  then show ?case using rank_grows [of t u] by (cases "t = u") auto
qed simp

lemma no_way_back: "can\<^sup>*\<^sup>* s t \<Longrightarrow> can\<^sup>*\<^sup>* t s \<Longrightarrow> s = t"
  using reachable_rank [of s t] reachable_rank [of t s] by auto

lemma stuck_forever:
  assumes "can\<^sup>*\<^sup>* s t" and "\<And>u. can s u \<Longrightarrow> u = s"
  shows "t = s"
  using assms(1) by (induction rule: rtranclp_induct) (auto dest: assms(2))

end

section \<open>Orders\<close>

datatype order_status = Order_Created | Order_Attempted | Order_Paid | Order_Expired

datatype invalid_order_transition = InvalidOrderTransition order_status order_status

fun order_can_transition_to :: "order_status \<Rightarrow> order_status \<Rightarrow> bool" where
  "order_can_transition_to Order_Created Order_Attempted = True"
| "order_can_transition_to Order_Created Order_Expired = True"
| "order_can_transition_to Order_Attempted Order_Attempted = True"
| "order_can_transition_to Order_Attempted Order_Paid = True"
| "order_can_transition_to Order_Attempted Order_Expired = True"
| "order_can_transition_to _ _ = False"

definition order_transition ::
  "order_status \<Rightarrow> order_status \<Rightarrow> invalid_order_transition + order_status" where
  "order_transition s t =
     (if order_can_transition_to s t then Inr t else Inl (InvalidOrderTransition s t))"

fun order_is_terminal :: "order_status \<Rightarrow> bool" where
  "order_is_terminal Order_Paid = True"
| "order_is_terminal Order_Expired = True"
| "order_is_terminal _ = False"

definition order_status_all :: "order_status list" where
  "order_status_all = [Order_Created, Order_Attempted, Order_Paid, Order_Expired]"

fun order_status_str :: "order_status \<Rightarrow> string" where
  "order_status_str Order_Created = ''created''"
| "order_status_str Order_Attempted = ''attempted''"
| "order_status_str Order_Paid = ''paid''"
| "order_status_str Order_Expired = ''expired''"

fun order_rank :: "order_status \<Rightarrow> nat" where
  "order_rank Order_Created = 0"
| "order_rank Order_Attempted = 1"
| "order_rank Order_Paid = 2"
| "order_rank Order_Expired = 2"

interpretation order_machine: status_machine
  order_can_transition_to order_transition InvalidOrderTransition order_status_all order_rank
proof
  fix s t :: order_status
  show "order_can_transition_to s t \<Longrightarrow> order_transition s t = Inr t"
    by (simp add: order_transition_def)
  show "\<not> order_can_transition_to s t \<Longrightarrow> order_transition s t = Inl (InvalidOrderTransition s t)"
    by (simp add: order_transition_def)
  show "s \<in> set order_status_all"
    by (cases s) (simp_all add: order_status_all_def)
  show "order_can_transition_to s t \<Longrightarrow> s \<noteq> t \<Longrightarrow> order_rank s < order_rank t"
    by (cases s; cases t) simp_all
qed

lemma order_terminal_stuck: "order_is_terminal s \<Longrightarrow> \<not> order_can_transition_to s t"
  by (cases s) simp_all

section \<open>Payments\<close>

datatype payment_status =
    Pay_Created | Pay_RequiresAction | Pay_Authorized | Pay_Captured | Pay_Failed | Pay_Refunded

datatype invalid_payment_transition = InvalidPaymentTransition payment_status payment_status

fun payment_can_transition_to :: "payment_status \<Rightarrow> payment_status \<Rightarrow> bool" where
  "payment_can_transition_to Pay_Created t =
     (t \<in> {Pay_RequiresAction, Pay_Authorized, Pay_Captured, Pay_Failed})"
| "payment_can_transition_to Pay_RequiresAction t = (t \<in> {Pay_Authorized, Pay_Captured, Pay_Failed})"
| "payment_can_transition_to Pay_Authorized t = (t \<in> {Pay_Captured, Pay_Failed})"
| "payment_can_transition_to Pay_Captured t = (t = Pay_Refunded)"
| "payment_can_transition_to _ _ = False"

definition payment_transition ::
  "payment_status \<Rightarrow> payment_status \<Rightarrow> invalid_payment_transition + payment_status" where
  "payment_transition s t =
     (if payment_can_transition_to s t then Inr t else Inl (InvalidPaymentTransition s t))"

fun payment_is_terminal :: "payment_status \<Rightarrow> bool" where
  "payment_is_terminal Pay_Captured = True"
| "payment_is_terminal Pay_Failed = True"
| "payment_is_terminal Pay_Refunded = True"
| "payment_is_terminal _ = False"

definition is_capturable :: "payment_status \<Rightarrow> bool" where
  "is_capturable s \<longleftrightarrow> s = Pay_Authorized"

definition payment_status_all :: "payment_status list" where
  "payment_status_all =
     [Pay_Created, Pay_RequiresAction, Pay_Authorized, Pay_Captured, Pay_Failed, Pay_Refunded]"

fun payment_status_str :: "payment_status \<Rightarrow> string" where
  "payment_status_str Pay_Created = ''created''"
| "payment_status_str Pay_RequiresAction = ''requires_action''"
| "payment_status_str Pay_Authorized = ''authorized''"
| "payment_status_str Pay_Captured = ''captured''"
| "payment_status_str Pay_Failed = ''failed''"
| "payment_status_str Pay_Refunded = ''refunded''"

fun payment_rank :: "payment_status \<Rightarrow> nat" where
  "payment_rank Pay_Created = 0"
| "payment_rank Pay_RequiresAction = 1"
| "payment_rank Pay_Authorized = 2"
| "payment_rank Pay_Captured = 3"
| "payment_rank Pay_Failed = 3"
| "payment_rank Pay_Refunded = 4"

interpretation payment_machine: status_machine
  payment_can_transition_to payment_transition InvalidPaymentTransition payment_status_all payment_rank
proof
  fix s t :: payment_status
  show "payment_can_transition_to s t \<Longrightarrow> payment_transition s t = Inr t"
    by (simp add: payment_transition_def)
  show "\<not> payment_can_transition_to s t \<Longrightarrow> payment_transition s t = Inl (InvalidPaymentTransition s t)"
    by (simp add: payment_transition_def)
  show "s \<in> set payment_status_all"
    by (cases s) (simp_all add: payment_status_all_def)
  show "payment_can_transition_to s t \<Longrightarrow> s \<noteq> t \<Longrightarrow> payment_rank s < payment_rank t"
    by (cases s; cases t) simp_all
qed

text \<open>
  An order that is paid or expired never changes status again, whatever sequence of legal
  transitions is tried, and no order ever returns to a status it has left.
\<close>
theorem order_terminal_is_final:
  "(order_is_terminal s \<and> order_can_transition_to\<^sup>*\<^sup>* s t \<longrightarrow> t = s) \<and>
   (order_can_transition_to\<^sup>*\<^sup>* s t \<and> order_can_transition_to\<^sup>*\<^sup>* t s \<longrightarrow> s = t)"
  using order_machine.stuck_forever [of s t] order_machine.no_way_back [of s t]
  by (auto dest: order_terminal_stuck)

theorem order_terminal_is_final_witness:
  "order_is_terminal Order_Paid \<and> order_can_transition_to\<^sup>*\<^sup>* Order_Paid Order_Paid \<and>
   Order_Paid = Order_Paid"
  using order_terminal_is_final [of Order_Paid Order_Paid] by simp

text \<open>
  A payment never leaves \<open>Failed\<close> or \<open>Refunded\<close> and never returns to a status it has left, but
  \<open>Captured\<close>, which \<open>is_terminal\<close> also calls terminal, has the outgoing transition to \<open>Refunded\<close>
  and no other.
\<close>
theorem payment_captured_not_final:
  "payment_is_terminal Pay_Captured \<and>
   (payment_can_transition_to Pay_Captured t \<longleftrightarrow> t = Pay_Refunded) \<and>
   (payment_is_terminal s \<and> s \<noteq> Pay_Captured \<and> payment_can_transition_to\<^sup>*\<^sup>* s t \<longrightarrow> t = s) \<and>
   (payment_can_transition_to\<^sup>*\<^sup>* s t \<and> payment_can_transition_to\<^sup>*\<^sup>* t s \<longrightarrow> s = t)"
proof -
  have "payment_is_terminal s \<Longrightarrow> s \<noteq> Pay_Captured \<Longrightarrow> \<not> payment_can_transition_to s u" for u
    by (cases s) simp_all
  then show ?thesis
    using payment_machine.stuck_forever [of s t] payment_machine.no_way_back [of s t] by auto
qed

theorem payment_captured_not_final_witness:
  "payment_is_terminal Pay_Failed \<and> Pay_Failed \<noteq> Pay_Captured \<and>
   payment_can_transition_to\<^sup>*\<^sup>* Pay_Failed Pay_Failed \<and> payment_can_transition_to Pay_Captured Pay_Refunded"
  using payment_captured_not_final [of Pay_Refunded Pay_Failed] by simp

end
