(* ===== verification/Card.thy ===== *)
theory Card
  imports External
begin

text \<open>
  \<open>crates/domain/src/card.rs\<close>: brand detection, the Luhn check, and the card metadata that is kept
  (never the number itself).
\<close>

datatype card_brand = Visa | Mastercard | Amex | RuPay | Discover | UnknownBrand

definition parse_u32 :: "string \<Rightarrow> nat option" where
  "parse_u32 s =
     (let t = (case s of [] \<Rightarrow> [] | c # r \<Rightarrow> (if c = CHR ''+'' then r else s)) in
      if t \<noteq> [] \<and> list_all is_digit t \<and> digits_val t < 2 ^ 32 then Some (digits_val t) else None)"

definition unwrap_or_zero :: "nat option \<Rightarrow> nat" where
  "unwrap_or_zero v = (case v of None \<Rightarrow> 0 | Some n \<Rightarrow> n)"

definition detect_brand :: "string \<Rightarrow> card_brand" where
  "detect_brand digits =
     (let p2 = unwrap_or_zero (parse_u32 (take 2 digits));
          p4 = unwrap_or_zero (parse_u32 (take 4 digits)) in
      if strip_prefix ''4'' digits \<noteq> None then Visa
      else if 2 \<le> length digits \<and> 51 \<le> p2 \<and> p2 \<le> 55 then Mastercard
      else if 2 \<le> length digits \<and> (p2 = 34 \<or> p2 = 37) then Amex
      else if 2 \<le> length digits \<and> (p2 = 65 \<or> p2 = 60) then RuPay
      else if 4 \<le> length digits \<and> 2221 \<le> p4 \<and> p4 \<le> 2720 then Mastercard
      else UnknownBrand)"

fun brand_str :: "card_brand \<Rightarrow> string" where
  "brand_str Visa = ''visa''"
| "brand_str Mastercard = ''mastercard''"
| "brand_str Amex = ''amex''"
| "brand_str RuPay = ''rupay''"
| "brand_str Discover = ''discover''"
| "brand_str UnknownBrand = ''unknown''"

datatype card_details_error = InvalidLength nat | FailedLuhnCheck | InvalidMonth nat | CardExpired

record card_details =
  last4 :: string
  brand :: card_brand
  exp_month :: nat
  exp_year :: nat
  fingerprint :: string

text \<open>The loop of \<open>luhn_valid\<close> over the reversed digits, with its sum and its doubling flag.\<close>

fun luhn_loop :: "nat list \<Rightarrow> nat \<Rightarrow> bool \<Rightarrow> nat" where
  "luhn_loop [] acc double = acc"
| "luhn_loop (d # ds) acc double =
     luhn_loop ds (acc + (if double then (if d * 2 > 9 then d * 2 - 9 else d * 2) else d)) (\<not> double)"

definition luhn_valid :: "string \<Rightarrow> bool" where
  "luhn_valid digits =
     (let nums = map digit_val (filter is_digit digits) in
      if length nums < 2 then False else luhn_loop (rev nums) 0 False mod 10 = 0)"

definition card_details_new :: "string \<Rightarrow> string \<Rightarrow> nat \<Rightarrow> nat \<Rightarrow> card_details_error + card_details" where
  "card_details_new raw_number fp month year =
     (let digits = filter is_digit raw_number in
      if length digits < 12 \<or> length digits > 19 then Inl (InvalidLength (length digits))
      else if \<not> luhn_valid digits then Inl FailedLuhnCheck
      else if \<not> (1 \<le> month \<and> month \<le> 12) then Inl (InvalidMonth month)
      else Inr \<lparr>last4 = drop (length digits - 4) digits, brand = detect_brand digits,
                exp_month = month, exp_year = year, fingerprint = fp\<rparr>)"

definition assert_not_expired :: "ext \<Rightarrow> card_details \<Rightarrow> instant \<Rightarrow> card_details_error + unit" where
  "assert_not_expired X c now =
     (if int (exp_year c) < year_of X now \<or>
         int (exp_year c) = year_of X now \<and> exp_month c < month_of X now
      then Inl CardExpired else Inr ())"

section \<open>What the Luhn check detects\<close>

definition luhn_weight :: "bool \<Rightarrow> nat \<Rightarrow> nat" where
  "luhn_weight double d = (if double then (if d * 2 > 9 then d * 2 - 9 else d * 2) else d)"

lemma luhn_loop_acc: "luhn_loop ds (k + s) b = k + luhn_loop ds s b"
  by (induction ds arbitrary: s b) (simp_all add: add.assoc)

lemma luhn_loop_acc0: "luhn_loop ds s b = s + luhn_loop ds 0 b"
  using luhn_loop_acc [of ds s 0 b] by simp

lemma luhn_loop_append:
  "luhn_loop (xs @ ys) s b = luhn_loop ys (luhn_loop xs s b) (b \<noteq> odd (length xs))"
  by (induction xs arbitrary: s b) auto

lemma luhn_loop_split:
  "luhn_loop (xs @ d # ys) 0 b =
     luhn_loop xs 0 b + luhn_weight (b \<noteq> odd (length xs)) d + luhn_loop ys 0 (b = odd (length xs))"
proof -
  have "luhn_loop (xs @ d # ys) 0 b =
      luhn_loop ys (luhn_loop xs 0 b + luhn_weight (b \<noteq> odd (length xs)) d) (b = odd (length xs))"
    by (simp add: luhn_loop_append luhn_weight_def)
  then show ?thesis by (simp add: luhn_loop_acc0 [of ys "luhn_loop xs 0 b + _"])
qed

lemma digit_cases:
  assumes "d < (10::nat)"
  shows "d = 0 \<or> d = 1 \<or> d = 2 \<or> d = 3 \<or> d = 4 \<or> d = 5 \<or> d = 6 \<or> d = 7 \<or> d = 8 \<or> d = 9"
  using assms by arith

lemma luhn_weight_lt: "d < 10 \<Longrightarrow> luhn_weight b d < 10"
  by (auto simp: luhn_weight_def)

lemma luhn_weight_inj: "d < 10 \<Longrightarrow> e < 10 \<Longrightarrow> luhn_weight b d = luhn_weight b e \<Longrightarrow> d = e"
  using digit_cases [of d] digit_cases [of e] by (cases b) (auto simp: luhn_weight_def)

lemma mod10_cancel_le:
  fixes x y :: nat
  assumes "(a + x + c) mod 10 = 0" and "(a + y + c) mod 10 = 0" and "y < 10" and "x \<le> y"
  shows "x = y"
proof -
  have "10 dvd (a + y + c) - (a + x + c)"
    using assms(1,2) by (intro dvd_diff_nat) (simp_all add: dvd_eq_mod_eq_0)
  then have "10 dvd y - x" by simp
  moreover have "y - x < 10" using assms(3) by simp
  ultimately show ?thesis using assms(4) by (auto dest: dvd_imp_le)
qed

lemma mod10_cancel:
  fixes x y :: nat
  assumes "(a + x + c) mod 10 = 0" and "(a + y + c) mod 10 = 0" and "x < 10" and "y < 10"
  shows "x = y"
  using mod10_cancel_le [of a x c y] mod10_cancel_le [of a y c x] assms by (cases "x \<le> y") auto

lemma digit_val_lt: "is_digit c \<Longrightarrow> digit_val c < 10"
  unfolding is_digit_def digit_val_def by arith

lemma digit_val_inj:
  assumes "is_digit c" and "is_digit d" and "digit_val c = digit_val d"
  shows "c = d"
proof -
  have "(of_char c :: nat) = of_char d"
    using assms unfolding is_digit_def digit_val_def by arith
  then show ?thesis by simp
qed

text \<open>
  The Luhn check detects every single-digit error: if two card numbers that differ in exactly
  one digit position both pass, the digits are the same.
\<close>
theorem luhn_detects_single_digit_errors:
  assumes "luhn_valid (a @ c # b)" and "luhn_valid (a @ d # b)" and "is_digit c" and "is_digit d"
  shows "c = d"
proof -
  let ?n = "\<lambda>s. map digit_val (filter is_digit s)"
  let ?x = "luhn_loop (rev (?n b)) 0 False" and ?f = "odd (length (?n b))"
  let ?y = "luhn_loop (rev (?n a)) 0 (\<not> ?f)"
  have *: "luhn_loop (rev (?n (a @ e # b))) 0 False = ?x + luhn_weight ?f (digit_val e) + ?y"
    if "is_digit e" for e
    using that luhn_loop_split [of "rev (?n b)" "digit_val e" "rev (?n a)" False] by simp
  have "(?x + luhn_weight ?f (digit_val c) + ?y) mod 10 = 0"
    using assms(1) * [OF assms(3)] by (simp add: luhn_valid_def Let_def split: if_splits)
  moreover have "(?x + luhn_weight ?f (digit_val d) + ?y) mod 10 = 0"
    using assms(2) * [OF assms(4)] by (simp add: luhn_valid_def Let_def split: if_splits)
  ultimately have "luhn_weight ?f (digit_val c) = luhn_weight ?f (digit_val d)"
    by (rule mod10_cancel) (intro luhn_weight_lt digit_val_lt assms(3,4))+
  then have "digit_val c = digit_val d"
    by (rule luhn_weight_inj [rotated 2]) (intro digit_val_lt assms(3,4))+
  then show ?thesis by (rule digit_val_inj [OF assms(3,4)])
qed

theorem luhn_detects_single_digit_errors_witness:
  "luhn_valid ''4242424242424242'' \<and> CHR ''2'' = CHR ''2''"
proof -
  have v: "luhn_valid (''424242424242424'' @ CHR ''2'' # [])" by code_simp
  have d: "is_digit CHR ''2''" by code_simp
  show ?thesis using v luhn_detects_single_digit_errors [OF v v d d] by simp
qed

text \<open>
  A card is accepted exactly when its digits number 12 to 19, pass the Luhn check and the month
  is 1 to 12; what is kept of the number is its last four digits and its brand, and the errors come
  in the order length, Luhn, month.
\<close>
theorem card_details_new_spec:
  "card_details_new raw fp m y = Inr c \<longleftrightarrow>
     (let ds = filter is_digit raw in
      12 \<le> length ds \<and> length ds \<le> 19 \<and> luhn_valid ds \<and> 1 \<le> m \<and> m \<le> 12 \<and>
      length (last4 c) = 4 \<and> (\<exists>p. ds = p @ last4 c) \<and> brand c = detect_brand ds \<and>
      exp_month c = m \<and> exp_year c = y \<and> fingerprint c = fp)"
  (is "?lhs \<longleftrightarrow> ?rhs")
proof
  assume ?lhs
  then show ?rhs
    by (auto simp: card_details_new_def Let_def split: if_splits) (metis append_take_drop_id)
next
  assume r: ?rhs
  then obtain p where "filter is_digit raw = p @ last4 c" "length (last4 c) = 4"
    by (auto simp: Let_def)
  then have "drop (length (filter is_digit raw) - 4) (filter is_digit raw) = last4 c" by simp
  with r show ?lhs by (auto simp: card_details_new_def Let_def)
qed

end
