(* ===== verification/Simulator.thy ===== *)
theory Simulator
  imports Money Card
begin

text \<open>
  \<open>crates/simulator\<close>: the published test cards (\<open>cards.rs\<close>) and the decision made on a payment
  attempt (\<open>card_engine.rs\<close>).
\<close>

datatype decline_code =
    CardDeclined | InsufficientFunds | ExpiredCard | IncorrectCvc | ProcessingError | LostCard | StolenCard

datatype outcome =
    Success | Authorize | Declined decline_code | RequiresAction | RiskHold | SuccessThenDispute

fun decline_code_str :: "decline_code \<Rightarrow> string" where
  "decline_code_str CardDeclined = ''card_declined''"
| "decline_code_str InsufficientFunds = ''insufficient_funds''"
| "decline_code_str ExpiredCard = ''expired_card''"
| "decline_code_str IncorrectCvc = ''incorrect_cvc''"
| "decline_code_str ProcessingError = ''processing_error''"
| "decline_code_str LostCard = ''lost_card''"
| "decline_code_str StolenCard = ''stolen_card''"

fun decline_description :: "decline_code \<Rightarrow> string" where
  "decline_description CardDeclined = ''The card was declined.''"
| "decline_description InsufficientFunds = ''The card has insufficient funds.''"
| "decline_description ExpiredCard = ''The card has expired.''"
| "decline_description IncorrectCvc = ''The security code is incorrect.''"
| "decline_description ProcessingError = ''An error occurred while processing the card.''"
| "decline_description LostCard = ''The card was declined.''"
| "decline_description StolenCard = ''The card was declined.''"

record test_card =
  tc_number :: string
  tc_outcome :: outcome
  tc_description :: string

definition em_dash :: string where
  "em_dash = [char_of (226::nat), char_of (128::nat), char_of (148::nat)]"

definition test_cards :: "test_card list" where
  "test_cards = [
    \<lparr>tc_number = ''4242424242424242'', tc_outcome = Success,
     tc_description = ''Succeeds and is captured immediately''\<rparr>,
    \<lparr>tc_number = ''4000000000000077'', tc_outcome = Authorize,
     tc_description = ''Authorizes only '' @ em_dash @ '' requires a separate capture call''\<rparr>,
    \<lparr>tc_number = ''4000000000000002'', tc_outcome = Declined CardDeclined,
     tc_description = ''Declined '' @ em_dash @ '' generic''\<rparr>,
    \<lparr>tc_number = ''4000000000009995'', tc_outcome = Declined InsufficientFunds,
     tc_description = ''Declined '' @ em_dash @ '' insufficient funds''\<rparr>,
    \<lparr>tc_number = ''4000000000000069'', tc_outcome = Declined ExpiredCard,
     tc_description = ''Declined '' @ em_dash @ '' expired card''\<rparr>,
    \<lparr>tc_number = ''4000000000000127'', tc_outcome = Declined IncorrectCvc,
     tc_description = ''Declined '' @ em_dash @ '' incorrect CVC''\<rparr>,
    \<lparr>tc_number = ''4000000000000119'', tc_outcome = Declined ProcessingError,
     tc_description = ''Declined '' @ em_dash @ '' processing error''\<rparr>,
    \<lparr>tc_number = ''4000000000009987'', tc_outcome = Declined LostCard,
     tc_description = ''Declined '' @ em_dash @ '' reported lost''\<rparr>,
    \<lparr>tc_number = ''4000000000009979'', tc_outcome = Declined StolenCard,
     tc_description = ''Declined '' @ em_dash @ '' reported stolen''\<rparr>,
    \<lparr>tc_number = ''4000002760003184'', tc_outcome = RequiresAction,
     tc_description = ''Requires 3-D Secure authentication''\<rparr>,
    \<lparr>tc_number = ''4000000000000259'', tc_outcome = SuccessThenDispute,
     tc_description = ''Succeeds, then a dispute opens after 60 seconds''\<rparr>,
    \<lparr>tc_number = ''5555555555554444'', tc_outcome = Success,
     tc_description = ''Mastercard '' @ em_dash @ '' succeeds''\<rparr>,
    \<lparr>tc_number = ''6521000000000007'', tc_outcome = Success,
     tc_description = ''RuPay '' @ em_dash @ '' succeeds''\<rparr>,
    \<lparr>tc_number = ''378282246310005'', tc_outcome = Success,
     tc_description = ''Amex '' @ em_dash @ '' succeeds''\<rparr>]"

definition normalize :: "string \<Rightarrow> string" where
  "normalize card_number = filter is_digit card_number"

definition lookup_card :: "string \<Rightarrow> test_card option" where
  "lookup_card card_number = find (\<lambda>c. tc_number c = normalize card_number) test_cards"

definition is_test_card :: "string \<Rightarrow> bool" where
  "is_test_card card_number \<longleftrightarrow> lookup_card card_number \<noteq> None"

section \<open>The decision\<close>

datatype simulator_error = NotATestCard

record decision =
  dec_outcome :: outcome
  dec_latency_ms :: nat

definition is_success :: "decision \<Rightarrow> bool" where
  "is_success d \<longleftrightarrow> dec_outcome d = Success \<or> dec_outcome d = SuccessThenDispute"

definition sim_decline_code :: "decision \<Rightarrow> decline_code option" where
  "sim_decline_code d = (case dec_outcome d of Declined c \<Rightarrow> Some c | _ \<Rightarrow> None)"

definition sim_outcome_str :: "decision \<Rightarrow> string" where
  "sim_outcome_str d = (case dec_outcome d of
      Success \<Rightarrow> ''success'' | SuccessThenDispute \<Rightarrow> ''success'' | Authorize \<Rightarrow> ''authorized''
    | Declined _ \<Rightarrow> ''declined'' | RequiresAction \<Rightarrow> ''requires_action'' | RiskHold \<Rightarrow> ''risk_hold'')"

definition amount_override :: "money \<Rightarrow> outcome option" where
  "amount_override amount = (if minor amount smod 100 = 5 then Some RiskHold else None)"

definition simulated_latency :: "string \<Rightarrow> nat" where
  "simulated_latency digits = 300 + (sum_list (map of_char digits) mod 2 ^ 32) mod 500"

definition decide :: "string \<Rightarrow> money \<Rightarrow> simulator_error + decision" where
  "decide card_number amount =
     rbind (ok_or (lookup_card card_number) NotATestCard) (\<lambda>card.
     let digits = normalize card_number;
         outcome = (case amount_override amount of
             Some o' \<Rightarrow> if tc_outcome card = Success then o' else tc_outcome card
           | None \<Rightarrow> tc_outcome card)
     in Inr \<lparr>dec_outcome = outcome, dec_latency_ms = simulated_latency digits\<rparr>)"

lemma lookup_card_Some:
  "lookup_card s = Some c \<Longrightarrow> c \<in> set test_cards \<and> tc_number c = normalize s"
  by (auto simp: lookup_card_def find_Some_iff)

lemma lookup_card_None: "lookup_card s = None \<longleftrightarrow> normalize s \<notin> tc_number ` set test_cards"
  by (auto simp: lookup_card_def find_None_iff image_iff)

text \<open>What is evaluated once over the table: every card has a number the card checks accept.\<close>

definition table_ok :: bool where
  "table_ok \<longleftrightarrow> list_all (\<lambda>c. list_all is_digit (tc_number c) \<and> 12 \<le> length (tc_number c) \<and>
     length (tc_number c) \<le> 19 \<and> luhn_valid (tc_number c)) test_cards \<and>
     distinct (map tc_number test_cards)"

lemma table_ok_holds: "table_ok"
  by code_simp

lemma test_card_number:
  "c \<in> set test_cards \<Longrightarrow> list_all is_digit (tc_number c) \<and> 12 \<le> length (tc_number c) \<and>
     length (tc_number c) \<le> 19 \<and> luhn_valid (tc_number c)"
  using table_ok_holds by (auto simp: table_ok_def list_all_iff)

lemma decide_ok_iff: "is_ok (decide s m) \<longleftrightarrow> normalize s \<in> tc_number ` set test_cards"
proof (cases "lookup_card s")
  case None
  then show ?thesis by (simp add: decide_def flip: lookup_card_None)
next
  case (Some c)
  then show ?thesis
    using lookup_card_Some [OF Some] by (auto simp: decide_def Let_def image_iff intro: sym)
qed

lemma decide_card:
  assumes "decide s m = Inr d"
  obtains c where "c \<in> set test_cards" and "tc_number c = normalize s"
  using assms lookup_card_Some [of s] by (auto simp: decide_def rbind_Inr)

text \<open>
  The safety gate: a decision is made exactly for the card numbers whose digits are in the
  published table, whatever the amount and however the number is formatted; a card that does not
  simply succeed keeps its own outcome at every amount, and a plain success turns into a risk hold
  exactly when the amount ends in 05.
\<close>
theorem decide_gate:
  "(is_ok (decide s m) \<longleftrightarrow> normalize s \<in> tc_number ` set test_cards) \<and>
   (\<forall>d. decide s m = Inr d \<longrightarrow> (\<exists>c\<in>set test_cards. tc_number c = normalize s \<and>
      300 \<le> dec_latency_ms d \<and> dec_latency_ms d < 800 \<and>
      (tc_outcome c \<noteq> Success \<longrightarrow> dec_outcome d = tc_outcome c) \<and>
      (tc_outcome c = Success \<longrightarrow>
         dec_outcome d = (if minor m smod 100 = 5 then RiskHold else Success))))"
proof (cases "lookup_card s")
  case None
  then show ?thesis by (simp add: decide_def flip: lookup_card_None)
next
  case (Some c)
  have l: "300 \<le> simulated_latency (normalize s)" "simulated_latency (normalize s) < 800"
    by (simp_all add: simulated_latency_def)
  from lookup_card_Some [OF Some] have c: "c \<in> set test_cards" "tc_number c = normalize s" by auto
  have "\<forall>d. decide s m = Inr d \<longrightarrow> 300 \<le> dec_latency_ms d \<and> dec_latency_ms d < 800 \<and>
      (tc_outcome c \<noteq> Success \<longrightarrow> dec_outcome d = tc_outcome c) \<and>
      (tc_outcome c = Success \<longrightarrow>
         dec_outcome d = (if minor m smod 100 = 5 then RiskHold else Success))"
    using Some l by (auto simp: decide_def Let_def amount_override_def)
  then show ?thesis using c decide_ok_iff [of s m] by auto
qed

theorem decide_gate_witness:
  "decide ''4242 4242 4242 4242'' \<lparr>minor = 150005, curr = INR\<rparr> =
     Inr \<lparr>dec_outcome = RiskHold, dec_latency_ms = 616\<rparr> \<and>
   is_ok (decide ''4242 4242 4242 4242'' \<lparr>minor = 150005, curr = INR\<rparr>)"
proof -
  have n: "normalize ''4242 4242 4242 4242'' = ''4242424242424242''" by code_simp
  have m: "''4242424242424242'' \<in> tc_number ` set test_cards" by code_simp
  have l: "map_option tc_outcome (lookup_card ''4242 4242 4242 4242'') = Some Success" by code_simp
  have t: "simulated_latency ''4242424242424242'' = 616" by (simp add: simulated_latency_def)
  have "is_ok (decide ''4242 4242 4242 4242'' \<lparr>minor = 150005, curr = INR\<rparr>)"
    using decide_gate [of "''4242 4242 4242 4242''" "\<lparr>minor = 150005, curr = INR\<rparr>"] n m by simp
  then show ?thesis
    using l by (auto simp: decide_def n t amount_override_def signed_modulo_int_def)
qed

text \<open>
  A card the simulator decides on never fails the domain's card checks: with a month from 1 to
  12, \<open>CardDetails::new\<close> accepts its number, so the checks of the engine cannot reject a test card.
\<close>
theorem decided_card_is_accepted:
  assumes "decide s m = Inr d" and "1 \<le> month" and "month \<le> 12"
  shows "\<exists>c. card_details_new s fp month year = Inr c"
proof -
  from assms(1) obtain c where "c \<in> set test_cards" "tc_number c = normalize s"
    by (rule decide_card)
  then have "12 \<le> length (normalize s) \<and> length (normalize s) \<le> 19 \<and> luhn_valid (normalize s)"
    using test_card_number by metis
  with assms(2,3) show ?thesis by (simp add: card_details_new_def normalize_def Let_def)
qed

theorem decided_card_is_accepted_witness:
  "\<exists>c. card_details_new ''4000 0000 0000 0002'' [] 12 2030 = Inr c"
proof -
  have "normalize ''4000 0000 0000 0002'' \<in> tc_number ` set test_cards" by code_simp
  then have "is_ok (decide ''4000 0000 0000 0002'' \<lparr>minor = 100, curr = USD\<rparr>)"
    by (simp add: decide_ok_iff)
  then obtain d where "decide ''4000 0000 0000 0002'' \<lparr>minor = 100, curr = USD\<rparr> = Inr d"
    by (auto simp: is_ok_def split: sum.splits)
  then show ?thesis by (rule decided_card_is_accepted) simp_all
qed

end
