(* ===== verification/Ledger_Domain.thy ===== *)
theory Ledger_Domain
  imports Money "HOL-Library.AList" "HOL-Library.List_Lexorder" "HOL-Library.Char_ord"
begin

text \<open>
  \<open>crates/domain/src/ledger\<close>: the chart of accounts (\<open>account_type.rs\<close>, \<open>ledger_account.rs\<close>),
  signed entries (\<open>ledger_entry.rs\<close>) and balanced transactions (\<open>ledger_transaction.rs\<close>). A positive
  amount is a credit and a negative one a debit.
\<close>

section \<open>The chart of accounts\<close>

datatype balance_direction = Dir_Debit | Dir_Credit

datatype account_type =
    GatewayClearing | MerchantPending | MerchantAvailable | MerchantReserve | DisputeHolding
  | PlatformRevenue | TaxPayable

fun normal_balance :: "account_type \<Rightarrow> balance_direction" where
  "normal_balance GatewayClearing = Dir_Debit"
| "normal_balance DisputeHolding = Dir_Debit"
| "normal_balance MerchantPending = Dir_Credit"
| "normal_balance MerchantAvailable = Dir_Credit"
| "normal_balance MerchantReserve = Dir_Credit"
| "normal_balance TaxPayable = Dir_Credit"
| "normal_balance PlatformRevenue = Dir_Credit"

fun is_merchant_scoped :: "account_type \<Rightarrow> bool" where
  "is_merchant_scoped MerchantPending = True"
| "is_merchant_scoped MerchantAvailable = True"
| "is_merchant_scoped MerchantReserve = True"
| "is_merchant_scoped DisputeHolding = True"
| "is_merchant_scoped GatewayClearing = False"
| "is_merchant_scoped PlatformRevenue = False"
| "is_merchant_scoped TaxPayable = False"

fun account_type_str :: "account_type \<Rightarrow> string" where
  "account_type_str GatewayClearing = ''gateway_clearing''"
| "account_type_str MerchantPending = ''merchant_pending''"
| "account_type_str MerchantAvailable = ''merchant_available''"
| "account_type_str MerchantReserve = ''merchant_reserve''"
| "account_type_str DisputeHolding = ''dispute_holding''"
| "account_type_str PlatformRevenue = ''platform_revenue''"
| "account_type_str TaxPayable = ''tax_payable''"

definition account_type_all :: "account_type list" where
  "account_type_all = [GatewayClearing, MerchantPending, MerchantAvailable, MerchantReserve,
     DisputeHolding, PlatformRevenue, TaxPayable]"

definition account_type_from_str :: "string \<Rightarrow> string + account_type" where
  "account_type_from_str s =
     (if s = ''gateway_clearing'' then Inr GatewayClearing
      else if s = ''merchant_pending'' then Inr MerchantPending
      else if s = ''merchant_available'' then Inr MerchantAvailable
      else if s = ''merchant_reserve'' then Inr MerchantReserve
      else if s = ''dispute_holding'' then Inr DisputeHolding
      else if s = ''platform_revenue'' then Inr PlatformRevenue
      else if s = ''tax_payable'' then Inr TaxPayable
      else Inl (''unknown account type: '' @ s))"

datatype ledger_error =
    TooFewEntries nat
  | Unbalanced "(currency \<times> int) list"
  | InvalidAccountScope account_type
  | ZeroAmountEntry
  | LedgerOverflow
  | LedgerMoney money_error

text \<open>
  \<open>LedgerAccount\<close>; the identifier the Rust constructors draw from \<open>LedgerAccountId::new\<close> is an
  argument here.
\<close>

record ledger_account =
  acc_id :: uuid
  acc_merchant_id :: "uuid option"
  acc_type :: account_type
  acc_currency :: currency

definition account_for_merchant ::
  "uuid \<Rightarrow> uuid \<Rightarrow> account_type \<Rightarrow> currency \<Rightarrow> ledger_error + ledger_account" where
  "account_for_merchant i m t c =
     (if \<not> is_merchant_scoped t then Inl (InvalidAccountScope t)
      else Inr \<lparr>acc_id = i, acc_merchant_id = Some m, acc_type = t, acc_currency = c\<rparr>)"

definition account_for_platform ::
  "uuid \<Rightarrow> account_type \<Rightarrow> currency \<Rightarrow> ledger_error + ledger_account" where
  "account_for_platform i t c =
     (if is_merchant_scoped t then Inl (InvalidAccountScope t)
      else Inr \<lparr>acc_id = i, acc_merchant_id = None, acc_type = t, acc_currency = c\<rparr>)"

definition account_from_parts ::
  "uuid \<Rightarrow> uuid option \<Rightarrow> account_type \<Rightarrow> currency \<Rightarrow> ledger_error + ledger_account" where
  "account_from_parts i m t c =
     (if is_merchant_scoped t \<noteq> (m \<noteq> None) then Inl (InvalidAccountScope t)
      else Inr \<lparr>acc_id = i, acc_merchant_id = m, acc_type = t, acc_currency = c\<rparr>)"

lemma account_type_roundtrip [simp]: "account_type_from_str (account_type_str t) = Inr t"
  by (cases t) (simp_all add: account_type_from_str_def)

lemma account_type_from_str_Inr: "account_type_from_str s = Inr t \<longleftrightarrow> s = account_type_str t"
  by (cases t) (auto simp: account_type_from_str_def)

interpretation account_type_codec: string_codec account_type_str "\<lambda>s. res_ok (account_type_from_str s)"
  by unfold_locales (auto simp: account_type_from_str_Inr)

section \<open>Entries\<close>

record ledger_entry =
  entry_account_id :: uuid
  entry_amount :: money

definition entry_credit :: "uuid \<Rightarrow> money \<Rightarrow> ledger_error + ledger_entry" where
  "entry_credit a m =
     (if is_zero m then Inl ZeroAmountEntry
      else if is_negative m then Inl (LedgerMoney (Negative (minor m)))
      else Inr \<lparr>entry_account_id = a, entry_amount = m\<rparr>)"

definition entry_debit :: "uuid \<Rightarrow> money \<Rightarrow> ledger_error + ledger_entry" where
  "entry_debit a m =
     (if is_zero m then Inl ZeroAmountEntry
      else if is_negative m then Inl (LedgerMoney (Negative (minor m)))
      else rbind (map_err LedgerMoney (money_negate m)) (\<lambda>n.
        Inr \<lparr>entry_account_id = a, entry_amount = n\<rparr>))"

definition entry_from_signed :: "uuid \<Rightarrow> money \<Rightarrow> ledger_error + ledger_entry" where
  "entry_from_signed a m =
     (if is_zero m then Inl ZeroAmountEntry else Inr \<lparr>entry_account_id = a, entry_amount = m\<rparr>)"

definition entry_currency :: "ledger_entry \<Rightarrow> currency" where
  "entry_currency e = curr (entry_amount e)"

definition entry_minor :: "ledger_entry \<Rightarrow> int" where
  "entry_minor e = minor (entry_amount e)"

definition is_credit :: "ledger_entry \<Rightarrow> bool" where
  "is_credit e \<longleftrightarrow> is_positive (entry_amount e)"

definition is_debit :: "ledger_entry \<Rightarrow> bool" where
  "is_debit e \<longleftrightarrow> is_negative (entry_amount e)"

lemma entry_credit_Inr:
  "entry_credit a m = Inr e \<longleftrightarrow> 0 < minor m \<and> e = \<lparr>entry_account_id = a, entry_amount = m\<rparr>"
  by (auto simp: entry_credit_def is_zero_def is_negative_def)

lemma entry_debit_Inr:
  "entry_debit a m = Inr e \<longleftrightarrow> 0 < minor m \<and> in_i64 (- minor m) \<and>
     e = \<lparr>entry_account_id = a, entry_amount = money_new (- minor m) (curr m)\<rparr>"
  by (auto simp: entry_debit_def is_zero_def is_negative_def rbind_Inr money_negate_Inr)

section \<open>Balanced transactions\<close>

datatype ledger_transaction_kind =
    PaymentCaptured | FeeCharged | RefundIssued | FeeRefunded | DisputeOpened | DisputeWon
  | DisputeLost | FundsReleased | PayoutPaid | ReserveHeld | ReserveReleased

fun ledger_transaction_kind_str :: "ledger_transaction_kind \<Rightarrow> string" where
  "ledger_transaction_kind_str PaymentCaptured = ''payment_captured''"
| "ledger_transaction_kind_str FeeCharged = ''fee_charged''"
| "ledger_transaction_kind_str RefundIssued = ''refund_issued''"
| "ledger_transaction_kind_str FeeRefunded = ''fee_refunded''"
| "ledger_transaction_kind_str DisputeOpened = ''dispute_opened''"
| "ledger_transaction_kind_str DisputeWon = ''dispute_won''"
| "ledger_transaction_kind_str DisputeLost = ''dispute_lost''"
| "ledger_transaction_kind_str FundsReleased = ''funds_released''"
| "ledger_transaction_kind_str PayoutPaid = ''payout_paid''"
| "ledger_transaction_kind_str ReserveHeld = ''reserve_held''"
| "ledger_transaction_kind_str ReserveReleased = ''reserve_released''"

record balanced_transaction =
  bt_kind :: ledger_transaction_kind
  bt_entries :: "ledger_entry list"

text \<open>
  The running sums per currency. The Rust \<open>HashMap\<close> is an association list with one pair per key:
  the order in which the map iterates does not matter because the result is sorted by the keys.
\<close>

definition slot :: "(currency \<times> int) list \<Rightarrow> currency \<Rightarrow> int" where
  "slot sums c = (case map_of sums c of None \<Rightarrow> 0 | Some v \<Rightarrow> v)"

fun add_sums ::
  "ledger_entry list \<Rightarrow> (currency \<times> int) list \<Rightarrow> ledger_error + (currency \<times> int) list" where
  "add_sums [] sums = Inr sums"
| "add_sums (e # es) sums =
     rbind (ok_or (checked_i64 (slot sums (entry_currency e) + entry_minor e)) LedgerOverflow) (\<lambda>v.
     add_sums es (AList.update (entry_currency e) v sums))"

definition balanced_new ::
  "ledger_transaction_kind \<Rightarrow> ledger_entry list \<Rightarrow> ledger_error + balanced_transaction" where
  "balanced_new kind entries =
     (if length entries < 2 then Inl (TooFewEntries (length entries))
      else rbind (add_sums entries []) (\<lambda>sums.
        let unbalanced = filter (\<lambda>(_, v). v \<noteq> 0) sums in
        if unbalanced \<noteq> [] then Inl (Unbalanced (sort_key (\<lambda>(c, _). code c) unbalanced))
        else Inr \<lparr>bt_kind = kind, bt_entries = entries\<rparr>))"

fun currencies_seen :: "currency list \<Rightarrow> ledger_entry list \<Rightarrow> currency list" where
  "currencies_seen seen [] = seen"
| "currencies_seen seen (e # es) =
     currencies_seen (if entry_currency e \<in> set seen then seen else seen @ [entry_currency e]) es"

definition currencies :: "balanced_transaction \<Rightarrow> currency list" where
  "currencies t = currencies_seen [] (bt_entries t)"

definition total_credited :: "balanced_transaction \<Rightarrow> currency \<Rightarrow> int" where
  "total_credited t c =
     foldl (\<lambda>acc m. wrap64 (acc + m)) 0
       (map entry_minor (filter (\<lambda>e. entry_currency e = c \<and> is_credit e) (bt_entries t)))"

text \<open>\<open>TransactionBuilder\<close> collects entries and validates them once, in \<open>build\<close>.\<close>

record transaction_builder =
  tb_kind :: ledger_transaction_kind
  tb_entries :: "ledger_entry list"

definition builder_new :: "ledger_transaction_kind \<Rightarrow> transaction_builder" where
  "builder_new k = \<lparr>tb_kind = k, tb_entries = []\<rparr>"

definition builder_credit ::
  "uuid \<Rightarrow> money \<Rightarrow> transaction_builder \<Rightarrow> ledger_error + transaction_builder" where
  "builder_credit a m b =
     rbind (entry_credit a m) (\<lambda>e. Inr (b\<lparr>tb_entries := tb_entries b @ [e]\<rparr>))"

definition builder_debit ::
  "uuid \<Rightarrow> money \<Rightarrow> transaction_builder \<Rightarrow> ledger_error + transaction_builder" where
  "builder_debit a m b =
     rbind (entry_debit a m) (\<lambda>e. Inr (b\<lparr>tb_entries := tb_entries b @ [e]\<rparr>))"

definition builder_entry :: "ledger_entry \<Rightarrow> transaction_builder \<Rightarrow> transaction_builder" where
  "builder_entry e b = b\<lparr>tb_entries := tb_entries b @ [e]\<rparr>"

definition builder_build :: "transaction_builder \<Rightarrow> ledger_error + balanced_transaction" where
  "builder_build b = balanced_new (tb_kind b) (tb_entries b)"

section \<open>What construction checks\<close>

definition net :: "currency \<Rightarrow> ledger_entry list \<Rightarrow> int" where
  "net c es = sum_list (map entry_minor (filter (\<lambda>e. entry_currency e = c) es))"

definition running_sums_fit :: "ledger_entry list \<Rightarrow> bool" where
  "running_sums_fit es \<longleftrightarrow> (\<forall>n c. in_i64 (net c (take n es)))"

text \<open>The currencies in the order of their codes.\<close>

definition currencies_by_code :: "currency list" where
  "currencies_by_code = [EUR, INR, JPY, KWD, USD]"

lemma net_simps [simp]:
  "net c [] = 0"
  "net c (e # es) = (if entry_currency e = c then entry_minor e + net c es else net c es)"
  "net c (es @ fs) = net c es + net c fs"
  by (simp_all add: net_def)

lemma slot_update [simp]:
  "slot (AList.update c v sums) d = (if c = d then v else slot sums d)"
  by (simp add: slot_def update_conv)

lemma slot_Nil [simp]: "slot [] c = 0"
  by (simp add: slot_def)

lemma add_sums_Inr:
  "add_sums es sums = Inr sums' \<Longrightarrow> slot sums' c = slot sums c + net c es"
proof (induction es arbitrary: sums)
  case (Cons e es)
  then show ?case by (fastforce simp: rbind_Inr)
qed simp

lemma add_sums_distinct:
  "add_sums es sums = Inr sums' \<Longrightarrow> distinct (map fst sums) \<Longrightarrow> distinct (map fst sums')"
proof (induction es arbitrary: sums)
  case (Cons e es)
  then show ?case by (auto simp: rbind_Inr distinct_update)
qed simp

lemma add_sums_cases: "add_sums es sums = Inl LedgerOverflow \<or> (\<exists>sums'. add_sums es sums = Inr sums')"
proof (induction es arbitrary: sums)
  case (Cons e es)
  then show ?case
    by (cases "in_i64 (slot sums (entry_currency e) + entry_minor e)")
      (simp_all add: checked_i64_def)
qed simp

lemma add_sums_ok:
  assumes "\<And>c. in_i64 (slot sums c)"
  shows "(\<exists>sums'. add_sums es sums = Inr sums') \<longleftrightarrow> (\<forall>n c. in_i64 (slot sums c + net c (take n es)))"
  using assms
proof (induction es arbitrary: sums)
  case (Cons e es)
  show ?case
  proof (cases "in_i64 (slot sums (entry_currency e) + entry_minor e)")
    case True
    let ?s = "AList.update (entry_currency e) (slot sums (entry_currency e) + entry_minor e) sums"
    have step: "slot sums c + net c (take (Suc n) (e # es)) = slot ?s c + net c (take n es)" for c n
      by simp
    have "(\<exists>sums'. add_sums (e # es) sums = Inr sums') \<longleftrightarrow> (\<exists>sums'. add_sums es ?s = Inr sums')"
      using True by (simp add: checked_i64_in)
    also have "\<dots> \<longleftrightarrow> (\<forall>n c. in_i64 (slot ?s c + net c (take n es)))"
      using True Cons.prems by (intro Cons.IH) auto
    also have "\<dots> \<longleftrightarrow> (\<forall>n c. in_i64 (slot sums c + net c (take n (e # es))))"
      using Cons.prems step by (metis add.right_neutral net_simps(1) not0_implies_Suc take0)
    finally show ?thesis .
  next
    case False
    then have "\<not> in_i64 (slot sums (entry_currency e) + net (entry_currency e) (take 1 (e # es)))"
      by simp
    then have "\<not> (\<forall>n c. in_i64 (slot sums c + net c (take n (e # es))))" by blast
    with False show ?thesis by (simp add: checked_i64_def)
  qed
qed simp

lemma unbalanced_iff:
  assumes "distinct (map fst sums)"
  shows "(c, v) \<in> set (filter (\<lambda>(_, v). v \<noteq> 0) sums) \<longleftrightarrow> v = slot sums c \<and> v \<noteq> 0"
  using map_of_eq_Some_iff [OF assms, of c v] by (cases "map_of sums c") (auto simp: slot_def)

lemma code_less_simps:
  "sorted (map code currencies_by_code)" "distinct (map code currencies_by_code)"
  by code_simp+


lemma unbalanced_sorted:
  assumes "add_sums es [] = Inr sums"
  shows "sort_key (\<lambda>(c, _). code c) (filter (\<lambda>(_, v). v \<noteq> 0) sums) =
    map (\<lambda>c. (c, net c es)) (filter (\<lambda>c. net c es \<noteq> 0) currencies_by_code)"
    (is "sort_key ?k ?u = ?r")
proof (rule map_sorted_distinct_set_unique [where f = ?k])
  have d: "distinct (map fst sums)" using add_sums_distinct [OF assms] by simp
  have mem: "(c, v) \<in> set ?u \<longleftrightarrow> v = net c es \<and> v \<noteq> 0" for c v
    using add_sums_Inr [OF assms, of c] by (simp only: unbalanced_iff [OF d]) simp
  have all: "c \<in> set currencies_by_code" for c
    by (cases c) (simp_all add: currencies_by_code_def)
  show eq: "set (sort_key ?k ?u) = set ?r"
    using mem all by (fastforce simp: image_iff)
  show "inj_on ?k (set (sort_key ?k ?u) \<union> set ?r)"
    unfolding eq by (auto simp: inj_on_def code_inj)
  show "sorted (map ?k (sort_key ?k ?u))" by simp
  have "map ?k ?r = map code (filter (\<lambda>c. net c es \<noteq> 0) currencies_by_code)"
    by (simp add: o_def)
  moreover have "sorted (map code (filter P currencies_by_code))" for P
    using code_less_simps(1) by (rule sorted_filter)
  moreover have "distinct (map code (filter P currencies_by_code))" for P
    using code_less_simps(2) by (rule distinct_map_filter)
  ultimately show "sorted (map ?k ?r)" "distinct (map ?k ?r)" by (simp_all only:)
  have "distinct (map fst ?u)" using d by (rule distinct_map_filter)
  then have "distinct (map code (map fst ?u))"
    by (simp only: distinct_map [of code]) (simp add: inj_on_def code_inj)
  moreover have "?k = code \<circ> fst" by auto
  ultimately have "distinct (map ?k ?u)" by (simp only: map_map)
  then show "distinct (map ?k (sort_key ?k ?u))"
    by (metis distinct_map distinct_sort set_sort)
qed

lemma unbalanced_empty:
  assumes "add_sums es [] = Inr sums" and "filter (\<lambda>(_, v). v \<noteq> 0) sums = []"
  shows "net c es = 0"
proof -
  have "(c, net c es) \<notin> set (filter (\<lambda>(_, v). v \<noteq> 0) sums)" using assms(2) by simp
  moreover have "distinct (map fst sums)" using add_sums_distinct [OF assms(1)] by simp
  ultimately show ?thesis using add_sums_Inr [OF assms(1), of c] by (simp only: unbalanced_iff) simp
qed

lemma balanced_new_Inr:
  "balanced_new k es = Inr t \<Longrightarrow>
     2 \<le> length es \<and> (\<forall>c. net c es = 0) \<and> t = \<lparr>bt_kind = k, bt_entries = es\<rparr>"
  by (auto simp: balanced_new_def rbind_Inr Let_def split: if_splits dest: unbalanced_empty)

lemma add_sums_running: "(\<exists>sums. add_sums es [] = Inr sums) \<longleftrightarrow> running_sums_fit es"
  using add_sums_ok [of "[]" es] by (simp add: running_sums_fit_def in_i64_iff)

text \<open>
  \<open>BalancedTransaction::new\<close>, on every list of entries: fewer than two entries are refused; a
  running sum that leaves \<open>i64\<close> is an overflow; otherwise the transaction is built exactly when the
  entries of every currency sum to zero, and the error lists every currency that does not, with its
  total, in the order of the currency codes whatever order the hash map iterates in.
\<close>
theorem balanced_new_spec:
  "balanced_new k es =
    (if length es < 2 then Inl (TooFewEntries (length es))
     else if \<not> running_sums_fit es then Inl LedgerOverflow
     else if \<exists>c. net c es \<noteq> 0 then
       Inl (Unbalanced (map (\<lambda>c. (c, net c es)) (filter (\<lambda>c. net c es \<noteq> 0) currencies_by_code)))
     else Inr \<lparr>bt_kind = k, bt_entries = es\<rparr>)"
proof (cases "add_sums es []")
  case (Inl e)
  then have "\<not> running_sums_fit es" "e = LedgerOverflow"
    using add_sums_running [of es] add_sums_cases [of es "[]"] by auto
  with Inl show ?thesis by (simp add: balanced_new_def)
next
  case (Inr sums)
  let ?r = "map (\<lambda>c. (c, net c es)) (filter (\<lambda>c. net c es \<noteq> 0) currencies_by_code)"
  have fit: "running_sums_fit es" using add_sums_running [of es] Inr by blast
  have all: "c \<in> set currencies_by_code" for c
    by (cases c) (simp_all add: currencies_by_code_def)
  have sorted: "sort_key (\<lambda>(c, _). code c) (filter (\<lambda>(_, v). v \<noteq> 0) sums) = ?r"
    by (rule unbalanced_sorted [OF Inr])
  have "length (filter (\<lambda>(_, v). v \<noteq> 0) sums) = length ?r"
    using arg_cong [OF sorted, of length] by (simp only: length_sort)
  then have "filter (\<lambda>(_, v). v \<noteq> 0) sums = [] \<longleftrightarrow> ?r = []"
    by (simp only: length_0_conv [symmetric])
  also have "\<dots> \<longleftrightarrow> (\<forall>c. net c es = 0)"
    by (simp only: map_is_Nil_conv filter_empty_conv all not_not simp_thms Ball_def)
  finally have empty: "filter (\<lambda>(_, v). v \<noteq> 0) sums = [] \<longleftrightarrow> (\<forall>c. net c es = 0)" .
  have "balanced_new k es =
    (if length es < 2 then Inl (TooFewEntries (length es))
     else if \<not> (\<forall>c. net c es = 0) then Inl (Unbalanced ?r)
     else Inr \<lparr>bt_kind = k, bt_entries = es\<rparr>)"
    by (simp only: balanced_new_def Inr rbind_simps Let_def sorted empty)
  with fit show ?thesis by (simp only: not_True_eq_False if_False not_all)
qed

section \<open>The totals of a balanced transaction\<close>

definition debits :: "currency \<Rightarrow> ledger_entry list \<Rightarrow> int" where
  "debits c es = sum_list (map entry_minor (filter (\<lambda>e. entry_currency e = c \<and> is_debit e) es))"

definition credits :: "currency \<Rightarrow> ledger_entry list \<Rightarrow> int" where
  "credits c es = sum_list (map entry_minor (filter (\<lambda>e. entry_currency e = c \<and> is_credit e) es))"

lemma net_credits_debits: "net c es = credits c es + debits c es"
  by (induction es)
    (auto simp: credits_def debits_def is_credit_def is_debit_def is_positive_def is_negative_def
      entry_minor_def)

lemma wrap64_wrap64_plus: "wrap64 (wrap64 a + b) = wrap64 (a + b)"
  by (simp add: wrap64_word flip: wi_hom_add)

lemma foldl_wrap64: "in_i64 a \<Longrightarrow> foldl (\<lambda>acc m. wrap64 (acc + m)) a ms = wrap64 (a + sum_list ms)"
  by (induction ms arbitrary: a)
    (auto simp: wrap64_id wrap64_in wrap64_wrap64_plus add.assoc)

lemma total_credited_eq: "total_credited t c = wrap64 (credits c (bt_entries t))"
  by (simp add: total_credited_def credits_def foldl_wrap64 in_i64_iff)

lemma currencies_seen_props:
  "distinct seen \<Longrightarrow> distinct (currencies_seen seen es) \<and>
     set (currencies_seen seen es) = set seen \<union> entry_currency ` set es"
  by (induction es arbitrary: seen) auto

text \<open>
  In a transaction that was built, the debits of every currency are the negated credits and
  \<open>total_credited\<close> returns them when they fit \<open>i64\<close>; \<open>currencies\<close> lists each currency once. The
  bound is needed: \<open>total_credited\<close> adds without a check, and the checked running sums of the
  constructor do not bound the credits alone.
\<close>
theorem total_credited_is_total_debited:
  assumes "balanced_new k es = Inr t"
  shows "credits c es = - debits c es \<and>
    (in_i64 (credits c es) \<longleftrightarrow> total_credited t c = - debits c es) \<and>
    distinct (currencies t) \<and> set (currencies t) = entry_currency ` set es"
proof (intro conjI)
  from balanced_new_Inr [OF assms] have t: "bt_entries t = es" and "net c es = 0" by auto
  then show *: "credits c es = - debits c es" using net_credits_debits [of c es] by simp
  show "in_i64 (credits c es) \<longleftrightarrow> total_credited t c = - debits c es"
    unfolding total_credited_eq t * [symmetric] using wrap64_id wrap64_in by metis
  show "distinct (currencies t)" "set (currencies t) = entry_currency ` set es"
    using currencies_seen_props [of "[]" es] t by (simp_all add: currencies_def)
qed

definition four_entries :: "ledger_entry list" where
  "four_entries = map (\<lambda>(a, v). \<lparr>entry_account_id = a, entry_amount = money_new v USD\<rparr>)
     [(1, 9223372036854775807), (2, - 9223372036854775807),
      (1, 9223372036854775807), (2, - 9223372036854775807)]"

theorem total_credited_is_total_debited_witness:
  "balanced_new FundsReleased four_entries = Inr \<lparr>bt_kind = FundsReleased, bt_entries = four_entries\<rparr> \<and>
   total_credited \<lparr>bt_kind = FundsReleased, bt_entries = four_entries\<rparr> USD \<noteq> - debits USD four_entries"
proof -
  have *: "balanced_new FundsReleased four_entries = Inr \<lparr>bt_kind = FundsReleased, bt_entries = four_entries\<rparr>"
    by (simp add: four_entries_def balanced_new_def entry_currency_def entry_minor_def slot_def
        checked_i64_in in_i64_iff)
  moreover have "\<not> in_i64 (credits USD four_entries)"
    by (simp add: credits_def four_entries_def entry_currency_def entry_minor_def is_credit_def
        is_positive_def in_i64_iff)
  ultimately show ?thesis
    using total_credited_is_total_debited [OF *, of USD] by metis
qed

end
