(* ===== verification/Aggregates.thy ===== *)
theory Aggregates
  imports Money Status Card
begin

text \<open>
  \<open>crates/domain/src/order.rs\<close>, \<open>payment.rs\<close> and \<open>payment_method.rs\<close>: the two aggregates of the
  payment flow. A Rust method on \<open>&mut self\<close> is a function that returns the changed record, or the
  error with the record left as it was. \<open>Id::new\<close> is drawn by the caller and passed in.
\<close>

datatype payment_method_type = Card_Method

fun payment_method_str :: "payment_method_type \<Rightarrow> string" where
  "payment_method_str Card_Method = ''card''"

section \<open>Orders\<close>

record order =
  o_id :: uuid
  o_merchant_id :: uuid
  o_amount :: money
  o_amount_paid :: int
  o_receipt :: "string option"
  o_notes :: note_map
  o_status :: order_status
  o_created_at :: instant

definition order_new ::
  "uuid \<Rightarrow> uuid \<Rightarrow> money \<Rightarrow> string option \<Rightarrow> note_map \<Rightarrow> instant \<Rightarrow> order" where
  "order_new i merchant amount receipt n now =
     \<lparr>o_id = i, o_merchant_id = merchant, o_amount = amount, o_amount_paid = 0, o_receipt = receipt,
      o_notes = n, o_status = Order_Created, o_created_at = now\<rparr>"

definition mark_attempted :: "order \<Rightarrow> invalid_order_transition + order" where
  "mark_attempted r =
     rbind (order_transition (o_status r) Order_Attempted) (\<lambda>s. Inr (r\<lparr>o_status := s\<rparr>))"

definition mark_paid :: "order \<Rightarrow> int \<Rightarrow> invalid_order_transition + order" where
  "mark_paid r amount_paid =
     rbind (order_transition (o_status r) Order_Paid) (\<lambda>s.
       Inr (r\<lparr>o_status := s, o_amount_paid := amount_paid\<rparr>))"

definition mark_expired :: "order \<Rightarrow> invalid_order_transition + order" where
  "mark_expired r =
     rbind (order_transition (o_status r) Order_Expired) (\<lambda>s. Inr (r\<lparr>o_status := s\<rparr>))"

definition is_fully_paid :: "order \<Rightarrow> bool" where
  "is_fully_paid r \<longleftrightarrow> o_amount_paid r \<ge> minor (o_amount r)"

definition amount_due :: "order \<Rightarrow> int" where
  "amount_due r = max (wrap64 (minor (o_amount r) - o_amount_paid r)) 0"

lemma mark_attempted_Inr:
  "mark_attempted r = Inr r' \<longleftrightarrow>
     order_can_transition_to (o_status r) Order_Attempted \<and> r' = r\<lparr>o_status := Order_Attempted\<rparr>"
  by (auto simp: mark_attempted_def rbind_Inr order_machine.trans_Inr_iff)

lemma mark_paid_Inr:
  "mark_paid r p = Inr r' \<longleftrightarrow>
     o_status r = Order_Attempted \<and> r' = r\<lparr>o_status := Order_Paid, o_amount_paid := p\<rparr>"
  by (cases "o_status r") (auto simp: mark_paid_def rbind_Inr order_machine.trans_Inr_iff)

section \<open>Payments\<close>

record payment =
  p_id :: uuid
  p_order_id :: uuid
  p_merchant_id :: uuid
  p_amount :: money
  p_amount_refunded :: int
  p_method :: payment_method_type
  p_card :: "card_details option"
  p_status :: payment_status
  p_error_code :: "string option"
  p_error_description :: "string option"
  p_notes :: note_map
  p_created_at :: instant
  p_captured_at :: "instant option"

definition new_card_attempt ::
  "uuid \<Rightarrow> uuid \<Rightarrow> uuid \<Rightarrow> money \<Rightarrow> card_details \<Rightarrow> note_map \<Rightarrow> instant \<Rightarrow> payment" where
  "new_card_attempt i order_id merchant amount details n now =
     \<lparr>p_id = i, p_order_id = order_id, p_merchant_id = merchant, p_amount = amount,
      p_amount_refunded = 0, p_method = Card_Method, p_card = Some details, p_status = Pay_Created,
      p_error_code = None, p_error_description = None, p_notes = n, p_created_at = now,
      p_captured_at = None\<rparr>"

definition mark_requires_action :: "payment \<Rightarrow> invalid_payment_transition + payment" where
  "mark_requires_action p =
     rbind (payment_transition (p_status p) Pay_RequiresAction) (\<lambda>s. Inr (p\<lparr>p_status := s\<rparr>))"

definition mark_authorized :: "payment \<Rightarrow> invalid_payment_transition + payment" where
  "mark_authorized p =
     rbind (payment_transition (p_status p) Pay_Authorized) (\<lambda>s. Inr (p\<lparr>p_status := s\<rparr>))"

definition mark_captured :: "payment \<Rightarrow> instant \<Rightarrow> invalid_payment_transition + payment" where
  "mark_captured p now =
     rbind (payment_transition (p_status p) Pay_Captured) (\<lambda>s.
       Inr (p\<lparr>p_status := s, p_captured_at := Some now\<rparr>))"

definition mark_failed ::
  "payment \<Rightarrow> string \<Rightarrow> string \<Rightarrow> invalid_payment_transition + payment" where
  "mark_failed p err_code description =
     rbind (payment_transition (p_status p) Pay_Failed) (\<lambda>s.
       Inr (p\<lparr>p_status := s, p_error_code := Some err_code, p_error_description := Some description\<rparr>))"

definition mark_refunded :: "payment \<Rightarrow> int \<Rightarrow> invalid_payment_transition + payment" where
  "mark_refunded p amount_refunded =
     rbind (payment_transition (p_status p) Pay_Refunded) (\<lambda>s.
       Inr (p\<lparr>p_status := s, p_amount_refunded := amount_refunded\<rparr>))"

definition amount_refundable :: "payment \<Rightarrow> int" where
  "amount_refundable p = max (wrap64 (minor (p_amount p) - p_amount_refunded p)) 0"

definition is_fully_refunded :: "payment \<Rightarrow> bool" where
  "is_fully_refunded p \<longleftrightarrow> p_amount_refunded p \<ge> minor (p_amount p)"

text \<open>\<open>Capturable\<close>, the proof that a payment may be captured, is the payment it wraps.\<close>

datatype capturable = Capturable payment

definition try_capturable :: "payment \<Rightarrow> invalid_payment_transition + capturable" where
  "try_capturable p =
     (if is_capturable (p_status p) then Inr (Capturable p)
      else Inl (InvalidPaymentTransition (p_status p) Pay_Captured))"

lemma mark_captured_Inr:
  "mark_captured p now = Inr p' \<longleftrightarrow>
     payment_can_transition_to (p_status p) Pay_Captured \<and>
     p' = p\<lparr>p_status := Pay_Captured, p_captured_at := Some now\<rparr>"
  by (auto simp: mark_captured_def rbind_Inr payment_machine.trans_Inr_iff)

lemma mark_refunded_Inr:
  "mark_refunded p n = Inr p' \<longleftrightarrow>
     p_status p = Pay_Captured \<and> p' = p\<lparr>p_status := Pay_Refunded, p_amount_refunded := n\<rparr>"
  by (cases "p_status p") (auto simp: mark_refunded_def rbind_Inr payment_machine.trans_Inr_iff)

lemma try_capturable_Inr: "try_capturable p = Inr c \<longleftrightarrow> p_status p = Pay_Authorized \<and> c = Capturable p"
  by (auto simp: try_capturable_def is_capturable_def)

text \<open>
  A payment taken out of \<open>Capturable\<close> can always be captured: the runtime check at the boundary is
  the only one that can fail, and capturing then stamps the capture time and changes nothing else.
  Every other status is refused with the transition that was attempted.
\<close>
theorem capturable_always_captures:
  "(case try_capturable p of
      Inr (Capturable q) \<Rightarrow>
        p_status p = Pay_Authorized \<and>
        mark_captured q now = Inr (p\<lparr>p_status := Pay_Captured, p_captured_at := Some now\<rparr>)
    | Inl e \<Rightarrow> p_status p \<noteq> Pay_Authorized \<and> e = InvalidPaymentTransition (p_status p) Pay_Captured)"
  by (simp add: try_capturable_def is_capturable_def mark_captured_Inr)

end
