(* ===== verification/Merchant_Key.thy ===== *)
theory Merchant_Key
  imports External
begin

text \<open>
  \<open>crates/domain/src/merchant.rs\<close> and \<open>api_key.rs\<close>: merchants and their credentials, with the stored
  form of an API key's scopes (\<open>crates/store/src/types.rs\<close>).
\<close>

section \<open>Merchants\<close>

datatype merchant_error = EmptyName | InvalidEmail string

record merchant =
  m_id :: uuid
  m_name :: string
  m_email :: string
  m_domains :: "string list"
  m_created_at :: instant

definition is_plausible_email :: "string \<Rightarrow> bool" where
  "is_plausible_email email =
     (case split_once CHR ''@'' email of
        None \<Rightarrow> False
      | Some (local_part, domain) \<Rightarrow>
          local_part \<noteq> [] \<and> CHR ''.'' \<in> set domain \<and> hd domain \<noteq> CHR ''.'' \<and> last domain \<noteq> CHR ''.'')"

definition merchant_new ::
  "uuid \<Rightarrow> string \<Rightarrow> string \<Rightarrow> instant \<Rightarrow> merchant_error + merchant" where
  "merchant_new i name email now =
     (if trim name = [] then Inl EmptyName
      else if \<not> is_plausible_email email then Inl (InvalidEmail email)
      else Inr \<lparr>m_id = i, m_name = name, m_email = email, m_domains = [], m_created_at = now\<rparr>)"

definition allow_checkout_domain :: "string \<Rightarrow> merchant \<Rightarrow> merchant" where
  "allow_checkout_domain domain m =
     (if domain \<in> set (m_domains m) then m else m\<lparr>m_domains := m_domains m @ [domain]\<rparr>)"

definition allows_checkout_origin :: "merchant \<Rightarrow> string \<Rightarrow> bool" where
  "allows_checkout_origin m origin = list_ex (\<lambda>d. d = origin) (m_domains m)"

lemma allow_checkout_domain_spec:
  "allows_checkout_origin (allow_checkout_domain d m) s \<longleftrightarrow> s = d \<or> allows_checkout_origin m s"
  "distinct (m_domains m) \<Longrightarrow> distinct (m_domains (allow_checkout_domain d m))"
  by (auto simp: allow_checkout_domain_def allows_checkout_origin_def list_ex_iff)

section \<open>API keys\<close>

datatype api_key_kind = Secret | Publishable

fun key_prefix :: "api_key_kind \<Rightarrow> string" where
  "key_prefix Secret = ''sk_test''"
| "key_prefix Publishable = ''pk_test''"

datatype scope = OrdersRead | OrdersWrite | PaymentsRead | PaymentsWrite | RefundsWrite | WebhooksManage

fun scope_str :: "scope \<Rightarrow> string" where
  "scope_str OrdersRead = ''orders:read''"
| "scope_str OrdersWrite = ''orders:write''"
| "scope_str PaymentsRead = ''payments:read''"
| "scope_str PaymentsWrite = ''payments:write''"
| "scope_str RefundsWrite = ''refunds:write''"
| "scope_str WebhooksManage = ''webhooks:manage''"

definition full_access :: "scope list" where
  "full_access = [OrdersRead, OrdersWrite, PaymentsRead, PaymentsWrite, RefundsWrite, WebhooksManage]"

definition publishable_default :: "scope list" where
  "publishable_default = []"

record api_key =
  k_id :: uuid
  k_merchant_id :: uuid
  k_kind :: api_key_kind
  k_label :: string
  k_scopes :: "scope list"
  k_secret_hash :: string
  k_last_used_at :: "instant option"
  k_revoked_at :: "instant option"
  k_created_at :: instant

definition api_key_new ::
  "uuid \<Rightarrow> uuid \<Rightarrow> api_key_kind \<Rightarrow> string \<Rightarrow> string \<Rightarrow> instant \<Rightarrow> api_key" where
  "api_key_new i merchant kind label secret_hash now =
     \<lparr>k_id = i, k_merchant_id = merchant, k_kind = kind, k_label = label,
      k_scopes = (case kind of Secret \<Rightarrow> full_access | Publishable \<Rightarrow> publishable_default),
      k_secret_hash = secret_hash, k_last_used_at = None, k_revoked_at = None, k_created_at = now\<rparr>"

definition has_scope :: "api_key \<Rightarrow> scope \<Rightarrow> bool" where
  "has_scope k s \<longleftrightarrow> s \<in> set (k_scopes k)"

definition is_revoked :: "api_key \<Rightarrow> bool" where
  "is_revoked k \<longleftrightarrow> k_revoked_at k \<noteq> None"

definition key_is_active :: "api_key \<Rightarrow> bool" where
  "key_is_active k \<longleftrightarrow> \<not> is_revoked k"

definition revoke :: "instant \<Rightarrow> api_key \<Rightarrow> api_key" where
  "revoke now k = (if k_revoked_at k = None then k\<lparr>k_revoked_at := Some now\<rparr> else k)"

definition record_use :: "instant \<Rightarrow> api_key \<Rightarrow> api_key" where
  "record_use now k = k\<lparr>k_last_used_at := Some now\<rparr>"

section \<open>Scopes in the database\<close>

definition scopes_to_strings :: "scope list \<Rightarrow> string list" where
  "scopes_to_strings ss = map scope_str ss"

definition parse_scope :: "string \<Rightarrow> scope option" where
  "parse_scope s =
     (if s = ''orders:read'' then Some OrdersRead
      else if s = ''orders:write'' then Some OrdersWrite
      else if s = ''payments:read'' then Some PaymentsRead
      else if s = ''payments:write'' then Some PaymentsWrite
      else if s = ''refunds:write'' then Some RefundsWrite
      else if s = ''webhooks:manage'' then Some WebhooksManage
      else None)"

definition scopes_from_strings :: "string list \<Rightarrow> scope list" where
  "scopes_from_strings raw = List.map_filter parse_scope raw"

interpretation scope_codec: string_codec scope_str parse_scope
proof
  show "parse_scope (scope_str a) = Some a" for a
    by (cases a) (simp_all add: parse_scope_def)
  show "parse_scope s = Some a \<Longrightarrow> s = scope_str a" for s a
    by (auto simp: parse_scope_def split: if_splits)
qed

text \<open>
  The scopes of a key survive the database unchanged, and what is read from any stored array
  grants exactly the scopes whose own names stand in it: an unknown or misspelt name grants nothing.
\<close>
theorem scopes_roundtrip:
  "scopes_from_strings (scopes_to_strings ss) = ss \<and>
   set (scopes_from_strings raw) = {s. scope_str s \<in> set raw}"
  unfolding scopes_from_strings_def scopes_to_strings_def
  using scope_codec.decode_list scope_codec.decode_list_set by simp

end
