(* ===== verification/Fees.thy ===== *)
theory Fees
  imports Money
begin

text \<open>
  \<open>crates/engine/fees.rs\<close>: the fee schedule per currency and the breakdown of the fee on an amount.
\<close>

record fee_schedule =
  percent_bps :: int
  fixed_minor :: int
  tax_percent :: int

fun schedule_for_currency :: "currency \<Rightarrow> fee_schedule" where
  "schedule_for_currency INR = \<lparr>percent_bps = 200, fixed_minor = 300, tax_percent = 18\<rparr>"
| "schedule_for_currency _ = \<lparr>percent_bps = 200, fixed_minor = 30, tax_percent = 0\<rparr>"

record fee_breakdown =
  fee_base :: int
  fee_tax :: int
  fee_total :: int
  fee_currency :: currency

definition compute_fees :: "fee_schedule \<Rightarrow> money \<Rightarrow> money_error + fee_breakdown" where
  "compute_fees s amount =
     rbind (percent amount (percent_bps s) 10000) (\<lambda>percent_part.
     rbind (ok_or (checked_i64 (minor percent_part + fixed_minor s)) MoneyOverflow) (\<lambda>b.
     rbind (percent (money_new b (curr amount)) (tax_percent s) 100) (\<lambda>t.
     rbind (ok_or (checked_i64 (b + minor t)) MoneyOverflow) (\<lambda>total.
     Inr \<lparr>fee_base = b, fee_tax = minor t, fee_total = total, fee_currency = curr amount\<rparr>))))"

section \<open>The breakdown of a fee\<close>

definition fixed_fee :: "currency \<Rightarrow> int" where
  "fixed_fee c = fixed_minor (schedule_for_currency c)"

definition tax_rate :: "currency \<Rightarrow> int" where
  "tax_rate c = tax_percent (schedule_for_currency c)"

definition base_fee :: "money \<Rightarrow> int" where
  "base_fee m = rounded_quotient (minor m * 200) 10000 + fixed_fee (curr m)"

definition tax_on_fee :: "money \<Rightarrow> int" where
  "tax_on_fee m = rounded_quotient (base_fee m * tax_rate (curr m)) 100"

lemma schedule_sel:
  "percent_bps (schedule_for_currency c) = 200"
  "fixed_minor (schedule_for_currency c) = fixed_fee c"
  "tax_percent (schedule_for_currency c) = tax_rate c"
  by (cases c; simp add: fixed_fee_def tax_rate_def)+

lemma fixed_fee_pos: "0 < fixed_fee c" "fixed_fee c \<le> 300"
  by (cases c; simp add: fixed_fee_def)+

lemma tax_rate_bounds: "0 \<le> tax_rate c" "tax_rate c \<le> 18"
  by (cases c; simp add: tax_rate_def)+

lemma compute_fees_Inr:
  "compute_fees (schedule_for_currency (curr m)) m = Inr f \<Longrightarrow>
     fee_base f = base_fee m \<and> fee_tax f = tax_on_fee m \<and>
     fee_total f = base_fee m + tax_on_fee m \<and> fee_currency f = curr m \<and>
     in_i64 (fee_base f) \<and> in_i64 (fee_tax f) \<and> in_i64 (fee_total f)"
  by (auto simp: compute_fees_def rbind_Inr percent_Inr schedule_sel base_fee_def tax_on_fee_def)

lemma base_fee_pos: "0 \<le> minor m \<Longrightarrow> 0 < base_fee m"
  using fixed_fee_pos(1) [of "curr m"] rounded_quotient_nonneg [of "minor m * 200" 10000]
  by (simp add: base_fee_def)

lemma tax_on_fee_nonneg: "0 \<le> minor m \<Longrightarrow> 0 \<le> tax_on_fee m"
  using base_fee_pos [of m] tax_rate_bounds(1) [of "curr m"]
  by (simp add: tax_on_fee_def rounded_quotient_nonneg)

lemma base_fee_le:
  assumes "0 \<le> minor m"
  shows "base_fee m \<le> minor m + 300"
proof -
  have "rounded_quotient (minor m * 200) 10000 \<le> minor m"
    using assms by (intro rounded_quotient_le) simp_all
  then show ?thesis using fixed_fee_pos(2) [of "curr m"] by (simp add: base_fee_def)
qed

lemma base_fee_le_fraction:
  assumes "0 \<le> minor m"
  shows "base_fee m \<le> minor m div 50 + 301"
proof -
  have "rounded_quotient (minor m * 200) 10000 \<le> minor m div 50 + 1"
  proof (rule rounded_quotient_le)
    have "minor m < (minor m div 50 + 1) * 50" by presburger
    then show "minor m * 200 \<le> (minor m div 50 + 1) * 10000" by simp
    show "0 \<le> minor m div 50 + 1" using assms by (simp add: pos_imp_zdiv_nonneg_iff)
  qed (use assms in simp_all)
  then show ?thesis using fixed_fee_pos(2) [of "curr m"] by (simp add: base_fee_def)
qed

lemma tax_on_fee_le:
  assumes "0 \<le> minor m"
  shows "tax_on_fee m \<le> base_fee m"
  unfolding tax_on_fee_def using base_fee_pos [OF assms] tax_rate_bounds [of "curr m"]
  by (intro rounded_quotient_le) simp_all

lemma fee_bounds:
  assumes "0 \<le> minor m" and "in_i64 (minor m)"
  shows "in_i64 (rounded_quotient (minor m * 200) 10000)" "in_i64 (base_fee m)"
    "in_i64 (tax_on_fee m)" "in_i64 (base_fee m + tax_on_fee m)"
proof -
  note b = base_fee_le_fraction [OF assms(1)] base_fee_pos [OF assms(1)] tax_on_fee_le [OF assms(1)]
    tax_on_fee_nonneg [OF assms(1)] fixed_fee_pos [of "curr m"]
  have "minor m div 50 \<le> 9223372036854775807 div 50"
    using assms(2) by (intro zdiv_mono1) (simp_all add: in_i64_iff)
  then have "minor m div 50 \<le> 184467440737095516" by simp
  moreover have "base_fee m = rounded_quotient (minor m * 200) 10000 + fixed_fee (curr m)"
    by (simp add: base_fee_def)
  moreover have "0 \<le> rounded_quotient (minor m * 200) 10000"
    using assms(1) by (intro rounded_quotient_nonneg) simp_all
  ultimately show "in_i64 (rounded_quotient (minor m * 200) 10000)" "in_i64 (base_fee m)"
    "in_i64 (tax_on_fee m)" "in_i64 (base_fee m + tax_on_fee m)"
    using b by (simp_all only: in_i64_iff) linarith+
qed

lemma compute_fees_ok:
  assumes "0 \<le> minor m" and "in_i64 (minor m)"
  shows "compute_fees (schedule_for_currency (curr m)) m =
    Inr \<lparr>fee_base = base_fee m, fee_tax = tax_on_fee m, fee_total = base_fee m + tax_on_fee m,
         fee_currency = curr m\<rparr>"
  using fee_bounds [OF assms]
  by (simp add: compute_fees_def percent_def schedule_sel base_fee_def tax_on_fee_def checked_i64_in
      money_new_def)

text \<open>
  The fee on every amount that is not negative is computed without overflow, up to the largest
  \<open>i64\<close>: its base is two percent rounded to the nearest minor unit with halves up, plus the fixed
  part; its tax is the currency's rate on that base, rounded the same way; the total is their sum,
  the base is at least the fixed part and the tax never exceeds the base.
\<close>
theorem fees_of_any_amount:
  assumes "0 \<le> minor m" and "in_i64 (minor m)"
  shows "\<exists>f. compute_fees (schedule_for_currency (curr m)) m = Inr f \<and>
    2 * \<bar>(fee_base f - fixed_fee (curr m)) * 10000 - minor m * 200\<bar> \<le> 10000 \<and>
    2 * \<bar>fee_tax f * 100 - fee_base f * tax_rate (curr m)\<bar> \<le> 100 \<and>
    fee_total f = fee_base f + fee_tax f \<and> in_i64 (fee_total f) \<and>
    fixed_fee (curr m) \<le> fee_base f \<and> 0 \<le> fee_tax f \<and> fee_tax f \<le> fee_base f"
proof -
  have "0 \<le> rounded_quotient (minor m * 200) 10000"
    using assms(1) by (intro rounded_quotient_nonneg) simp_all
  then show ?thesis
    using compute_fees_ok [OF assms] fee_bounds(4) [OF assms] tax_on_fee_nonneg [OF assms(1)]
      tax_on_fee_le [OF assms(1)]
      rounded_quotient_nearest [of 10000 "minor m * 200"]
      rounded_quotient_nearest [of 100 "base_fee m * tax_rate (curr m)"]
    by (simp add: base_fee_def tax_on_fee_def)
qed

theorem fees_of_any_amount_witness:
  "(\<exists>f. compute_fees (schedule_for_currency INR) (money_new 150000 INR) = Inr f \<and> fee_total f = 3894) \<and>
   (\<exists>f. compute_fees (schedule_for_currency INR) (money_new 9223372036854775807 INR) = Inr f \<and>
      in_i64 (fee_total f))"
proof
  have "rounded_quotient 30000000 10000 = 3000" "rounded_quotient 59400 100 = 594"
    by (simp_all add: rounded_quotient_nonneg_eq)
  then show "\<exists>f. compute_fees (schedule_for_currency INR) (money_new 150000 INR) = Inr f \<and> fee_total f = 3894"
    using compute_fees_ok [of "money_new 150000 INR"]
    by (simp add: base_fee_def tax_on_fee_def fixed_fee_def tax_rate_def in_i64_iff)
  show "\<exists>f. compute_fees (schedule_for_currency INR) (money_new 9223372036854775807 INR) = Inr f \<and>
      in_i64 (fee_total f)"
    using fees_of_any_amount [of "money_new 9223372036854775807 INR"] by (auto simp: in_i64_iff)
qed

end
