(* ===== verification/Crypto.thy ===== *)
theory Crypto
  imports External
begin

text \<open>
  \<open>crates/crypto\<close>: signed headers and handoffs (\<open>signing.rs\<close>), envelope encryption
  (\<open>encryption.rs\<close>), API keys (\<open>api_key.rs\<close>), card fingerprints (\<open>fingerprint.rs\<close>) and digests
  (\<open>digest.rs\<close>). The primitives (HMAC, SHA-256, AES-GCM, hexadecimal) are parameters; the bytes the
  operating system's generator fills in are arguments.
\<close>

section \<open>Digests, fingerprints, API keys\<close>

definition sha256_hex :: "ext \<Rightarrow> string \<Rightarrow> string" where
  "sha256_hex X bytes = hex_encode X (sha256 X bytes)"

definition card_fingerprint :: "ext \<Rightarrow> string \<Rightarrow> string \<Rightarrow> string" where
  "card_fingerprint X pepper card_number =
     take 32 (hex_encode X (hmac_sha256 X pepper (filter is_digit card_number)))"

definition lookup_hash :: "ext \<Rightarrow> string \<Rightarrow> string" where
  "lookup_hash X plaintext = sha256_hex X plaintext"

record generated_key =
  gk_plaintext :: string
  gk_hash :: string

definition generate_key :: "ext \<Rightarrow> string \<Rightarrow> string \<Rightarrow> generated_key" where
  "generate_key X prefix random_bytes =
     (let plaintext = prefix @ ''_'' @ hex_encode X random_bytes in
      \<lparr>gk_plaintext = plaintext, gk_hash = lookup_hash X plaintext\<rparr>)"

definition split_prefix :: "string \<Rightarrow> (string \<times> string) option" where
  "split_prefix key =
     (case split_once CHR ''_'' (rev key) of
        None \<Rightarrow> None
      | Some (b, p) \<Rightarrow> let prefix = rev p; body = rev b in
          if prefix = [] \<or> body = [] then None else Some (prefix, body))"

definition is_test_key :: "string \<Rightarrow> bool" where
  "is_test_key key \<longleftrightarrow> strip_prefix ''sk_test_'' key \<noteq> None \<or> strip_prefix ''pk_test_'' key \<noteq> None"

text \<open>
  A generated key splits back into the prefix it was made with, whatever underscores that prefix
  has, and the hash that is stored with it is the one under which the presented key is looked up;
  a key made with either prefix of the sandbox passes the test-key check.
\<close>
theorem generated_key_splits:
  assumes "hex_text_ok X" and "prefix \<noteq> []" and "random_bytes \<noteq> []"
  shows "split_prefix (gk_plaintext (generate_key X prefix random_bytes))
      = Some (prefix, hex_encode X random_bytes) \<and>
    gk_hash (generate_key X prefix random_bytes)
      = lookup_hash X (gk_plaintext (generate_key X prefix random_bytes)) \<and>
    (prefix = ''sk_test'' \<or> prefix = ''pk_test'' \<longrightarrow>
      is_test_key (gk_plaintext (generate_key X prefix random_bytes)))"
proof -
  have "list_all (\<lambda>c. is_digit c \<or> c \<in> set ''abcdef'') (hex_encode X random_bytes)"
    and ne: "hex_encode X random_bytes \<noteq> []"
    using assms by (simp_all add: hex_text_ok_def)
  then have "CHR ''_'' \<notin> set (rev (hex_encode X random_bytes))"
    by (auto simp: list_all_iff is_digit_def)
  then have "split_once CHR ''_'' (rev (hex_encode X random_bytes) @ CHR ''_'' # rev prefix)
      = Some (rev (hex_encode X random_bytes), rev prefix)"
    by (simp add: split_once_Some)
  with ne assms(2) show ?thesis
    by (auto simp: split_prefix_def generate_key_def Let_def is_test_key_def strip_prefix_def)
qed

theorem generated_key_splits_witness:
  "hex_text_ok demo_ext \<and>
   split_prefix (gk_plaintext (generate_key demo_ext ''sk_test'' ''ab'')) = Some (''sk_test'', ''6162'') \<and>
   is_test_key (gk_plaintext (generate_key demo_ext ''sk_test'' ''ab''))"
proof -
  have "hex_encode demo_ext ''ab'' = ''6162''"
    by (simp add: demo_ext_def hex_char_def)
  then show ?thesis
    using generated_key_splits [OF demo_hex_text_ok, of "''sk_test''" "''ab''"]
    by (simp add: demo_hex_text_ok)
qed

section \<open>Signed headers\<close>

datatype signature_error = MalformedHeader | SigMismatch | TimestampOutOfRange int int

definition default_tolerance_secs :: int where
  "default_tolerance_secs = 300"

definition signed_mac :: "ext \<Rightarrow> string \<Rightarrow> int \<Rightarrow> string \<Rightarrow> string" where
  "signed_mac X secret timestamp payload = hmac_sha256 X secret (show_int timestamp @ ''.'' @ payload)"

definition sig_compute :: "ext \<Rightarrow> string \<Rightarrow> int \<Rightarrow> string \<Rightarrow> string" where
  "sig_compute X secret timestamp payload = hex_encode X (signed_mac X secret timestamp payload)"

definition build_header :: "ext \<Rightarrow> string \<Rightarrow> int \<Rightarrow> string \<Rightarrow> string" where
  "build_header X secret timestamp payload =
     (let sg = sig_compute X secret timestamp payload in ''t='' @ show_int timestamp @ '',v1='' @ sg)"

text \<open>The loop of \<open>parse_header\<close> over the comma-separated parts.\<close>

fun parse_parts ::
  "string list \<Rightarrow> int option \<Rightarrow> string option \<Rightarrow> signature_error + (int option \<times> string option)" where
  "parse_parts [] timestamp sg = Inr (timestamp, sg)"
| "parse_parts (part # parts) timestamp sg =
     (case split_once CHR ''='' (trim part) of
        None \<Rightarrow> Inl MalformedHeader
      | Some (k, v) \<Rightarrow>
          if k = ''t'' then parse_parts parts (parse_i64 v) sg
          else if k = ''v1'' then parse_parts parts timestamp (Some v)
          else parse_parts parts timestamp sg)"

definition parse_header :: "string \<Rightarrow> signature_error + (int \<times> string)" where
  "parse_header header =
     rbind (parse_parts (split_on CHR '','' header) None None) (\<lambda>r.
       case r of (Some t, Some s) \<Rightarrow> Inr (t, s) | _ \<Rightarrow> Inl MalformedHeader)"

definition sig_verify ::
  "ext \<Rightarrow> string \<Rightarrow> string \<Rightarrow> string \<Rightarrow> int \<Rightarrow> int \<Rightarrow> signature_error + unit" where
  "sig_verify X secret header payload now_unix tolerance_secs =
     rbind (parse_header header) (\<lambda>(timestamp, provided).
     let drift = wrap64 \<bar>wrap64 (now_unix - timestamp)\<bar> in
     if drift > tolerance_secs then Inl (TimestampOutOfRange drift tolerance_secs)
     else rbind (ok_or (hex_decode X provided) MalformedHeader) (\<lambda>provided_bytes.
       if provided_bytes = signed_mac X secret timestamp payload then Inr () else Inl SigMismatch))"

definition handoff_mac :: "ext \<Rightarrow> string \<Rightarrow> string \<Rightarrow> string \<Rightarrow> string" where
  "handoff_mac X secret_key order_id payment_id = hmac_sha256 X secret_key (order_id @ ''|'' @ payment_id)"

definition sign_handoff :: "ext \<Rightarrow> string \<Rightarrow> string \<Rightarrow> string \<Rightarrow> string" where
  "sign_handoff X secret_key order_id payment_id =
     hex_encode X (handoff_mac X secret_key order_id payment_id)"

definition verify_handoff ::
  "ext \<Rightarrow> string \<Rightarrow> string \<Rightarrow> string \<Rightarrow> string \<Rightarrow> signature_error + unit" where
  "verify_handoff X secret_key order_id payment_id provided =
     rbind (ok_or (hex_decode X provided) MalformedHeader) (\<lambda>provided_bytes.
       if provided_bytes = handoff_mac X secret_key order_id payment_id then Inr () else Inl SigMismatch)"

definition generate_webhook_secret :: "ext \<Rightarrow> string \<Rightarrow> string" where
  "generate_webhook_secret X random_bytes = ''whsec_'' @ hex_encode X random_bytes"

lemma hex_chars: "hex_text_ok X \<Longrightarrow> c \<in> set (hex_encode X m) \<Longrightarrow> is_digit c \<or> c \<in> set ''abcdef''"
  unfolding hex_text_ok_def list_all_iff by blast

lemma hex_no_comma: "hex_text_ok X \<Longrightarrow> CHR '','' \<notin> set (hex_encode X m)"
  using hex_chars [of X "CHR '',''" m] by (auto simp: is_digit_def)

lemma hex_last_visible:
  assumes "hex_text_ok X"
  shows "\<exists>s d. CHR ''='' # hex_encode X m = s @ [d] \<and> ascii_visible d"
proof (cases "hex_encode X m" rule: rev_cases)
  case Nil
  then show ?thesis by (simp add: ascii_visible_def)
next
  case (snoc ys y)
  have "is_digit y \<or> y \<in> set ''abcdef''" using hex_chars [OF assms, of y m] snoc by simp
  then have "ascii_visible y" by (auto simp: is_digit_def ascii_visible_def)
  with snoc show ?thesis by auto
qed

lemma parse_header_built:
  assumes "hex_text_ok X" and "in_i64 t"
  shows "parse_header (build_header X secret t payload) = Inr (t, sig_compute X secret t payload)"
proof -
  obtain s d where t: "show_int t = s @ [d]" "ascii_visible d" "CHR '','' \<notin> set (show_int t)"
    using show_int_plain [of t] by blast
  have vis: "ascii_visible CHR ''t''" "ascii_visible CHR ''v''" by (simp_all add: ascii_visible_def)
  have 1: "trim (''t='' @ show_int t) = ''t='' @ show_int t"
    using trim_visible [OF vis(1) t(2), of "CHR ''='' # s"] by (simp add: t(1))
  obtain r e where h: "CHR ''='' # hex_encode X (signed_mac X secret t payload) = r @ [e]" "ascii_visible e"
    using hex_last_visible [OF assms(1)] by blast
  have 2: "trim (''v1='' @ hex_encode X (signed_mac X secret t payload))
      = ''v1='' @ hex_encode X (signed_mac X secret t payload)"
    using trim_visible [OF vis(2) h(2), of "CHR ''1'' # r"] by (simp add: h(1))
  have "split_on CHR '','' (build_header X secret t payload)
      = [''t='' @ show_int t, ''v1='' @ hex_encode X (signed_mac X secret t payload)]"
    using split_on_sep [of "CHR '',''" "''t='' @ show_int t" "''v1='' @ hex_encode X (signed_mac X secret t payload)"]
      split_on_no_sep [of "CHR '',''" "''v1='' @ hex_encode X (signed_mac X secret t payload)"]
      t(3) hex_no_comma [OF assms(1)]
    by (simp add: build_header_def sig_compute_def)
  with 1 2 assms(2) show ?thesis
    by (simp add: parse_header_def sig_compute_def)
qed

lemma wrap64_over:
  assumes "2 ^ 63 \<le> x" and "x < 2 ^ 63 + 2 ^ 64"
  shows "wrap64 x = x - 2 ^ 64"
proof -
  have "(x + 2 ^ 63 - 2 ^ 64) mod 2 ^ 64 = x + 2 ^ 63 - 2 ^ 64"
    using assms by (intro mod_pos_pos_trivial) simp_all
  then have "(x + 2 ^ 63) mod 2 ^ 64 = x + 2 ^ 63 - 2 ^ 64"
    by (simp only: minus_mod_self2)
  then show ?thesis
    by (simp add: wrap64_def signed_take_bit_eq_take_bit_shift take_bit_eq_mod)
qed

lemma wrapped_drift:
  assumes "0 \<le> now" and "now < 2 ^ 62" and "in_i64 t" and "0 \<le> tol" and "tol < 2 ^ 62"
  shows "wrap64 \<bar>wrap64 (now - t)\<bar> \<le> tol \<longleftrightarrow> \<bar>now - t\<bar> \<le> tol \<or> now - t = 2 ^ 63"
proof (cases "in_i64 (now - t)")
  case True
  then show ?thesis
  proof (cases "now - t = - (2 ^ 63)")
    case True
    then show ?thesis using assms by (simp add: in_i64_iff)
  next
    case False
    with \<open>in_i64 (now - t)\<close> have "in_i64 \<bar>now - t\<bar>" by (auto simp: in_i64_iff abs_if)
    then show ?thesis using \<open>in_i64 (now - t)\<close> by (auto simp: wrap64_id in_i64_iff)
  qed
next
  case False
  have w: "wrap64 (now - t) = now - t - 2 ^ 64"
    using False assms by (intro wrap64_over) (auto simp: in_i64_iff)
  show ?thesis
  proof (cases "now - t = 2 ^ 63")
    case True
    then have "wrap64 \<bar>wrap64 (now - t)\<bar> = - (2 ^ 63)"
      unfolding w by (simp add: wrap64_def signed_take_bit_eq_take_bit_shift)
    with True assms show ?thesis by simp
  next
    case other: False
    then have "in_i64 \<bar>wrap64 (now - t)\<bar>" using False assms unfolding w by (auto simp: in_i64_iff)
    then have "wrap64 \<bar>wrap64 (now - t)\<bar> = \<bar>now - t - 2 ^ 64\<bar>" using w by (simp add: wrap64_id)
    then show ?thesis using other False assms by (auto simp: in_i64_iff)
  qed
qed

lemma sig_verify_built:
  assumes "hex_text_ok X" and "in_i64 t"
  shows "sig_verify X secret (build_header X secret t payload) payload now tol = Inr () \<longleftrightarrow>
    wrap64 \<bar>wrap64 (now - t)\<bar> \<le> tol"
  using assms by (simp add: sig_verify_def parse_header_built sig_compute_def hex_text_ok_def Let_def)

text \<open>
  C37. The replay window of a signed header. A header this crate built for a body is accepted for that
  body and secret exactly when its timestamp lies within the tolerance of the clock, or exactly
  \<open>2 ^ 63\<close> seconds before it: there the unchecked subtraction and \<open>abs\<close> wrap around in a release
  build and the drift comes out negative.
\<close>
theorem signed_header_window:
  assumes "hex_text_ok X" and "in_i64 t" and "0 \<le> now" and "now < 2 ^ 62" and "0 \<le> tol" and "tol < 2 ^ 62"
  shows "sig_verify X secret (build_header X secret t payload) payload now tol = Inr () \<longleftrightarrow>
    \<bar>now - t\<bar> \<le> tol \<or> now - t = 2 ^ 63"
  using sig_verify_built [OF assms(1,2)] wrapped_drift [OF assms(3,4,2,5,6)] by simp

theorem signed_header_window_witness:
  "sig_verify demo_ext ''whsec'' (build_header demo_ext ''whsec'' 1000 ''body'') ''body'' 1300 300 = Inr () \<and>
   sig_verify demo_ext ''whsec'' (build_header demo_ext ''whsec'' 1000 ''body'') ''body'' 1301 300 \<noteq> Inr () \<and>
   sig_verify demo_ext ''whsec'' (build_header demo_ext ''whsec'' (1301 - 2 ^ 63) ''body'') ''body'' 1301 300 = Inr ()"
  using signed_header_window [OF demo_hex_text_ok, of 1000 1300 300 "''whsec''" "''body''"]
    signed_header_window [OF demo_hex_text_ok, of 1000 1301 300 "''whsec''" "''body''"]
    signed_header_window [OF demo_hex_text_ok, of "1301 - 2 ^ 63" 1301 300 "''whsec''" "''body''"]
  by (simp add: in_i64_iff)

text \<open>
  Nothing unsigned is accepted: when verification succeeds, the header carries a timestamp and the
  hexadecimal text of the HMAC, under the secret, of that timestamp and that very body, and a
  handoff is accepted only with the HMAC of its own two ids.
\<close>
theorem accepted_header_is_signed:
  "(sig_verify X secret header payload now tol = Inr () \<longrightarrow>
      (\<exists>t s. parse_header header = Inr (t, s) \<and>
         hex_decode X s = Some (hmac_sha256 X secret (show_int t @ ''.'' @ payload)) \<and>
         wrap64 \<bar>wrap64 (now - t)\<bar> \<le> tol)) \<and>
   (verify_handoff X key a b provided = Inr () \<longleftrightarrow>
      hex_decode X provided = Some (hmac_sha256 X key (a @ ''|'' @ b)))"
  by (auto simp: sig_verify_def verify_handoff_def handoff_mac_def signed_mac_def rbind_Inr Let_def
      split: if_splits)

theorem accepted_header_is_signed_witness:
  "sig_verify demo_ext ''s'' (build_header demo_ext ''s'' 7 ''b'') ''b'' 7 300 = Inr () \<and>
   (\<exists>t sg. parse_header (build_header demo_ext ''s'' 7 ''b'') = Inr (t, sg) \<and>
      hex_decode demo_ext sg = Some (hmac_sha256 demo_ext ''s'' (show_int t @ ''.b'')))"
proof -
  have "sig_verify demo_ext ''s'' (build_header demo_ext ''s'' 7 ''b'') ''b'' 7 300 = Inr ()"
    by (simp add: sig_verify_built [OF demo_hex_text_ok] wrap64_id in_i64_iff)
  then show ?thesis
    using conjunct1 [OF accepted_header_is_signed
      [of demo_ext "''s''" "build_header demo_ext ''s'' 7 ''b''" "''b''" 7 300]]
    by auto
qed

section \<open>Envelope encryption\<close>

datatype encryption_error =
    InvalidKeyLength nat | InvalidKeyEncoding | EncryptFailed | DecryptFailed | MalformedCiphertext

definition nonce_len :: nat where
  "nonce_len = 12"

record envelope =
  env_ciphertext :: string
  env_wrapped_dek :: string

definition parse_key :: "ext \<Rightarrow> string \<Rightarrow> encryption_error + string" where
  "parse_key X hex_key =
     rbind (ok_or (hex_decode X hex_key) InvalidKeyEncoding) (\<lambda>bytes.
       if length bytes \<noteq> 32 then Inl (InvalidKeyLength (length bytes)) else Inr bytes)"

text \<open>\<open>seal\<close>, with the nonce it fills at random as an argument.\<close>

definition seal :: "ext \<Rightarrow> string \<Rightarrow> string \<Rightarrow> string \<Rightarrow> encryption_error + string" where
  "seal X key_bytes nonce plaintext =
     rbind (ok_or (aes_gcm_encrypt X key_bytes nonce plaintext) EncryptFailed) (\<lambda>c. Inr (nonce @ c))"

definition open_sealed :: "ext \<Rightarrow> string \<Rightarrow> string \<Rightarrow> encryption_error + string" where
  "open_sealed X key_bytes sealed =
     (if length sealed < nonce_len then Inl MalformedCiphertext
      else ok_or (aes_gcm_decrypt X key_bytes (take nonce_len sealed) (drop nonce_len sealed)) DecryptFailed)"

definition encrypt ::
  "ext \<Rightarrow> string \<Rightarrow> string \<Rightarrow> string \<Rightarrow> string \<Rightarrow> string \<Rightarrow> encryption_error + envelope" where
  "encrypt X kek_hex dek nonce1 nonce2 plaintext =
     rbind (parse_key X kek_hex) (\<lambda>kek.
     rbind (seal X dek nonce1 plaintext) (\<lambda>c.
     rbind (seal X kek nonce2 dek) (\<lambda>w.
     Inr \<lparr>env_ciphertext = c, env_wrapped_dek = w\<rparr>)))"

definition decrypt :: "ext \<Rightarrow> string \<Rightarrow> envelope \<Rightarrow> encryption_error + string" where
  "decrypt X kek_hex env =
     rbind (parse_key X kek_hex) (\<lambda>kek.
     rbind (open_sealed X kek (env_wrapped_dek env)) (\<lambda>dek_bytes.
     if length dek_bytes \<noteq> 32 then Inl MalformedCiphertext
     else open_sealed X dek_bytes (env_ciphertext env)))"

definition rewrap ::
  "ext \<Rightarrow> string \<Rightarrow> string \<Rightarrow> string \<Rightarrow> envelope \<Rightarrow> encryption_error + envelope" where
  "rewrap X old_kek_hex new_kek_hex nonce env =
     rbind (parse_key X old_kek_hex) (\<lambda>old_kek.
     rbind (parse_key X new_kek_hex) (\<lambda>new_kek.
     rbind (open_sealed X old_kek (env_wrapped_dek env)) (\<lambda>dek.
     rbind (seal X new_kek nonce dek) (\<lambda>w.
     Inr \<lparr>env_ciphertext = env_ciphertext env, env_wrapped_dek = w\<rparr>))))"

lemma open_seal:
  "aes_gcm_ok X \<Longrightarrow> length nonce = nonce_len \<Longrightarrow> seal X k nonce m = Inr s \<Longrightarrow> open_sealed X k s = Inr m"
  by (auto simp: seal_def open_sealed_def rbind_Inr aes_gcm_ok_def)

text \<open>
  C38. What is encrypted under a master key decrypts under that key to the same bytes, and after the key
  has been rotated it decrypts under the new key to the same bytes, although rotation never touches
  the ciphertext.
\<close>
theorem envelope_roundtrip:
  assumes "aes_gcm_ok X" and "length dek = 32"
    and "length n1 = nonce_len" and "length n2 = nonce_len" and "length n3 = nonce_len"
    and "encrypt X kek dek n1 n2 m = Inr env"
  shows "decrypt X kek env = Inr m \<and>
    (\<forall>new_kek env'. rewrap X kek new_kek n3 env = Inr env' \<longrightarrow>
       decrypt X new_kek env' = Inr m \<and> env_ciphertext env' = env_ciphertext env)"
proof -
  obtain k c w where k: "parse_key X kek = Inr k" "seal X dek n1 m = Inr c" "seal X k n2 dek = Inr w"
    and env: "env = \<lparr>env_ciphertext = c, env_wrapped_dek = w\<rparr>"
    using assms(6) by (auto simp: encrypt_def rbind_Inr)
  note opened = open_seal [OF assms(1,3) k(2)] open_seal [OF assms(1,4) k(3)]
  have "decrypt X new_kek env' = Inr m \<and> env_ciphertext env' = env_ciphertext env"
    if r: "rewrap X kek new_kek n3 env = Inr env'" for new_kek env'
  proof -
    obtain k' w' where k': "parse_key X new_kek = Inr k'" "seal X k' n3 dek = Inr w'"
      and "env' = \<lparr>env_ciphertext = c, env_wrapped_dek = w'\<rparr>"
      using r k(1) opened(2) by (auto simp: rewrap_def rbind_Inr env)
    then show ?thesis
      using open_seal [OF assms(1,5) k'(2)] opened(1) assms(2) by (simp add: decrypt_def env)
  qed
  moreover have "decrypt X kek env = Inr m"
    using k(1) opened assms(2) by (simp add: decrypt_def env)
  ultimately show ?thesis by blast
qed

definition demo_kek :: "string \<Rightarrow> string" where
  "demo_kek c = hex_encode demo_ext (concat (replicate 32 c))"

theorem envelope_roundtrip_witness:
  "\<exists>env env'. encrypt demo_ext (demo_kek ''k'') (replicate 32 CHR ''d'') (replicate 12 CHR ''1'')
       (replicate 12 CHR ''2'') ''secret'' = Inr env \<and>
     rewrap demo_ext (demo_kek ''k'') (demo_kek ''n'') (replicate 12 CHR ''3'') env = Inr env' \<and>
     decrypt demo_ext (demo_kek ''n'') env' = Inr ''secret''"
proof -
  have key: "parse_key demo_ext (demo_kek [c]) = Inr (concat (replicate 32 [c]))" for c
    using demo_hex_text_ok by (simp add: parse_key_def demo_kek_def hex_text_ok_def)
  let ?dek = "replicate 32 CHR ''d''" and ?n1 = "replicate 12 CHR ''1''"
  let ?n2 = "replicate 12 CHR ''2''" and ?n3 = "replicate 12 CHR ''3''"
  have sealed: "\<exists>c. seal demo_ext k n m = Inr c" for k n m
    by (simp add: seal_def demo_ext_def)
  obtain c w where "seal demo_ext ?dek ?n1 ''secret'' = Inr c"
    "seal demo_ext (concat (replicate 32 ''k'')) ?n2 ?dek = Inr w"
    using sealed by metis
  then obtain env where e: "encrypt demo_ext (demo_kek ''k'') ?dek ?n1 ?n2 ''secret'' = Inr env"
    by (simp only: encrypt_def key rbind_simps)
  then have "open_sealed demo_ext (concat (replicate 32 ''k'')) (env_wrapped_dek env) = Inr ?dek"
    by (auto simp only: encrypt_def key rbind_Inr rbind_simps envelope.simps sum.inject length_replicate
        nonce_len_def intro!: open_seal [OF demo_aes_gcm_ok])
  moreover obtain w' where "seal demo_ext (concat (replicate 32 ''n'')) ?n3 ?dek = Inr w'"
    using sealed by metis
  ultimately obtain env' where r: "rewrap demo_ext (demo_kek ''k'') (demo_kek ''n'') ?n3 env = Inr env'"
    by (simp only: rewrap_def key rbind_simps)
  show ?thesis
    using envelope_roundtrip [OF demo_aes_gcm_ok _ _ _ _ e, of ?n3] e r by (auto simp: nonce_len_def)
qed

end
