(* ===== verification/Db.thy ===== *)
theory Db
  imports External Ledger_Domain Aggregates Merchant_Key
begin

text \<open>
  The database the store crate works on: one record with the tables the migrations create (rows in
  insertion order) and the number of identifiers drawn so far, the errors of a statement with their
  conversion (\<open>crates/store/src/error.rs\<close>), inserts under the declared constraints, and transactions
  (\<open>tx.rs\<close>): a commit runs the deferred ledger trigger, and any failure restores every table.
  A transaction runs without interleaving: the rows it locks serialise the ones that conflict with it.
\<close>

section \<open>Rows\<close>

record order_row =
  or_id :: uuid
  or_merchant_id :: uuid
  or_amount_minor :: int
  or_currency :: string
  or_amount_paid :: int
  or_receipt :: "string option"
  or_notes :: json
  or_status :: order_status
  or_created_at :: instant

record payment_row =
  pr_id :: uuid
  pr_order_id :: uuid
  pr_merchant_id :: uuid
  pr_amount_minor :: int
  pr_currency :: string
  pr_amount_refunded :: int
  pr_method :: payment_method_type
  pr_card_last4 :: "string option"
  pr_card_brand :: "card_brand option"
  pr_card_exp_month :: "int option"
  pr_card_exp_year :: "int option"
  pr_card_fingerprint :: "string option"
  pr_status :: payment_status
  pr_error_code :: "string option"
  pr_error_description :: "string option"
  pr_notes :: json
  pr_created_at :: instant
  pr_captured_at :: "instant option"

record attempt_row =
  at_id :: uuid
  at_payment_id :: uuid
  at_number :: int
  at_outcome :: string
  at_decline_code :: "string option"
  at_latency_ms :: int
  at_created_at :: instant

datatype refund_status = Ref_Pending | Ref_Processed | Ref_Failed

record refund_row =
  rr_id :: uuid
  rr_payment_id :: uuid
  rr_merchant_id :: uuid
  rr_amount_minor :: int
  rr_currency :: string
  rr_reason :: "string option"
  rr_status :: refund_status
  rr_created_at :: instant
  rr_processed_at :: "instant option"

record account_row =
  ar_id :: uuid
  ar_merchant_id :: "uuid option"
  ar_account_type :: account_type
  ar_currency :: string
  ar_created_at :: instant

record ltxn_row =
  lt_id :: uuid
  lt_kind :: ledger_transaction_kind
  lt_reference_type :: "string option"
  lt_reference_id :: "uuid option"
  lt_description :: "string option"
  lt_created_at :: instant

record entry_row =
  er_id :: uuid
  er_transaction_id :: uuid
  er_account_id :: uuid
  er_amount_minor :: int
  er_currency :: string
  er_created_at :: instant

record event_row =
  ev_id :: uuid
  ev_merchant_id :: uuid
  ev_type :: string
  ev_payload :: json
  ev_api_version :: string
  ev_created_at :: instant

record endpoint_row =
  ep_id :: uuid
  ep_merchant_id :: uuid
  ep_url :: string
  ep_signing_secret :: string
  ep_enabled_events :: "string list"
  ep_disabled_at :: "instant option"
  ep_created_at :: instant

datatype delivery_status = Del_Pending | Del_Delivered | Del_Failed | Del_Dead

record delivery_row =
  dr_id :: uuid
  dr_event_id :: uuid
  dr_endpoint_id :: uuid
  dr_attempt :: int
  dr_status :: delivery_status
  dr_response_status :: "int option"
  dr_response_body :: "string option"
  dr_duration_ms :: "int option"
  dr_next_retry_at :: "instant option"
  dr_created_at :: instant
  dr_updated_at :: instant

datatype job_state = Job_Pending | Job_Running | Job_Completed | Job_Failed | Job_Dead

record job_row =
  jr_id :: uuid
  jr_kind :: string
  jr_payload :: json
  jr_state :: job_state
  jr_run_at :: instant
  jr_attempts :: int
  jr_max_attempts :: int
  jr_last_error :: "string option"
  jr_locked_at :: "instant option"
  jr_locked_by :: "string option"
  jr_created_at :: instant
  jr_updated_at :: instant

datatype idempotency_state = Idem_InProgress | Idem_Completed

record idem_row =
  ir_merchant_id :: uuid
  ir_key :: string
  ir_endpoint :: string
  ir_request_hash :: string
  ir_state :: idempotency_state
  ir_response_status :: "int option"
  ir_response_body :: "json option"
  ir_expires_at :: instant
  ir_created_at :: instant

record api_key_row =
  kr_id :: uuid
  kr_merchant_id :: uuid
  kr_kind :: api_key_kind
  kr_label :: string
  kr_scopes :: "string list"
  kr_secret_hash :: string
  kr_last_used_at :: "instant option"
  kr_revoked_at :: "instant option"
  kr_created_at :: instant

record db =
  db_merchants :: "merchant list"
  db_api_keys :: "api_key_row list"
  db_orders :: "order_row list"
  db_payments :: "payment_row list"
  db_attempts :: "attempt_row list"
  db_refunds :: "refund_row list"
  db_accounts :: "account_row list"
  db_ltxns :: "ltxn_row list"
  db_entries :: "entry_row list"
  db_events :: "event_row list"
  db_endpoints :: "endpoint_row list"
  db_deliveries :: "delivery_row list"
  db_jobs :: "job_row list"
  db_idem :: "idem_row list"
  uuid_calls :: nat

section \<open>Errors\<close>

datatype store_error =
    S_NotFound string
  | S_Conflict string
  | S_LedgerIntegrity string
  | S_CheckViolation string
  | S_Database sqlx_error
  | S_Decode string string

definition unwrap_or :: "'a \<Rightarrow> 'a option \<Rightarrow> 'a" where
  "unwrap_or d v = (case v of None \<Rightarrow> d | Some a \<Rightarrow> a)"

definition from_sqlx :: "sqlx_error \<Rightarrow> store_error" where
  "from_sqlx err =
     (case err of
        DatabaseError c k message \<Rightarrow>
          let err_code' = unwrap_or '''' c; constraint = unwrap_or '''' k;
              named = (if constraint = '''' then message else constraint) in
          if err_code' = ''23505'' then S_Conflict named
          else if err_code' = ''23514'' then S_CheckViolation named
          else if err_code' = ''23001'' then S_LedgerIntegrity message
          else S_Database err
      | _ \<Rightarrow> S_Database err)"

text \<open>The \<open>Display\<close> of a store error.\<close>

definition store_error_text :: "ext \<Rightarrow> store_error \<Rightarrow> string" where
  "store_error_text X e =
     (case e of
        S_NotFound resource \<Rightarrow> resource @ '' not found''
      | S_Conflict constraint \<Rightarrow> ''conflict: '' @ constraint
      | S_LedgerIntegrity message \<Rightarrow> ''ledger integrity violation: '' @ message
      | S_CheckViolation constraint \<Rightarrow> ''check constraint violated: '' @ constraint
      | S_Database err \<Rightarrow> sqlx_display X err
      | S_Decode what detail \<Rightarrow> ''failed to decode '' @ what @ '' from database: '' @ detail)"

definition store_is_not_found :: "store_error \<Rightarrow> bool" where
  "store_is_not_found e = (case e of S_NotFound _ \<Rightarrow> True | _ \<Rightarrow> False)"

definition store_is_conflict :: "store_error \<Rightarrow> bool" where
  "store_is_conflict e = (case e of S_Conflict _ \<Rightarrow> True | _ \<Rightarrow> False)"

section \<open>Statements\<close>

text \<open>
  What a written row must satisfy, as named conditions: first the CHECK constraints, then the unique
  indexes, then the foreign keys; the first one that fails is reported under its SQLSTATE.
\<close>

definition violation :: "ext \<Rightarrow> string \<Rightarrow> (string \<times> bool) list \<Rightarrow> sqlx_error option" where
  "violation X state conds =
     map_option (\<lambda>(name, _). DatabaseError (Some state) (Some name) (db_message X state name))
       (find (\<lambda>(_, holds). \<not> holds) conds)"

definition guard_row ::
  "ext \<Rightarrow> (string \<times> bool) list \<Rightarrow> (string \<times> bool) list \<Rightarrow> (string \<times> bool) list \<Rightarrow> store_error + unit" where
  "guard_row X checks uniques fkeys =
     (case violation X ''23514'' checks of
        Some e \<Rightarrow> Inl (from_sqlx e)
      | None \<Rightarrow> (case violation X ''23505'' uniques of
          Some e \<Rightarrow> Inl (from_sqlx e)
        | None \<Rightarrow> (case violation X ''23503'' fkeys of
            Some e \<Rightarrow> Inl (from_sqlx e)
          | None \<Rightarrow> Inr ())))"

lemma violation_None: "violation X s conds = None \<longleftrightarrow> list_all snd conds"
  by (induction conds) (auto simp: violation_def)

lemma guard_row_Inr [simp]:
  "guard_row X cs us fs = Inr u \<longleftrightarrow> list_all snd cs \<and> list_all snd us \<and> list_all snd fs"
  using violation_None [of X "''23514''" cs] violation_None [of X "''23505''" us]
    violation_None [of X "''23503''" fs]
  by (auto simp: guard_row_def split: option.splits)

lemma guard_row_ok [simp]:
  "list_all snd cs \<Longrightarrow> list_all snd us \<Longrightarrow> list_all snd fs \<Longrightarrow> guard_row X cs us fs = Inr ()"
  by (simp only: guard_row_Inr simp_thms)

lemma guard_row_conflict:
  assumes "guard_row X cs us fs = Inl e" and "list_all snd cs" and "list_all snd fs"
  shows "store_is_conflict e \<and> \<not> list_all snd us"
proof -
  have none: "violation X ''23514'' cs = None" "violation X ''23503'' fs = None"
    using assms(2,3) by (simp_all add: violation_None)
  show ?thesis
  proof (cases "violation X ''23505'' us")
    case None
    then show ?thesis using assms(1) none by (simp add: guard_row_def)
  next
    case (Some v)
    then have "\<exists>k msg. v = DatabaseError (Some ''23505'') k msg" by (auto simp: violation_def)
    moreover have "\<not> list_all snd us" using Some violation_None [of X "''23505''" us] by simp
    ultimately show ?thesis
      using assms(1) none Some by (auto simp: guard_row_def from_sqlx_def store_is_conflict_def unwrap_or_def Let_def)
  qed
qed

text \<open>The next identifier, and a change of the tables that cannot fail.\<close>

definition fresh_id :: "ext \<Rightarrow> (db, 'e, uuid) tx" where
  "fresh_id X = (\<lambda>w. (Inr (now_v7 X (uuid_calls w)), w\<lparr>uuid_calls := Suc (uuid_calls w)\<rparr>))"

definition modify :: "(db \<Rightarrow> db) \<Rightarrow> (db, 'e, unit) tx" where
  "modify f = (\<lambda>w. (Inr (), f w))"

text \<open>A statement that writes a row: the guard reads the tables, then the change is made.\<close>

definition guarded :: "(db \<Rightarrow> store_error + unit) \<Rightarrow> (db \<Rightarrow> db) \<Rightarrow> (db, store_error, unit) tx" where
  "guarded g f = (\<lambda>w. case g w of Inl e \<Rightarrow> (Inl e, w) | Inr _ \<Rightarrow> (Inr (), f w))"

lemma fresh_id_Inr [simp]:
  "fresh_id X w = (Inr i, w') \<longleftrightarrow>
     i = now_v7 X (uuid_calls w) \<and> w' = w\<lparr>uuid_calls := Suc (uuid_calls w)\<rparr>"
  by (auto simp: fresh_id_def)

lemma fresh_id_Inl [simp]: "fresh_id X w \<noteq> (Inl e, w')"
  by (simp add: fresh_id_def)

lemma modify_Inr [simp]: "modify f w = (Inr u, w') \<longleftrightarrow> w' = f w"
  by (auto simp: modify_def)

lemma guarded_Inr: "guarded g f w = (Inr u, w') \<longleftrightarrow> g w = Inr () \<and> w' = f w"
  by (auto simp: guarded_def split: sum.splits)

lemma guarded_Inl: "guarded g f w = (Inl e, w') \<longleftrightarrow> g w = Inl e \<and> w' = w"
  by (auto simp: guarded_def split: sum.splits)

text \<open>The columns \<open>amount_minor\<close> and \<open>currency\<close>, and the shape check on the latter.\<close>

definition money_to_columns :: "money \<Rightarrow> int \<times> string" where
  "money_to_columns m = (minor m, code (curr m))"

definition money_from_columns :: "int \<Rightarrow> string \<Rightarrow> store_error + money" where
  "money_from_columns m c =
     rbind (map_err (\<lambda>_. S_Decode ''currency'' c) (currency_from_str c)) (\<lambda>cur. Inr (money_new m cur))"

definition currency_from_column :: "string \<Rightarrow> store_error + currency" where
  "currency_from_column c = map_err (\<lambda>_. S_Decode ''currency'' c) (currency_from_str c)"

definition currency_shape :: "string \<Rightarrow> bool" where
  "currency_shape s \<longleftrightarrow>
     length s = 3 \<and> list_all (\<lambda>c. 65 \<le> (of_char c :: nat) \<and> (of_char c :: nat) \<le> 90) s"

lemma money_from_columns_Inr:
  "money_from_columns m c = Inr a \<longleftrightarrow> minor a = m \<and> c = code (curr a)"
  by (auto simp: money_from_columns_def rbind_Inr currency_from_str_Inr money_new_def)

lemma money_columns_roundtrip [simp]: "money_from_columns (minor m) (code (curr m)) = Inr m"
  by (simp add: money_from_columns_Inr)

lemma currency_from_column_Inr: "currency_from_column c = Inr d \<longleftrightarrow> c = code d"
  by (auto simp: currency_from_column_def currency_from_str_Inr)

lemma currency_shape_code [simp]: "currency_shape (code c)"
  by (cases c) (simp_all add: currency_shape_def)

section \<open>Rows by key\<close>

text \<open>
  Every repository reads a row by its primary key and converts it; the contract of that conversion is
  the locale \<open>row_codec\<close>, which each repository of the model interprets.
\<close>

definition fetch_row ::
  "string \<Rightarrow> ('r \<Rightarrow> uuid) \<Rightarrow> ('r \<Rightarrow> store_error + 'd) \<Rightarrow> uuid \<Rightarrow> 'r list \<Rightarrow> store_error + 'd" where
  "fetch_row what rkey from_row i rows =
     rbind (ok_or (find (\<lambda>r. rkey r = i) rows) (S_NotFound what)) from_row"

definition update_row :: "('r \<Rightarrow> uuid) \<Rightarrow> uuid \<Rightarrow> ('r \<Rightarrow> 'r) \<Rightarrow> 'r list \<Rightarrow> 'r list" where
  "update_row rkey i f rows = map (\<lambda>r. if rkey r = i then f r else r) rows"

definition has_row :: "('r \<Rightarrow> uuid) \<Rightarrow> uuid \<Rightarrow> 'r list \<Rightarrow> bool" where
  "has_row rkey i rows \<longleftrightarrow> list_ex (\<lambda>r. rkey r = i) rows"

lemma has_row_iff: "has_row k i rs \<longleftrightarrow> i \<in> k ` set rs"
  by (auto simp: has_row_def list_ex_iff)

lemma update_row_keys:
  "(\<And>r. k (f r) = k r) \<Longrightarrow> map k (update_row k i f rs) = map k rs"
  by (simp add: update_row_def)

lemma update_row_absent: "i \<notin> k ` set rs \<Longrightarrow> update_row k i f rs = rs"
  unfolding update_row_def by (rule map_idI) auto

lemma set_update_row:
  "set (update_row k i f rs) = {r \<in> set rs. k r \<noteq> i} \<union> f ` {r \<in> set rs. k r = i}"
  by (auto simp: update_row_def)

lemma find_key_Some:
  assumes "distinct (map k rs)"
  shows "find (\<lambda>r. k r = i) rs = Some r \<longleftrightarrow> r \<in> set rs \<and> k r = i"
  using assms by (induction rs) (auto simp: rev_image_eqI)

lemma find_key_None: "find (\<lambda>r. k r = i) rs = None \<longleftrightarrow> i \<notin> k ` set rs"
  by (induction rs) auto

lemma find_key_append:
  "find (\<lambda>r. k r = i) (rs @ [x]) =
     (case find (\<lambda>r. k r = i) rs of None \<Rightarrow> if k x = i then Some x else None | Some r \<Rightarrow> Some r)"
  by (induction rs) auto

lemma find_update_row:
  assumes "\<And>r. k (f r) = k r"
  shows "find (\<lambda>r. k r = j) (update_row k i f rs) =
    map_option (\<lambda>r. if k r = i then f r else r) (find (\<lambda>r. k r = j) rs)"
  by (induction rs) (auto simp: update_row_def assms)

locale row_codec =
  fixes what :: string
    and to_row :: "'d \<Rightarrow> 'r" and from_row :: "'r \<Rightarrow> store_error + 'd"
    and dkey :: "'d \<Rightarrow> uuid" and rkey :: "'r \<Rightarrow> uuid" and storable :: "'d \<Rightarrow> bool"
  assumes read_written: "storable d \<Longrightarrow> from_row (to_row d) = Inr d"
    and key_to_row: "rkey (to_row d) = dkey d"
    and key_from_row: "from_row r = Inr d \<Longrightarrow> dkey d = rkey r"
begin

lemma fetch_key: "fetch_row what rkey from_row i rs = Inr d \<Longrightarrow> dkey d = i"
  by (auto simp: fetch_row_def rbind_Inr find_Some_iff dest: key_from_row)

lemma fetch_inserted:
  "storable d \<Longrightarrow> dkey d \<notin> rkey ` set rs \<Longrightarrow> fetch_row what rkey from_row (dkey d) (rs @ [to_row d]) = Inr d"
  using find_key_None [of rkey "dkey d" rs]
  by (simp add: fetch_row_def find_key_append read_written key_to_row)

lemma fetch_other:
  "dkey d \<noteq> i \<Longrightarrow> fetch_row what rkey from_row i (rs @ [to_row d]) = fetch_row what rkey from_row i rs"
  by (auto simp: fetch_row_def find_key_append key_to_row split: option.splits)

lemma fetch_Inr:
  assumes "distinct (map rkey rs)"
  shows "fetch_row what rkey from_row i rs = Inr d \<longleftrightarrow> (\<exists>r \<in> set rs. rkey r = i \<and> from_row r = Inr d)"
  by (auto simp: fetch_row_def rbind_Inr find_key_Some [OF assms])

lemma fetch_missing: "i \<notin> rkey ` set rs \<Longrightarrow> fetch_row what rkey from_row i rs = Inl (S_NotFound what)"
  using find_key_None [of rkey i rs] by (simp add: fetch_row_def)

end

text \<open>A query, an update of the row with a key, and a page of rows, newest first.\<close>

definition query :: "(db \<Rightarrow> 'e + 'a) \<Rightarrow> (db, 'e, 'a) tx" where
  "query f = (\<lambda>w. (f w, w))"

definition update_one ::
  "ext \<Rightarrow> string \<Rightarrow> ('r \<Rightarrow> uuid) \<Rightarrow> (db \<Rightarrow> 'r list) \<Rightarrow> ('r list \<Rightarrow> db \<Rightarrow> db) \<Rightarrow>
   ('r \<Rightarrow> (string \<times> bool) list) \<Rightarrow> uuid \<Rightarrow> ('r \<Rightarrow> 'r) \<Rightarrow> (db, store_error, unit) tx" where
  "update_one X what rkey get set_table checks i f =
     guarded (\<lambda>w. case find (\<lambda>r. rkey r = i) (get w) of
         None \<Rightarrow> Inl (S_NotFound what) | Some r \<Rightarrow> guard_row X (checks (f r)) [] [])
       (\<lambda>w. set_table (update_row rkey i f (get w)) w)"

definition limit_rows :: "ext \<Rightarrow> int \<Rightarrow> 'r list \<Rightarrow> store_error + 'r list" where
  "limit_rows X limit rows =
     (if limit < 0 then Inl (S_Database (DatabaseError (Some ''2201W'') None (db_message X ''2201W'' ''limit'')))
      else Inr (take (nat limit) rows))"

definition newest_first :: "('r \<Rightarrow> instant) \<Rightarrow> 'r list \<Rightarrow> 'r list" where
  "newest_first created rows = sort_key (\<lambda>r. - created r) rows"

lemma query_Inr [simp]: "query f w = (Inr a, w') \<longleftrightarrow> f w = Inr a \<and> w' = w"
  by (auto simp: query_def)

lemma query_Inl [simp]: "query f w = (Inl e, w') \<longleftrightarrow> f w = Inl e \<and> w' = w"
  by (auto simp: query_def)

lemma update_one_Inr:
  "update_one X what k get upd checks i f w = (Inr u, w') \<longleftrightarrow>
     (\<exists>r. find (\<lambda>r. k r = i) (get w) = Some r \<and> list_all snd (checks (f r))) \<and>
     w' = upd (update_row k i f (get w)) w"
  by (auto simp: update_one_def guarded_Inr split: option.splits)

section \<open>Transactions\<close>

definition restore_tables :: "db \<Rightarrow> db \<Rightarrow> db" where
  "restore_tables before after = before\<lparr>uuid_calls := uuid_calls after\<rparr>"

text \<open>
  The trigger \<open>ledger_transaction_must_balance\<close>, deferred to the commit: for each entry the transaction
  inserted, the entries of its ledger transaction must sum to zero in every currency and be at least
  two. It raises \<open>integrity_constraint_violation\<close>, SQLSTATE 23000.
\<close>

definition entries_of :: "uuid \<Rightarrow> entry_row list \<Rightarrow> entry_row list" where
  "entries_of t es = filter (\<lambda>e. er_transaction_id e = t) es"

definition sum_in :: "string \<Rightarrow> entry_row list \<Rightarrow> int" where
  "sum_in c es = sum_list (map er_amount_minor (filter (\<lambda>e. er_currency e = c) es))"

definition txn_balanced :: "uuid \<Rightarrow> entry_row list \<Rightarrow> bool" where
  "txn_balanced t es \<longleftrightarrow>
     list_all (\<lambda>e. sum_in (er_currency e) (entries_of t es) = 0) (entries_of t es) \<and>
     2 \<le> length (entries_of t es)"

definition ledger_trigger :: "ext \<Rightarrow> db \<Rightarrow> db \<Rightarrow> sqlx_error option" where
  "ledger_trigger X before after =
     (let inserted = drop (length (db_entries before)) (db_entries after) in
      if list_all (\<lambda>e. txn_balanced (er_transaction_id e) (db_entries after)) inserted then None
      else Some (DatabaseError (Some ''23000'') None (db_message X ''23000'' ''ledger_entries_balance_check'')))"

definition run_tx :: "ext \<Rightarrow> (store_error \<Rightarrow> 'e) \<Rightarrow> (db, 'e, 'a) tx \<Rightarrow> (db, 'e, 'a) tx" where
  "run_tx X conv body = (\<lambda>w.
     case body w of
       (Inl e, w') \<Rightarrow> (Inl e, restore_tables w w')
     | (Inr a, w') \<Rightarrow>
         (case ledger_trigger X w w' of
            Some e \<Rightarrow> (Inl (conv (from_sqlx e)), restore_tables w w')
          | None \<Rightarrow> (Inr a, w')))"

lemma run_tx_Inr:
  "run_tx X conv m w = (Inr a, w') \<longleftrightarrow> m w = (Inr a, w') \<and> ledger_trigger X w w' = None"
  by (auto simp: run_tx_def split: prod.splits sum.splits option.splits)

lemma run_tx_Inl: "run_tx X conv m w = (Inl e, w') \<Longrightarrow> \<exists>n. w' = w\<lparr>uuid_calls := n\<rparr>"
  by (auto simp: run_tx_def restore_tables_def split: prod.splits sum.splits option.splits)

text \<open>\<open>LockOrder\<close>: the ranks in which rows are locked.\<close>

datatype lock_order = Lock_Payment | Lock_Order | Lock_Refund | Lock_Dispute | Lock_LedgerAccount

fun lock_rank :: "lock_order \<Rightarrow> nat" where
  "lock_rank Lock_Payment = 1"
| "lock_rank Lock_Order = 2"
| "lock_rank Lock_Refund = 3"
| "lock_rank Lock_Dispute = 4"
| "lock_rank Lock_LedgerAccount = 5"

instantiation lock_order :: linorder
begin

definition less_eq_lock_order :: "lock_order \<Rightarrow> lock_order \<Rightarrow> bool" where
  "less_eq_lock_order a b \<longleftrightarrow> lock_rank a \<le> lock_rank b"

definition less_lock_order :: "lock_order \<Rightarrow> lock_order \<Rightarrow> bool" where
  "less_lock_order a b \<longleftrightarrow> lock_rank a < lock_rank b"

instance
proof
  fix a b c :: lock_order
  show "a \<le> b \<Longrightarrow> b \<le> a \<Longrightarrow> a = b"
    by (cases a; cases b) (simp_all add: less_eq_lock_order_def)
qed (auto simp: less_eq_lock_order_def less_lock_order_def)

end

section \<open>A small database\<close>

text \<open>A database with one merchant and the platform accounts the migrations seed for one currency.\<close>

definition demo_merchant :: merchant where
  "demo_merchant = \<lparr>m_id = 7, m_name = ''Acme'', m_email = ''a@b.c'', m_domains = [], m_created_at = 0\<rparr>"

definition demo_account :: "uuid \<Rightarrow> account_type \<Rightarrow> account_row" where
  "demo_account i t =
     \<lparr>ar_id = i, ar_merchant_id = None, ar_account_type = t, ar_currency = ''INR'', ar_created_at = 0\<rparr>"

definition demo_db :: db where
  "demo_db = \<lparr>db_merchants = [demo_merchant], db_api_keys = [], db_orders = [], db_payments = [],
     db_attempts = [], db_refunds = [],
     db_accounts = [demo_account 1 GatewayClearing, demo_account 2 PlatformRevenue, demo_account 3 TaxPayable],
     db_ltxns = [], db_entries = [], db_events = [], db_endpoints = [], db_deliveries = [],
     db_jobs = [], db_idem = [], uuid_calls = 0\<rparr>"

end
