(* ===== verification/Store_Order.thy ===== *)
theory Store_Order
  imports Db
begin

text \<open>
  \<open>crates/store/src/order.rs\<close>: orders in the database, under the constraints of their migration. A
  locked read gives the same row as a plain one; what the lock adds is that the row cannot change
  until the transaction ends.
\<close>

definition order_into_domain :: "ext \<Rightarrow> order_row \<Rightarrow> store_error + order" where
  "order_into_domain X r =
     rbind (money_from_columns (or_amount_minor r) (or_currency r)) (\<lambda>amount.
     rbind (ok_or (notes_from_value (or_notes r))
              (S_Decode ''order.notes'' (serde_map_error X (or_notes r)))) (\<lambda>n.
     Inr \<lparr>o_id = or_id r, o_merchant_id = or_merchant_id r, o_amount = amount,
          o_amount_paid = or_amount_paid r, o_receipt = or_receipt r, o_notes = n,
          o_status = or_status r, o_created_at = or_created_at r\<rparr>))"

definition order_to_row :: "order \<Rightarrow> order_row" where
  "order_to_row r =
     \<lparr>or_id = o_id r, or_merchant_id = o_merchant_id r, or_amount_minor = minor (o_amount r),
      or_currency = code (curr (o_amount r)), or_amount_paid = o_amount_paid r,
      or_receipt = o_receipt r, or_notes = notes_to_value (o_notes r), or_status = o_status r,
      or_created_at = o_created_at r\<rparr>"

definition order_checks :: "order_row \<Rightarrow> (string \<times> bool) list" where
  "order_checks r =
     [(''orders_amount_paid_bounds'', 0 \<le> or_amount_paid r \<and> or_amount_paid r \<le> or_amount_minor r),
      (''orders_amount_positive'', 100 \<le> or_amount_minor r),
      (''orders_currency_shape'', currency_shape (or_currency r))]"

definition order_insert :: "ext \<Rightarrow> order \<Rightarrow> (db, store_error, unit) tx" where
  "order_insert X rec =
     (let r = order_to_row rec in
      guarded (\<lambda>w. guard_row X (order_checks r)
         [(''orders_pkey'', \<not> has_row or_id (or_id r) (db_orders w)),
          (''orders_merchant_receipt_idx'', or_receipt r = None \<or>
             \<not> list_ex (\<lambda>q. or_merchant_id q = or_merchant_id r \<and> or_receipt q = or_receipt r) (db_orders w))]
         [(''orders_merchant_id_fkey'', has_row m_id (or_merchant_id r) (db_merchants w))])
       (\<lambda>w. w\<lparr>db_orders := db_orders w @ [r]\<rparr>))"

definition order_find_by_id :: "ext \<Rightarrow> uuid \<Rightarrow> (db, store_error, order) tx" where
  "order_find_by_id X i = query (\<lambda>w. fetch_row ''order'' or_id (order_into_domain X) i (db_orders w))"

definition order_find_by_id_for_update :: "ext \<Rightarrow> uuid \<Rightarrow> (db, store_error, order) tx" where
  "order_find_by_id_for_update X i =
     query (\<lambda>w. fetch_row ''order'' or_id (order_into_domain X) i (db_orders w))"

definition order_update_status ::
  "ext \<Rightarrow> uuid \<Rightarrow> order_status \<Rightarrow> int \<Rightarrow> (db, store_error, unit) tx" where
  "order_update_status X i status amount_paid =
     update_one X ''order'' or_id db_orders (\<lambda>rows w. w\<lparr>db_orders := rows\<rparr>) order_checks i
       (\<lambda>r. r\<lparr>or_status := status, or_amount_paid := amount_paid\<rparr>)"

definition order_list_for_merchant ::
  "ext \<Rightarrow> uuid \<Rightarrow> instant option \<Rightarrow> int \<Rightarrow> (db, store_error, order list) tx" where
  "order_list_for_merchant X merchant_id before limit =
     query (\<lambda>w. rbind (limit_rows X limit (newest_first or_created_at
         (filter (\<lambda>r. or_merchant_id r = merchant_id \<and>
            (case before of None \<Rightarrow> True | Some t \<Rightarrow> or_created_at r < t)) (db_orders w))))
       (traverse (order_into_domain X)))"

interpretation order_rows: row_codec "''order''" order_to_row "order_into_domain X" o_id or_id "\<lambda>_. True"
  by unfold_locales (auto simp: order_into_domain_def order_to_row_def rbind_Inr)

lemma order_into_domain_Inr:
  "order_into_domain X r = Inr q \<longleftrightarrow>
     minor (o_amount q) = or_amount_minor r \<and> or_currency r = code (curr (o_amount q)) \<and>
     notes_from_value (or_notes r) = Some (o_notes q) \<and> o_id q = or_id r \<and>
     o_merchant_id q = or_merchant_id r \<and> o_amount_paid q = or_amount_paid r \<and>
     o_receipt q = or_receipt r \<and> o_status q = or_status r \<and> o_created_at q = or_created_at r"
  by (cases q) (auto simp: order_into_domain_def rbind_Inr money_from_columns_Inr)

lemma order_insert_Inr:
  "order_insert X q w = (Inr u, w') \<Longrightarrow>
     w' = w\<lparr>db_orders := db_orders w @ [order_to_row q]\<rparr> \<and>
     o_id q \<notin> or_id ` set (db_orders w) \<and> o_merchant_id q \<in> m_id ` set (db_merchants w) \<and>
     100 \<le> minor (o_amount q) \<and> 0 \<le> o_amount_paid q \<and> o_amount_paid q \<le> minor (o_amount q)"
  by (auto simp: order_insert_def guarded_Inr order_checks_def order_to_row_def Let_def has_row_iff)

lemma order_find_Inr:
  "order_find_by_id_for_update X i w = (Inr q, w') \<Longrightarrow>
     w' = w \<and> o_id q = i \<and> (\<exists>r. find (\<lambda>r. or_id r = i) (db_orders w) = Some r \<and> order_into_domain X r = Inr q)"
  by (auto simp: order_find_by_id_for_update_def fetch_row_def rbind_Inr
      dest: order_rows.fetch_key simp: find_Some_iff order_into_domain_Inr)

lemma order_update_status_Inr:
  "order_update_status X i s p w = (Inr u, w') \<longleftrightarrow>
     (\<exists>r. find (\<lambda>r. or_id r = i) (db_orders w) = Some r \<and>
        list_all snd (order_checks (r\<lparr>or_status := s, or_amount_paid := p\<rparr>))) \<and>
     w' = w\<lparr>db_orders := update_row or_id i (\<lambda>r. r\<lparr>or_status := s, or_amount_paid := p\<rparr>) (db_orders w)\<rparr>"
  by (auto simp: order_update_status_def update_one_Inr)

end
