(* ===== verification/Store_Payment.thy ===== *)
theory Store_Payment
  imports Db
begin

text \<open>
  \<open>crates/store/src/payment.rs\<close> and \<open>payment_attempt.rs\<close>: payments with their inline card columns, and
  the attempts made on them. The card's year is a \<open>u16\<close> written to a \<open>SMALLINT\<close> with a plain cast.
\<close>

definition card_into_domain :: "payment_row \<Rightarrow> store_error + card_details option" where
  "card_into_domain r =
     (case (pr_card_last4 r, pr_card_brand r, pr_card_exp_month r, pr_card_exp_year r, pr_card_fingerprint r) of
        (Some l, Some b, Some m, Some y, Some fp) \<Rightarrow>
          rbind (if 0 \<le> m \<and> m < 256 then Inr (nat m)
                 else Inl (S_Decode ''payment.card_exp_month'' (show_int m))) (\<lambda>month.
          rbind (if 0 \<le> y then Inr (nat y)
                 else Inl (S_Decode ''payment.card_exp_year'' (show_int y))) (\<lambda>year.
          Inr (Some \<lparr>last4 = l, brand = b, exp_month = month, exp_year = year, fingerprint = fp\<rparr>)))
      | _ \<Rightarrow> Inr None)"

definition payment_into_domain :: "ext \<Rightarrow> payment_row \<Rightarrow> store_error + payment" where
  "payment_into_domain X r =
     rbind (money_from_columns (pr_amount_minor r) (pr_currency r)) (\<lambda>amount.
     rbind (card_into_domain r) (\<lambda>details.
     rbind (ok_or (notes_from_value (pr_notes r))
              (S_Decode ''payment.notes'' (serde_map_error X (pr_notes r)))) (\<lambda>n.
     Inr \<lparr>p_id = pr_id r, p_order_id = pr_order_id r, p_merchant_id = pr_merchant_id r,
          p_amount = amount, p_amount_refunded = pr_amount_refunded r, p_method = pr_method r,
          p_card = details, p_status = pr_status r, p_error_code = pr_error_code r,
          p_error_description = pr_error_description r, p_notes = n, p_created_at = pr_created_at r,
          p_captured_at = pr_captured_at r\<rparr>)))"

definition payment_to_row :: "payment \<Rightarrow> payment_row" where
  "payment_to_row p =
     \<lparr>pr_id = p_id p, pr_order_id = p_order_id p, pr_merchant_id = p_merchant_id p,
      pr_amount_minor = minor (p_amount p), pr_currency = code (curr (p_amount p)),
      pr_amount_refunded = p_amount_refunded p, pr_method = p_method p,
      pr_card_last4 = map_option last4 (p_card p), pr_card_brand = map_option brand (p_card p),
      pr_card_exp_month = map_option (\<lambda>c. int (exp_month c)) (p_card p),
      pr_card_exp_year = map_option (\<lambda>c. wrap16 (int (exp_year c))) (p_card p),
      pr_card_fingerprint = map_option fingerprint (p_card p), pr_status = p_status p,
      pr_error_code = p_error_code p, pr_error_description = p_error_description p,
      pr_notes = notes_to_value (p_notes p), pr_created_at = p_created_at p,
      pr_captured_at = p_captured_at p\<rparr>"

definition payment_checks :: "payment_row \<Rightarrow> (string \<times> bool) list" where
  "payment_checks r =
     [(''pay_amount_positive'', 100 \<le> pr_amount_minor r),
      (''pay_captured_at_consistency'',
         (pr_status r \<in> {Pay_Captured, Pay_Refunded} \<and> pr_captured_at r \<noteq> None) \<or>
         (pr_status r \<notin> {Pay_Captured, Pay_Refunded} \<and> pr_captured_at r = None)),
      (''pay_currency_shape'', currency_shape (pr_currency r)),
      (''pay_failure_has_code'',
         (pr_status r = Pay_Failed \<and> pr_error_code r \<noteq> None) \<or> pr_status r \<noteq> Pay_Failed),
      (''pay_refund_bounds'', 0 \<le> pr_amount_refunded r \<and> pr_amount_refunded r \<le> pr_amount_minor r)]"

definition payment_insert :: "ext \<Rightarrow> payment \<Rightarrow> (db, store_error, unit) tx" where
  "payment_insert X p =
     (let r = payment_to_row p in
      guarded (\<lambda>w. guard_row X (payment_checks r)
         [(''payments_pkey'', \<not> has_row pr_id (pr_id r) (db_payments w))]
         [(''payments_order_id_fkey'', has_row or_id (pr_order_id r) (db_orders w)),
          (''payments_merchant_id_fkey'', has_row m_id (pr_merchant_id r) (db_merchants w))])
       (\<lambda>w. w\<lparr>db_payments := db_payments w @ [r]\<rparr>))"

definition payment_find_by_id :: "ext \<Rightarrow> uuid \<Rightarrow> (db, store_error, payment) tx" where
  "payment_find_by_id X i =
     query (\<lambda>w. fetch_row ''payment'' pr_id (payment_into_domain X) i (db_payments w))"

definition payment_find_by_id_for_update :: "ext \<Rightarrow> uuid \<Rightarrow> (db, store_error, payment) tx" where
  "payment_find_by_id_for_update X i =
     query (\<lambda>w. fetch_row ''payment'' pr_id (payment_into_domain X) i (db_payments w))"

definition set_payment_status ::
  "payment_status \<Rightarrow> instant option \<Rightarrow> int \<Rightarrow> string option \<Rightarrow> string option \<Rightarrow> payment_row \<Rightarrow> payment_row" where
  "set_payment_status status captured_at amount_refunded ecode edesc r =
     r\<lparr>pr_status := status, pr_captured_at := captured_at, pr_amount_refunded := amount_refunded,
       pr_error_code := ecode, pr_error_description := edesc\<rparr>"

definition payment_update_status ::
  "ext \<Rightarrow> uuid \<Rightarrow> payment_status \<Rightarrow> instant option \<Rightarrow> int \<Rightarrow> string option \<Rightarrow> string option \<Rightarrow>
   (db, store_error, unit) tx" where
  "payment_update_status X i status captured_at amount_refunded ecode edesc =
     update_one X ''payment'' pr_id db_payments (\<lambda>rows w. w\<lparr>db_payments := rows\<rparr>) payment_checks i
       (set_payment_status status captured_at amount_refunded ecode edesc)"

definition payment_list_for_order :: "ext \<Rightarrow> uuid \<Rightarrow> (db, store_error, payment list) tx" where
  "payment_list_for_order X order_id =
     query (\<lambda>w. traverse (payment_into_domain X) (newest_first pr_created_at
       (filter (\<lambda>r. pr_order_id r = order_id) (db_payments w))))"

definition attempt_insert ::
  "ext \<Rightarrow> uuid \<Rightarrow> int \<Rightarrow> string \<Rightarrow> string option \<Rightarrow> int \<Rightarrow> instant \<Rightarrow> (db, store_error, unit) tx" where
  "attempt_insert X payment_id attempt_number outcome decline latency_ms now =
     tbind (fresh_id X) (\<lambda>i.
     let r = \<lparr>at_id = i, at_payment_id = payment_id, at_number = attempt_number, at_outcome = outcome,
              at_decline_code = decline, at_latency_ms = latency_ms, at_created_at = now\<rparr> in
     guarded (\<lambda>w. guard_row X [(''attempt_number_positive'', 1 \<le> attempt_number)]
         [(''payment_attempts_pkey'', \<not> has_row at_id i (db_attempts w))]
         [(''payment_attempts_payment_id_fkey'', has_row pr_id payment_id (db_payments w))])
       (\<lambda>w. w\<lparr>db_attempts := db_attempts w @ [r]\<rparr>))"

section \<open>Reading back what was written\<close>

definition card_storable :: "payment \<Rightarrow> bool" where
  "card_storable p \<longleftrightarrow>
     (case p_card p of None \<Rightarrow> True | Some c \<Rightarrow> exp_month c < 256 \<and> exp_year c < 32768)"

lemma card_roundtrip:
  "card_into_domain (payment_to_row p) =
     (case p_card p of None \<Rightarrow> Inr None
      | Some c \<Rightarrow>
          if \<not> exp_month c < 256
          then Inl (S_Decode ''payment.card_exp_month'' (show_int (int (exp_month c))))
          else if wrap16 (int (exp_year c)) < 0
          then Inl (S_Decode ''payment.card_exp_year'' (show_int (wrap16 (int (exp_year c)))))
          else Inr (Some (c\<lparr>exp_year := nat (wrap16 (int (exp_year c)))\<rparr>)))"
  by (cases "p_card p") (auto simp: card_into_domain_def payment_to_row_def)

lemma payment_read_written: "card_storable p \<Longrightarrow> payment_into_domain X (payment_to_row p) = Inr p"
proof -
  assume a: "card_storable p"
  have "card_into_domain (payment_to_row p) = Inr (p_card p)"
    using a unfolding card_roundtrip
    by (cases "p_card p") (auto simp: card_storable_def wrap16_id)
  then show ?thesis by (simp add: payment_into_domain_def) (simp add: payment_to_row_def)
qed

interpretation payment_rows: row_codec "''payment''" payment_to_row "payment_into_domain X" p_id pr_id card_storable
proof
  show "card_storable d \<Longrightarrow> payment_into_domain X (payment_to_row d) = Inr d" for X d
    by (rule payment_read_written)
qed (auto simp: payment_into_domain_def payment_to_row_def rbind_Inr)

text \<open>
  A payment read back from its row is the payment that was written exactly when its card expires
  before the year 32768. The column is a signed sixteen-bit integer and the year is cast to it, so a
  later year is stored negative, the row is accepted, and every later read of it fails to decode.
\<close>
theorem payment_roundtrip_needs_small_year:
  assumes "p_card p = Some c" and "exp_month c < 256" and "exp_year c < 65536"
  shows "payment_into_domain X (payment_to_row p) =
    (if exp_year c < 32768 then Inr p
     else Inl (S_Decode ''payment.card_exp_year'' (show_int (int (exp_year c) - 65536))))"
proof (cases "exp_year c < 32768")
  case True
  with assms show ?thesis by (simp add: payment_read_written card_storable_def)
next
  case False
  with assms have "wrap16 (int (exp_year c)) = int (exp_year c) - 65536"
    by (intro wrap16_over) simp_all
  with False assms have "card_into_domain (payment_to_row p) =
      Inl (S_Decode ''payment.card_exp_year'' (show_int (int (exp_year c) - 65536)))"
    by (simp add: card_roundtrip)
  with False show ?thesis
    by (simp add: payment_into_domain_def) (simp add: payment_to_row_def)
qed

definition demo_payment :: "nat \<Rightarrow> payment" where
  "demo_payment year = new_card_attempt 1 2 3 (money_new 1000 INR)
     \<lparr>last4 = ''4242'', brand = Visa, exp_month = 12, exp_year = year, fingerprint = ''fp''\<rparr> [] 0"

theorem payment_roundtrip_needs_small_year_witness:
  "payment_into_domain demo_ext (payment_to_row (demo_payment 2030)) = Inr (demo_payment 2030) \<and>
   payment_into_domain demo_ext (payment_to_row (demo_payment 40000))
     = Inl (S_Decode ''payment.card_exp_year'' (show_int (- 25536)))"
  using payment_roundtrip_needs_small_year [of "demo_payment 2030" _ demo_ext]
    payment_roundtrip_needs_small_year [of "demo_payment 40000" _ demo_ext]
  by (simp add: demo_payment_def new_card_attempt_def)

section \<open>What the statements do\<close>

lemma payment_into_domain_Inr:
  "payment_into_domain X r = Inr p \<Longrightarrow>
     minor (p_amount p) = pr_amount_minor r \<and> pr_currency r = code (curr (p_amount p)) \<and>
     p_id p = pr_id r \<and> p_order_id p = pr_order_id r \<and>
     p_merchant_id p = pr_merchant_id r \<and> p_amount_refunded p = pr_amount_refunded r \<and>
     p_status p = pr_status r \<and> p_error_code p = pr_error_code r \<and>
     p_error_description p = pr_error_description r \<and> p_created_at p = pr_created_at r \<and>
     p_captured_at p = pr_captured_at r"
  by (auto simp: payment_into_domain_def rbind_Inr money_from_columns_Inr)

lemma payment_insert_Inr:
  "payment_insert X p w = (Inr u, w') \<Longrightarrow>
     w' = w\<lparr>db_payments := db_payments w @ [payment_to_row p]\<rparr> \<and>
     p_id p \<notin> pr_id ` set (db_payments w) \<and> list_all snd (payment_checks (payment_to_row p)) \<and>
     p_order_id p \<in> or_id ` set (db_orders w)"
  by (auto simp: payment_insert_def guarded_Inr Let_def has_row_iff)
    (auto simp: payment_to_row_def)

lemma payment_find_Inr:
  "payment_find_by_id_for_update X i w = (Inr p, w') \<Longrightarrow>
     w' = w \<and> p_id p = i \<and>
     (\<exists>r. find (\<lambda>r. pr_id r = i) (db_payments w) = Some r \<and> payment_into_domain X r = Inr p)"
  by (auto simp: payment_find_by_id_for_update_def fetch_row_def rbind_Inr find_Some_iff
      dest: payment_into_domain_Inr)

lemma payment_update_status_Inr:
  "payment_update_status X i s t n ec ed w = (Inr u, w') \<longleftrightarrow>
     (\<exists>r. find (\<lambda>r. pr_id r = i) (db_payments w) = Some r \<and>
        list_all snd (payment_checks (set_payment_status s t n ec ed r))) \<and>
     w' = w\<lparr>db_payments := update_row pr_id i (set_payment_status s t n ec ed) (db_payments w)\<rparr>"
  by (simp add: payment_update_status_def update_one_Inr)

lemma attempt_insert_Inr:
  "attempt_insert X p n oc d l now w = (Inr u, w') \<Longrightarrow>
     w' = w\<lparr>db_attempts := db_attempts w @
              [\<lparr>at_id = now_v7 X (uuid_calls w), at_payment_id = p, at_number = n, at_outcome = oc,
                at_decline_code = d, at_latency_ms = l, at_created_at = now\<rparr>],
            uuid_calls := Suc (uuid_calls w)\<rparr>"
  by (auto simp: attempt_insert_def tbind_Inr guarded_Inr Let_def)

end
