(* ===== verification/Store_Refund.thy ===== *)
theory Store_Refund
  imports Db
begin

text \<open>
  \<open>crates/store/src/refund.rs\<close>: refunds in the database, and the sum of a payment's refunds on which
  the over-refund guard rests.
\<close>

fun refund_status_str :: "refund_status \<Rightarrow> string" where
  "refund_status_str Ref_Pending = ''pending''"
| "refund_status_str Ref_Processed = ''processed''"
| "refund_status_str Ref_Failed = ''failed''"

record refund =
  re_id :: uuid
  re_payment_id :: uuid
  re_merchant_id :: uuid
  re_amount :: money
  re_reason :: "string option"
  re_status :: refund_status
  re_created_at :: instant
  re_processed_at :: "instant option"

definition refund_into_domain :: "refund_row \<Rightarrow> store_error + refund" where
  "refund_into_domain r =
     rbind (money_from_columns (rr_amount_minor r) (rr_currency r)) (\<lambda>amount.
     Inr \<lparr>re_id = rr_id r, re_payment_id = rr_payment_id r, re_merchant_id = rr_merchant_id r,
          re_amount = amount, re_reason = rr_reason r, re_status = rr_status r,
          re_created_at = rr_created_at r, re_processed_at = rr_processed_at r\<rparr>)"

definition refund_to_row :: "refund \<Rightarrow> refund_row" where
  "refund_to_row r =
     \<lparr>rr_id = re_id r, rr_payment_id = re_payment_id r, rr_merchant_id = re_merchant_id r,
      rr_amount_minor = minor (re_amount r), rr_currency = code (curr (re_amount r)),
      rr_reason = re_reason r, rr_status = re_status r, rr_created_at = re_created_at r,
      rr_processed_at = re_processed_at r\<rparr>"

definition refund_insert :: "ext \<Rightarrow> refund \<Rightarrow> (db, store_error, unit) tx" where
  "refund_insert X rf =
     (let r = refund_to_row rf in
      guarded (\<lambda>w. guard_row X
         [(''refund_amount_positive'', 0 < rr_amount_minor r),
          (''refund_currency_shape'', currency_shape (rr_currency r))]
         [(''refunds_pkey'', \<not> has_row rr_id (rr_id r) (db_refunds w))]
         [(''refunds_payment_id_fkey'', has_row pr_id (rr_payment_id r) (db_payments w)),
          (''refunds_merchant_id_fkey'', has_row m_id (rr_merchant_id r) (db_merchants w))])
       (\<lambda>w. w\<lparr>db_refunds := db_refunds w @ [r]\<rparr>))"

definition refunds_against :: "uuid \<Rightarrow> refund_row list \<Rightarrow> int" where
  "refunds_against payment_id rows =
     sum_list (map rr_amount_minor
       (filter (\<lambda>r. rr_payment_id r = payment_id \<and> rr_status r \<noteq> Ref_Failed) rows))"

text \<open>The sum is cast to \<open>bigint\<close>, which the database refuses when it does not fit.\<close>

definition refund_sum_for_payment :: "ext \<Rightarrow> uuid \<Rightarrow> (db, store_error, int) tx" where
  "refund_sum_for_payment X payment_id =
     query (\<lambda>w. ok_or (checked_i64 (refunds_against payment_id (db_refunds w)))
       (S_Database (DatabaseError (Some ''22003'') None (db_message X ''22003'' ''bigint''))))"

definition refund_find_by_id :: "uuid \<Rightarrow> (db, store_error, refund) tx" where
  "refund_find_by_id i = query (\<lambda>w. fetch_row ''refund'' rr_id refund_into_domain i (db_refunds w))"

definition refund_list_for_payment :: "uuid \<Rightarrow> (db, store_error, refund list) tx" where
  "refund_list_for_payment payment_id =
     query (\<lambda>w. traverse refund_into_domain (newest_first rr_created_at
       (filter (\<lambda>r. rr_payment_id r = payment_id) (db_refunds w))))"

definition refund_update_status ::
  "uuid \<Rightarrow> refund_status \<Rightarrow> instant option \<Rightarrow> (db, store_error, unit) tx" where
  "refund_update_status i status processed_at =
     modify (\<lambda>w. w\<lparr>db_refunds := update_row rr_id i
       (\<lambda>r. r\<lparr>rr_status := status, rr_processed_at := processed_at\<rparr>) (db_refunds w)\<rparr>)"

interpretation refund_rows: row_codec "''refund''" refund_to_row refund_into_domain re_id rr_id "\<lambda>_. True"
  by unfold_locales (auto simp: refund_into_domain_def refund_to_row_def rbind_Inr)

lemma refunds_against_append:
  "refunds_against p (rs @ [r]) =
     refunds_against p rs + (if rr_payment_id r = p \<and> rr_status r \<noteq> Ref_Failed then rr_amount_minor r else 0)"
  by (simp add: refunds_against_def)

lemma refund_insert_Inr:
  "refund_insert X rf w = (Inr u, w') \<Longrightarrow>
     w' = w\<lparr>db_refunds := db_refunds w @ [refund_to_row rf]\<rparr> \<and> 0 < minor (re_amount rf) \<and>
     re_id rf \<notin> rr_id ` set (db_refunds w)"
  by (auto simp: refund_insert_def guarded_Inr Let_def has_row_iff refund_to_row_def)

lemma refund_sum_Inr:
  "refund_sum_for_payment X p w = (Inr n, w') \<longleftrightarrow>
     w' = w \<and> n = refunds_against p (db_refunds w) \<and> in_i64 n"
  by (auto simp: refund_sum_for_payment_def)

end
