(* ===== verification/Store_Ledger.thy ===== *)
theory Store_Ledger
  imports Db
begin

text \<open>
  \<open>crates/store/src/ledger.rs\<close>: ledger accounts, the posting of a balanced transaction, and balances,
  which are always sums over the entries.
\<close>

section \<open>Messages\<close>

fun money_error_str :: "money_error \<Rightarrow> string" where
  "money_error_str (CurrencyMismatch a b) =
     ''currency mismatch: cannot combine '' @ code a @ '' and '' @ code b"
| "money_error_str MoneyOverflow = ''arithmetic overflow''"
| "money_error_str (Negative n) = ''amount must not be negative, got '' @ show_int n"
| "money_error_str (UnknownCurrency s) = ''unknown currency: '' @ s"

fun currency_debug :: "currency \<Rightarrow> string" where
  "currency_debug INR = ''Inr''"
| "currency_debug USD = ''Usd''"
| "currency_debug EUR = ''Eur''"
| "currency_debug JPY = ''Jpy''"
| "currency_debug KWD = ''Kwd''"

fun join_strings :: "string \<Rightarrow> string list \<Rightarrow> string" where
  "join_strings sep [] = ''''"
| "join_strings sep [x] = x"
| "join_strings sep (x # xs) = x @ sep @ join_strings sep xs"

fun ledger_error_str :: "ledger_error \<Rightarrow> string" where
  "ledger_error_str (TooFewEntries n) =
     ''a ledger transaction requires at least 2 entries, got '' @ show_nat n"
| "ledger_error_str (Unbalanced xs) = ''transaction does not balance: ['' @
     join_strings '', '' (map (\<lambda>(c, n). ''('' @ currency_debug c @ '', '' @ show_int n @ '')'') xs) @ '']''"
| "ledger_error_str (InvalidAccountScope t) =
     ''account type '' @ [char_of (39::nat)] @ account_type_str t @ [char_of (39::nat)] @
     '' has incorrect merchant scoping''"
| "ledger_error_str ZeroAmountEntry = ''ledger entries must be non-zero''"
| "ledger_error_str LedgerOverflow = ''arithmetic overflow while summing entries''"
| "ledger_error_str (LedgerMoney e) = money_error_str e"

section \<open>Accounts\<close>

definition account_into_domain :: "account_row \<Rightarrow> store_error + ledger_account" where
  "account_into_domain r =
     rbind (currency_from_column (ar_currency r)) (\<lambda>c.
     map_err (\<lambda>e. S_Decode ''ledger_account'' (ledger_error_str e))
       (account_from_parts (ar_id r) (ar_merchant_id r) (ar_account_type r) c))"

definition account_to_row :: "instant \<Rightarrow> ledger_account \<Rightarrow> account_row" where
  "account_to_row now a =
     \<lparr>ar_id = acc_id a, ar_merchant_id = acc_merchant_id a, ar_account_type = acc_type a,
      ar_currency = code (acc_currency a), ar_created_at = now\<rparr>"

definition account_checks :: "account_row \<Rightarrow> (string \<times> bool) list" where
  "account_checks r =
     [(''ledger_acct_currency_shape'', currency_shape (ar_currency r)),
      (''ledger_acct_scoping'', is_merchant_scoped (ar_account_type r) = (ar_merchant_id r \<noteq> None))]"

definition account_uniques :: "account_row \<Rightarrow> account_row list \<Rightarrow> (string \<times> bool) list" where
  "account_uniques r rows =
     [(''ledger_accounts_pkey'', \<not> has_row ar_id (ar_id r) rows),
      (''ledger_acct_merchant_uniq'', ar_merchant_id r = None \<or>
         \<not> list_ex (\<lambda>q. ar_merchant_id q = ar_merchant_id r \<and>
              ar_account_type q = ar_account_type r \<and> ar_currency q = ar_currency r) rows),
      (''ledger_acct_platform_uniq'', ar_merchant_id r \<noteq> None \<or>
         \<not> list_ex (\<lambda>q. ar_merchant_id q = None \<and>
              ar_account_type q = ar_account_type r \<and> ar_currency q = ar_currency r) rows)]"

definition account_fkeys :: "account_row \<Rightarrow> db \<Rightarrow> (string \<times> bool) list" where
  "account_fkeys r w =
     [(''ledger_accounts_merchant_id_fkey'',
       case ar_merchant_id r of None \<Rightarrow> True | Some m \<Rightarrow> has_row m_id m (db_merchants w))]"

definition insert_account :: "ext \<Rightarrow> instant \<Rightarrow> ledger_account \<Rightarrow> (db, store_error, unit) tx" where
  "insert_account X db_now a =
     (let r = account_to_row db_now a in
      guarded (\<lambda>w. guard_row X (account_checks r) (account_uniques r (db_accounts w)) (account_fkeys r w))
        (\<lambda>w. w\<lparr>db_accounts := db_accounts w @ [r]\<rparr>))"

definition find_platform_account :: "account_type \<Rightarrow> currency \<Rightarrow> (db, store_error, ledger_account) tx" where
  "find_platform_account t c = query (\<lambda>w.
     rbind (ok_or (find (\<lambda>r. ar_account_type r = t \<and> ar_currency r = code c \<and> ar_merchant_id r = None)
              (db_accounts w)) (S_NotFound ''platform ledger account''))
       account_into_domain)"

definition find_merchant_account ::
  "uuid \<Rightarrow> account_type \<Rightarrow> currency \<Rightarrow> (db, store_error, ledger_account) tx" where
  "find_merchant_account m t c = query (\<lambda>w.
     rbind (ok_or (find (\<lambda>r. ar_merchant_id r = Some m \<and> ar_account_type r = t \<and> ar_currency r = code c)
              (db_accounts w)) (S_NotFound ''merchant ledger account''))
       account_into_domain)"

text \<open>\<open>INSERT ... ON CONFLICT DO NOTHING\<close>, with the number of rows it affected.\<close>

definition insert_account_or_nothing ::
  "ext \<Rightarrow> account_row \<Rightarrow> (db, store_error, nat) tx" where
  "insert_account_or_nothing X r = (\<lambda>w.
     case guard_row X (account_checks r) [] [] of
       Inl e \<Rightarrow> (Inl e, w)
     | Inr _ \<Rightarrow>
         if \<not> list_all snd (account_uniques r (db_accounts w)) then (Inr 0, w)
         else (case guard_row X [] [] (account_fkeys r w) of
             Inl e \<Rightarrow> (Inl e, w)
           | Inr _ \<Rightarrow> (Inr 1, w\<lparr>db_accounts := db_accounts w @ [r]\<rparr>)))"

definition find_or_create_merchant_account ::
  "ext \<Rightarrow> uuid \<Rightarrow> account_type \<Rightarrow> currency \<Rightarrow> instant \<Rightarrow> (db, store_error, ledger_account) tx" where
  "find_or_create_merchant_account X m t c now =
     tbind (tattempt (find_merchant_account m t c)) (\<lambda>found.
     case found of
       Inr acct \<Rightarrow> treturn acct
     | Inl (e :: store_error) \<Rightarrow>
         tbind (if is_merchant_scoped t then fresh_id X else treturn 0) (\<lambda>i.
         tbind (tlift (map_err (\<lambda>e. S_Decode ''ledger_account'' (ledger_error_str e))
                  (account_for_merchant i m t c))) (\<lambda>account.
         tbind (insert_account_or_nothing X (account_to_row now account)) (\<lambda>affected.
         if affected = 1 then treturn account else find_merchant_account m t c))))"

section \<open>Posting\<close>

fun insert_entries ::
  "ext \<Rightarrow> uuid \<Rightarrow> instant \<Rightarrow> ledger_entry list \<Rightarrow> (db, store_error, unit) tx" where
  "insert_entries X txn_id now [] = treturn ()"
| "insert_entries X txn_id now (e # es) =
     tbind (fresh_id X) (\<lambda>i.
     tbind (guarded (\<lambda>w. guard_row X
              [(''ledger_entry_currency'', currency_shape (code (entry_currency e))),
               (''ledger_entry_nonzero'', entry_minor e \<noteq> 0)]
              [(''ledger_entries_pkey'', \<not> has_row er_id i (db_entries w))]
              [(''ledger_entries_transaction_id_fkey'', has_row lt_id txn_id (db_ltxns w)),
               (''ledger_entries_account_id_fkey'', has_row ar_id (entry_account_id e) (db_accounts w))])
            (\<lambda>w. w\<lparr>db_entries := db_entries w @
               [\<lparr>er_id = i, er_transaction_id = txn_id, er_account_id = entry_account_id e,
                 er_amount_minor = entry_minor e, er_currency = code (entry_currency e),
                 er_created_at = now\<rparr>]\<rparr>)) (\<lambda>_.
     insert_entries X txn_id now es))"

definition ledger_post ::
  "ext \<Rightarrow> balanced_transaction \<Rightarrow> string option \<Rightarrow> uuid option \<Rightarrow> string option \<Rightarrow> instant \<Rightarrow>
   (db, store_error, uuid) tx" where
  "ledger_post X txn reference_type reference_id description now =
     tbind (fresh_id X) (\<lambda>txn_id.
     tbind (guarded (\<lambda>w. guard_row X []
              [(''ledger_transactions_pkey'', \<not> has_row lt_id txn_id (db_ltxns w))] [])
            (\<lambda>w. w\<lparr>db_ltxns := db_ltxns w @
               [\<lparr>lt_id = txn_id, lt_kind = bt_kind txn, lt_reference_type = reference_type,
                 lt_reference_id = reference_id, lt_description = description, lt_created_at = now\<rparr>]\<rparr>)) (\<lambda>_.
     tbind (insert_entries X txn_id now (bt_entries txn)) (\<lambda>_.
     treturn txn_id)))"

section \<open>Balances\<close>

definition account_sum :: "uuid \<Rightarrow> entry_row list \<Rightarrow> int" where
  "account_sum a es = sum_list (map er_amount_minor (filter (\<lambda>e. er_account_id e = a) es))"

definition to_bigint :: "ext \<Rightarrow> int \<Rightarrow> store_error + int" where
  "to_bigint X n = ok_or (checked_i64 n)
     (S_Database (DatabaseError (Some ''22003'') None (db_message X ''22003'' ''bigint'')))"

definition ledger_balance :: "ext \<Rightarrow> uuid \<Rightarrow> (db, store_error, int) tx" where
  "ledger_balance X a = query (\<lambda>w. to_bigint X (account_sum a (db_entries w)))"

record account_balance =
  ab_account_type :: account_type
  ab_balance :: money

text \<open>
  \<open>GROUP BY a.account_type\<close>: one group per type the merchant has an account of in the currency, here in
  the order in which the types first occur.
\<close>

definition balances_for_merchant ::
  "ext \<Rightarrow> uuid \<Rightarrow> currency \<Rightarrow> (db, store_error, account_balance list) tx" where
  "balances_for_merchant X m c = query (\<lambda>w.
     let accts = filter (\<lambda>a. ar_merchant_id a = Some m \<and> ar_currency a = code c) (db_accounts w);
         types = remdups (map ar_account_type accts) in
     traverse (\<lambda>t. rbind (to_bigint X (sum_list (map (\<lambda>a. account_sum (ar_id a) (db_entries w))
                  (filter (\<lambda>a. ar_account_type a = t) accts)))) (\<lambda>b.
               Inr \<lparr>ab_account_type = t, ab_balance = money_new b c\<rparr>)) types)"

definition entry_into_domain :: "entry_row \<Rightarrow> store_error + ledger_entry" where
  "entry_into_domain r =
     rbind (money_from_columns (er_amount_minor r) (er_currency r)) (\<lambda>m.
     map_err (\<lambda>e. S_Decode ''ledger_entry'' (ledger_error_str e)) (entry_from_signed (er_account_id r) m))"

definition entries_for_transaction :: "uuid \<Rightarrow> (db, store_error, ledger_entry list) tx" where
  "entries_for_transaction t = query (\<lambda>w.
     traverse entry_into_domain
       (sort_key (\<lambda>r. - er_amount_minor r) (filter (\<lambda>r. er_transaction_id r = t) (db_entries w))))"

section \<open>What the statements do\<close>

interpretation account_rows: row_codec "''ledger account''" "account_to_row now" account_into_domain
  acc_id ar_id "\<lambda>a. is_merchant_scoped (acc_type a) = (acc_merchant_id a \<noteq> None)" for now
  by unfold_locales
    (auto simp: account_into_domain_def account_to_row_def account_from_parts_def rbind_Inr
      currency_from_column_def split: if_splits)

lemma account_into_domain_Inr:
  "account_into_domain r = Inr a \<longleftrightarrow>
     acc_id a = ar_id r \<and> acc_merchant_id a = ar_merchant_id r \<and> acc_type a = ar_account_type r \<and>
     ar_currency r = code (acc_currency a) \<and> is_merchant_scoped (ar_account_type r) = (ar_merchant_id r \<noteq> None)"
  by (cases a) (auto simp: account_into_domain_def account_from_parts_def rbind_Inr
      currency_from_column_Inr split: if_splits)

lemma find_platform_account_Inr:
  "find_platform_account t c w = (Inr a, w') \<Longrightarrow>
     w' = w \<and> acc_type a = t \<and> acc_merchant_id a = None \<and> acc_currency a = c \<and>
     (\<exists>r \<in> set (db_accounts w). ar_id r = acc_id a \<and> ar_account_type r = t \<and> ar_currency r = code c \<and>
        ar_merchant_id r = None)"
  by (auto simp: find_platform_account_def rbind_Inr find_Some_iff account_into_domain_Inr code_inj)

lemma find_merchant_account_Inr:
  "find_merchant_account m t c w = (Inr a, w') \<Longrightarrow>
     w' = w \<and> acc_type a = t \<and> acc_merchant_id a = Some m \<and> acc_currency a = c \<and>
     (\<exists>r \<in> set (db_accounts w). ar_id r = acc_id a \<and> ar_account_type r = t \<and> ar_currency r = code c \<and>
        ar_merchant_id r = Some m)"
  by (auto simp: find_merchant_account_def rbind_Inr find_Some_iff account_into_domain_Inr code_inj)

fun entry_rows :: "ext \<Rightarrow> uuid \<Rightarrow> instant \<Rightarrow> nat \<Rightarrow> ledger_entry list \<Rightarrow> entry_row list" where
  "entry_rows X t now n [] = []"
| "entry_rows X t now n (e # es) =
     \<lparr>er_id = now_v7 X n, er_transaction_id = t, er_account_id = entry_account_id e,
      er_amount_minor = entry_minor e, er_currency = code (entry_currency e), er_created_at = now\<rparr>
     # entry_rows X t now (Suc n) es"

definition ltxn_row_of ::
  "uuid \<Rightarrow> balanced_transaction \<Rightarrow> string option \<Rightarrow> uuid option \<Rightarrow> string option \<Rightarrow> instant \<Rightarrow> ltxn_row" where
  "ltxn_row_of t txn rt ri d now =
     \<lparr>lt_id = t, lt_kind = bt_kind txn, lt_reference_type = rt, lt_reference_id = ri,
      lt_description = d, lt_created_at = now\<rparr>"

lemma length_entry_rows [simp]: "length (entry_rows X t now n es) = length es"
  by (induction es arbitrary: n) simp_all

lemma insert_entries_Inr:
  "insert_entries X t now es w = (Inr u, w') \<Longrightarrow>
     w' = w\<lparr>db_entries := db_entries w @ entry_rows X t now (uuid_calls w) es,
            uuid_calls := uuid_calls w + length es\<rparr> \<and>
     entry_account_id ` set es \<subseteq> ar_id ` set (db_accounts w)"
proof (induction es arbitrary: w)
  case (Cons e es)
  let ?w1 = "w\<lparr>uuid_calls := Suc (uuid_calls w), db_entries := db_entries w @
    [\<lparr>er_id = now_v7 X (uuid_calls w), er_transaction_id = t, er_account_id = entry_account_id e,
      er_amount_minor = entry_minor e, er_currency = code (entry_currency e), er_created_at = now\<rparr>]\<rparr>"
  from Cons.prems have "insert_entries X t now es ?w1 = (Inr u, w')"
    and "entry_account_id e \<in> ar_id ` set (db_accounts w)"
    by (auto simp: tbind_Inr guarded_Inr has_row_iff)
  with Cons.IH [of ?w1] show ?case by simp
qed simp

lemma ledger_post_Inr:
  "ledger_post X txn rt ri d now w = (Inr t, w') \<Longrightarrow>
     t = now_v7 X (uuid_calls w) \<and>
     w' = w\<lparr>db_ltxns := db_ltxns w @ [ltxn_row_of t txn rt ri d now],
            db_entries := db_entries w @ entry_rows X t now (Suc (uuid_calls w)) (bt_entries txn),
            uuid_calls := Suc (uuid_calls w) + length (bt_entries txn)\<rparr> \<and>
     t \<notin> lt_id ` set (db_ltxns w) \<and>
     entry_account_id ` set (bt_entries txn) \<subseteq> ar_id ` set (db_accounts w)"
  by (auto simp: ledger_post_def tbind_Inr guarded_Inr ltxn_row_of_def has_row_iff dest!: insert_entries_Inr)

lemma find_or_create_Inr:
  assumes "find_or_create_merchant_account X m t c now w = (Inr a, w')"
  shows "acc_type a = t \<and> acc_merchant_id a = Some m \<and> acc_currency a = c \<and>
    (w' = w \<or>
     w' = w\<lparr>db_accounts := db_accounts w @ [account_to_row now a], uuid_calls := Suc (uuid_calls w)\<rparr> \<and>
       acc_id a = now_v7 X (uuid_calls w) \<and> acc_id a \<notin> ar_id ` set (db_accounts w) \<and>
       is_merchant_scoped t \<and>
       (\<forall>r \<in> set (db_accounts w). \<not> (ar_merchant_id r = Some m \<and> ar_account_type r = t \<and> ar_currency r = code c))) \<and>
    (\<exists>r \<in> set (db_accounts w'). ar_id r = acc_id a \<and> ar_account_type r = t \<and> ar_currency r = code c \<and>
        ar_merchant_id r = Some m)"
proof (cases "find_merchant_account m t c w")
  case (Pair r w1)
  have w1: "w1 = w" using Pair by (auto simp: find_merchant_account_def query_def)
  show ?thesis
  proof (cases r)
    case (Inr a')
    then have "a' = a" "w' = w"
      using assms Pair w1 by (auto simp: find_or_create_merchant_account_def tbind_Inr)
    then show ?thesis using find_merchant_account_Inr [of m t c w a w] Inr Pair w1 by auto
  next
    case (Inl e)
    let ?i = "now_v7 X (uuid_calls w)" and ?w = "w\<lparr>uuid_calls := Suc (uuid_calls w)\<rparr>"
    let ?a = "\<lparr>acc_id = ?i, acc_merchant_id = Some m, acc_type = t, acc_currency = c\<rparr>"
    have not_found: "find_merchant_account m t c ?w = (Inl e, ?w)"
      using Pair w1 Inl by (simp add: find_merchant_account_def query_def)
    have scoped: "is_merchant_scoped t"
      using assms Pair Inl w1
      by (auto simp: find_or_create_merchant_account_def tbind_Inr account_for_merchant_def split: if_splits)
    obtain k w2 where ins: "insert_account_or_nothing X (account_to_row now ?a) ?w = (Inr k, w2)"
      and rest: "(if k = 1 then treturn ?a else find_merchant_account m t c) w2 = (Inr a, w')"
      using assms Pair Inl w1 scoped
      by (auto simp: find_or_create_merchant_account_def tbind_Inr account_for_merchant_def)
    have "k = 1 \<and> w2 = ?w\<lparr>db_accounts := db_accounts w @ [account_to_row now ?a]\<rparr> \<and>
        list_all snd (account_uniques (account_to_row now ?a) (db_accounts w))"
      using ins rest not_found
      by (auto simp: insert_account_or_nothing_def split: sum.splits if_splits)
    with rest scoped show ?thesis
      by (auto simp: account_uniques_def account_to_row_def has_row_iff list_ex_iff)
  qed
qed

end
