(* ===== verification/Store_Jobs.thy ===== *)
theory Store_Jobs
  imports Db
begin

text \<open>
  \<open>crates/store/src/job.rs\<close>: the job queue in the database. A claim skips the rows that another worker
  has locked, which are an argument of it.
\<close>

record job =
  j_id :: uuid
  j_kind :: string
  j_payload :: json
  j_state :: job_state
  j_run_at :: instant
  j_attempts :: int
  j_max_attempts :: int
  j_last_error :: "string option"

definition job_of_row :: "job_row \<Rightarrow> job" where
  "job_of_row r =
     \<lparr>j_id = jr_id r, j_kind = jr_kind r, j_payload = jr_payload r, j_state = jr_state r,
      j_run_at = jr_run_at r, j_attempts = jr_attempts r, j_max_attempts = jr_max_attempts r,
      j_last_error = jr_last_error r\<rparr>"

definition job_checks :: "job_row \<Rightarrow> (string \<times> bool) list" where
  "job_checks r = [(''jobs_attempts_bounds'', 0 \<le> jr_attempts r \<and> jr_attempts r \<le> jr_max_attempts r)]"

definition new_job_row :: "uuid \<Rightarrow> string \<Rightarrow> json \<Rightarrow> instant \<Rightarrow> int \<Rightarrow> instant \<Rightarrow> job_row" where
  "new_job_row i kind payload run_at max_attempts now =
     \<lparr>jr_id = i, jr_kind = kind, jr_payload = payload, jr_state = Job_Pending, jr_run_at = run_at,
      jr_attempts = 0, jr_max_attempts = max_attempts, jr_last_error = None, jr_locked_at = None,
      jr_locked_by = None, jr_created_at = now, jr_updated_at = now\<rparr>"

definition job_enqueue ::
  "ext \<Rightarrow> string \<Rightarrow> json \<Rightarrow> instant \<Rightarrow> int \<Rightarrow> instant \<Rightarrow> (db, store_error, uuid) tx" where
  "job_enqueue X kind payload run_at max_attempts now =
     tbind (fresh_id X) (\<lambda>i.
     let r = new_job_row i kind payload run_at max_attempts now in
     tbind (guarded (\<lambda>w. guard_row X (job_checks r)
              [(''jobs_pkey'', \<not> has_row jr_id i (db_jobs w))] [])
            (\<lambda>w. w\<lparr>db_jobs := db_jobs w @ [r]\<rparr>)) (\<lambda>_.
     treturn i))"

text \<open>
  \<open>claim_batch\<close>: the due pending jobs in the order of their time, less the locked ones, up to the limit;
  they are marked running and stamped in the same statement, which fails as a whole when one of the
  new rows violates a constraint.
\<close>

definition due_jobs :: "uuid set \<Rightarrow> int \<Rightarrow> instant \<Rightarrow> job_row list \<Rightarrow> job_row list" where
  "due_jobs locked limit now rows =
     take (nat limit) (filter (\<lambda>r. jr_id r \<notin> locked)
       (sort_key jr_run_at (filter (\<lambda>r. jr_state r = Job_Pending \<and> jr_run_at r \<le> now) rows)))"

definition claim_row :: "string \<Rightarrow> instant \<Rightarrow> job_row \<Rightarrow> job_row" where
  "claim_row worker_id now r =
     r\<lparr>jr_state := Job_Running, jr_locked_at := Some now, jr_locked_by := Some worker_id,
       jr_attempts := jr_attempts r + 1, jr_updated_at := now\<rparr>"

definition claim_batch ::
  "ext \<Rightarrow> uuid set \<Rightarrow> string \<Rightarrow> int \<Rightarrow> instant \<Rightarrow> (db, store_error, job list) tx" where
  "claim_batch X locked worker_id limit now = (\<lambda>w.
     let chosen = map jr_id (due_jobs locked limit now (db_jobs w));
         rows = map (\<lambda>r. if jr_id r \<in> set chosen then claim_row worker_id now r else r) (db_jobs w);
         claimed = filter (\<lambda>r. jr_id r \<in> set chosen) rows in
     if limit < 0 then
       (Inl (S_Database (DatabaseError (Some ''2201W'') None (db_message X ''2201W'' ''limit''))), w)
     else case guard_row X (concat (map job_checks claimed)) [] [] of
       Inl e \<Rightarrow> (Inl e, w)
     | Inr _ \<Rightarrow> (Inr (map job_of_row claimed), w\<lparr>db_jobs := rows\<rparr>))"

definition job_complete :: "uuid \<Rightarrow> instant \<Rightarrow> (db, store_error, unit) tx" where
  "job_complete i now = modify (\<lambda>w. w\<lparr>db_jobs := update_row jr_id i
     (\<lambda>r. r\<lparr>jr_state := Job_Completed, jr_locked_at := None, jr_locked_by := None, jr_updated_at := now\<rparr>)
     (db_jobs w)\<rparr>)"

definition fail_and_reschedule ::
  "uuid \<Rightarrow> string \<Rightarrow> instant option \<Rightarrow> instant \<Rightarrow> (db, store_error, unit) tx" where
  "fail_and_reschedule i error retry_at now = modify (\<lambda>w. w\<lparr>db_jobs := update_row jr_id i
     (\<lambda>r. case retry_at of
        Some t \<Rightarrow> r\<lparr>jr_state := Job_Pending, jr_run_at := t, jr_last_error := Some error,
                   jr_locked_at := None, jr_locked_by := None, jr_updated_at := now\<rparr>
      | None \<Rightarrow> r\<lparr>jr_state := Job_Dead, jr_last_error := Some error,
                  jr_locked_at := None, jr_locked_by := None, jr_updated_at := now\<rparr>)
     (db_jobs w)\<rparr>)"

definition is_stale :: "instant \<Rightarrow> job_row \<Rightarrow> bool" where
  "is_stale stale_before r \<longleftrightarrow>
     jr_state r = Job_Running \<and> (case jr_locked_at r of None \<Rightarrow> False | Some t \<Rightarrow> t < stale_before)"

definition reap_stale_leases :: "instant \<Rightarrow> instant \<Rightarrow> (db, store_error, nat) tx" where
  "reap_stale_leases stale_before now = (\<lambda>w.
     (Inr (length (filter (is_stale stale_before) (db_jobs w))),
      w\<lparr>db_jobs := map (\<lambda>r. if is_stale stale_before r
          then r\<lparr>jr_state := Job_Pending, jr_locked_at := None, jr_locked_by := None, jr_updated_at := now\<rparr>
          else r) (db_jobs w)\<rparr>))"

section \<open>What the statements do\<close>

lemma job_enqueue_Inr:
  "job_enqueue X kind payload run_at m now w = (Inr i, w') \<Longrightarrow>
     i = now_v7 X (uuid_calls w) \<and>
     w' = w\<lparr>db_jobs := db_jobs w @ [new_job_row i kind payload run_at m now],
            uuid_calls := Suc (uuid_calls w)\<rparr>"
  by (auto simp: job_enqueue_def tbind_Inr guarded_Inr Let_def)

lemma set_due_jobs:
  "r \<in> set (due_jobs locked limit now rows) \<Longrightarrow>
     r \<in> set rows \<and> jr_state r = Job_Pending \<and> jr_run_at r \<le> now \<and> jr_id r \<notin> locked"
  by (auto simp: due_jobs_def dest!: in_set_takeD)

lemma claim_batch_Inr:
  assumes "claim_batch X locked worker limit now w = (Inr js, w')"
    and chosen: "chosen = set (map jr_id (due_jobs locked limit now (db_jobs w)))"
  shows "0 \<le> limit"
    and "w' = w\<lparr>db_jobs := map (\<lambda>r. if jr_id r \<in> chosen then claim_row worker now r else r) (db_jobs w)\<rparr>"
    and "map j_id js = filter (\<lambda>i. i \<in> chosen) (map jr_id (db_jobs w))"
proof -
  let ?rows = "map (\<lambda>r. if jr_id r \<in> chosen then claim_row worker now r else r) (db_jobs w)"
  have js: "js = map job_of_row (filter (\<lambda>r. jr_id r \<in> chosen) ?rows)" and "0 \<le> limit"
    and "w' = w\<lparr>db_jobs := ?rows\<rparr>"
    using assms(1) unfolding chosen by (auto simp: claim_batch_def Let_def split: sum.splits if_splits)
  then show "0 \<le> limit" "w' = w\<lparr>db_jobs := ?rows\<rparr>" by simp_all
  have "map j_id (map job_of_row rs) = map jr_id rs" for rs
    by (simp add: job_of_row_def)
  moreover have "map jr_id (filter (\<lambda>r. jr_id r \<in> chosen) rs) = filter (\<lambda>i. i \<in> chosen) (map jr_id rs)"
    for rs :: "job_row list"
    by (induction rs) simp_all
  moreover have "map jr_id ?rows = map jr_id (db_jobs w)"
    by (simp add: claim_row_def)
  ultimately show "map j_id js = filter (\<lambda>i. i \<in> chosen) (map jr_id (db_jobs w))"
    unfolding js by (simp only:)
qed

end
