(* ===== verification/Store_Events.thy ===== *)
theory Store_Events
  imports Db
begin

text \<open>
  \<open>crates/store/src/event.rs\<close>, \<open>webhook_endpoint.rs\<close> and \<open>webhook_delivery.rs\<close>: the event log, the
  endpoints merchants register and the delivery log.
\<close>

section \<open>Events\<close>

text \<open>\<open>Event\<close> has the columns of its row, so the row stands for it.\<close>

definition event_insert ::
  "ext \<Rightarrow> uuid \<Rightarrow> string \<Rightarrow> json \<Rightarrow> string \<Rightarrow> instant \<Rightarrow> (db, store_error, uuid) tx" where
  "event_insert X merchant_id event_type payload api_version now =
     tbind (fresh_id X) (\<lambda>i.
     tbind (guarded (\<lambda>w. guard_row X []
              [(''events_pkey'', \<not> has_row ev_id i (db_events w))]
              [(''events_merchant_id_fkey'', has_row m_id merchant_id (db_merchants w))])
            (\<lambda>w. w\<lparr>db_events := db_events w @
               [\<lparr>ev_id = i, ev_merchant_id = merchant_id, ev_type = event_type, ev_payload = payload,
                 ev_api_version = api_version, ev_created_at = now\<rparr>]\<rparr>)) (\<lambda>_.
     treturn i))"

definition event_find_by_id :: "uuid \<Rightarrow> (db, store_error, event_row) tx" where
  "event_find_by_id i = query (\<lambda>w. fetch_row ''event'' ev_id Inr i (db_events w))"

definition event_list_for_merchant ::
  "ext \<Rightarrow> uuid \<Rightarrow> instant option \<Rightarrow> int \<Rightarrow> (db, store_error, event_row list) tx" where
  "event_list_for_merchant X merchant_id before limit =
     query (\<lambda>w. limit_rows X limit (newest_first ev_created_at
         (filter (\<lambda>r. ev_merchant_id r = merchant_id \<and>
            (case before of None \<Rightarrow> True | Some t \<Rightarrow> ev_created_at r < t)) (db_events w))))"

section \<open>Endpoints\<close>

definition endpoint_is_active :: "endpoint_row \<Rightarrow> bool" where
  "endpoint_is_active e \<longleftrightarrow> ep_disabled_at e = None"

definition endpoint_wants :: "string \<Rightarrow> endpoint_row \<Rightarrow> bool" where
  "endpoint_wants event_type e \<longleftrightarrow>
     ep_enabled_events e = [] \<or> list_ex (\<lambda>n. n = event_type) (ep_enabled_events e)"

text \<open>The CHECK on the URL, the case-insensitive pattern \<open>^https?://\<close>.\<close>

definition lower :: "char \<Rightarrow> char" where
  "lower c = (if 65 \<le> (of_char c :: nat) \<and> (of_char c :: nat) \<le> 90 then char_of (of_char c + 32 :: nat) else c)"

definition url_shape :: "string \<Rightarrow> bool" where
  "url_shape url \<longleftrightarrow> take 7 (map lower url) = ''http://'' \<or> take 8 (map lower url) = ''https://''"

definition endpoint_insert :: "ext \<Rightarrow> endpoint_row \<Rightarrow> (db, store_error, unit) tx" where
  "endpoint_insert X r =
     guarded (\<lambda>w. guard_row X [(''webhook_url_shape'', url_shape (ep_url r))]
         [(''webhook_endpoints_pkey'', \<not> has_row ep_id (ep_id r) (db_endpoints w))]
         [(''webhook_endpoints_merchant_id_fkey'', has_row m_id (ep_merchant_id r) (db_merchants w))])
       (\<lambda>w. w\<lparr>db_endpoints := db_endpoints w @ [r]\<rparr>)"

definition endpoint_find_by_id :: "uuid \<Rightarrow> (db, store_error, endpoint_row) tx" where
  "endpoint_find_by_id i = query (\<lambda>w. fetch_row ''webhook_endpoint'' ep_id Inr i (db_endpoints w))"

definition list_active_for_merchant :: "uuid \<Rightarrow> (db, store_error, endpoint_row list) tx" where
  "list_active_for_merchant merchant_id =
     query (\<lambda>w. Inr (sort_key ep_created_at
       (filter (\<lambda>r. ep_merchant_id r = merchant_id \<and> ep_disabled_at r = None) (db_endpoints w))))"

definition endpoint_set_disabled :: "uuid \<Rightarrow> instant option \<Rightarrow> (db, store_error, unit) tx" where
  "endpoint_set_disabled i disabled_at = modify (\<lambda>w. w\<lparr>db_endpoints :=
     update_row ep_id i (\<lambda>r. r\<lparr>ep_disabled_at := disabled_at\<rparr>) (db_endpoints w)\<rparr>)"

section \<open>Deliveries\<close>

definition delivery_insert_pending ::
  "ext \<Rightarrow> uuid \<Rightarrow> uuid \<Rightarrow> instant \<Rightarrow> (db, store_error, uuid) tx" where
  "delivery_insert_pending X event_id endpoint_id now =
     tbind (fresh_id X) (\<lambda>i.
     tbind (guarded (\<lambda>w. guard_row X []
              [(''webhook_deliveries_pkey'', \<not> has_row dr_id i (db_deliveries w))]
              [(''webhook_deliveries_event_id_fkey'', has_row ev_id event_id (db_events w)),
               (''webhook_deliveries_endpoint_id_fkey'', has_row ep_id endpoint_id (db_endpoints w))])
            (\<lambda>w. w\<lparr>db_deliveries := db_deliveries w @
               [\<lparr>dr_id = i, dr_event_id = event_id, dr_endpoint_id = endpoint_id, dr_attempt = 1,
                 dr_status = Del_Pending, dr_response_status = None, dr_response_body = None,
                 dr_duration_ms = None, dr_next_retry_at = Some now, dr_created_at = now,
                 dr_updated_at = now\<rparr>]\<rparr>)) (\<lambda>_.
     treturn i))"

text \<open>
  A text parameter with a zero byte is refused by the database (SQLSTATE 22021). The response body is the
  one text that reaches a statement straight from another server.
\<close>

definition has_nul :: "string \<Rightarrow> bool" where
  "has_nul s \<longleftrightarrow> list_ex (\<lambda>c. (of_char c :: nat) = 0) s"

definition record_attempt ::
  "ext \<Rightarrow> uuid \<Rightarrow> delivery_status \<Rightarrow> int option \<Rightarrow> string option \<Rightarrow> int \<Rightarrow> instant option \<Rightarrow> int \<Rightarrow> instant \<Rightarrow>
   (db, store_error, unit) tx" where
  "record_attempt X i status response_status response_body duration_ms next_retry_at attempt now =
     guarded (\<lambda>w. if has_nul (unwrap_or '''' response_body) then
           Inl (from_sqlx (DatabaseError (Some ''22021'') None (db_message X ''22021'' ''UTF8'')))
         else if has_row dr_id i (db_deliveries w)
         then guard_row X [(''webhook_delivery_attempt_positive'', 1 \<le> attempt)] [] [] else Inr ())
       (\<lambda>w. w\<lparr>db_deliveries := update_row dr_id i
          (\<lambda>r. r\<lparr>dr_status := status, dr_response_status := response_status,
                 dr_response_body := response_body, dr_duration_ms := Some duration_ms,
                 dr_next_retry_at := next_retry_at, dr_attempt := attempt, dr_updated_at := now\<rparr>)
          (db_deliveries w)\<rparr>)"

definition delivery_find_by_id :: "uuid \<Rightarrow> (db, store_error, delivery_row) tx" where
  "delivery_find_by_id i = query (\<lambda>w. fetch_row ''webhook_delivery'' dr_id Inr i (db_deliveries w))"

definition delivery_list_for_event :: "uuid \<Rightarrow> (db, store_error, delivery_row list) tx" where
  "delivery_list_for_event event_id =
     query (\<lambda>w. Inr (sort_key dr_attempt (filter (\<lambda>r. dr_event_id r = event_id) (db_deliveries w))))"

section \<open>What the statements do\<close>

interpretation event_rows: row_codec "''event''" "\<lambda>r. r" "Inr :: event_row \<Rightarrow> _" ev_id ev_id "\<lambda>_. True"
  by unfold_locales auto

interpretation endpoint_rows: row_codec "''webhook_endpoint''" "\<lambda>r. r" "Inr :: endpoint_row \<Rightarrow> _"
  ep_id ep_id "\<lambda>_. True"
  by unfold_locales auto

interpretation delivery_rows: row_codec "''webhook_delivery''" "\<lambda>r. r" "Inr :: delivery_row \<Rightarrow> _"
  dr_id dr_id "\<lambda>_. True"
  by unfold_locales auto

lemma event_insert_Inr:
  "event_insert X m ty p v now w = (Inr i, w') \<Longrightarrow>
     i = now_v7 X (uuid_calls w) \<and>
     w' = w\<lparr>db_events := db_events w @
              [\<lparr>ev_id = i, ev_merchant_id = m, ev_type = ty, ev_payload = p, ev_api_version = v,
                ev_created_at = now\<rparr>],
            uuid_calls := Suc (uuid_calls w)\<rparr>"
  by (auto simp: event_insert_def tbind_Inr guarded_Inr)

lemma delivery_insert_pending_Inr:
  "delivery_insert_pending X ev ep now w = (Inr i, w') \<Longrightarrow>
     i = now_v7 X (uuid_calls w) \<and>
     w' = w\<lparr>db_deliveries := db_deliveries w @
              [\<lparr>dr_id = i, dr_event_id = ev, dr_endpoint_id = ep, dr_attempt = 1,
                dr_status = Del_Pending, dr_response_status = None, dr_response_body = None,
                dr_duration_ms = None, dr_next_retry_at = Some now, dr_created_at = now,
                dr_updated_at = now\<rparr>],
            uuid_calls := Suc (uuid_calls w)\<rparr>"
  by (auto simp: delivery_insert_pending_def tbind_Inr guarded_Inr)

end
