(* ===== verification/Store_Idempotency.thy ===== *)
theory Store_Idempotency
  imports Db
begin

text \<open>
  \<open>crates/store/src/idempotency.rs\<close>: the keys that make a retried request safe.
\<close>

datatype acquire_outcome = Acquired | Replay int "json option" | Mismatch | InFlight

definition same_key :: "uuid \<Rightarrow> string \<Rightarrow> idem_row \<Rightarrow> bool" where
  "same_key m k r \<longleftrightarrow> ir_merchant_id r = m \<and> ir_key r = k"

definition new_idem_row ::
  "uuid \<Rightarrow> string \<Rightarrow> string \<Rightarrow> string \<Rightarrow> instant \<Rightarrow> instant \<Rightarrow> idem_row" where
  "new_idem_row m k endpoint request_hash expires_at now =
     \<lparr>ir_merchant_id = m, ir_key = k, ir_endpoint = endpoint, ir_request_hash = request_hash,
      ir_state = Idem_InProgress, ir_response_status = None, ir_response_body = None,
      ir_expires_at = expires_at, ir_created_at = now\<rparr>"

definition acquire ::
  "ext \<Rightarrow> uuid \<Rightarrow> string \<Rightarrow> string \<Rightarrow> string \<Rightarrow> instant \<Rightarrow> instant \<Rightarrow> (db, store_error, acquire_outcome) tx" where
  "acquire X m k endpoint request_hash expires_at now = (\<lambda>w.
     if \<not> list_ex (same_key m k) (db_idem w) then
       (case guard_row X [] [] [(''idempotency_keys_merchant_id_fkey'', has_row m_id m (db_merchants w))] of
          Inl e \<Rightarrow> (Inl e, w)
        | Inr _ \<Rightarrow> (Inr Acquired,
            w\<lparr>db_idem := db_idem w @ [new_idem_row m k endpoint request_hash expires_at now]\<rparr>))
     else (case find (same_key m k) (db_idem w) of
         None \<Rightarrow> (Inl (from_sqlx RowNotFound), w)
       | Some existing \<Rightarrow>
           (Inr (case ir_state existing of
               Idem_InProgress \<Rightarrow> InFlight
             | Idem_Completed \<Rightarrow>
                 if ir_request_hash existing = request_hash
                 then Replay (unwrap_or 200 (ir_response_status existing)) (ir_response_body existing)
                 else Mismatch), w)))"

definition idem_complete :: "uuid \<Rightarrow> string \<Rightarrow> int \<Rightarrow> json \<Rightarrow> (db, store_error, unit) tx" where
  "idem_complete m k status body = modify (\<lambda>w. w\<lparr>db_idem := map (\<lambda>r. if same_key m k r
       then r\<lparr>ir_state := Idem_Completed, ir_response_status := Some status, ir_response_body := Some body\<rparr>
       else r) (db_idem w)\<rparr>)"

definition idem_release :: "uuid \<Rightarrow> string \<Rightarrow> (db, store_error, unit) tx" where
  "idem_release m k = modify (\<lambda>w. w\<lparr>db_idem :=
     filter (\<lambda>r. \<not> (same_key m k r \<and> ir_state r = Idem_InProgress)) (db_idem w)\<rparr>)"

definition purge_expired :: "instant \<Rightarrow> (db, store_error, nat) tx" where
  "purge_expired now = (\<lambda>w.
     (Inr (length (filter (\<lambda>r. ir_expires_at r < now) (db_idem w))),
      w\<lparr>db_idem := filter (\<lambda>r. \<not> ir_expires_at r < now) (db_idem w)\<rparr>))"

section \<open>One owner per key\<close>

text \<open>
  What the primary key keeps: at most one row per merchant and key.
\<close>

definition keys_unique :: "idem_row list \<Rightarrow> bool" where
  "keys_unique rows \<longleftrightarrow> distinct (map (\<lambda>r. (ir_merchant_id r, ir_key r)) rows)"

definition idem_lookup :: "uuid \<Rightarrow> string \<Rightarrow> db \<Rightarrow> idem_row option" where
  "idem_lookup m k w = find (same_key m k) (db_idem w)"

lemma idem_lookup_None: "idem_lookup m k w = None \<longleftrightarrow> \<not> list_ex (same_key m k) (db_idem w)"
  by (auto simp: idem_lookup_def find_None_iff list_ex_iff)

lemma find_map_cond:
  assumes "\<And>r. P (f r) = P r" and "\<And>r. P r \<Longrightarrow> Q r"
  shows "find P (map (\<lambda>r. if Q r then f r else r) rs) = map_option f (find P rs)"
  using assms by (induction rs) auto

lemma acquire_spec:
  assumes "m \<in> m_id ` set (db_merchants w)"
  shows "acquire X m k ep h ex now w =
    (case idem_lookup m k w of
       None \<Rightarrow> (Inr Acquired, w\<lparr>db_idem := db_idem w @ [new_idem_row m k ep h ex now]\<rparr>)
     | Some r \<Rightarrow> (Inr (if ir_state r = Idem_InProgress then InFlight
         else if ir_request_hash r = h
         then Replay (unwrap_or 200 (ir_response_status r)) (ir_response_body r) else Mismatch), w))"
proof (cases "idem_lookup m k w")
  case None
  then show ?thesis
    using idem_lookup_None [of m k w] assms by (simp add: acquire_def has_row_iff)
next
  case (Some r)
  then have "list_ex (same_key m k) (db_idem w)"
    using idem_lookup_None [of m k w] by simp
  with Some show ?thesis
    by (cases "ir_state r") (simp_all add: acquire_def idem_lookup_def)
qed

lemma keys_unique_append:
  "keys_unique (rows @ [r]) \<longleftrightarrow> keys_unique rows \<and> \<not> list_ex (same_key (ir_merchant_id r) (ir_key r)) rows"
  by (fastforce simp: keys_unique_def list_ex_iff same_key_def image_iff)

text \<open>
  What a sequence of calls on one key does, other keys being whatever they are.
\<close>

datatype idem_call =
    Call_Acquire string string instant instant
  | Call_Complete int json
  | Call_Release

definition run_call :: "ext \<Rightarrow> uuid \<Rightarrow> string \<Rightarrow> idem_call \<Rightarrow> db \<Rightarrow> acquire_outcome option \<times> db" where
  "run_call X m k c w =
     (case c of
        Call_Acquire ep h ex now \<Rightarrow> (case acquire X m k ep h ex now w of (r, w') \<Rightarrow> (res_ok r, w'))
      | Call_Complete s b \<Rightarrow> (None, snd (idem_complete m k s b w))
      | Call_Release \<Rightarrow> (None, snd (idem_release m k w)))"

fun run_calls :: "ext \<Rightarrow> uuid \<Rightarrow> string \<Rightarrow> idem_call list \<Rightarrow> db \<Rightarrow> acquire_outcome option list \<times> db" where
  "run_calls X m k [] w = ([], w)"
| "run_calls X m k (c # cs) w =
     (case run_call X m k c w of (out, w1) \<Rightarrow>
       (case run_calls X m k cs w1 of (rest, w2) \<Rightarrow> (out # rest, w2)))"

type_synonym attempt = "string \<times> string \<times> instant \<times> instant"

definition acquire_call :: "attempt \<Rightarrow> idem_call" where
  "acquire_call a = (case a of (ep, h, ex, now) \<Rightarrow> Call_Acquire ep h ex now)"

definition attempt_hash :: "attempt \<Rightarrow> string" where
  "attempt_hash a = fst (snd a)"

lemma run_calls_append:
  "run_calls X m k (cs @ ds) w =
     (case run_calls X m k cs w of (o1, w1) \<Rightarrow> (case run_calls X m k ds w1 of (o2, w2) \<Rightarrow> (o1 @ o2, w2)))"
  by (induction cs arbitrary: w) (auto split: prod.splits)

lemma run_acquire:
  assumes "m \<in> m_id ` set (db_merchants w)" and "idem_lookup m k w = Some r"
  shows "run_call X m k (acquire_call a) w =
    (Some (if ir_state r = Idem_InProgress then InFlight
       else if ir_request_hash r = attempt_hash a
       then Replay (unwrap_or 200 (ir_response_status r)) (ir_response_body r) else Mismatch), w)"
  using assms by (cases a) (simp add: run_call_def acquire_call_def attempt_hash_def acquire_spec res_ok_def)

lemma run_acquires:
  assumes "m \<in> m_id ` set (db_merchants w)" and "idem_lookup m k w = Some r"
  shows "run_calls X m k (map acquire_call as) w =
    (map (\<lambda>a. Some (if ir_state r = Idem_InProgress then InFlight
       else if ir_request_hash r = attempt_hash a
       then Replay (unwrap_or 200 (ir_response_status r)) (ir_response_body r) else Mismatch)) as, w)"
  by (induction as) (simp_all add: run_acquire [OF assms])

lemma complete_lookup:
  assumes "idem_lookup m k w = Some r" and "run_call X m k (Call_Complete s b) w = (out, w')"
  shows "out = None \<and> db_merchants w' = db_merchants w \<and>
    idem_lookup m k w' = Some (r\<lparr>ir_state := Idem_Completed, ir_response_status := Some s, ir_response_body := Some b\<rparr>)"
proof -
  let ?f = "\<lambda>r. r\<lparr>ir_state := Idem_Completed, ir_response_status := Some s, ir_response_body := Some b\<rparr>"
  have "find (same_key m k) (map (\<lambda>r. if same_key m k r then ?f r else r) (db_idem w))
      = map_option ?f (find (same_key m k) (db_idem w))"
    by (rule find_map_cond) (simp_all add: same_key_def)
  then show ?thesis
    using assms by (auto simp: run_call_def idem_complete_def modify_def idem_lookup_def)
qed

text \<open>
  C36. One owner per key, and the owner's answer for everyone else. However many requests of a known merchant
  present a fresh key, the first to insert its row owns it and every other one is told that it is in flight;
  once the owner has stored its response, every later request with the same fingerprint (the hash of method, path and
  body) replays exactly that status and body, and one with another fingerprint is refused as a mismatch. The clock
  of an attempt and the expiry of the key play no part: a key whose \<open>expires_at\<close> has passed is still answered from
  its row, for as long as nothing purges it, although the configuration (``remains replayable'', 24 hours), the
  migration and the README say that it has expired by then.
\<close>
theorem idempotency_single_owner:
  assumes "m \<in> m_id ` set (db_merchants w)" and "idem_lookup m k w = None"
  shows "fst (run_calls X m k
      (acquire_call first # map acquire_call during @ Call_Complete s b # map acquire_call later) w) =
    Some Acquired # map (\<lambda>_. Some InFlight) during @ None #
      map (\<lambda>a. Some (if attempt_hash a = attempt_hash first then Replay s (Some b) else Mismatch)) later"
proof -
  obtain ep h ex now where a: "first = (ep, h, ex, now)" by (cases first)
  let ?r = "new_idem_row m k ep h ex now"
  let ?w1 = "w\<lparr>db_idem := db_idem w @ [?r]\<rparr>"
  have 1: "run_call X m k (acquire_call first) w = (Some Acquired, ?w1)"
    using acquire_spec [OF assms(1), of X k ep h ex now] assms(2)
    by (simp add: a acquire_call_def run_call_def res_ok_def)
  have look1: "idem_lookup m k ?w1 = Some ?r"
  proof -
    have "find (same_key m k) (rs @ [?r]) = Some ?r" if "find (same_key m k) rs = None" for rs
      using that by (induction rs) (auto simp: same_key_def new_idem_row_def split: if_splits)
    then show ?thesis using assms(2) by (simp add: idem_lookup_def)
  qed
  have m1: "m \<in> m_id ` set (db_merchants ?w1)" using assms(1) by simp
  have 2: "run_calls X m k (map acquire_call during) ?w1 = (map (\<lambda>_. Some InFlight) during, ?w1)"
    using run_acquires [OF m1 look1, of X during] by (simp add: new_idem_row_def)
  obtain out w2 where 3: "run_call X m k (Call_Complete s b) ?w1 = (out, w2)" by fastforce
  note finished = complete_lookup [OF look1 3]
  from finished have m2: "m \<in> m_id ` set (db_merchants w2)" using assms(1) by simp
  have 4: "run_calls X m k (map acquire_call later) w2 =
      (map (\<lambda>a. Some (if attempt_hash a = attempt_hash first then Replay s (Some b) else Mismatch)) later, w2)"
    using run_acquires [OF m2, of k _ X later] finished
    by (auto simp: new_idem_row_def a attempt_hash_def unwrap_or_def)
  show ?thesis
    using finished by (simp add: 1 run_calls_append 2 3 4)
qed

definition idem_demo_world :: db where
  "idem_demo_world = \<lparr>db_merchants = [\<lparr>m_id = 7, m_name = ''Shop'', m_email = ''a@b.c'', m_domains = [],
       m_created_at = 0\<rparr>], db_api_keys = [], db_orders = [], db_payments = [], db_attempts = [],
     db_refunds = [], db_accounts = [], db_ltxns = [], db_entries = [], db_events = [],
     db_endpoints = [], db_deliveries = [], db_jobs = [], db_idem = [], uuid_calls = 0\<rparr>"

theorem idempotency_single_owner_witness:
  "fst (run_calls demo_ext 7 ''key''
      [Call_Acquire ''POST /v1/payments'' ''h1'' 10 0, Call_Acquire ''POST /v1/payments'' ''h1'' 11 1,
       Call_Complete 201 (JStr ''body''), Call_Acquire ''POST /v1/payments'' ''h1'' 12 20,
       Call_Acquire ''POST /v1/payments'' ''h2'' 13 30] idem_demo_world) =
   [Some Acquired, Some InFlight, None, Some (Replay 201 (Some (JStr ''body''))), Some Mismatch]"
  using idempotency_single_owner [of 7 idem_demo_world "''key''" demo_ext
      "(''POST /v1/payments'', ''h1'', 10, 0)" "[(''POST /v1/payments'', ''h1'', 11, 1)]" 201 "JStr ''body''"
      "[(''POST /v1/payments'', ''h1'', 12, 20), (''POST /v1/payments'', ''h2'', 13, 30)]"]
  by (simp add: idem_demo_world_def idem_lookup_def acquire_call_def attempt_hash_def)

text \<open>
  A key never expires on its own: acquiring looks at no expiry time, so whatever the time of the
  second request, even after \<open>expires_at\<close>, it is answered from the stored row; only an explicit purge
  makes the key usable again.
\<close>
theorem expired_key_still_replays:
  assumes "m \<in> m_id ` set (db_merchants w)" and "idem_lookup m k w = Some r"
    and "ir_state r = Idem_Completed" and "ir_request_hash r = h" and "ir_expires_at r < now"
  shows "acquire X m k ep h ex now w =
      (Inr (Replay (unwrap_or 200 (ir_response_status r)) (ir_response_body r)), w) \<and>
    (keys_unique (db_idem w) \<longrightarrow> idem_lookup m k (snd (purge_expired now w)) = None)"
proof -
  have "r \<in> set (db_idem w)" "same_key m k r"
    using assms(2) by (auto simp: idem_lookup_def find_Some_iff)
  then have "\<not> same_key m k q \<or> q = r" if "keys_unique (db_idem w)" "q \<in> set (db_idem w)" for q
    using that by (auto simp: keys_unique_def distinct_map inj_on_def same_key_def)
  then have "keys_unique (db_idem w) \<longrightarrow> idem_lookup m k (snd (purge_expired now w)) = None"
    using assms(5) by (auto simp: purge_expired_def idem_lookup_def find_None_iff)
  then show ?thesis using acquire_spec [OF assms(1)] assms by simp
qed

theorem expired_key_still_replays_witness:
  "\<exists>w. ir_expires_at (the (idem_lookup 7 ''key'' w)) < 100 \<and>
     fst (acquire demo_ext 7 ''key'' ''ep'' ''h'' 0 100 w) = Inr (Replay 201 None)"
proof (intro exI conjI)
  let ?w = "idem_demo_world\<lparr>db_idem := [(new_idem_row 7 ''key'' ''ep'' ''h'' 10 0)\<lparr>ir_state := Idem_Completed,
     ir_response_status := Some 201\<rparr>]\<rparr>"
  show "ir_expires_at (the (idem_lookup 7 ''key'' ?w)) < 100"
    by (simp add: idem_lookup_def same_key_def new_idem_row_def)
  show "fst (acquire demo_ext 7 ''key'' ''ep'' ''h'' 0 100 ?w) = Inr (Replay 201 None)"
    using expired_key_still_replays [of 7 ?w "''key''" _ "''h''" 100 demo_ext "''ep''" 0]
    by (simp add: idem_demo_world_def idem_lookup_def same_key_def new_idem_row_def unwrap_or_def)
qed

end
