(* ===== verification/Store_Merchant.thy ===== *)
theory Store_Merchant
  imports Db
begin

text \<open>
  \<open>crates/store/src/merchant.rs\<close> and \<open>api_key.rs\<close>: merchants and their credentials in the database. The
  lookup by hash is the one the authentication of every request rests on.
\<close>

section \<open>Merchants\<close>

text \<open>The CHECK \<open>email LIKE '%@%.%'\<close>: an at sign with a dot somewhere after it.\<close>

definition email_like :: "string \<Rightarrow> bool" where
  "email_like s = (case split_once CHR ''@'' s of None \<Rightarrow> False | Some (_, d) \<Rightarrow> CHR ''.'' \<in> set d)"

definition merchant_insert :: "ext \<Rightarrow> merchant \<Rightarrow> (db, store_error, unit) tx" where
  "merchant_insert X m =
     guarded (\<lambda>w. guard_row X
         [(''merchants_email_shape'', email_like (m_email m)),
          (''merchants_name_not_empty'', \<not> list_all (\<lambda>c. c = CHR '' '') (m_name m))]
         [(''merchants_pkey'', \<not> has_row m_id (m_id m) (db_merchants w)),
          (''merchants_email_idx'',
            \<not> list_ex (\<lambda>q. db_lower X (m_email q) = db_lower X (m_email m)) (db_merchants w))] [])
       (\<lambda>w. w\<lparr>db_merchants := db_merchants w @ [m]\<rparr>)"

definition merchant_find_by_id :: "uuid \<Rightarrow> (db, store_error, merchant) tx" where
  "merchant_find_by_id i = query (\<lambda>w. fetch_row ''merchant'' m_id Inr i (db_merchants w))"

definition merchant_find_by_email :: "ext \<Rightarrow> string \<Rightarrow> (db, store_error, merchant) tx" where
  "merchant_find_by_email X email = query (\<lambda>w.
     ok_or (find (\<lambda>m. db_lower X (m_email m) = db_lower X email) (db_merchants w)) (S_NotFound ''merchant''))"

definition update_checkout_domains :: "uuid \<Rightarrow> string list \<Rightarrow> (db, store_error, unit) tx" where
  "update_checkout_domains i domains =
     guarded (\<lambda>w. if has_row m_id i (db_merchants w) then Inr () else Inl (S_NotFound ''merchant''))
       (\<lambda>w. w\<lparr>db_merchants := update_row m_id i (\<lambda>m. m\<lparr>m_domains := domains\<rparr>) (db_merchants w)\<rparr>)"

interpretation merchant_rows: row_codec "''merchant''" "\<lambda>m. m" "Inr :: merchant \<Rightarrow> _" m_id m_id "\<lambda>_. True"
  by unfold_locales auto

lemma merchant_insert_Inr:
  "merchant_insert X m w = (Inr u, w') \<Longrightarrow>
     w' = w\<lparr>db_merchants := db_merchants w @ [m]\<rparr> \<and> m_id m \<notin> m_id ` set (db_merchants w)"
  by (auto simp: merchant_insert_def guarded_Inr has_row_iff)

lemma drop_white_Nil [simp]: "drop_white ws [] = []"
  by (subst drop_white.simps) (auto simp: find_Some_iff split: option.splits)

lemma drop_white_space: "drop_white white_chars (CHR '' '' # s) = drop_white white_chars s"
proof -
  have "find (\<lambda>w. w \<noteq> [] \<and> map of_char (take (length w) (CHR '' '' # s)) = w) white_chars = Some [32]"
    by (simp add: white_chars_def)
  then show ?thesis by (subst drop_white.simps) simp
qed

lemma trim_spaces: "list_all (\<lambda>c. c = CHR '' '') s \<Longrightarrow> trim s = []"
proof -
  assume "list_all (\<lambda>c. c = CHR '' '') s"
  then have "drop_white white_chars s = []"
    by (induction s) (simp_all add: drop_white_space)
  then show ?thesis by (simp add: trim_def)
qed

text \<open>
  A merchant that \<open>Merchant::new\<close> accepts is never rejected by the table's CHECK constraints: inserting
  it fails only on a duplicate id or a duplicate email, and then it can be read back by its id unchanged.
\<close>
theorem accepted_merchant_is_stored:
  assumes "merchant_new i name email now = Inr m"
  shows "(case merchant_insert X m w of
      (Inr _, w') \<Rightarrow> merchant_find_by_id i w' = (Inr m, w')
    | (Inl e, w') \<Rightarrow> w' = w \<and> store_is_conflict e \<and>
        (i \<in> m_id ` set (db_merchants w) \<or>
         (\<exists>q \<in> set (db_merchants w). db_lower X (m_email q) = db_lower X email)))"
proof -
  have m: "m = \<lparr>m_id = i, m_name = name, m_email = email, m_domains = [], m_created_at = now\<rparr>"
    and name: "\<not> list_all (\<lambda>c. c = CHR '' '') name" and email: "email_like email"
    using assms trim_spaces [of name]
    by (auto simp: merchant_new_def is_plausible_email_def email_like_def split: if_splits option.splits)
  show ?thesis
  proof (cases "merchant_insert X m w")
    case (Pair r w')
    show ?thesis
    proof (cases r)
      case (Inr u)
      then have p: "merchant_insert X m w = (Inr u, w')" using Pair by simp
      have "m_id m = i" by (simp add: m)
      then show ?thesis
        using merchant_insert_Inr [OF p] merchant_rows.fetch_inserted [of m "db_merchants w"]
        by (simp add: p merchant_find_by_id_def query_def)
    next
      case (Inl e)
      then have p: "merchant_insert X m w = (Inl e, w')" using Pair by simp
      then have g: "w' = w" "guard_row X
         [(''merchants_email_shape'', email_like (m_email m)),
          (''merchants_name_not_empty'', \<not> list_all (\<lambda>c. c = CHR '' '') (m_name m))]
         [(''merchants_pkey'', \<not> has_row m_id (m_id m) (db_merchants w)),
          (''merchants_email_idx'',
            \<not> list_ex (\<lambda>q. db_lower X (m_email q) = db_lower X (m_email m)) (db_merchants w))] [] = Inl e"
        by (auto simp: merchant_insert_def guarded_Inl)
      have "m_id m = i" "m_email m = email" "m_name m = name" by (simp_all add: m)
      then show ?thesis
        using guard_row_conflict [OF g(2)] name email g(1)
        by (auto simp: p has_row_iff list_ex_iff)
    qed
  qed
qed

theorem accepted_merchant_is_stored_witness:
  "\<exists>m w. merchant_new 7 ''Shop'' ''a@b.c'' 0 = Inr m \<and> db_merchants w = [] \<and>
     (case merchant_insert demo_ext m w of (Inr _, w') \<Rightarrow> merchant_find_by_id 7 w' = (Inr m, w') | (Inl _, _) \<Rightarrow> False)"
proof -
  have "trim (CHR ''S'' # ''ho'' @ [CHR ''p'']) = CHR ''S'' # ''ho'' @ [CHR ''p'']"
    by (rule trim_visible) (simp_all add: ascii_visible_def)
  then have new: "merchant_new 7 ''Shop'' ''a@b.c'' 0 =
      Inr \<lparr>m_id = 7, m_name = ''Shop'', m_email = ''a@b.c'', m_domains = [], m_created_at = 0\<rparr>"
    by (simp add: merchant_new_def is_plausible_email_def)
  let ?w = "\<lparr>db_merchants = [], db_api_keys = [], db_orders = [], db_payments = [], db_attempts = [],
     db_refunds = [], db_accounts = [], db_ltxns = [], db_entries = [], db_events = [],
     db_endpoints = [], db_deliveries = [], db_jobs = [], db_idem = [], uuid_calls = 0\<rparr>"
  show ?thesis
    using accepted_merchant_is_stored [OF new, where X = demo_ext and w = ?w]
    by (intro exI [of _ "\<lparr>m_id = 7, m_name = ''Shop'', m_email = ''a@b.c'', m_domains = [], m_created_at = 0\<rparr>"]
        exI [of _ ?w] conjI new) (auto split: prod.splits sum.splits)
qed

section \<open>API keys\<close>

definition key_into_domain :: "api_key_row \<Rightarrow> api_key" where
  "key_into_domain r =
     \<lparr>k_id = kr_id r, k_merchant_id = kr_merchant_id r, k_kind = kr_kind r, k_label = kr_label r,
      k_scopes = scopes_from_strings (kr_scopes r), k_secret_hash = kr_secret_hash r,
      k_last_used_at = kr_last_used_at r, k_revoked_at = kr_revoked_at r, k_created_at = kr_created_at r\<rparr>"

definition key_to_row :: "api_key \<Rightarrow> api_key_row" where
  "key_to_row k =
     \<lparr>kr_id = k_id k, kr_merchant_id = k_merchant_id k, kr_kind = k_kind k, kr_label = k_label k,
      kr_scopes = scopes_to_strings (k_scopes k), kr_secret_hash = k_secret_hash k,
      kr_last_used_at = k_last_used_at k, kr_revoked_at = k_revoked_at k, kr_created_at = k_created_at k\<rparr>"

definition key_insert :: "ext \<Rightarrow> api_key \<Rightarrow> (db, store_error, unit) tx" where
  "key_insert X k =
     (let r = key_to_row k in
      guarded (\<lambda>w. guard_row X []
         [(''api_keys_pkey'', \<not> has_row kr_id (kr_id r) (db_api_keys w)),
          (''api_keys_secret_hash_idx'', \<not> list_ex (\<lambda>q. kr_secret_hash q = kr_secret_hash r) (db_api_keys w))]
         [(''api_keys_merchant_id_fkey'', has_row m_id (kr_merchant_id r) (db_merchants w))])
       (\<lambda>w. w\<lparr>db_api_keys := db_api_keys w @ [r]\<rparr>))"

definition find_active_by_hash :: "string \<Rightarrow> (db, store_error, api_key) tx" where
  "find_active_by_hash h = query (\<lambda>w.
     rbind (ok_or (find (\<lambda>r. kr_secret_hash r = h \<and> kr_revoked_at r = None) (db_api_keys w))
       (S_NotFound ''api_key'')) (\<lambda>r. Inr (key_into_domain r)))"

definition key_list_for_merchant :: "uuid \<Rightarrow> (db, store_error, api_key list) tx" where
  "key_list_for_merchant m = query (\<lambda>w.
     Inr (map key_into_domain (newest_first kr_created_at
       (filter (\<lambda>r. kr_merchant_id r = m) (db_api_keys w)))))"

definition key_revoke :: "uuid \<Rightarrow> uuid \<Rightarrow> instant \<Rightarrow> (db, store_error, unit) tx" where
  "key_revoke m i now =
     guarded (\<lambda>w. if list_ex (\<lambda>r. kr_id r = i \<and> kr_merchant_id r = m) (db_api_keys w) then Inr ()
         else Inl (S_NotFound ''api_key''))
       (\<lambda>w. w\<lparr>db_api_keys := map (\<lambda>r. if kr_id r = i \<and> kr_merchant_id r = m
          then r\<lparr>kr_revoked_at := (case kr_revoked_at r of None \<Rightarrow> Some now | Some t \<Rightarrow> Some t)\<rparr> else r)
          (db_api_keys w)\<rparr>)"

definition touch_last_used :: "uuid \<Rightarrow> instant \<Rightarrow> (db, store_error, unit) tx" where
  "touch_last_used i now = modify (\<lambda>w. w\<lparr>db_api_keys :=
     update_row kr_id i (\<lambda>r. r\<lparr>kr_last_used_at := Some now\<rparr>) (db_api_keys w)\<rparr>)"

interpretation key_rows: row_codec "''api_key''" key_to_row "\<lambda>r. Inr (key_into_domain r)" k_id kr_id "\<lambda>_. True"
  by unfold_locales
    (auto simp: key_to_row_def key_into_domain_def scopes_from_strings_def scopes_to_strings_def
      scope_codec.decode_list)

definition hashes_unique :: "db \<Rightarrow> bool" where
  "hashes_unique w \<longleftrightarrow> distinct (map kr_secret_hash (db_api_keys w))"

lemma key_revoke_Inr:
  "key_revoke m i now w = (Inr u, w') \<Longrightarrow>
     (\<exists>r \<in> set (db_api_keys w). kr_id r = i \<and> kr_merchant_id r = m) \<and>
     w' = w\<lparr>db_api_keys := map (\<lambda>r. if kr_id r = i \<and> kr_merchant_id r = m
          then r\<lparr>kr_revoked_at := (case kr_revoked_at r of None \<Rightarrow> Some now | Some t \<Rightarrow> Some t)\<rparr> else r)
          (db_api_keys w)\<rparr>"
  by (auto simp: key_revoke_def guarded_Inr list_ex_iff split: if_splits)

lemma distinct_map_eq: "distinct (map f xs) \<Longrightarrow> a \<in> set xs \<Longrightarrow> b \<in> set xs \<Longrightarrow> f a = f b \<Longrightarrow> a = b"
  by (auto simp: distinct_map inj_on_def)

text \<open>
  A revoked key never authenticates again, and only its own merchant can revoke it: the lookup by
  hash returns nothing but active keys; after a revocation the hash of that key finds nothing, while
  every other key, every key of another merchant included, is found or not found as before.
\<close>
theorem revoked_key_does_not_authenticate:
  assumes "hashes_unique w" and "key_revoke m i now w = (Inr (), w')"
  shows "(find_active_by_hash h w' = (Inr k, w'') \<longrightarrow>
      key_is_active k \<and> k_secret_hash k = h \<and> \<not> (k_id k = i \<and> k_merchant_id k = m)) \<and>
    ((\<forall>r \<in> set (db_api_keys w). kr_secret_hash r = h \<longrightarrow> \<not> (kr_id r = i \<and> kr_merchant_id r = m)) \<longrightarrow>
      fst (find_active_by_hash h w') = fst (find_active_by_hash h w))"
proof -
  let ?f = "\<lambda>r. if kr_id r = i \<and> kr_merchant_id r = m
     then r\<lparr>kr_revoked_at := (case kr_revoked_at r of None \<Rightarrow> Some now | Some t \<Rightarrow> Some t)\<rparr> else r"
  have w': "w' = w\<lparr>db_api_keys := map ?f (db_api_keys w)\<rparr>" using key_revoke_Inr [OF assms(2)] by simp
  have 1: "find_active_by_hash h w' = (Inr k, w'') \<longrightarrow>
      key_is_active k \<and> k_secret_hash k = h \<and> \<not> (k_id k = i \<and> k_merchant_id k = m)"
    by (auto simp: find_active_by_hash_def rbind_Inr find_Some_iff key_into_domain_def key_is_active_def
        is_revoked_def w' split: if_splits option.splits)
  have 2: "find (\<lambda>r. kr_secret_hash r = h \<and> kr_revoked_at r = None) (map ?f rs) =
      find (\<lambda>r. kr_secret_hash r = h \<and> kr_revoked_at r = None) rs"
    if "\<forall>r \<in> set rs. kr_secret_hash r = h \<longrightarrow> \<not> (kr_id r = i \<and> kr_merchant_id r = m)"
    for rs :: "api_key_row list"
    using that by (induction rs) auto
  show ?thesis using 1 2 by (simp add: find_active_by_hash_def query_def w')
qed

definition key_demo_world :: db where
  "key_demo_world = \<lparr>db_merchants = [], db_api_keys =
       map (\<lambda>(i, m, h). \<lparr>kr_id = i, kr_merchant_id = m, kr_kind = Secret, kr_label = ''k'',
         kr_scopes = [''orders:read''], kr_secret_hash = h, kr_last_used_at = None, kr_revoked_at = None,
         kr_created_at = 0\<rparr>) [(1, 7, ''h1''), (2, 8, ''h2'')],
     db_orders = [], db_payments = [], db_attempts = [], db_refunds = [], db_accounts = [],
     db_ltxns = [], db_entries = [], db_events = [], db_endpoints = [], db_deliveries = [], db_jobs = [],
     db_idem = [], uuid_calls = 0\<rparr>"

theorem revoked_key_does_not_authenticate_witness:
  "is_ok (fst (key_revoke 7 1 5 key_demo_world)) \<and> \<not> is_ok (fst (key_revoke 7 2 5 key_demo_world)) \<and>
   \<not> is_ok (fst (find_active_by_hash ''h1'' (snd (key_revoke 7 1 5 key_demo_world)))) \<and>
   fst (find_active_by_hash ''h2'' (snd (key_revoke 7 1 5 key_demo_world)))
     = fst (find_active_by_hash ''h2'' key_demo_world)"
proof -
  obtain w' where w': "key_revoke 7 1 5 key_demo_world = (Inr (), w')"
    by (simp add: key_revoke_def guarded_def key_demo_world_def)
  moreover have "hashes_unique key_demo_world"
    by (simp add: hashes_unique_def key_demo_world_def)
  note revoked_key_does_not_authenticate [OF this w', where h = "''h2''"]
  moreover have "\<not> is_ok (fst (find_active_by_hash ''h1'' w'))"
    using key_revoke_Inr [OF w'] by (simp add: find_active_by_hash_def query_def key_demo_world_def)
  ultimately show ?thesis
    by (simp add: key_revoke_def guarded_def key_demo_world_def)
qed

end
