(* ===== verification/Engine_Event.thy ===== *)
theory Engine_Event
  imports Store_Events Store_Jobs Store_Order Store_Payment Store_Refund Ids
begin

text \<open>
  \<open>crates/engine/error.rs\<close> and \<open>event.rs\<close>: the errors of the engine, and the transactional outbox, which
  writes an event with one delivery and one due job per subscribed endpoint on the caller's
  transaction. The constants of the queue it uses (\<open>crates/queue/job.rs\<close>, \<open>scheduler.rs\<close>) stand here.
\<close>

section \<open>Errors\<close>

datatype engine_error =
    E_Store store_error
  | E_Money money_error
  | E_Ledger ledger_error
  | E_OrderTransition invalid_order_transition
  | E_PaymentTransition invalid_payment_transition
  | E_Card card_details_error
  | E_Validation string string
  | E_NotFound string

definition engine_is_not_found :: "engine_error \<Rightarrow> bool" where
  "engine_is_not_found e =
     (case e of E_NotFound _ \<Rightarrow> True | E_Store s \<Rightarrow> store_is_not_found s | _ \<Rightarrow> False)"

type_synonym 'a engine = "(db, engine_error, 'a) tx"

text \<open>The question mark on the result of a repository.\<close>

definition store :: "(db, store_error, 'a) tx \<Rightarrow> 'a engine" where
  "store m = tmap_err E_Store m"

lemma store_Inr [simp]: "store m w = (Inr a, w') \<longleftrightarrow> m w = (Inr a, w')"
  by (simp add: store_def)

lemma store_query: "store (query f) w = (map_err E_Store (f w), w)"
  by (simp add: store_def tmap_err_def query_def)

section \<open>Kinds of job and the retry limit\<close>

definition deliver_webhook :: string where
  "deliver_webhook = ''deliver_webhook''"

definition open_dispute :: string where
  "open_dispute = ''open_dispute''"

definition max_attempts :: int where
  "max_attempts = 7"

section \<open>Payloads\<close>

definition api_version :: string where
  "api_version = ''2026-07-01''"

definition rfc3339 :: "ext \<Rightarrow> instant \<Rightarrow> string" where
  "rfc3339 X t = unwrap_or '''' (rfc3339_format X t)"

definition card_json :: "card_details \<Rightarrow> json" where
  "card_json c = jobject [(''last4'', JStr (last4 c)), (''brand'', JStr (brand_str (brand c))),
     (''exp_month'', JNum (int (exp_month c))), (''exp_year'', JNum (int (exp_year c)))]"

definition payment_json :: "ext \<Rightarrow> payment \<Rightarrow> json" where
  "payment_json X p = jobject [
     (''id'', JStr (id_to_string X PaymentMarker (p_id p))),
     (''order_id'', JStr (id_to_string X OrderMarker (p_order_id p))),
     (''amount'', JNum (minor (p_amount p))),
     (''currency'', JStr (code (curr (p_amount p)))),
     (''amount_refunded'', JNum (p_amount_refunded p)),
     (''status'', JStr (payment_status_str (p_status p))),
     (''method'', JStr (payment_method_str (p_method p))),
     (''card'', jopt card_json (p_card p)),
     (''error_code'', jopt JStr (p_error_code p)),
     (''error_description'', jopt JStr (p_error_description p)),
     (''notes'', notes_to_value (p_notes p)),
     (''created_at'', JStr (rfc3339 X (p_created_at p))),
     (''captured_at'', jopt (\<lambda>t. JStr (rfc3339 X t)) (p_captured_at p))]"

definition order_json :: "ext \<Rightarrow> order \<Rightarrow> json" where
  "order_json X r = jobject [
     (''id'', JStr (id_to_string X OrderMarker (o_id r))),
     (''amount'', JNum (minor (o_amount r))),
     (''amount_paid'', JNum (o_amount_paid r)),
     (''currency'', JStr (code (curr (o_amount r)))),
     (''receipt'', jopt JStr (o_receipt r)),
     (''status'', JStr (order_status_str (o_status r))),
     (''notes'', notes_to_value (o_notes r)),
     (''created_at'', JStr (rfc3339 X (o_created_at r)))]"

definition payment_event_data :: "ext \<Rightarrow> payment \<Rightarrow> order \<Rightarrow> json" where
  "payment_event_data X p r = jobject [(''payment'', payment_json X p), (''order'', order_json X r)]"

definition order_event_data :: "ext \<Rightarrow> order \<Rightarrow> json" where
  "order_event_data X r = jobject [(''order'', order_json X r)]"

definition refund_json :: "ext \<Rightarrow> refund \<Rightarrow> json" where
  "refund_json X r = jobject [
     (''id'', JStr (id_to_string X RefundMarker (re_id r))),
     (''object'', JStr ''refund''),
     (''payment_id'', JStr (id_to_string X PaymentMarker (re_payment_id r))),
     (''amount'', JNum (minor (re_amount r))),
     (''currency'', JStr (code (curr (re_amount r)))),
     (''reason'', jopt JStr (re_reason r)),
     (''status'', JStr (refund_status_str (re_status r))),
     (''created_at'', JStr (rfc3339 X (re_created_at r))),
     (''processed_at'', jopt (\<lambda>t. JStr (rfc3339 X t)) (re_processed_at r))]"

definition refund_event_data :: "ext \<Rightarrow> refund \<Rightarrow> payment \<Rightarrow> json" where
  "refund_event_data X r p = jobject [(''refund'', refund_json X r), (''payment'', payment_json X p)]"

section \<open>Emission\<close>

definition delivery_payload :: "ext \<Rightarrow> uuid \<Rightarrow> uuid \<Rightarrow> uuid \<Rightarrow> json" where
  "delivery_payload X delivery_id event_id endpoint_id = jobject [
     (''delivery_id'', JStr (uuid_show X delivery_id)),
     (''event_id'', JStr (id_to_string X EventMarker event_id)),
     (''endpoint_id'', JStr (id_to_string X WebhookEndpointMarker endpoint_id))]"

definition emit ::
  "ext \<Rightarrow> endpoint_row list \<Rightarrow> uuid \<Rightarrow> string \<Rightarrow> json \<Rightarrow> instant \<Rightarrow> uuid engine" where
  "emit X endpoints merchant_id event_type payload now =
     tbind (store (event_insert X merchant_id event_type payload api_version now)) (\<lambda>event_id.
     tbind (tfor (filter (\<lambda>e. endpoint_is_active e \<and> endpoint_wants event_type e) endpoints) (\<lambda>ep.
       tbind (store (delivery_insert_pending X event_id (ep_id ep) now)) (\<lambda>delivery_id.
       tbind (store (job_enqueue X deliver_webhook (delivery_payload X delivery_id event_id (ep_id ep))
               now max_attempts now)) (\<lambda>_. treturn ())))) (\<lambda>_.
     treturn event_id))"

section \<open>What an emission writes\<close>

definition subscribed :: "string \<Rightarrow> endpoint_row list \<Rightarrow> endpoint_row list" where
  "subscribed event_type endpoints =
     filter (\<lambda>e. endpoint_is_active e \<and> endpoint_wants event_type e) endpoints"

fun fanout_deliveries :: "ext \<Rightarrow> uuid \<Rightarrow> instant \<Rightarrow> nat \<Rightarrow> endpoint_row list \<Rightarrow> delivery_row list" where
  "fanout_deliveries X ev now n [] = []"
| "fanout_deliveries X ev now n (e # es) =
     \<lparr>dr_id = now_v7 X n, dr_event_id = ev, dr_endpoint_id = ep_id e, dr_attempt = 1,
      dr_status = Del_Pending, dr_response_status = None, dr_response_body = None,
      dr_duration_ms = None, dr_next_retry_at = Some now, dr_created_at = now, dr_updated_at = now\<rparr>
     # fanout_deliveries X ev now (n + 2) es"

fun fanout_jobs :: "ext \<Rightarrow> uuid \<Rightarrow> instant \<Rightarrow> nat \<Rightarrow> endpoint_row list \<Rightarrow> job_row list" where
  "fanout_jobs X ev now n [] = []"
| "fanout_jobs X ev now n (e # es) =
     new_job_row (now_v7 X (n + 1)) deliver_webhook (delivery_payload X (now_v7 X n) ev (ep_id e))
       now max_attempts now
     # fanout_jobs X ev now (n + 2) es"

lemma fanout_loop_Inr:
  "tfor es (\<lambda>ep. tbind (store (delivery_insert_pending X ev (ep_id ep) now)) (\<lambda>d.
       tbind (store (job_enqueue X deliver_webhook (delivery_payload X d ev (ep_id ep))
         now max_attempts now)) (\<lambda>_. treturn ()))) w = (Inr u, w') \<Longrightarrow>
   w' = w\<lparr>db_deliveries := db_deliveries w @ fanout_deliveries X ev now (uuid_calls w) es,
          db_jobs := db_jobs w @ fanout_jobs X ev now (uuid_calls w) es,
          uuid_calls := uuid_calls w + 2 * length es\<rparr>"
proof (induction es arbitrary: w)
  case (Cons e es)
  let ?step = "tbind (store (delivery_insert_pending X ev (ep_id e) now)) (\<lambda>d.
       tbind (store (job_enqueue X deliver_webhook (delivery_payload X d ev (ep_id e))
         now max_attempts now)) (\<lambda>_. treturn ()))"
  obtain w1 where first: "?step w = (Inr (), w1)"
    and rest: "tfor es (\<lambda>ep. tbind (store (delivery_insert_pending X ev (ep_id ep) now)) (\<lambda>d.
       tbind (store (job_enqueue X deliver_webhook (delivery_payload X d ev (ep_id ep))
         now max_attempts now)) (\<lambda>_. treturn ()))) w1 = (Inr u, w')"
    using Cons.prems unfolding tfor_Cons_Inr by blast
  from Cons.IH [OF rest] first show ?case
    by (auto simp: tbind_Inr dest!: delivery_insert_pending_Inr job_enqueue_Inr)
qed simp

lemma emit_Inr:
  assumes "emit X endpoints m ty payload now w = (Inr ev, w')"
  shows "ev = now_v7 X (uuid_calls w) \<and>
    w' = w\<lparr>db_events := db_events w @
             [\<lparr>ev_id = ev, ev_merchant_id = m, ev_type = ty, ev_payload = payload,
               ev_api_version = api_version, ev_created_at = now\<rparr>],
           db_deliveries := db_deliveries w @
             fanout_deliveries X ev now (Suc (uuid_calls w)) (subscribed ty endpoints),
           db_jobs := db_jobs w @ fanout_jobs X ev now (Suc (uuid_calls w)) (subscribed ty endpoints),
           uuid_calls := Suc (uuid_calls w) + 2 * length (subscribed ty endpoints)\<rparr>"
  using assms by (auto simp: emit_def tbind_Inr subscribed_def dest!: event_insert_Inr fanout_loop_Inr)

lemma fanout_paired:
  "list_all2 (\<lambda>e (d, j). dr_event_id d = ev \<and> dr_endpoint_id d = ep_id e \<and> dr_status d = Del_Pending \<and>
       dr_attempt d = 1 \<and> jr_kind j = deliver_webhook \<and> jr_state j = Job_Pending \<and> jr_run_at j = now \<and>
       jr_payload j = delivery_payload X (dr_id d) ev (ep_id e))
     es (zip (fanout_deliveries X ev now n es) (fanout_jobs X ev now n es)) \<and>
   length (fanout_deliveries X ev now n es) = length es \<and> length (fanout_jobs X ev now n es) = length es"
  by (induction es arbitrary: n) (auto simp: new_job_row_def)

text \<open>
  C30. The outbox is complete and exact. An emission that succeeds adds one event, and for each endpoint
  that is active and subscribed to its type, in order, one pending delivery of that event and one job
  that is due at once and names that delivery, event and endpoint; it adds nothing else, and
  touches no other table.
\<close>
theorem emit_fans_out_exactly:
  assumes "emit X endpoints m ty payload now w = (Inr ev, w')"
  shows "\<exists>ds js. db_deliveries w' = db_deliveries w @ ds \<and> db_jobs w' = db_jobs w @ js \<and>
    list_all2 (\<lambda>e (d, j). dr_event_id d = ev \<and> dr_endpoint_id d = ep_id e \<and> dr_status d = Del_Pending \<and>
        dr_attempt d = 1 \<and> jr_kind j = deliver_webhook \<and> jr_state j = Job_Pending \<and> jr_run_at j = now \<and>
        jr_payload j = delivery_payload X (dr_id d) ev (ep_id e))
      (filter (\<lambda>e. ep_disabled_at e = None \<and> (ep_enabled_events e = [] \<or> ty \<in> set (ep_enabled_events e))) endpoints)
      (zip ds js) \<and> length ds = length js \<and>
    (\<exists>r. db_events w' = db_events w @ [r] \<and> ev_id r = ev \<and> ev_type r = ty \<and> ev_payload r = payload \<and>
       ev_merchant_id r = m) \<and>
    w'\<lparr>db_events := db_events w, db_deliveries := db_deliveries w, db_jobs := db_jobs w,
       uuid_calls := uuid_calls w\<rparr> = w"
proof -
  have "subscribed ty endpoints = filter (\<lambda>e. ep_disabled_at e = None \<and>
      (ep_enabled_events e = [] \<or> ty \<in> set (ep_enabled_events e))) endpoints"
    by (auto simp: subscribed_def endpoint_is_active_def endpoint_wants_def list_ex_iff intro!: filter_cong)
  then show ?thesis
    using emit_Inr [OF assms] fanout_paired [of ev now X "subscribed ty endpoints" "Suc (uuid_calls w)"]
    by auto
qed

definition demo_endpoint :: "uuid \<Rightarrow> string list \<Rightarrow> instant option \<Rightarrow> endpoint_row" where
  "demo_endpoint i types disabled = \<lparr>ep_id = i, ep_merchant_id = 7, ep_url = ''http://localhost'',
     ep_signing_secret = ''s'', ep_enabled_events = types, ep_disabled_at = disabled, ep_created_at = 0\<rparr>"

definition demo_endpoints :: "endpoint_row list" where
  "demo_endpoints = [demo_endpoint 41 [] None, demo_endpoint 42 [''order.paid''] None,
     demo_endpoint 43 [''payment.failed''] None, demo_endpoint 44 [] (Some 5)]"

theorem emit_fans_out_exactly_witness:
  "\<exists>ev w'. emit demo_ext demo_endpoints 7 ''payment.failed'' JNull 9 (demo_db\<lparr>db_endpoints := demo_endpoints\<rparr>) = (Inr ev, w') \<and>
     map dr_endpoint_id (db_deliveries w') = [41, 43] \<and> length (db_jobs w') = 2 \<and>
     db_orders w' = db_orders demo_db"
proof -
  let ?w = "demo_db\<lparr>db_endpoints := demo_endpoints\<rparr>"
  let ?r = "emit demo_ext demo_endpoints 7 ''payment.failed'' JNull 9 ?w"
  have "case ?r of (res, w') \<Rightarrow> res = Inr 1000 \<and>
     (map dr_endpoint_id (db_deliveries w') = [41, 43] \<and> length (db_jobs w') = 2)"
    by code_simp
  from run_result [OF this] obtain w' where run: "?r = (Inr 1000, w')"
    and sent: "map dr_endpoint_id (db_deliveries w') = [41, 43]" and jobs: "length (db_jobs w') = 2"
    by (elim exE conjE) (rule that)
  obtain ds js where "w'\<lparr>db_events := db_events ?w, db_deliveries := db_deliveries ?w, db_jobs := db_jobs ?w,
       uuid_calls := uuid_calls ?w\<rparr> = ?w"
    using emit_fans_out_exactly [OF run] by (elim exE conjE) (rule that)
  then have "db_orders (w'\<lparr>db_events := db_events ?w, db_deliveries := db_deliveries ?w, db_jobs := db_jobs ?w,
       uuid_calls := uuid_calls ?w\<rparr>) = db_orders ?w" by (rule arg_cong)
  then have "db_orders w' = db_orders demo_db" by simp
  with run sent jobs show ?thesis by (intro exI conjI)
qed

end
