(* ===== verification/Engine_Ledger.thy ===== *)
theory Engine_Ledger
  imports Store_Ledger Engine_Event Fees
begin

text \<open>
  \<open>crates/engine/ledger.rs\<close>: the posting rules, which say what accounts a capture and a refund move and
  by how much. Every rule builds balanced transactions and posts them on the caller's transaction.
\<close>

section \<open>The posting rules\<close>

definition capture_txn :: "uuid \<Rightarrow> uuid \<Rightarrow> money \<Rightarrow> ledger_error + balanced_transaction" where
  "capture_txn clearing pending amount =
     rbind (builder_debit clearing amount (builder_new PaymentCaptured)) (\<lambda>b.
     rbind (builder_credit pending amount b) builder_build)"

text \<open>The second transaction of \<open>post_capture\<close>, \<open>fee_charged\<close>, and then the whole of it.\<close>

definition post_fee ::
  "ext \<Rightarrow> ledger_account \<Rightarrow> currency \<Rightarrow> fee_breakdown \<Rightarrow> uuid \<Rightarrow> instant \<Rightarrow> unit engine" where
  "post_fee X pending currency fees payment_uuid now =
     tbind (store (find_platform_account PlatformRevenue currency)) (\<lambda>revenue.
     tbind (tlift (map_err E_Ledger
         (rbind (builder_debit (acc_id pending) (money_new (fee_total fees) currency) (builder_new FeeCharged))
            (builder_credit (acc_id revenue) (money_new (fee_base fees) currency))))) (\<lambda>builder.
     tbind (if fee_tax fees > 0 then
         tbind (store (find_platform_account TaxPayable currency)) (\<lambda>tax_acct.
         tlift (map_err E_Ledger (builder_credit (acc_id tax_acct) (money_new (fee_tax fees) currency) builder)))
       else treturn builder) (\<lambda>builder.
     tbind (tlift (map_err E_Ledger (builder_build builder))) (\<lambda>fee_txn.
     tbind (store (ledger_post X fee_txn (Some ''payment'') (Some payment_uuid) None now)) (\<lambda>_.
     treturn ())))))"

definition post_capture ::
  "ext \<Rightarrow> uuid \<Rightarrow> money \<Rightarrow> fee_breakdown \<Rightarrow> uuid \<Rightarrow> instant \<Rightarrow> unit engine" where
  "post_capture X merchant_id amount fees payment_uuid now =
     (let currency = curr amount in
      tbind (store (find_platform_account GatewayClearing currency)) (\<lambda>clearing.
      tbind (store (find_or_create_merchant_account X merchant_id MerchantPending currency now)) (\<lambda>pending.
      tbind (tlift (map_err E_Ledger (capture_txn (acc_id clearing) (acc_id pending) amount))) (\<lambda>capture.
      tbind (store (ledger_post X capture (Some ''payment'') (Some payment_uuid) None now)) (\<lambda>_.
      if fee_total fees > 0 then post_fee X pending currency fees payment_uuid now else treturn ())))))"

record fee_refund =
  fr_base :: int
  fr_tax :: int

definition fr_total :: "fee_refund \<Rightarrow> int" where
  "fr_total f = wrap64 (fr_base f + fr_tax f)"

definition fr_is_zero :: "fee_refund \<Rightarrow> bool" where
  "fr_is_zero f \<longleftrightarrow> fr_base f = 0 \<and> fr_tax f = 0"

definition refund_txn :: "uuid \<Rightarrow> uuid \<Rightarrow> money \<Rightarrow> ledger_error + balanced_transaction" where
  "refund_txn pending clearing amount =
     rbind (builder_debit pending amount (builder_new RefundIssued)) (\<lambda>b.
     rbind (builder_credit clearing amount b) builder_build)"

definition post_fee_return ::
  "ext \<Rightarrow> ledger_account \<Rightarrow> currency \<Rightarrow> fee_refund \<Rightarrow> uuid \<Rightarrow> instant \<Rightarrow> unit engine" where
  "post_fee_return X pending currency fee refund_uuid now =
     tbind (tlift (map_err E_Ledger
         (builder_credit (acc_id pending) (money_new (fr_total fee) currency) (builder_new FeeRefunded)))) (\<lambda>builder.
     tbind (if fr_base fee > 0 then
         tbind (store (find_platform_account PlatformRevenue currency)) (\<lambda>revenue.
         tlift (map_err E_Ledger (builder_debit (acc_id revenue) (money_new (fr_base fee) currency) builder)))
       else treturn builder) (\<lambda>builder.
     tbind (if fr_tax fee > 0 then
         tbind (store (find_platform_account TaxPayable currency)) (\<lambda>tax_acct.
         tlift (map_err E_Ledger (builder_debit (acc_id tax_acct) (money_new (fr_tax fee) currency) builder)))
       else treturn builder) (\<lambda>builder.
     tbind (tlift (map_err E_Ledger (builder_build builder))) (\<lambda>fee_txn.
     tbind (store (ledger_post X fee_txn (Some ''refund'') (Some refund_uuid) None now)) (\<lambda>_.
     treturn ())))))"

definition post_refund ::
  "ext \<Rightarrow> uuid \<Rightarrow> money \<Rightarrow> fee_refund \<Rightarrow> uuid \<Rightarrow> instant \<Rightarrow> unit engine" where
  "post_refund X merchant_id refund_amount fee refund_uuid now =
     (let currency = curr refund_amount in
      tbind (store (find_platform_account GatewayClearing currency)) (\<lambda>clearing.
      tbind (store (find_or_create_merchant_account X merchant_id MerchantPending currency now)) (\<lambda>pending.
      tbind (tlift (map_err E_Ledger (refund_txn (acc_id pending) (acc_id clearing) refund_amount))) (\<lambda>txn.
      tbind (store (ledger_post X txn (Some ''refund'') (Some refund_uuid) None now)) (\<lambda>_.
      if fr_is_zero fee then treturn ()
      else post_fee_return X pending currency fee refund_uuid now)))))"

section \<open>Moves\<close>

text \<open>
  What a posting means for the balances: the accounts it touches with the signed amounts. The
  extension of a ledger by balanced transactions is a relation on worlds, closed under composition.
\<close>

definition move_of :: "ledger_entry \<Rightarrow> uuid \<times> int" where
  "move_of e = (entry_account_id e, entry_minor e)"

definition moved :: "'a \<Rightarrow> ('a \<times> int) list \<Rightarrow> int" where
  "moved a ms = sum_list (map snd (filter (\<lambda>m. fst m = a) ms))"

lemma moved_simps [simp]:
  "moved a [] = 0"
  "moved a ((b, v) # ms) = (if b = a then v + moved a ms else moved a ms)"
  "moved a (ms @ ns) = moved a ms + moved a ns"
  by (simp_all add: moved_def)

lemma account_sum_append [simp]: "account_sum a (es @ fs) = account_sum a es + account_sum a fs"
  by (simp add: account_sum_def)

lemma account_sum_entry_rows: "account_sum a (entry_rows X t now n es) = moved a (map move_of es)"
  by (induction es arbitrary: n) (auto simp: account_sum_def move_of_def)

text \<open>
  \<open>posted ms w w'\<close>: the ledger of the second world is that of the first with some balanced transactions
  appended whose moves, all in one currency, are \<open>ms\<close>; accounts may have been added, nothing else changed.
\<close>

definition ledger_frame :: "db \<Rightarrow> db \<Rightarrow> bool" where
  "ledger_frame w w' \<longleftrightarrow>
     db_merchants w' = db_merchants w \<and> db_api_keys w' = db_api_keys w \<and> db_orders w' = db_orders w \<and>
     db_payments w' = db_payments w \<and> db_attempts w' = db_attempts w \<and> db_refunds w' = db_refunds w \<and>
     db_events w' = db_events w \<and> db_endpoints w' = db_endpoints w \<and>
     db_deliveries w' = db_deliveries w \<and> db_jobs w' = db_jobs w \<and> db_idem w' = db_idem w"

type_synonym account_key = "uuid option \<times> account_type \<times> string"

definition acct_key :: "account_row \<Rightarrow> account_key" where
  "acct_key r = (ar_merchant_id r, ar_account_type r, ar_currency r)"

definition books_ok :: "db \<Rightarrow> bool" where
  "books_ok w \<longleftrightarrow>
     distinct (map ar_id (db_accounts w)) \<and> distinct (map acct_key (db_accounts w)) \<and>
     (\<forall>e \<in> set (db_entries w). er_transaction_id e \<in> lt_id ` set (db_ltxns w) \<and>
        er_account_id e \<in> ar_id ` set (db_accounts w)) \<and>
     (\<forall>t \<in> lt_id ` set (db_ltxns w). txn_balanced t (db_entries w))"

definition posted :: "(uuid \<times> int) list \<Rightarrow> db \<Rightarrow> db \<Rightarrow> bool" where
  "posted ms w w' \<longleftrightarrow>
     ledger_frame w w' \<and> (\<exists>as. db_accounts w' = db_accounts w @ as) \<and>
     (\<exists>es. db_entries w' = db_entries w @ es \<and> (\<forall>a. account_sum a es = moved a ms)) \<and>
     (books_ok w \<longrightarrow> books_ok w')"

text \<open>A book: posting changes a balance by what the posting moves on that account.\<close>

locale book =
  fixes post :: "'t \<Rightarrow> 'w \<Rightarrow> 'w \<Rightarrow> bool" and bal :: "'a \<Rightarrow> 'w \<Rightarrow> int" and delta :: "'a \<Rightarrow> 't \<Rightarrow> int"
  assumes post_bal: "post t w w' \<Longrightarrow> bal a w' = bal a w + delta a t"
begin

lemma untouched: "post t w w' \<Longrightarrow> delta a t = 0 \<Longrightarrow> bal a w' = bal a w"
  by (simp add: post_bal)

lemma reversed: "post t w w1 \<Longrightarrow> post s w1 w2 \<Longrightarrow> delta a s = - delta a t \<Longrightarrow> bal a w2 = bal a w"
  by (simp add: post_bal)

lemma zero_sum:
  "post t w w' \<Longrightarrow> finite A \<Longrightarrow> (\<Sum>a\<in>A. delta a t) = 0 \<Longrightarrow> (\<Sum>a\<in>A. bal a w') = (\<Sum>a\<in>A. bal a w)"
  by (simp add: post_bal sum.distrib)

end

interpretation sandbox_book: book posted "\<lambda>a w. account_sum a (db_entries w)" moved
  by unfold_locales (auto simp: posted_def)

lemma posted_refl: "posted [] w w"
  by (auto simp: posted_def ledger_frame_def intro!: exI [of _ "[]"] simp: account_sum_def)

lemma posted_trans:
  assumes "posted ms w w1" and "posted ns w1 w2"
  shows "posted (ms @ ns) w w2"
proof -
  obtain es as where 1: "db_entries w1 = db_entries w @ es" "\<And>a. account_sum a es = moved a ms"
    "db_accounts w1 = db_accounts w @ as" using assms(1) by (auto simp: posted_def)
  obtain fs bs where 2: "db_entries w2 = db_entries w1 @ fs" "\<And>a. account_sum a fs = moved a ns"
    "db_accounts w2 = db_accounts w1 @ bs" using assms(2) by (auto simp: posted_def)
  have "db_entries w2 = db_entries w @ (es @ fs) \<and> (\<forall>a. account_sum a (es @ fs) = moved a (ms @ ns))"
    using 1 2 by simp
  moreover have "db_accounts w2 = db_accounts w @ (as @ bs)" using 1 2 by simp
  moreover have "ledger_frame w w2" using assms by (simp add: posted_def ledger_frame_def)
  moreover have "books_ok w \<longrightarrow> books_ok w2" using assms by (simp add: posted_def)
  ultimately show ?thesis unfolding posted_def by blast
qed

lemma entries_of_append: "entries_of t (es @ fs) = entries_of t es @ entries_of t fs"
  by (simp add: entries_of_def)

lemma entries_of_rows: "entries_of t (entry_rows X s now n es) = (if t = s then entry_rows X s now n es else [])"
  by (induction es arbitrary: n) (auto simp: entries_of_def)

lemma sum_in_rows: "sum_in (code c) (entry_rows X t now n es) = net c es"
  by (induction es arbitrary: n) (auto simp: sum_in_def code_inj)

lemma set_entry_rows:
  "e \<in> set (entry_rows X t now n es) \<Longrightarrow>
     er_transaction_id e = t \<and> er_account_id e \<in> entry_account_id ` set es \<and> (\<exists>c. er_currency e = code c)"
  by (induction es arbitrary: n) auto

lemma posted_post:
  assumes "balanced_new k es = Inr txn" and "ledger_post X txn rt ri d now w = (Inr t, w')"
  shows "posted (map move_of es) w w'"
proof -
  note txn = balanced_new_Inr [OF assms(1)]
  note step = ledger_post_Inr [OF assms(2)]
  let ?rows = "entry_rows X t now (Suc (uuid_calls w)) es"
  have w': "db_entries w' = db_entries w @ ?rows" "db_accounts w' = db_accounts w"
    "lt_id ` set (db_ltxns w') = insert t (lt_id ` set (db_ltxns w))" "ledger_frame w w'"
    using step txn by (auto simp: ledger_frame_def ltxn_row_of_def)
  have "books_ok w'" if ok: "books_ok w"
  proof -
    have "er_transaction_id e \<noteq> t" if "e \<in> set (db_entries w)" for e
      using that ok step unfolding books_ok_def by metis
    then have fresh: "entries_of t (db_entries w) = []"
      by (auto simp: entries_of_def filter_empty_conv)
    have "txn_balanced t (db_entries w')"
      using txn set_entry_rows [of _ X t now "Suc (uuid_calls w)" es]
      by (auto simp: txn_balanced_def w'(1) entries_of_append fresh entries_of_rows list_all_iff)
        (metis sum_in_rows)
    moreover have "txn_balanced s (db_entries w') = txn_balanced s (db_entries w)" if "s \<noteq> t" for s
      using that by (simp add: txn_balanced_def w'(1) entries_of_append entries_of_rows)
    ultimately have balanced: "\<forall>s \<in> lt_id ` set (db_ltxns w'). txn_balanced s (db_entries w')"
      using ok unfolding books_ok_def w'(3) by (metis insertE)
    have "er_transaction_id e \<in> lt_id ` set (db_ltxns w') \<and> er_account_id e \<in> ar_id ` set (db_accounts w')"
      if "e \<in> set (db_entries w')" for e
    proof (cases "e \<in> set (db_entries w)")
      case True
      then show ?thesis using ok unfolding books_ok_def w'(2,3) by blast
    next
      case False
      then have "e \<in> set ?rows" using that by (simp add: w'(1))
      then have e: "er_transaction_id e = t" "er_account_id e \<in> entry_account_id ` set es"
        using set_entry_rows by blast+
      have "entry_account_id ` set es \<subseteq> ar_id ` set (db_accounts w)" using step txn by simp
      then show ?thesis using e unfolding w'(2,3) by blast
    qed
    with balanced ok show ?thesis by (simp add: books_ok_def w'(2))
  qed
  then show ?thesis
    using w' by (auto simp: posted_def account_sum_entry_rows)
qed

lemma posted_find_or_create:
  assumes "find_or_create_merchant_account X m t c now w = (Inr a, w')"
  shows "posted [] w w'"
proof -
  let ?w = "w\<lparr>db_accounts := db_accounts w @ [account_to_row now a], uuid_calls := Suc (uuid_calls w)\<rparr>"
  note step = find_or_create_Inr [OF assms]
  have grow: "books_ok w'" if ok: "books_ok w"
  proof (cases "w' = w")
    case w': False
    have new: "acc_id a \<notin> ar_id ` set (db_accounts w)" and eq: "w' = ?w" using step w' by blast+
    have "acct_key (account_to_row now a) \<notin> acct_key ` set (db_accounts w)"
      using step w' by (auto simp: acct_key_def account_to_row_def)
    then show ?thesis
      using ok new by (auto simp: eq books_ok_def account_to_row_def)
  qed (simp add: ok)
  have "w' = w \<or> w' = ?w" using step by blast
  then have "ledger_frame w w' \<and> (\<exists>as. db_accounts w' = db_accounts w @ as) \<and> db_entries w' = db_entries w @ []"
    by (auto simp: ledger_frame_def)
  then show ?thesis
    using grow unfolding posted_def by (auto simp: account_sum_def)
qed

section \<open>What the rules move\<close>

text \<open>
  The moves of a capture and of a refund, by the key of the account. \<open>keyed\<close> ties the moves of a posting,
  which name account identifiers, to them.
\<close>

definition capture_moves :: "uuid \<Rightarrow> money \<Rightarrow> fee_breakdown \<Rightarrow> (account_key \<times> int) list" where
  "capture_moves m amount fees =
     (let c = code (curr amount) in
      [((None, GatewayClearing, c), - minor amount), ((Some m, MerchantPending, c), minor amount)] @
      (if fee_total fees > 0 then
         [((Some m, MerchantPending, c), - fee_total fees), ((None, PlatformRevenue, c), fee_base fees)] @
         (if fee_tax fees > 0 then [((None, TaxPayable, c), fee_tax fees)] else [])
       else []))"

definition refund_moves :: "uuid \<Rightarrow> money \<Rightarrow> fee_refund \<Rightarrow> (account_key \<times> int) list" where
  "refund_moves m amount fee =
     (let c = code (curr amount) in
      [((Some m, MerchantPending, c), - minor amount), ((None, GatewayClearing, c), minor amount)] @
      (if fr_is_zero fee then []
       else [((Some m, MerchantPending, c), fr_total fee)] @
         (if fr_base fee > 0 then [((None, PlatformRevenue, c), - fr_base fee)] else []) @
         (if fr_tax fee > 0 then [((None, TaxPayable, c), - fr_tax fee)] else [])))"

definition has_account :: "db \<Rightarrow> account_key \<Rightarrow> uuid \<Rightarrow> bool" where
  "has_account w k i \<longleftrightarrow> (\<exists>r \<in> set (db_accounts w). ar_id r = i \<and> acct_key r = k)"

definition keyed :: "db \<Rightarrow> (uuid \<times> int) list \<Rightarrow> (account_key \<times> int) list \<Rightarrow> bool" where
  "keyed w ms ks \<longleftrightarrow> list_all2 (\<lambda>(i, v) (k, v'). v = v' \<and> has_account w k i) ms ks"

lemma keyed_simps [simp]:
  "keyed w [] []"
  "keyed w ((i, v) # ms) ((k, v') # ks) \<longleftrightarrow> v = v' \<and> has_account w k i \<and> keyed w ms ks"
  by (simp_all add: keyed_def)

lemma keyed_append: "keyed w ms ks \<Longrightarrow> keyed w ns ls \<Longrightarrow> keyed w (ms @ ns) (ks @ ls)"
  by (simp add: keyed_def list_all2_appendI)

lemma has_account_posted: "posted ms w w' \<Longrightarrow> has_account w k i \<Longrightarrow> has_account w' k i"
  by (auto simp: posted_def has_account_def)

lemma find_platform_account_has:
  "find_platform_account t c w = (Inr a, w') \<Longrightarrow> w' = w \<and> has_account w (None, t, code c) (acc_id a)"
  by (auto simp: has_account_def acct_key_def dest!: find_platform_account_Inr)

lemma find_or_create_has:
  "find_or_create_merchant_account X m t c now w = (Inr a, w') \<Longrightarrow>
     posted [] w w' \<and> has_account w' (Some m, t, code c) (acc_id a)"
  using find_or_create_Inr [of X m t c now w a w'] posted_find_or_create [of X m t c now w a w']
  by (auto simp: has_account_def acct_key_def)

lemma moved_keyed:
  assumes "books_ok w" and "keyed w ms ks" and "r \<in> set (db_accounts w)"
  shows "moved (ar_id r) ms = moved (acct_key r) ks"
  using assms(2) unfolding keyed_def
proof (induction rule: list_all2_induct)
  case (Cons m ms k ks)
  obtain i v where m: "m = (i, v)" by (cases m)
  obtain q v' where k: "k = (q, v')" by (cases k)
  have "i = ar_id r \<longleftrightarrow> q = acct_key r"
  proof -
    obtain r' where r': "r' \<in> set (db_accounts w)" "ar_id r' = i" "acct_key r' = q"
      using Cons m k by (auto simp: has_account_def)
    have "inj_on ar_id (set (db_accounts w))" and "inj_on acct_key (set (db_accounts w))"
      using assms(1) by (simp_all add: books_ok_def distinct_map)
    then show ?thesis using r' assms(3) by (auto dest: inj_onD)
  qed
  then show ?case using Cons m k by auto
qed simp

text \<open>The balance of every account after a posting, in terms of its key.\<close>

lemma posted_balance:
  assumes "posted ms w w'" and "keyed w' ms ks" and "books_ok w" and "r \<in> set (db_accounts w')"
  shows "account_sum (ar_id r) (db_entries w') = account_sum (ar_id r) (db_entries w) + moved (acct_key r) ks"
proof -
  have "books_ok w'" using assms by (simp add: posted_def)
  from moved_keyed [OF this assms(2,4)] show ?thesis
    using sandbox_book.post_bal [OF assms(1), of "ar_id r"] by simp
qed

lemma new_account_is_empty:
  assumes "books_ok w" and "i \<notin> ar_id ` set (db_accounts w)"
  shows "account_sum i (db_entries w) = 0"
proof -
  have "filter (\<lambda>e. er_account_id e = i) (db_entries w) = []"
    using assms unfolding books_ok_def filter_empty_conv by blast
  then show ?thesis by (simp only: account_sum_def list.map sum_list.Nil)
qed

lemma books_ok_trigger: "books_ok w' \<Longrightarrow> ledger_trigger X w w' = None"
  by (auto simp: books_ok_def ledger_trigger_def list_all_iff dest!: in_set_dropD)

lemma builder_credit_Inr:
  "builder_credit a m b = Inr b' \<longleftrightarrow> 0 < minor m \<and>
     b' = b\<lparr>tb_entries := tb_entries b @ [\<lparr>entry_account_id = a, entry_amount = m\<rparr>]\<rparr>"
  by (auto simp: builder_credit_def rbind_Inr entry_credit_Inr)

lemma builder_debit_Inr:
  "builder_debit a m b = Inr b' \<longleftrightarrow> 0 < minor m \<and> in_i64 (- minor m) \<and>
     b' = b\<lparr>tb_entries := tb_entries b @ [\<lparr>entry_account_id = a, entry_amount = money_new (- minor m) (curr m)\<rparr>]\<rparr>"
  by (auto simp: builder_debit_def rbind_Inr entry_debit_Inr)

text \<open>Building a transaction and posting it.\<close>

lemma posted_build:
  assumes "builder_build b = Inr txn" and "ledger_post X txn rt ri d now w = (Inr t, w')"
    and "tb_entries b = es" and "map move_of es = ms"
  shows "posted ms w w'"
  using posted_post [OF assms(1) [unfolded builder_build_def] assms(2)] assms(3,4) by simp

lemma capture_txn_posted:
  assumes "capture_txn clearing pending amount = Inr txn" and "ledger_post X txn rt ri d now w = (Inr t, w')"
  shows "posted [(clearing, - minor amount), (pending, minor amount)] w w' \<and> 0 < minor amount"
proof -
  obtain b where "builder_build b = Inr txn" "0 < minor amount"
    "tb_entries b = [\<lparr>entry_account_id = clearing, entry_amount = money_new (- minor amount) (curr amount)\<rparr>,
       \<lparr>entry_account_id = pending, entry_amount = amount\<rparr>]"
    using assms(1)
    by (auto simp: capture_txn_def rbind_Inr builder_credit_Inr builder_debit_Inr builder_new_def)
  then show ?thesis
    using posted_build [OF _ assms(2)] by (auto simp: move_of_def entry_minor_def money_new_def)
qed

lemma refund_txn_posted:
  assumes "refund_txn pending clearing amount = Inr txn" and "ledger_post X txn rt ri d now w = (Inr t, w')"
  shows "posted [(pending, - minor amount), (clearing, minor amount)] w w' \<and> 0 < minor amount"
proof -
  obtain b where "builder_build b = Inr txn" "0 < minor amount"
    "tb_entries b = [\<lparr>entry_account_id = pending, entry_amount = money_new (- minor amount) (curr amount)\<rparr>,
       \<lparr>entry_account_id = clearing, entry_amount = amount\<rparr>]"
    using assms(1)
    by (auto simp: refund_txn_def rbind_Inr builder_credit_Inr builder_debit_Inr builder_new_def)
  then show ?thesis
    using posted_build [OF _ assms(2)] by (auto simp: move_of_def entry_minor_def money_new_def)
qed

definition fee_moves :: "uuid \<Rightarrow> currency \<Rightarrow> fee_breakdown \<Rightarrow> (account_key \<times> int) list" where
  "fee_moves m c fees =
     [((Some m, MerchantPending, code c), - fee_total fees), ((None, PlatformRevenue, code c), fee_base fees)] @
     (if fee_tax fees > 0 then [((None, TaxPayable, code c), fee_tax fees)] else [])"

lemma keyed_posted: "keyed w ms ks \<Longrightarrow> posted ns w w' \<Longrightarrow> keyed w' ms ks"
  unfolding keyed_def by (erule list_all2_mono) (auto intro: has_account_posted)

definition platform_account :: "db \<Rightarrow> account_type \<Rightarrow> currency \<Rightarrow> store_error + ledger_account" where
  "platform_account w t c = fst (find_platform_account t c w)"

lemma find_platform_account_at:
  "find_platform_account t c w = (Inr a, w') \<longleftrightarrow> w' = w \<and> platform_account w t c = Inr a"
  by (auto simp: platform_account_def find_platform_account_def query_def)

lemma platform_account_has: "platform_account w t c = Inr a \<Longrightarrow> has_account w (None, t, code c) (acc_id a)"
  using find_platform_account_has [of t c w a w] by (simp add: find_platform_account_at)

lemmas builder_simps = rbind_Inr builder_credit_Inr builder_debit_Inr builder_new_def move_of_def
  entry_minor_def money_new_def

lemma post_fee_Inr:
  assumes "post_fee X pending c fees p now w = (Inr u, w')"
    and "has_account w (Some m, MerchantPending, code c) (acc_id pending)"
  shows "\<exists>ms. posted ms w w' \<and> keyed w' ms (fee_moves m c fees)"
proof -
  have "\<exists>ms b fee t. builder_build b = Inr fee \<and> map move_of (tb_entries b) = ms \<and>
      ledger_post X fee (Some ''payment'') (Some p) None now w = (Inr t, w') \<and> keyed w ms (fee_moves m c fees)"
  proof (cases "fee_tax fees > 0")
    case True
    obtain rev tax b0 b fee t where
      "platform_account w PlatformRevenue c = Inr rev" "platform_account w TaxPayable c = Inr tax"
      and b: "rbind (builder_debit (acc_id pending) (money_new (fee_total fees) c) (builder_new FeeCharged))
          (builder_credit (acc_id rev) (money_new (fee_base fees) c)) = Inr b0"
        "builder_credit (acc_id tax) (money_new (fee_tax fees) c) b0 = Inr b"
      and "builder_build b = Inr fee" "ledger_post X fee (Some ''payment'') (Some p) None now w = (Inr t, w')"
      using assms(1) True by (auto simp: post_fee_def tbind_Inr find_platform_account_at)
    moreover from b have "map move_of (tb_entries b) =
        [(acc_id pending, - fee_total fees), (acc_id rev, fee_base fees), (acc_id tax, fee_tax fees)]"
      by (auto simp: builder_simps)
    ultimately show ?thesis
      using True assms(2) platform_account_has by (intro exI conjI) (assumption+, simp add: fee_moves_def)
  next
    case False
    obtain rev b fee t where
      "platform_account w PlatformRevenue c = Inr rev"
      and b: "rbind (builder_debit (acc_id pending) (money_new (fee_total fees) c) (builder_new FeeCharged))
          (builder_credit (acc_id rev) (money_new (fee_base fees) c)) = Inr b"
      and "builder_build b = Inr fee" "ledger_post X fee (Some ''payment'') (Some p) None now w = (Inr t, w')"
      using assms(1) False by (auto simp: post_fee_def tbind_Inr find_platform_account_at)
    moreover from b have "map move_of (tb_entries b) =
        [(acc_id pending, - fee_total fees), (acc_id rev, fee_base fees)]"
      by (auto simp: builder_simps)
    ultimately show ?thesis
      using False assms(2) platform_account_has by (intro exI conjI) (assumption+, simp add: fee_moves_def)
  qed
  then show ?thesis using posted_build keyed_posted by metis
qed

definition fee_return_moves :: "uuid \<Rightarrow> currency \<Rightarrow> fee_refund \<Rightarrow> (account_key \<times> int) list" where
  "fee_return_moves m c fee =
     [((Some m, MerchantPending, code c), fr_total fee)] @
     (if fr_base fee > 0 then [((None, PlatformRevenue, code c), - fr_base fee)] else []) @
     (if fr_tax fee > 0 then [((None, TaxPayable, code c), - fr_tax fee)] else [])"

text \<open>The optional entry of \<open>post_refund\<close>: skipped when the amount is not positive.\<close>

definition debit_if_positive ::
  "account_type \<Rightarrow> int \<Rightarrow> currency \<Rightarrow> transaction_builder \<Rightarrow> transaction_builder engine" where
  "debit_if_positive t v c b =
     (if v > 0 then
        tbind (store (find_platform_account t c)) (\<lambda>acct.
        tlift (map_err E_Ledger (builder_debit (acc_id acct) (money_new v c) b)))
      else treturn b)"

lemma debit_if_positive_Inr:
  assumes "debit_if_positive t v c b w = (Inr b', w')"
  shows "w' = w \<and> (\<exists>ms. map move_of (tb_entries b') = map move_of (tb_entries b) @ ms \<and>
    keyed w ms (if v > 0 then [((None, t, code c), - v)] else []))"
proof (cases "v > 0")
  case True
  with assms obtain a where a: "platform_account w t c = Inr a" "w' = w"
      "builder_debit (acc_id a) (money_new v c) b = Inr b'"
    by (auto simp: debit_if_positive_def tbind_Inr find_platform_account_at)
  then have "map move_of (tb_entries b') = map move_of (tb_entries b) @ [(acc_id a, - v)]"
    by (auto simp: builder_simps)
  then show ?thesis using True a platform_account_has by auto
qed (use assms in \<open>simp add: debit_if_positive_def\<close>)

lemma post_fee_return_alt:
  "post_fee_return X pending c fee r now =
     tbind (tlift (map_err E_Ledger
         (builder_credit (acc_id pending) (money_new (fr_total fee) c) (builder_new FeeRefunded)))) (\<lambda>b.
     tbind (debit_if_positive PlatformRevenue (fr_base fee) c b) (\<lambda>b.
     tbind (debit_if_positive TaxPayable (fr_tax fee) c b) (\<lambda>b.
     tbind (tlift (map_err E_Ledger (builder_build b))) (\<lambda>txn.
     tbind (store (ledger_post X txn (Some ''refund'') (Some r) None now)) (\<lambda>_. treturn ())))))"
  by (simp add: post_fee_return_def debit_if_positive_def)

lemma post_fee_return_Inr:
  assumes "post_fee_return X pending c fee r now w = (Inr u, w')"
    and "has_account w (Some m, MerchantPending, code c) (acc_id pending)"
  shows "\<exists>ms. posted ms w w' \<and> keyed w' ms (fee_return_moves m c fee)"
proof -
  obtain b0 b1 b2 txn t w1 w2 where
    b0: "builder_credit (acc_id pending) (money_new (fr_total fee) c) (builder_new FeeRefunded) = Inr b0"
    and b1: "debit_if_positive PlatformRevenue (fr_base fee) c b0 w = (Inr b1, w1)"
    and b2: "debit_if_positive TaxPayable (fr_tax fee) c b1 w1 = (Inr b2, w2)"
    and build: "builder_build b2 = Inr txn"
    and post: "ledger_post X txn (Some ''refund'') (Some r) None now w2 = (Inr t, w')"
    using assms(1) by (auto simp: post_fee_return_alt tbind_Inr)
  have "map move_of (tb_entries b0) = [(acc_id pending, fr_total fee)]"
    using b0 by (auto simp: builder_simps)
  then obtain ns ls where "map move_of (tb_entries b2) = [(acc_id pending, fr_total fee)] @ ns @ ls"
    and k: "keyed w ns (if fr_base fee > 0 then [((None, PlatformRevenue, code c), - fr_base fee)] else [])"
      "keyed w ls (if fr_tax fee > 0 then [((None, TaxPayable, code c), - fr_tax fee)] else [])"
    and w2: "w2 = w"
    using debit_if_positive_Inr [OF b1] debit_if_positive_Inr [OF b2] by auto
  with posted_build [OF build post] have "posted ([(acc_id pending, fr_total fee)] @ ns @ ls) w w'" by simp
  moreover have "keyed w ([(acc_id pending, fr_total fee)] @ ns @ ls) (fee_return_moves m c fee)"
    unfolding fee_return_moves_def using assms(2) k by (intro keyed_append) simp_all
  ultimately show ?thesis using keyed_posted by blast
qed

lemma post_capture_Inr:
  assumes "post_capture X m amount fees p now w = (Inr u, w')"
  shows "\<exists>ms. posted ms w w' \<and> keyed w' ms (capture_moves m amount fees)"
proof -
  let ?c = "code (curr amount)"
  obtain clr pnd txn t w1 w2 where
    clr: "find_platform_account GatewayClearing (curr amount) w = (Inr clr, w)"
    and pnd: "find_or_create_merchant_account X m MerchantPending (curr amount) now w = (Inr pnd, w1)"
    and txn: "capture_txn (acc_id clr) (acc_id pnd) amount = Inr txn"
    and post: "ledger_post X txn (Some ''payment'') (Some p) None now w1 = (Inr t, w2)"
    and rest: "(if fee_total fees > 0 then post_fee X pnd (curr amount) fees p now else treturn ()) w2 = (Inr (), w')"
    using assms
    by (auto simp: post_capture_def Let_def tbind_Inr find_platform_account_at)
  let ?ms = "[(acc_id clr, - minor amount), (acc_id pnd, minor amount)]"
  let ?ks = "[((None, GatewayClearing, ?c), - minor amount), ((Some m, MerchantPending, ?c), minor amount)]"
  have p2: "posted ?ms w w2"
    using posted_trans [OF conjunct1 [OF find_or_create_has [OF pnd]] conjunct1 [OF capture_txn_posted [OF txn post]]]
    by simp
  have h2: "has_account w2 (None, GatewayClearing, ?c) (acc_id clr)"
    "has_account w2 (Some m, MerchantPending, ?c) (acc_id pnd)"
    using has_account_posted [OF p2] has_account_posted [OF conjunct1 [OF capture_txn_posted [OF txn post]]]
      find_platform_account_has [OF clr] find_or_create_has [OF pnd] by blast+
  have k2: "keyed w2 ?ms ?ks" using h2 by simp
  show ?thesis
  proof (cases "fee_total fees > 0")
    case False
    then show ?thesis using rest p2 k2 by (auto simp: capture_moves_def Let_def)
  next
    case True
    then obtain ns where ns: "posted ns w2 w'" "keyed w' ns (fee_moves m (curr amount) fees)"
      using rest post_fee_Inr [of X pnd "curr amount" fees p now w2 "()" w' m] h2(2) by auto
    have "capture_moves m amount fees = ?ks @ fee_moves m (curr amount) fees"
      using True by (simp add: capture_moves_def fee_moves_def Let_def)
    then show ?thesis
      using posted_trans [OF p2 ns(1)] keyed_append [OF keyed_posted [OF k2 ns(1)] ns(2)] by metis
  qed
qed

lemma post_refund_Inr:
  assumes "post_refund X m amount fee rid now w = (Inr u, w')"
  shows "\<exists>ms. posted ms w w' \<and> keyed w' ms (refund_moves m amount fee)"
proof -
  let ?c = "code (curr amount)"
  obtain clr pnd txn t w1 w2 where
    clr: "find_platform_account GatewayClearing (curr amount) w = (Inr clr, w)"
    and pnd: "find_or_create_merchant_account X m MerchantPending (curr amount) now w = (Inr pnd, w1)"
    and txn: "refund_txn (acc_id pnd) (acc_id clr) amount = Inr txn"
    and post: "ledger_post X txn (Some ''refund'') (Some rid) None now w1 = (Inr t, w2)"
    and rest: "(if fr_is_zero fee then treturn () else post_fee_return X pnd (curr amount) fee rid now) w2 = (Inr (), w')"
    using assms by (auto simp: post_refund_def Let_def tbind_Inr find_platform_account_at)
  let ?ms = "[(acc_id pnd, - minor amount), (acc_id clr, minor amount)]"
  let ?ks = "[((Some m, MerchantPending, ?c), - minor amount), ((None, GatewayClearing, ?c), minor amount)]"
  have p2: "posted ?ms w w2"
    using posted_trans [OF conjunct1 [OF find_or_create_has [OF pnd]] conjunct1 [OF refund_txn_posted [OF txn post]]]
    by simp
  have h2: "has_account w2 (None, GatewayClearing, ?c) (acc_id clr)"
    "has_account w2 (Some m, MerchantPending, ?c) (acc_id pnd)"
    using has_account_posted [OF p2] has_account_posted [OF conjunct1 [OF refund_txn_posted [OF txn post]]]
      find_platform_account_has [OF clr] find_or_create_has [OF pnd] by blast+
  have k2: "keyed w2 ?ms ?ks" using h2 by simp
  show ?thesis
  proof (cases "fr_is_zero fee")
    case True
    then show ?thesis using rest p2 k2 by (auto simp: refund_moves_def Let_def)
  next
    case False
    then obtain ns where ns: "posted ns w2 w'" "keyed w' ns (fee_return_moves m (curr amount) fee)"
      using rest post_fee_return_Inr [of X pnd "curr amount" fee rid now w2 "()" w' m] h2(2) by auto
    have "refund_moves m amount fee = ?ks @ fee_return_moves m (curr amount) fee"
      using False by (simp add: refund_moves_def fee_return_moves_def Let_def)
    then show ?thesis
      using posted_trans [OF p2 ns(1)] keyed_append [OF keyed_posted [OF k2 ns(1)] ns(2)] by metis
  qed
qed

text \<open>
  A capture moves exactly the accounts its posting rule names: on books whose transactions balance,
  the balance of every account afterwards is the one before plus what the rule moves on the account's
  owner, type and currency; the books still balance, so the trigger lets the commit through.
\<close>

theorem capture_moves_balances:
  assumes "post_capture X m amount fees p now w = (Inr u, w')" and "books_ok w" and "r \<in> set (db_accounts w')"
  shows "account_sum (ar_id r) (db_entries w') =
      account_sum (ar_id r) (db_entries w) + moved (acct_key r) (capture_moves m amount fees) \<and>
    books_ok w' \<and> ledger_trigger X w w' = None"
proof -
  obtain ms where ms: "posted ms w w'" "keyed w' ms (capture_moves m amount fees)"
    using post_capture_Inr [OF assms(1)] by blast
  then have "books_ok w'" using assms(2) by (simp add: posted_def)
  then show ?thesis using posted_balance [OF ms assms(2,3)] books_ok_trigger by blast
qed

definition demo_fees :: fee_breakdown where
  "demo_fees = \<lparr>fee_base = 200, fee_tax = 36, fee_total = 236, fee_currency = INR\<rparr>"

lemma demo_books_ok: "books_ok demo_db"
  by (simp add: books_ok_def demo_db_def demo_account_def acct_key_def)

theorem capture_moves_balances_witness:
  "\<exists>w'. post_capture demo_ext 7 (money_new 10000 INR) demo_fees 70 0 demo_db = (Inr (), w') \<and>
     map (\<lambda>r. (ar_id r, account_sum (ar_id r) (db_entries w'))) (db_accounts w') =
       [(1, - 10000), (2, 200), (3, 36), (1000, 9764)] \<and>
     ledger_trigger demo_ext demo_db w' = None"
proof -
  let ?r = "post_capture demo_ext 7 (money_new 10000 INR) demo_fees 70 0 demo_db"
  have "case ?r of (res, w') \<Rightarrow> res = Inr () \<and>
     (map (\<lambda>r. (ar_id r, account_sum (ar_id r) (db_entries w'))) (db_accounts w') =
       [(1, - 10000), (2, 200), (3, 36), (1000, 9764)] \<and> db_accounts w' \<noteq> [])"
    by code_simp
  from run_result [OF this] obtain w' where run: "?r = (Inr (), w')"
    and sums: "map (\<lambda>r. (ar_id r, account_sum (ar_id r) (db_entries w'))) (db_accounts w') =
       [(1, - 10000), (2, 200), (3, 36), (1000, 9764)]"
    and ne: "db_accounts w' \<noteq> []"
    by (elim exE conjE) (rule that)
  have "ledger_trigger demo_ext demo_db w' = None"
    by (rule capture_moves_balances [OF run demo_books_ok hd_in_set [OF ne], THEN conjunct2, THEN conjunct2])
  show ?thesis by (intro exI conjI) fact+
qed

text \<open>
  A refund moves exactly the accounts its posting rule names: the refunded amount goes back from the
  merchant to the clearing account, the returned fee comes back out of the revenue and tax accounts to
  the merchant, no other balance changes, and the books still balance.
\<close>

theorem refund_moves_balances:
  assumes "post_refund X m amount fee rid now w = (Inr u, w')" and "books_ok w" and "r \<in> set (db_accounts w')"
  shows "account_sum (ar_id r) (db_entries w') =
      account_sum (ar_id r) (db_entries w) + moved (acct_key r) (refund_moves m amount fee) \<and>
    books_ok w' \<and> ledger_trigger X w w' = None"
proof -
  obtain ms where ms: "posted ms w w'" "keyed w' ms (refund_moves m amount fee)"
    using post_refund_Inr [OF assms(1)] by blast
  then have "books_ok w'" using assms(2) by (simp add: posted_def)
  then show ?thesis using posted_balance [OF ms assms(2,3)] books_ok_trigger by blast
qed

theorem refund_moves_balances_witness:
  "\<exists>w'. post_refund demo_ext 7 (money_new 4000 INR) \<lparr>fr_base = 80, fr_tax = 14\<rparr> 71 0 demo_db = (Inr (), w') \<and>
     map (\<lambda>r. (ar_id r, account_sum (ar_id r) (db_entries w'))) (db_accounts w') =
       [(1, 4000), (2, - 80), (3, - 14), (1000, - 3906)] \<and>
     ledger_trigger demo_ext demo_db w' = None"
proof -
  let ?r = "post_refund demo_ext 7 (money_new 4000 INR) \<lparr>fr_base = 80, fr_tax = 14\<rparr> 71 0 demo_db"
  have "case ?r of (res, w') \<Rightarrow> res = Inr () \<and>
     (map (\<lambda>r. (ar_id r, account_sum (ar_id r) (db_entries w'))) (db_accounts w') =
       [(1, 4000), (2, - 80), (3, - 14), (1000, - 3906)] \<and> db_accounts w' \<noteq> [])"
    by code_simp
  from run_result [OF this] obtain w' where run: "?r = (Inr (), w')"
    and sums: "map (\<lambda>r. (ar_id r, account_sum (ar_id r) (db_entries w'))) (db_accounts w') =
       [(1, 4000), (2, - 80), (3, - 14), (1000, - 3906)]"
    and ne: "db_accounts w' \<noteq> []"
    by (elim exE conjE) (rule that)
  have "ledger_trigger demo_ext demo_db w' = None"
    by (rule refund_moves_balances [OF run demo_books_ok hd_in_set [OF ne], THEN conjunct2, THEN conjunct2])
  show ?thesis by (intro exI conjI) fact+
qed

end
