(* ===== verification/Engine_Order.thy ===== *)
theory Engine_Order
  imports Engine_Event
begin

text \<open>
  \<open>crates/engine/order.rs\<close>: orders are created, read and listed here; their transitions are side
  effects of payments.
\<close>

definition min_amount_minor :: int where
  "min_amount_minor = 100"

definition max_list_limit :: int where
  "max_list_limit = 200"

record create_order_input =
  co_amount_minor :: int
  co_currency :: currency
  co_receipt :: "string option"
  co_notes :: note_map

definition order_create :: "ext \<Rightarrow> uuid \<Rightarrow> create_order_input \<Rightarrow> instant \<Rightarrow> order engine" where
  "order_create X merchant_id inp now =
     (if co_amount_minor inp < min_amount_minor then
        tthrow (E_Validation ''amount''
          (''amount must be at least '' @ show_int min_amount_minor @ '' minor units''))
      else if length (co_notes inp) > 15 then tthrow (E_Validation ''notes'' ''at most 15 notes allowed'')
      else if (case co_receipt inp of None \<Rightarrow> False | Some r \<Rightarrow> length r > 40) then
        tthrow (E_Validation ''receipt'' ''at most 40 characters'')
      else
        tbind (tlift (map_err E_Money (new_non_negative (co_amount_minor inp) (co_currency inp)))) (\<lambda>amount.
        tbind (fresh_id X) (\<lambda>i.
        let r = order_new i merchant_id amount (co_receipt inp) (co_notes inp) now in
        tbind (store (order_insert X r)) (\<lambda>_. treturn r))))"

definition order_get :: "ext \<Rightarrow> uuid \<Rightarrow> uuid \<Rightarrow> order engine" where
  "order_get X merchant_id i =
     tbind (store (order_find_by_id X i)) (\<lambda>r.
     if o_merchant_id r \<noteq> merchant_id then tthrow (E_NotFound ''order'') else treturn r)"

definition clamp :: "int \<Rightarrow> int \<Rightarrow> int \<Rightarrow> int" where
  "clamp x lo hi = (if x < lo then lo else if x > hi then hi else x)"

definition order_list :: "ext \<Rightarrow> uuid \<Rightarrow> instant option \<Rightarrow> int \<Rightarrow> order list engine" where
  "order_list X merchant_id before limit =
     store (order_list_for_merchant X merchant_id before (clamp limit 1 max_list_limit))"

section \<open>What the operations do\<close>

lemma order_create_Inr:
  "order_create X m inp now w = (Inr r, w') \<Longrightarrow>
     o_id r \<notin> or_id ` set (db_orders w) \<and>
     o_merchant_id r = m \<and> minor (o_amount r) = co_amount_minor inp \<and> curr (o_amount r) = co_currency inp \<and>
     o_amount_paid r = 0 \<and> o_status r = Order_Created \<and> o_notes r = co_notes inp \<and>
     o_receipt r = co_receipt inp \<and> o_created_at r = now \<and> 100 \<le> co_amount_minor inp \<and>
     w' = w\<lparr>db_orders := db_orders w @ [order_to_row r], uuid_calls := Suc (uuid_calls w)\<rparr>"
  by (auto simp: order_create_def Let_def tbind_Inr new_non_negative_Inr order_new_def money_new_def
      min_amount_minor_def split: if_splits option.splits dest!: order_insert_Inr)

end
