(* ===== verification/Engine_Payment.thy ===== *)
theory Engine_Payment
  imports Engine_Ledger Crypto
begin

text \<open>
  \<open>crates/engine/payment.rs\<close>: the transaction that creates a payment attempt and applies its decision,
  the manual capture, and \<open>settle\<close>, the success path the two share. A mutable payment or order of the
  code is the record the step returns.
\<close>

section \<open>Decisions\<close>

datatype attempt_outcome =
    Out_Capture
  | Out_CaptureThenDispute
  | Out_Authorize
  | Out_Decline (out_code: string) (out_description: string)
  | Out_RequireAction
  | Out_RiskHold

record attempt_decision =
  dec_outcome :: attempt_outcome
  dec_latency_ms :: nat

definition attempt_outcome_str :: "attempt_decision \<Rightarrow> string" where
  "attempt_outcome_str d =
     (case dec_outcome d of
        Out_Capture \<Rightarrow> ''success''
      | Out_CaptureThenDispute \<Rightarrow> ''success''
      | Out_Authorize \<Rightarrow> ''authorized''
      | Out_Decline _ _ \<Rightarrow> ''declined''
      | Out_RequireAction \<Rightarrow> ''requires_action''
      | Out_RiskHold \<Rightarrow> ''risk_hold'')"

definition attempt_decline_code :: "attempt_decision \<Rightarrow> string option" where
  "attempt_decline_code d = (case dec_outcome d of Out_Decline c _ \<Rightarrow> Some c | _ \<Rightarrow> None)"

record create_payment_input =
  cp_order_id :: uuid
  cp_card_number :: string
  cp_exp_month :: nat
  cp_exp_year :: nat
  cp_notes :: note_map

text \<open>\<open>latency_ms as i32\<close>\<close>

definition wrap32 :: "int \<Rightarrow> int" where
  "wrap32 x = signed_take_bit 31 x"

section \<open>Settling\<close>

definition settle ::
  "ext \<Rightarrow> payment \<Rightarrow> order \<Rightarrow> endpoint_row list \<Rightarrow> instant \<Rightarrow> (payment \<times> order) engine" where
  "settle X payment order endpoints now =
     tbind (tlift (map_err E_PaymentTransition (mark_captured payment now))) (\<lambda>payment.
     tbind (tlift (map_err E_OrderTransition (mark_paid order (minor (p_amount payment))))) (\<lambda>order.
     tbind (store (payment_update_status X (p_id payment) (p_status payment) (p_captured_at payment)
              (p_amount_refunded payment) None None)) (\<lambda>_.
     tbind (store (order_update_status X (o_id order) (o_status order) (o_amount_paid order))) (\<lambda>_.
     tbind (tlift (map_err E_Money
              (compute_fees (schedule_for_currency (curr (p_amount payment))) (p_amount payment)))) (\<lambda>fees.
     tbind (post_capture X (p_merchant_id payment) (p_amount payment) fees (p_id payment) now) (\<lambda>_.
     tbind (emit X endpoints (p_merchant_id payment) ''payment.captured''
              (payment_event_data X payment order) now) (\<lambda>_.
     tbind (emit X endpoints (p_merchant_id payment) ''order.paid'' (order_event_data X order) now) (\<lambda>_.
     treturn (payment, order)))))))))"

section \<open>Creating a payment\<close>

text \<open>The match on the decision; it returns the payment in its new state.\<close>

definition apply_decision ::
  "ext \<Rightarrow> attempt_decision \<Rightarrow> uuid \<Rightarrow> payment \<Rightarrow> order \<Rightarrow> endpoint_row list \<Rightarrow> instant \<Rightarrow> payment engine" where
  "apply_decision X decision merchant_id payment order endpoints now =
     (case dec_outcome decision of
        Out_Capture \<Rightarrow>
          tbind (settle X payment order endpoints now) (\<lambda>(payment, order). treturn payment)
      | Out_CaptureThenDispute \<Rightarrow>
          tbind (settle X payment order endpoints now) (\<lambda>(payment, order).
          tbind (store (job_enqueue X open_dispute
              (jobject [(''payment_id'', JStr (id_to_string X PaymentMarker (p_id payment)))])
              (now + seconds 60) 3 now)) (\<lambda>_. treturn payment))
      | Out_Authorize \<Rightarrow>
          tbind (tlift (map_err E_PaymentTransition (mark_authorized payment))) (\<lambda>payment.
          tbind (store (payment_update_status X (p_id payment) (p_status payment) None 0 None None)) (\<lambda>_.
          tbind (emit X endpoints merchant_id ''payment.authorized''
              (payment_event_data X payment order) now) (\<lambda>_. treturn payment)))
      | Out_Decline c description \<Rightarrow>
          tbind (tlift (map_err E_PaymentTransition (mark_failed payment c description))) (\<lambda>payment.
          tbind (store (payment_update_status X (p_id payment) (p_status payment) None 0
              (Some c) (Some description))) (\<lambda>_.
          tbind (emit X endpoints merchant_id ''payment.failed''
              (payment_event_data X payment order) now) (\<lambda>_. treturn payment)))
      | Out_RequireAction \<Rightarrow>
          tbind (tlift (map_err E_PaymentTransition (mark_requires_action payment))) (\<lambda>payment.
          tbind (store (payment_update_status X (p_id payment) (p_status payment) None 0 None None)) (\<lambda>_.
          treturn payment))
      | Out_RiskHold \<Rightarrow>
          tbind (store (job_enqueue X ''resolve_risk_review''
              (jobject [(''payment_id'', JStr (id_to_string X PaymentMarker (p_id payment)))])
              (now + seconds 30) 3 now)) (\<lambda>_. treturn payment))"

text \<open>The body of the transaction of \<open>create\<close>, after the endpoints have been read.\<close>

definition payment_create_tx ::
  "ext \<Rightarrow> string \<Rightarrow> uuid \<Rightarrow> create_payment_input \<Rightarrow> attempt_decision \<Rightarrow> endpoint_row list \<Rightarrow> instant \<Rightarrow>
   payment engine" where
  "payment_create_tx X pepper merchant_id inp decision endpoints now =
     tbind (store (order_find_by_id_for_update X (cp_order_id inp))) (\<lambda>order.
     if o_merchant_id order \<noteq> merchant_id then tthrow (E_NotFound ''order'')
     else if order_is_terminal (o_status order) then
       tthrow (E_Validation ''order'' ''order is already paid or expired'')
     else
       let fp = card_fingerprint X pepper (cp_card_number inp) in
       tbind (tlift (map_err E_Card
           (card_details_new (cp_card_number inp) fp (cp_exp_month inp) (cp_exp_year inp)))) (\<lambda>details.
       tbind (tlift (map_err E_Card (assert_not_expired X details now))) (\<lambda>_.
       tbind (fresh_id X) (\<lambda>i.
       let payment = new_card_attempt i (o_id order) merchant_id (o_amount order) details (cp_notes inp) now in
       tbind (tlift (map_err E_OrderTransition (mark_attempted order))) (\<lambda>order.
       tbind (store (order_update_status X (o_id order) (o_status order) (o_amount_paid order))) (\<lambda>_.
       tbind (store (payment_insert X payment)) (\<lambda>_.
       tbind (store (attempt_insert X (p_id payment) 1 (attempt_outcome_str decision)
                (attempt_decline_code decision) (wrap32 (int (dec_latency_ms decision))) now)) (\<lambda>_.
       apply_decision X decision merchant_id payment order endpoints now))))))))"

definition payment_create ::
  "ext \<Rightarrow> string \<Rightarrow> uuid \<Rightarrow> create_payment_input \<Rightarrow> attempt_decision \<Rightarrow> instant \<Rightarrow> payment engine" where
  "payment_create X pepper merchant_id inp decision now =
     tbind (store (list_active_for_merchant merchant_id)) (\<lambda>endpoints.
     run_tx X E_Store (payment_create_tx X pepper merchant_id inp decision endpoints now))"

section \<open>Capturing and reading\<close>

definition payment_capture_tx ::
  "ext \<Rightarrow> uuid \<Rightarrow> uuid \<Rightarrow> endpoint_row list \<Rightarrow> instant \<Rightarrow> payment engine" where
  "payment_capture_tx X merchant_id payment_id endpoints now =
     tbind (store (payment_find_by_id_for_update X payment_id)) (\<lambda>locked.
     if p_merchant_id locked \<noteq> merchant_id then tthrow (E_NotFound ''payment'')
     else
       tbind (tlift (map_err E_PaymentTransition (try_capturable locked))) (\<lambda>c.
       case c of Capturable payment \<Rightarrow>
       tbind (store (order_find_by_id_for_update X (p_order_id payment))) (\<lambda>order.
       tbind (settle X payment order endpoints now) (\<lambda>(payment, order). treturn payment))))"

definition payment_capture :: "ext \<Rightarrow> uuid \<Rightarrow> uuid \<Rightarrow> instant \<Rightarrow> payment engine" where
  "payment_capture X merchant_id payment_id now =
     tbind (store (list_active_for_merchant merchant_id)) (\<lambda>endpoints.
     run_tx X E_Store (payment_capture_tx X merchant_id payment_id endpoints now))"

definition payment_get :: "ext \<Rightarrow> uuid \<Rightarrow> uuid \<Rightarrow> payment engine" where
  "payment_get X merchant_id i =
     tbind (store (payment_find_by_id X i)) (\<lambda>p.
     if p_merchant_id p \<noteq> merchant_id then tthrow (E_NotFound ''payment'') else treturn p)"

end
