(* ===== verification/Engine_Refund.thy ===== *)
theory Engine_Refund
  imports Engine_Payment
begin

text \<open>
  \<open>crates/engine/refund.rs\<close>: refunds, the guard against refunding more than was paid, which is read
  under the lock on the payment, and the part of the fee that goes back with each slice.
\<close>

definition max_reason_length :: nat where
  "max_reason_length = 255"

record create_refund_input =
  cr_payment_id :: uuid
  cr_amount_minor :: "int option"
  cr_reason :: "string option"

definition owed_fee :: "currency \<Rightarrow> int \<Rightarrow> int \<Rightarrow> int \<Rightarrow> engine_error + int" where
  "owed_fee currency amount component refunded =
     (if amount = 0 then Inr 0
      else map_err E_Money (rbind (percent (money_new component currency) refunded amount) (\<lambda>m. Inr (minor m))))"

definition proportional_fee_refund :: "money \<Rightarrow> int \<Rightarrow> int \<Rightarrow> engine_error + fee_refund" where
  "proportional_fee_refund payment_amount old_total new_total =
     rbind (map_err E_Money (compute_fees (schedule_for_currency (curr payment_amount)) payment_amount)) (\<lambda>fees.
     let amount = minor payment_amount; owed = owed_fee (curr payment_amount) amount in
     rbind (owed (fee_base fees) new_total) (\<lambda>base_new.
     rbind (owed (fee_base fees) old_total) (\<lambda>base_old.
     rbind (owed (fee_tax fees) new_total) (\<lambda>tax_new.
     rbind (owed (fee_tax fees) old_total) (\<lambda>tax_old.
     Inr \<lparr>fr_base = wrap64 (base_new - base_old), fr_tax = wrap64 (tax_new - tax_old)\<rparr>)))))"

definition refund_create_tx ::
  "ext \<Rightarrow> uuid \<Rightarrow> create_refund_input \<Rightarrow> endpoint_row list \<Rightarrow> instant \<Rightarrow> refund engine" where
  "refund_create_tx X merchant_id inp endpoints now =
     tbind (store (payment_find_by_id_for_update X (cr_payment_id inp))) (\<lambda>payment.
     if p_merchant_id payment \<noteq> merchant_id then tthrow (E_NotFound ''payment'')
     else if p_status payment \<notin> {Pay_Captured, Pay_Refunded} then
       tthrow (E_Validation ''payment''
         (''only a captured payment can be refunded (payment is '' @ [CHR 0x27] @
          payment_status_str (p_status payment) @ [CHR 0x27] @ '')''))
     else
       tbind (store (refund_sum_for_payment X (p_id payment))) (\<lambda>already_refunded.
       let remaining = wrap64 (minor (p_amount payment) - already_refunded) in
       if remaining \<le> 0 then tthrow (E_Validation ''payment'' ''payment is already fully refunded'')
       else
         let amount_minor = unwrap_or remaining (cr_amount_minor inp) in
         if amount_minor \<le> 0 then
           tthrow (E_Validation ''amount'' ''refund amount must be greater than zero'')
         else if amount_minor > remaining then
           tthrow (E_Validation ''amount''
             (''refund amount exceeds the refundable balance of '' @ show_int remaining))
         else
           tbind (tlift (map_err E_Money (new_non_negative amount_minor (curr (p_amount payment))))) (\<lambda>refund_amount.
           let new_total = wrap64 (already_refunded + amount_minor) in
           tbind (fresh_id X) (\<lambda>i.
           let refund = \<lparr>re_id = i, re_payment_id = p_id payment, re_merchant_id = merchant_id,
                 re_amount = refund_amount, re_reason = cr_reason inp, re_status = Ref_Processed,
                 re_created_at = now, re_processed_at = Some now\<rparr> in
           tbind (store (refund_insert X refund)) (\<lambda>_.
           tbind (tlift (proportional_fee_refund (p_amount payment) already_refunded new_total)) (\<lambda>fee_refund.
           tbind (post_refund X merchant_id refund_amount fee_refund (re_id refund) now) (\<lambda>_.
           tbind (tlift (if new_total \<ge> minor (p_amount payment)
                    then map_err E_PaymentTransition (mark_refunded payment new_total)
                    else Inr (payment\<lparr>p_amount_refunded := new_total\<rparr>))) (\<lambda>payment.
           tbind (store (payment_update_status X (p_id payment) (p_status payment) (p_captured_at payment)
                    (p_amount_refunded payment) None None)) (\<lambda>_.
           tbind (emit X endpoints merchant_id ''refund.processed'' (refund_event_data X refund payment) now) (\<lambda>_.
           treturn refund))))))))))"

definition refund_create ::
  "ext \<Rightarrow> uuid \<Rightarrow> create_refund_input \<Rightarrow> instant \<Rightarrow> refund engine" where
  "refund_create X merchant_id inp now =
     (if (case cr_reason inp of None \<Rightarrow> False | Some r \<Rightarrow> length r > max_reason_length) then
        tthrow (E_Validation ''reason''
          (''reason must be at most '' @ show_nat max_reason_length @ '' characters''))
      else
        tbind (store (list_active_for_merchant merchant_id)) (\<lambda>endpoints.
        run_tx X E_Store (refund_create_tx X merchant_id inp endpoints now)))"

definition refund_get :: "ext \<Rightarrow> uuid \<Rightarrow> uuid \<Rightarrow> refund engine" where
  "refund_get X merchant_id i =
     tbind (store (refund_find_by_id i)) (\<lambda>r.
     if re_merchant_id r \<noteq> merchant_id then tthrow (E_NotFound ''refund'') else treturn r)"

definition refund_list :: "ext \<Rightarrow> uuid \<Rightarrow> uuid \<Rightarrow> refund list engine" where
  "refund_list X merchant_id payment_id =
     tbind (store (payment_find_by_id X payment_id)) (\<lambda>p.
     if p_merchant_id p \<noteq> merchant_id then tthrow (E_NotFound ''payment'')
     else store (refund_list_for_payment payment_id))"

section \<open>The fee that goes back\<close>

text \<open>The part of a fee that is owed back once \<open>n\<close> of the amount has been refunded.\<close>

definition owed :: "int \<Rightarrow> int \<Rightarrow> int \<Rightarrow> int" where
  "owed amount fee n = rounded_quotient (fee * n) amount"

lemma owed_zero [simp]: "0 < a \<Longrightarrow> owed a f 0 = 0"
  by (simp add: owed_def)

lemma owed_full [simp]: "0 < a \<Longrightarrow> 0 \<le> f \<Longrightarrow> owed a f a = f"
  by (simp add: owed_def rounded_quotient_mult)

lemma owed_mono: "0 < a \<Longrightarrow> 0 \<le> f \<Longrightarrow> 0 \<le> m \<Longrightarrow> m \<le> n \<Longrightarrow> owed a f m \<le> owed a f n"
  by (simp add: owed_def rounded_quotient_mono mult_left_mono)

lemma owed_bounds: "0 < a \<Longrightarrow> 0 \<le> f \<Longrightarrow> 0 \<le> n \<Longrightarrow> n \<le> a \<Longrightarrow> 0 \<le> owed a f n \<and> owed a f n \<le> f"
  using owed_mono [of a f 0 n] owed_mono [of a f n a] by simp

lemma owed_fee_ok:
  assumes "0 < a" and "0 \<le> f" and "in_i64 f" and "0 \<le> n" and "n \<le> a"
  shows "owed_fee c a f n = Inr (owed a f n)"
proof -
  have "in_i64 (owed a f n)"
    using owed_bounds [of a f n] assms by (simp add: in_i64_iff)
  then have "percent (money_new f c) n a = Inr (money_new (owed a f n) c)"
    using assms by (simp add: percent_Inr owed_def)
  then show ?thesis using assms by (simp add: owed_fee_def)
qed

definition fee_slice :: "money \<Rightarrow> int \<Rightarrow> int \<Rightarrow> fee_refund" where
  "fee_slice m old new =
     \<lparr>fr_base = owed (minor m) (base_fee m) new - owed (minor m) (base_fee m) old,
      fr_tax = owed (minor m) (tax_on_fee m) new - owed (minor m) (tax_on_fee m) old\<rparr>"

lemma i64_difference: "in_i64 f \<Longrightarrow> 0 \<le> a \<and> a \<le> f \<Longrightarrow> 0 \<le> b \<and> b \<le> f \<Longrightarrow> wrap64 (a - b) = a - b"
  by (rule wrap64_id) (simp add: in_i64_iff)

lemma proportional_fee_refund_ok:
  assumes "0 < minor m" and "in_i64 (minor m)" and "0 \<le> old" and "old \<le> new" and "new \<le> minor m"
  shows "proportional_fee_refund m old new = Inr (fee_slice m old new) \<and>
    0 \<le> fr_base (fee_slice m old new) \<and> 0 \<le> fr_tax (fee_slice m old new) \<and>
    fr_total (fee_slice m old new) = fr_base (fee_slice m old new) + fr_tax (fee_slice m old new)"
proof -
  have m: "0 \<le> minor m" using assms(1) by simp
  note fees = compute_fees_ok [OF m assms(2)] fee_bounds [OF m assms(2)] base_fee_pos [OF m] tax_on_fee_nonneg [OF m]
  have b: "0 \<le> base_fee m" using fees by simp
  note bb = owed_bounds [OF assms(1) b, of old] owed_bounds [OF assms(1) b, of new]
  note tb = owed_bounds [OF assms(1) tax_on_fee_nonneg [OF m], of old]
    owed_bounds [OF assms(1) tax_on_fee_nonneg [OF m], of new]
  have "proportional_fee_refund m old new = Inr (fee_slice m old new)"
    using assms fees bb tb
    by (simp add: proportional_fee_refund_def owed_fee_ok fee_slice_def
        i64_difference [of "base_fee m"] i64_difference [of "tax_on_fee m"])
  moreover have "0 \<le> fr_base (fee_slice m old new) \<and> 0 \<le> fr_tax (fee_slice m old new)"
    using assms fees b by (simp add: fee_slice_def owed_mono)
  moreover have "in_i64 (fr_base (fee_slice m old new) + fr_tax (fee_slice m old new))"
    using assms fees bb tb calculation(2) by (simp add: fee_slice_def in_i64_iff)
  ultimately show ?thesis by (simp add: fr_total_def wrap64_id)
qed

lemma fee_slices_sum:
  assumes "sorted (t # ts)"
  shows "(\<Sum>(a, b) \<leftarrow> zip (t # ts) ts. owed n f b - owed n f a) = owed n f (last (t # ts)) - owed n f t"
  using assms by (induction ts arbitrary: t) auto

text \<open>
  C17. Fee refunds telescope. However a payment is refunded in slices, given by the growing list of the
  totals refunded so far that ends at the whole amount, every slice's fee computes, none of its two
  parts is negative, and together the slices return exactly the base fee and exactly the tax that
  were charged: rounding strands nothing.
\<close>

theorem fee_refunds_telescope:
  assumes "0 < minor m" and "in_i64 (minor m)" and "sorted (0 # ts)" and "ts \<noteq> []" and "last ts = minor m"
  shows "\<exists>fs. traverse (\<lambda>(a, b). proportional_fee_refund m a b) (zip (0 # ts) ts) = Inr fs \<and>
    length fs = length ts \<and> (\<forall>f \<in> set fs. 0 \<le> fr_base f \<and> 0 \<le> fr_tax f) \<and>
    (\<exists>charged. compute_fees (schedule_for_currency (curr m)) m = Inr charged \<and>
       sum_list (map fr_base fs) = fee_base charged \<and> sum_list (map fr_tax fs) = fee_tax charged)"
proof -
  let ?ps = "zip (0 # ts) ts"
  let ?fs = "map (\<lambda>(a, b). fee_slice m a b) ?ps"
  have range: "0 \<le> a \<and> a \<le> b \<and> b \<le> minor m" if "(a, b) \<in> set ?ps" for a b
  proof -
    from that obtain i where i: "i < length ts" "a = (0 # ts) ! i" "b = ts ! i"
      by (auto simp: set_zip)
    have "(0 # ts) ! 0 \<le> (0 # ts) ! i" using assms(3) i by (intro sorted_nth_mono) auto
    moreover have "(0 # ts) ! i \<le> (0 # ts) ! Suc i" using assms(3) i by (intro sorted_nth_mono) auto
    moreover have "(0 # ts) ! Suc i \<le> (0 # ts) ! length ts" using assms(3) i by (intro sorted_nth_mono) auto
    ultimately show ?thesis using i assms(4,5) by (simp add: last_conv_nth nth_Cons split: nat.splits)
  qed
  have ok: "(case p of (a, b) \<Rightarrow> proportional_fee_refund m a b) = Inr (case p of (a, b) \<Rightarrow> fee_slice m a b)
      \<and> 0 \<le> fr_base (case p of (a, b) \<Rightarrow> fee_slice m a b) \<and> 0 \<le> fr_tax (case p of (a, b) \<Rightarrow> fee_slice m a b)"
    if "p \<in> set ?ps" for p
  proof (cases p)
    case (Pair a b)
    then show ?thesis
      using range [of a b] that proportional_fee_refund_ok [OF assms(1,2), of a b] by simp
  qed
  have "traverse (\<lambda>(a, b). proportional_fee_refund m a b) ?ps = Inr ?fs"
    using ok by (simp add: traverse_Inr list_all2_map2 list.rel_refl_strong)
  moreover have "sum_list (map fr_base ?fs) = base_fee m"
  proof -
    have eq: "map fr_base ?fs = map (\<lambda>(a, b). owed (minor m) (base_fee m) b - owed (minor m) (base_fee m) a) ?ps"
      by (simp add: fee_slice_def split_def)
    show ?thesis unfolding eq
      using fee_slices_sum [OF assms(3), of "minor m" "base_fee m"] assms base_fee_pos [of m] by simp
  qed
  moreover have "sum_list (map fr_tax ?fs) = tax_on_fee m"
  proof -
    have eq: "map fr_tax ?fs = map (\<lambda>(a, b). owed (minor m) (tax_on_fee m) b - owed (minor m) (tax_on_fee m) a) ?ps"
      by (simp add: fee_slice_def split_def)
    show ?thesis unfolding eq
      using fee_slices_sum [OF assms(3), of "minor m" "tax_on_fee m"] assms tax_on_fee_nonneg [of m] by simp
  qed
  ultimately show ?thesis
    using ok compute_fees_ok [of m] assms(1,2) by (intro exI [of _ ?fs]) auto
qed

theorem fee_refunds_telescope_witness:
  "\<exists>fs. traverse (\<lambda>(a, b). proportional_fee_refund (money_new 150000 INR) a b)
      [(0, 50001), (50001, 100000), (100000, 150000)] = Inr fs \<and>
    sum_list (map fr_base fs) = 3300 \<and> sum_list (map fr_tax fs) = 594"
proof -
  have "compute_fees (schedule_for_currency INR) (money_new 150000 INR) =
      Inr \<lparr>fee_base = 3300, fee_tax = 594, fee_total = 3894, fee_currency = INR\<rparr>" by code_simp
  then show ?thesis
    using fee_refunds_telescope [of "money_new 150000 INR" "[50001, 100000, 150000]"]
    by (auto simp: in_i64_iff)
qed

end
