(* ===== verification/Engine_Invariant.thy ===== *)
theory Engine_Invariant
  imports Engine_Order Engine_Refund
begin

text \<open>
  What holds in every state the engine reaches: the rows of orders, payments and refunds agree with each
  other, an order is paid by one payment, no payment is refunded beyond its amount, and the balance of
  every ledger account is what the captured payments explain.
\<close>

section \<open>Steps of the books\<close>

definition ledger_tables :: "db \<Rightarrow> account_row list \<times> ltxn_row list \<times> entry_row list" where
  "ledger_tables w = (db_accounts w, db_ltxns w, db_entries w)"

definition book_step :: "(account_key \<times> int) list \<Rightarrow> db \<Rightarrow> db \<Rightarrow> bool" where
  "book_step ks w w' \<longleftrightarrow>
     (\<exists>as. db_accounts w' = db_accounts w @ as) \<and>
     (\<exists>es ms. db_entries w' = db_entries w @ es \<and> (\<forall>a. account_sum a es = moved a ms) \<and> keyed w' ms ks) \<and>
     (books_ok w \<longrightarrow> books_ok w')"

lemma books_ok_cong: "ledger_tables w = ledger_tables v \<Longrightarrow> books_ok w = books_ok v"
  by (simp add: ledger_tables_def books_ok_def)

lemma keyed_cong: "ledger_tables w = ledger_tables v \<Longrightarrow> keyed w ms ks = keyed v ms ks"
  by (simp add: ledger_tables_def keyed_def has_account_def [abs_def])

lemma book_step_cong:
  assumes "ledger_tables w = ledger_tables v" and "ledger_tables w' = ledger_tables v'" and "book_step ks w w'"
  shows "book_step ks v v'"
  using assms(3) books_ok_cong [OF assms(1)] books_ok_cong [OF assms(2)] keyed_cong [OF assms(2)] assms(1,2)
  by (simp add: book_step_def ledger_tables_def)

lemma posted_book_step: "posted ms w w' \<Longrightarrow> keyed w' ms ks \<Longrightarrow> book_step ks w w'"
  by (auto simp: posted_def book_step_def)

lemma book_step_balance:
  assumes "book_step ks w w'" and "books_ok w" and "r \<in> set (db_accounts w')"
  shows "account_sum (ar_id r) (db_entries w') = account_sum (ar_id r) (db_entries w) + moved (acct_key r) ks"
proof -
  obtain es ms where "db_entries w' = db_entries w @ es" "\<forall>a. account_sum a es = moved a ms" "keyed w' ms ks"
    using assms(1) unfolding book_step_def by blast
  moreover have "books_ok w'" using assms(1,2) by (simp add: book_step_def)
  ultimately show ?thesis using moved_keyed [of w' ms ks r] assms(3) by simp
qed

lemma book_step_new_account:
  assumes "book_step ks w w'" and "books_ok w" and "r \<in> set (db_accounts w')" and "r \<notin> set (db_accounts w)"
  shows "account_sum (ar_id r) (db_entries w) = 0 \<and> acct_key r \<notin> acct_key ` set (db_accounts w)"
proof -
  obtain as where as: "db_accounts w' = db_accounts w @ as" using assms(1) by (auto simp: book_step_def)
  have "books_ok w'" using assms(1,2) by (simp add: book_step_def)
  then have "distinct (map ar_id (db_accounts w @ as))" "distinct (map acct_key (db_accounts w @ as))"
    by (simp_all add: books_ok_def as)
  moreover have "r \<in> set as" using assms(3,4) as by simp
  ultimately have "ar_id r \<notin> ar_id ` set (db_accounts w)" "acct_key r \<notin> acct_key ` set (db_accounts w)"
    by auto
  then show ?thesis using new_account_is_empty [OF assms(2)] by blast
qed

section \<open>What a payment leaves in the books\<close>

text \<open>
  The net effect of a captured payment of which \<open>n\<close> has been refunded: clearing owes what was not
  refunded, revenue and tax keep the fee less the part returned, the merchant holds the rest.
\<close>

definition settled :: "account_key \<Rightarrow> uuid \<Rightarrow> money \<Rightarrow> int \<Rightarrow> int" where
  "settled k merchant m n =
     (let c = code (curr m); a = minor m;
          b = base_fee m - owed a (base_fee m) n; t = tax_on_fee m - owed a (tax_on_fee m) n in
      if k = (None, GatewayClearing, c) then - (a - n)
      else if k = (Some merchant, MerchantPending, c) then (a - n) - (b + t)
      else if k = (None, PlatformRevenue, c) then b
      else if k = (None, TaxPayable, c) then t else 0)"

lemma settled_capture:
  assumes "0 < minor m" and "in_i64 (minor m)"
    and "compute_fees (schedule_for_currency (curr m)) m = Inr f"
  shows "moved k (capture_moves merchant m f) = settled k merchant m 0"
proof -
  note f = compute_fees_Inr [OF assms(3)]
  have "0 < base_fee m" "0 \<le> tax_on_fee m"
    using base_fee_pos [of m] tax_on_fee_nonneg [of m] assms(1) by simp_all
  then show ?thesis
    using f assms(1) by (auto simp: capture_moves_def settled_def Let_def)
qed

lemma settled_refund:
  assumes "0 < minor m" and "in_i64 (minor m)" and "0 \<le> n" and "0 < v" and "n + v \<le> minor m"
  shows "moved k (refund_moves merchant (money_new v (curr m)) (fee_slice m n (n + v))) =
    settled k merchant m (n + v) - settled k merchant m n"
proof -
  let ?f = "fee_slice m n (n + v)"
  have f: "0 \<le> fr_base ?f" "0 \<le> fr_tax ?f" "fr_total ?f = fr_base ?f + fr_tax ?f"
    using proportional_fee_refund_ok [of m n "n + v"] assms by simp_all
  have sel: "fr_base ?f = owed (minor m) (base_fee m) (n + v) - owed (minor m) (base_fee m) n"
    "fr_tax ?f = owed (minor m) (tax_on_fee m) (n + v) - owed (minor m) (tax_on_fee m) n"
    by (simp_all add: fee_slice_def)
  have moves: "moved k (refund_moves merchant (money_new v (curr m)) ?f) =
     (let c = code (curr m) in
      if k = (None, GatewayClearing, c) then v
      else if k = (Some merchant, MerchantPending, c) then - v + (fr_base ?f + fr_tax ?f)
      else if k = (None, PlatformRevenue, c) then - fr_base ?f
      else if k = (None, TaxPayable, c) then - fr_tax ?f else 0)"
    using f by (auto simp: refund_moves_def fr_is_zero_def Let_def)
  show ?thesis unfolding moves by (simp add: settled_def Let_def sel)
qed

lemma settled_fully_refunded: "0 < minor m \<Longrightarrow> settled k merchant m (minor m) = 0"
  using base_fee_pos [of m] tax_on_fee_nonneg [of m] by (simp add: settled_def Let_def)

section \<open>The invariant\<close>

definition captured_row :: "payment_row \<Rightarrow> bool" where
  "captured_row r \<longleftrightarrow> pr_status r \<in> {Pay_Captured, Pay_Refunded}"

definition contribution :: "account_key \<Rightarrow> payment_row \<Rightarrow> int" where
  "contribution k r =
     (case currency_from_str (pr_currency r) of
        Inl _ \<Rightarrow> 0
      | Inr c \<Rightarrow>
          if captured_row r
          then settled k (pr_merchant_id r) (money_new (pr_amount_minor r) c) (pr_amount_refunded r) else 0)"

definition captured_for :: "uuid \<Rightarrow> payment_row list \<Rightarrow> int" where
  "captured_for i rows = (\<Sum>r \<leftarrow> rows. if pr_order_id r = i \<and> captured_row r then 1 else 0)"

definition ids_ok :: "db \<Rightarrow> bool" where
  "ids_ok w \<longleftrightarrow> distinct (map or_id (db_orders w)) \<and> distinct (map pr_id (db_payments w)) \<and>
     distinct (map rr_id (db_refunds w))"

definition order_ok :: "payment_row list \<Rightarrow> order_row \<Rightarrow> bool" where
  "order_ok ps q \<longleftrightarrow>
     100 \<le> or_amount_minor q \<and> in_i64 (or_amount_minor q) \<and>
     (if or_status q = Order_Paid then or_amount_paid q = or_amount_minor q \<and> captured_for (or_id q) ps = 1
      else or_amount_paid q = 0 \<and> captured_for (or_id q) ps = 0)"

definition same_order :: "payment_row \<Rightarrow> order_row \<Rightarrow> bool" where
  "same_order r q \<longleftrightarrow> or_id q = pr_order_id r \<and> or_merchant_id q = pr_merchant_id r \<and>
     or_amount_minor q = pr_amount_minor r \<and> or_currency q = pr_currency r \<and> or_status q \<noteq> Order_Created"

definition payment_ok :: "order_row list \<Rightarrow> refund_row list \<Rightarrow> payment_row \<Rightarrow> bool" where
  "payment_ok os rs r \<longleftrightarrow>
     (\<exists>q \<in> set os. same_order r q) \<and> pr_currency r \<in> range code \<and>
     pr_amount_refunded r = refunds_against (pr_id r) rs \<and> 0 \<le> pr_amount_refunded r \<and>
     (pr_status r = Pay_Captured \<longrightarrow> pr_amount_refunded r < pr_amount_minor r) \<and>
     (pr_status r = Pay_Refunded \<longrightarrow> pr_amount_refunded r = pr_amount_minor r) \<and>
     (\<not> captured_row r \<longrightarrow> pr_amount_refunded r = 0)"

definition refund_ok :: "payment_row list \<Rightarrow> refund_row \<Rightarrow> bool" where
  "refund_ok ps x \<longleftrightarrow> 0 < rr_amount_minor x \<and> rr_status x = Ref_Processed \<and>
     (\<exists>r \<in> set ps. pr_id r = rr_payment_id x \<and> pr_merchant_id r = rr_merchant_id x \<and>
        pr_currency r = rr_currency x)"

definition book_equation :: "db \<Rightarrow> bool" where
  "book_equation w \<longleftrightarrow>
     (\<forall>a \<in> set (db_accounts w).
        account_sum (ar_id a) (db_entries w) = (\<Sum>r \<leftarrow> db_payments w. contribution (acct_key a) r))"

text \<open>
  Every account a captured payment touches exists: without it, an account created later would have to
  start with a balance.
\<close>

definition accounts_exist :: "db \<Rightarrow> bool" where
  "accounts_exist w \<longleftrightarrow>
     (\<forall>k. k \<notin> acct_key ` set (db_accounts w) \<longrightarrow> (\<Sum>r \<leftarrow> db_payments w. contribution k r) = 0)"

definition engine_inv :: "db \<Rightarrow> bool" where
  "engine_inv w \<longleftrightarrow>
     books_ok w \<and> ids_ok w \<and> (\<forall>q \<in> set (db_orders w). order_ok (db_payments w) q) \<and>
     (\<forall>r \<in> set (db_payments w). payment_ok (db_orders w) (db_refunds w) r) \<and>
     (\<forall>x \<in> set (db_refunds w). refund_ok (db_payments w) x) \<and> book_equation w \<and> accounts_exist w"

definition money_tables where
  "money_tables w = (db_orders w, db_payments w, db_refunds w, ledger_tables w)"

lemma engine_inv_cong: "money_tables w = money_tables v \<Longrightarrow> engine_inv w = engine_inv v"
  using books_ok_cong [of w v]
  by (simp add: engine_inv_def money_tables_def ledger_tables_def ids_ok_def book_equation_def accounts_exist_def)

section \<open>How the tables may change\<close>

lemma sum_update_row:
  fixes g :: "'r \<Rightarrow> int"
  assumes "distinct (map k rs)" and "r \<in> set rs"
  shows "(\<Sum>x \<leftarrow> update_row k (k r) f rs. g x) = (\<Sum>x \<leftarrow> rs. g x) + (g (f r) - g r)"
  using assms
proof (induction rs)
  case (Cons y ys)
  show ?case
  proof (cases "y = r")
    case True
    then have "k r \<notin> k ` set ys" using Cons.prems(1) by simp
    then have "update_row k (k r) f ys = ys" by (rule update_row_absent)
    then show ?thesis using True by (simp add: update_row_def)
  next
    case False
    then have "r \<in> set ys" "k y \<noteq> k r" using Cons.prems by auto
    then show ?thesis using Cons by (simp add: update_row_def)
  qed
qed simp

lemma sum_zero_nonneg: "(\<And>x. x \<in> set xs \<Longrightarrow> g x = (0::int)) \<Longrightarrow> (\<Sum>x \<leftarrow> xs. g x) = 0"
  by (induction xs) auto

lemma mem_update_row:
  "x \<in> set (update_row k i f rs) \<longleftrightarrow> x \<in> set rs \<and> k x \<noteq> i \<or> (\<exists>y \<in> set rs. k y = i \<and> x = f y)"
  by (auto simp: set_update_row)

lemma same_key: "distinct (map k rs) \<Longrightarrow> x \<in> set rs \<Longrightarrow> y \<in> set rs \<Longrightarrow> k x = k y \<Longrightarrow> x = y"
  by (auto simp: distinct_map dest: inj_onD)

lemma moved_absent: "k \<notin> fst ` set ks \<Longrightarrow> moved k ks = 0"
  by (induction ks) auto

lemma accounts_existD:
  "accounts_exist w \<Longrightarrow> k \<notin> acct_key ` set (db_accounts w) \<Longrightarrow> (\<Sum>r \<leftarrow> db_payments w. contribution k r) = 0"
  unfolding accounts_exist_def by blast

text \<open>The balances stay explained when the books and the payments move together.\<close>

lemma explained_step:
  assumes "book_step ks w w'" and "books_ok w" and "book_equation w" and "accounts_exist w"
    and total: "\<And>k. (\<Sum>r \<leftarrow> db_payments w'. contribution k r) =
      (\<Sum>r \<leftarrow> db_payments w. contribution k r) + moved k ks"
  shows "book_equation w' \<and> accounts_exist w'"
proof
  show "book_equation w'"
    unfolding book_equation_def
  proof
    fix a assume a: "a \<in> set (db_accounts w')"
    have "account_sum (ar_id a) (db_entries w) = (\<Sum>r \<leftarrow> db_payments w. contribution (acct_key a) r)"
    proof (cases "a \<in> set (db_accounts w)")
      case True
      then show ?thesis using assms(3) by (simp add: book_equation_def)
    next
      case False
      then show ?thesis
        using book_step_new_account [OF assms(1,2) a] accounts_existD [OF assms(4), of "acct_key a"] by simp
    qed
    then show "account_sum (ar_id a) (db_entries w') = (\<Sum>r \<leftarrow> db_payments w'. contribution (acct_key a) r)"
      using book_step_balance [OF assms(1,2) a] total by simp
  qed
  show "accounts_exist w'"
    unfolding accounts_exist_def
  proof (intro allI impI)
    fix k assume k: "k \<notin> acct_key ` set (db_accounts w')"
    obtain as ms where as: "db_accounts w' = db_accounts w @ as" and ms: "keyed w' ms ks"
      using assms(1) unfolding book_step_def by blast
    from ms have "k \<notin> fst ` set ks"
      unfolding keyed_def
    proof (induction rule: list_all2_induct)
      case (Cons m ms q ks)
      then show ?case using k by (force simp: has_account_def)
    qed simp
    then have "moved k ks = 0" by (rule moved_absent)
    moreover have k': "k \<notin> acct_key ` set (db_accounts w)" using k as by auto
    ultimately show "(\<Sum>r \<leftarrow> db_payments w'. contribution k r) = 0"
      using accounts_existD [OF assms(4), of k] k' total by simp
  qed
qed

lemma book_step_same: "ledger_tables w' = ledger_tables w \<Longrightarrow> book_step [] w w'"
  using books_ok_cong [of w' w] by (auto simp: book_step_def ledger_tables_def account_sum_def intro!: exI [of _ "[]"])

section \<open>The transitions of the engine\<close>

lemma inv_add_order:
  assumes "engine_inv w" and "or_id q \<notin> or_id ` set (db_orders w)" and "100 \<le> or_amount_minor q"
    and "in_i64 (or_amount_minor q)" and "or_status q = Order_Created" and "or_amount_paid q = 0"
  shows "engine_inv (w\<lparr>db_orders := db_orders w @ [q], uuid_calls := n\<rparr>)"
proof -
  let ?w = "w\<lparr>db_orders := db_orders w @ [q], uuid_calls := n\<rparr>"
  have "pr_order_id r \<noteq> or_id q" if "r \<in> set (db_payments w)" for r
    using assms(1,2) that unfolding engine_inv_def payment_ok_def same_order_def by (metis imageI)
  then have "captured_for (or_id q) (db_payments w) = 0"
    unfolding captured_for_def by (intro sum_zero_nonneg) simp
  then have "\<forall>x \<in> set (db_orders ?w). order_ok (db_payments ?w) x"
    using assms by (auto simp: engine_inv_def order_ok_def)
  moreover have "\<forall>r \<in> set (db_payments ?w). payment_ok (db_orders ?w) (db_refunds ?w) r"
    using assms(1) unfolding engine_inv_def payment_ok_def by auto
  moreover have "books_ok ?w = books_ok w" by (rule books_ok_cong) (simp add: ledger_tables_def)
  ultimately show ?thesis
    using assms(1,2) by (simp add: engine_inv_def ids_ok_def book_equation_def accounts_exist_def)
qed

definition set_order :: "order_status \<Rightarrow> int \<Rightarrow> order_row \<Rightarrow> order_row" where
  "set_order s n q = q\<lparr>or_status := s, or_amount_paid := n\<rparr>"

lemma set_order_sel [simp]:
  "or_id (set_order s n q) = or_id q" "or_merchant_id (set_order s n q) = or_merchant_id q"
  "or_amount_minor (set_order s n q) = or_amount_minor q" "or_currency (set_order s n q) = or_currency q"
  "or_status (set_order s n q) = s" "or_amount_paid (set_order s n q) = n"
  by (simp_all add: set_order_def)

lemma set_payment_status_sel [simp]:
  "pr_id (set_payment_status s t n a b r) = pr_id r"
  "pr_order_id (set_payment_status s t n a b r) = pr_order_id r"
  "pr_merchant_id (set_payment_status s t n a b r) = pr_merchant_id r"
  "pr_amount_minor (set_payment_status s t n a b r) = pr_amount_minor r"
  "pr_currency (set_payment_status s t n a b r) = pr_currency r"
  "pr_status (set_payment_status s t n a b r) = s"
  "pr_amount_refunded (set_payment_status s t n a b r) = n"
  by (simp_all add: set_payment_status_def)

text \<open>A payment keeps its order when orders only change status, and away from \<open>created\<close>.\<close>

lemma payment_ok_orders:
  assumes "payment_ok os rs r" and "s \<noteq> Order_Created"
  shows "payment_ok (update_row or_id i (set_order s n) os) rs r"
proof -
  obtain q where q: "q \<in> set os" "same_order r q" using assms(1) by (auto simp: payment_ok_def)
  have "\<exists>q' \<in> set (update_row or_id i (set_order s n) os). same_order r q'"
  proof (cases "or_id q = i")
    case True
    then show ?thesis using q assms(2)
      by (intro bexI [of _ "set_order s n q"]) (auto simp: same_order_def mem_update_row)
  next
    case False
    then show ?thesis using q by (intro bexI [of _ q]) (auto simp: mem_update_row)
  qed
  then show ?thesis using assms(1) unfolding payment_ok_def by blast
qed

lemma inv_attempt_order:
  assumes "engine_inv w" and "q \<in> set (db_orders w)" and "or_status q \<noteq> Order_Paid"
  shows "engine_inv (w\<lparr>db_orders := update_row or_id (or_id q) (set_order Order_Attempted (or_amount_paid q)) (db_orders w)\<rparr>)"
    (is "engine_inv ?w")
proof -
  have same: "x = q" if "x \<in> set (db_orders w)" "or_id x = or_id q" for x
    using assms(1,2) that same_key [of or_id "db_orders w"] by (simp add: engine_inv_def ids_ok_def)
  have "\<forall>x \<in> set (db_orders ?w). order_ok (db_payments ?w) x"
    using assms same by (auto simp: engine_inv_def order_ok_def mem_update_row)
  moreover have "\<forall>r \<in> set (db_payments ?w). payment_ok (db_orders ?w) (db_refunds ?w) r"
    using assms(1) payment_ok_orders by (simp add: engine_inv_def)
  moreover have "books_ok ?w = books_ok w" by (rule books_ok_cong) (simp add: ledger_tables_def)
  ultimately show ?thesis
    using assms(1) by (simp add: engine_inv_def ids_ok_def book_equation_def accounts_exist_def update_row_keys)
qed

lemma refunds_against_new:
  assumes "\<And>x. x \<in> set rs \<Longrightarrow> rr_payment_id x \<noteq> i"
  shows "refunds_against i rs = 0"
  using assms by (induction rs) (auto simp: refunds_against_def)

lemma not_captured_contribution [simp]: "\<not> captured_row r \<Longrightarrow> contribution k r = 0"
  by (auto simp: contribution_def split: sum.splits)

lemma inv_add_payment:
  assumes "engine_inv w" and "pr_id r \<notin> pr_id ` set (db_payments w)" and "q \<in> set (db_orders w)"
    and "same_order r q" and "pr_currency r \<in> range code" and "pr_status r = Pay_Created" and "pr_amount_refunded r = 0"
  shows "engine_inv (w\<lparr>db_payments := db_payments w @ [r]\<rparr>)" (is "engine_inv ?w")
proof -
  have unc: "\<not> captured_row r" using assms(6) by (simp add: captured_row_def)
  have "rr_payment_id x \<noteq> pr_id r" if "x \<in> set (db_refunds w)" for x
    using assms(1,2) that unfolding engine_inv_def refund_ok_def by (metis imageI)
  then have "refunds_against (pr_id r) (db_refunds w) = 0" by (rule refunds_against_new)
  then have "payment_ok (db_orders w) (db_refunds w) r"
    using assms unfolding payment_ok_def by auto
  then have "\<forall>x \<in> set (db_payments ?w). payment_ok (db_orders ?w) (db_refunds ?w) x"
    using assms(1) by (auto simp: engine_inv_def)
  moreover have "\<forall>x \<in> set (db_orders ?w). order_ok (db_payments ?w) x"
    using assms(1) unc by (auto simp: engine_inv_def order_ok_def captured_for_def)
  moreover have "\<forall>x \<in> set (db_refunds ?w). refund_ok (db_payments ?w) x"
    using assms(1) by (auto simp: engine_inv_def refund_ok_def)
  moreover have "books_ok ?w = books_ok w" by (rule books_ok_cong) (simp add: ledger_tables_def)
  moreover have "book_equation ?w \<and> accounts_exist ?w"
    using assms(1) unc by (intro explained_step [of "[]" w]) (auto simp: engine_inv_def ledger_tables_def intro: book_step_same)
  ultimately show ?thesis
    using assms(1,2) by (simp add: engine_inv_def ids_ok_def)
qed

text \<open>What an update of the payment with a key does to the other rows.\<close>

lemma refund_ok_update:
  assumes "refund_ok ps x"
  shows "refund_ok (update_row pr_id i (set_payment_status s t n a b) ps) x"
proof -
  obtain r where r: "r \<in> set ps" "pr_id r = rr_payment_id x" "pr_merchant_id r = rr_merchant_id x"
    "pr_currency r = rr_currency x" using assms by (auto simp: refund_ok_def)
  have "\<exists>r' \<in> set (update_row pr_id i (set_payment_status s t n a b) ps).
      pr_id r' = rr_payment_id x \<and> pr_merchant_id r' = rr_merchant_id x \<and> pr_currency r' = rr_currency x"
  proof (cases "pr_id r = i")
    case True
    then show ?thesis using r by (intro bexI [of _ "set_payment_status s t n a b r"]) (auto simp: mem_update_row)
  next
    case False
    then show ?thesis using r by (intro bexI [of _ r]) (auto simp: mem_update_row)
  qed
  then show ?thesis using assms unfolding refund_ok_def by blast
qed

lemma same_order_status [simp]: "same_order (set_payment_status s t n a b r) q = same_order r q"
  by (simp add: same_order_def)

lemma captured_status [simp]:
  "captured_row (set_payment_status s t n a b r) \<longleftrightarrow> s \<in> {Pay_Captured, Pay_Refunded}"
  by (simp add: captured_row_def)

lemma captured_for_update:
  assumes "distinct (map pr_id ps)" and "r \<in> set ps"
  shows "captured_for i (update_row pr_id (pr_id r) (set_payment_status s t n a b) ps) =
    captured_for i ps + (if pr_order_id r = i then (if s \<in> {Pay_Captured, Pay_Refunded} then 1 else 0)
      - (if captured_row r then 1 else 0) else 0)"
  unfolding captured_for_def sum_update_row [OF assms] by simp

lemma inv_payment_status:
  assumes "engine_inv w" and "r \<in> set (db_payments w)" and "\<not> captured_row r"
    and "s \<notin> {Pay_Captured, Pay_Refunded}"
  shows "engine_inv (w\<lparr>db_payments := update_row pr_id (pr_id r) (set_payment_status s t 0 a b) (db_payments w)\<rparr>)"
    (is "engine_inv ?w")
proof -
  let ?f = "set_payment_status s t 0 a b"
  have d: "distinct (map pr_id (db_payments w))" using assms(1) by (simp add: engine_inv_def ids_ok_def)
  have same: "x = r" if "x \<in> set (db_payments w)" "pr_id x = pr_id r" for x
    using same_key [OF d that(1) assms(2) that(2)] .
  have r: "payment_ok (db_orders w) (db_refunds w) r" using assms(1,2) by (simp add: engine_inv_def)
  then have "payment_ok (db_orders w) (db_refunds w) (?f r)"
    using assms(3,4) unfolding payment_ok_def by auto
  then have "\<forall>x \<in> set (db_payments ?w). payment_ok (db_orders ?w) (db_refunds ?w) x"
    using assms(1) by (auto simp: engine_inv_def mem_update_row dest!: same)
  moreover have "\<forall>x \<in> set (db_orders ?w). order_ok (db_payments ?w) x"
    using assms by (simp add: engine_inv_def order_ok_def captured_for_update [OF d assms(2)])
  moreover have "\<forall>x \<in> set (db_refunds ?w). refund_ok (db_payments ?w) x"
    using assms(1) refund_ok_update by (simp add: engine_inv_def)
  moreover have "books_ok ?w = books_ok w" by (rule books_ok_cong) (simp add: ledger_tables_def)
  moreover have "book_equation ?w \<and> accounts_exist ?w"
    using assms by (intro explained_step [of "[]" w])
      (auto simp: engine_inv_def ledger_tables_def sum_update_row [OF d assms(2)] intro: book_step_same)
  ultimately show ?thesis
    using assms(1) by (simp add: engine_inv_def ids_ok_def update_row_keys)
qed

text \<open>Capturing: the payment and its order change together, and the books by the rule of a capture.\<close>

lemma inv_capture:
  assumes "engine_inv w" and r: "r \<in> set (db_payments w)" "\<not> captured_row r" "pr_currency r = code c"
    and q: "q \<in> set (db_orders w)" "or_id q = pr_order_id r" "or_status q \<noteq> Order_Paid"
    and fees: "compute_fees (schedule_for_currency c) (money_new (pr_amount_minor r) c) = Inr f"
    and pay: "db_payments w' = update_row pr_id (pr_id r) (set_payment_status Pay_Captured t 0 a b) (db_payments w)"
    and ord: "db_orders w' = update_row or_id (or_id q) (set_order Order_Paid (pr_amount_minor r)) (db_orders w)"
    and ref: "db_refunds w' = db_refunds w"
    and books: "book_step (capture_moves (pr_merchant_id r) (money_new (pr_amount_minor r) c) f) w w'"
  shows "engine_inv w'"
proof -
  let ?f = "set_payment_status Pay_Captured t 0 a b" and ?m = "money_new (pr_amount_minor r) c"
  have d: "distinct (map pr_id (db_payments w))" "distinct (map or_id (db_orders w))"
    using assms(1) by (simp_all add: engine_inv_def ids_ok_def)
  have same: "x = r" if "x \<in> set (db_payments w)" "pr_id x = pr_id r" for x
    using same_key [OF d(1) that(1) r(1) that(2)] .
  have same_q: "x = q" if "x \<in> set (db_orders w)" "or_id x = or_id q" for x
    using same_key [OF d(2) that(1) q(1) that(2)] .
  have rok: "payment_ok (db_orders w) (db_refunds w) r" using assms(1) r(1) by (simp add: engine_inv_def)
  then obtain q' where "q' \<in> set (db_orders w)" "same_order r q'" by (auto simp: payment_ok_def)
  then have sq: "same_order r q" using same_q q(2) by (auto simp: same_order_def)
  have qok: "order_ok (db_payments w) q" using assms(1) q(1) by (simp add: engine_inv_def)
  have amount: "or_amount_minor q = pr_amount_minor r" "100 \<le> pr_amount_minor r" "in_i64 (pr_amount_minor r)"
    using sq qok by (auto simp: same_order_def order_ok_def)
  have zero: "refunds_against (pr_id r) (db_refunds w) = 0"
    using rok r(2) unfolding payment_ok_def by auto
  have "payment_ok (db_orders w) (db_refunds w) (?f r)"
    using rok amount zero unfolding payment_ok_def by auto
  then have "\<forall>x \<in> set (db_payments w'). payment_ok (db_orders w') (db_refunds w') x"
    using assms(1) unfolding pay ord ref
    by (auto simp: engine_inv_def mem_update_row dest!: same intro!: payment_ok_orders)
  moreover have "\<forall>x \<in> set (db_orders w'). order_ok (db_payments w') x"
  proof
    fix x assume "x \<in> set (db_orders w')"
    then consider "x \<in> set (db_orders w)" "or_id x \<noteq> or_id q" | "x = set_order Order_Paid (pr_amount_minor r) q"
      unfolding ord mem_update_row using same_q by blast
    then show "order_ok (db_payments w') x"
    proof cases
      case 1
      then show ?thesis using assms(1) q(2)
        by (simp add: engine_inv_def order_ok_def pay captured_for_update [OF d(1) r(1)])
    next
      case 2
      then show ?thesis using qok q r amount
        by (simp add: order_ok_def pay captured_for_update [OF d(1) r(1)])
    qed
  qed
  moreover have "\<forall>x \<in> set (db_refunds w'). refund_ok (db_payments w') x"
    using assms(1) refund_ok_update unfolding pay ref by (simp add: engine_inv_def)
  moreover have "books_ok w'" using books assms(1) by (simp add: book_step_def engine_inv_def)
  moreover have "book_equation w' \<and> accounts_exist w'"
  proof (rule explained_step [OF books])
    fix k
    have "contribution k (?f r) = moved k (capture_moves (pr_merchant_id r) ?m f)"
      using settled_capture [of ?m f k "pr_merchant_id r"] fees amount r(3)
      by (simp add: contribution_def)
    then show "(\<Sum>r \<leftarrow> db_payments w'. contribution k r) =
        (\<Sum>r \<leftarrow> db_payments w. contribution k r) + moved k (capture_moves (pr_merchant_id r) ?m f)"
      using r(2) by (simp add: pay sum_update_row [OF d(1) r(1)])
  qed (use assms(1) in \<open>simp_all add: engine_inv_def\<close>)
  ultimately show ?thesis
    using assms(1) by (simp add: engine_inv_def ids_ok_def update_row_keys pay ord ref)
qed

lemma payment_ok_cong:
  "refunds_against (pr_id r) rs = refunds_against (pr_id r) rs' \<Longrightarrow> payment_ok os rs r = payment_ok os rs' r"
  by (simp only: payment_ok_def)

text \<open>Refunding: a refund row, the payment's new total, and the books by the rule of a refund.\<close>

lemma inv_refund:
  assumes "engine_inv w" and r: "r \<in> set (db_payments w)" "captured_row r" "pr_currency r = code c"
    and x: "rr_id x \<notin> rr_id ` set (db_refunds w)" "rr_payment_id x = pr_id r" "rr_merchant_id x = pr_merchant_id r"
      "rr_currency x = pr_currency r" "rr_amount_minor x = v" "rr_status x = Ref_Processed"
    and v: "0 < v" "pr_amount_refunded r + v \<le> pr_amount_minor r"
    and s: "s = (if pr_amount_refunded r + v \<ge> pr_amount_minor r then Pay_Refunded else Pay_Captured)"
    and pay: "db_payments w' =
      update_row pr_id (pr_id r) (set_payment_status s t (pr_amount_refunded r + v) a b) (db_payments w)"
    and ord: "db_orders w' = db_orders w"
    and ref: "db_refunds w' = db_refunds w @ [x]"
    and books: "book_step (refund_moves (pr_merchant_id r) (money_new v c)
      (fee_slice (money_new (pr_amount_minor r) c) (pr_amount_refunded r) (pr_amount_refunded r + v))) w w'"
  shows "engine_inv w'"
proof -
  let ?n = "pr_amount_refunded r"
  let ?f = "set_payment_status s t (?n + v) a b" and ?m = "money_new (pr_amount_minor r) c"
  have d: "distinct (map pr_id (db_payments w))" using assms(1) by (simp add: engine_inv_def ids_ok_def)
  have same: "y = r" if "y \<in> set (db_payments w)" "pr_id y = pr_id r" for y
    using same_key [OF d that(1) r(1) that(2)] .
  have rok: "payment_ok (db_orders w) (db_refunds w) r" using assms(1) r(1) by (simp add: engine_inv_def)
  have cap: "s \<in> {Pay_Captured, Pay_Refunded}" by (simp add: s)
  have n: "?n = refunds_against (pr_id r) (db_refunds w)" "0 \<le> ?n" using rok unfolding payment_ok_def by auto
  have amount: "0 < pr_amount_minor r" "in_i64 (pr_amount_minor r)"
  proof -
    obtain q where "q \<in> set (db_orders w)" "same_order r q" using rok by (auto simp: payment_ok_def)
    then have "100 \<le> pr_amount_minor r \<and> in_i64 (pr_amount_minor r)"
      using assms(1) by (auto simp: engine_inv_def order_ok_def same_order_def)
    then show "0 < pr_amount_minor r" "in_i64 (pr_amount_minor r)" by auto
  qed
  have "payment_ok (db_orders w') (db_refunds w') y" if "y \<in> set (db_payments w')" for y
  proof -
    from that consider "y \<in> set (db_payments w)" "pr_id y \<noteq> pr_id r" | "y = ?f r"
      unfolding pay mem_update_row using same by blast
    then show ?thesis
    proof cases
      case 1
      then have "payment_ok (db_orders w) (db_refunds w) y" using assms(1) by (simp add: engine_inv_def)
      moreover have eq: "refunds_against (pr_id y) (db_refunds w @ [x]) = refunds_against (pr_id y) (db_refunds w)"
        using 1 x(2) by (simp add: refunds_against_append)
      ultimately show ?thesis unfolding ord ref using payment_ok_cong [OF eq] by blast
    next
      case 2
      have "(\<exists>q \<in> set (db_orders w). same_order r q) \<and> pr_currency r \<in> range code"
        using rok unfolding payment_ok_def by blast
      moreover have "refunds_against (pr_id r) (db_refunds w @ [x]) = ?n + v"
        using x n by (simp add: refunds_against_append)
      ultimately show ?thesis
        unfolding 2 ord ref payment_ok_def using cap n(2) v s by (auto split: if_splits)
    qed
  qed
  moreover have "\<forall>y \<in> set (db_orders w'). order_ok (db_payments w') y"
    using assms(1) r(2) cap by (simp add: engine_inv_def order_ok_def pay ord captured_for_update [OF d r(1)])
  moreover have "refund_ok (db_payments w') y" if "y \<in> set (db_refunds w')" for y
  proof -
    have "refund_ok (db_payments w) y"
      using that assms(1) x r(1) v(1) by (auto simp: ref engine_inv_def refund_ok_def)
    then show ?thesis unfolding pay by (rule refund_ok_update)
  qed
  moreover have "books_ok w'" using books assms(1) by (simp add: book_step_def engine_inv_def)
  moreover have "book_equation w' \<and> accounts_exist w'"
  proof (rule explained_step [OF books])
    fix k
    have "contribution k (?f r) = settled k (pr_merchant_id r) ?m (?n + v)"
      "contribution k r = settled k (pr_merchant_id r) ?m ?n"
      using cap r(2,3) by (simp_all add: contribution_def)
    then show "(\<Sum>r \<leftarrow> db_payments w'. contribution k r) = (\<Sum>r \<leftarrow> db_payments w. contribution k r) +
        moved k (refund_moves (pr_merchant_id r) (money_new v c) (fee_slice ?m ?n (?n + v)))"
      using settled_refund [of ?m ?n v k "pr_merchant_id r"] amount n(2) v
      by (simp add: pay sum_update_row [OF d r(1)])
  qed (use assms(1) in \<open>simp_all add: engine_inv_def\<close>)
  ultimately show ?thesis
    using assms(1) x(1) by (simp add: engine_inv_def ids_ok_def update_row_keys pay ord ref)
qed

section \<open>The operations preserve it\<close>

text \<open>A payment or order held by a transaction and the row it was read from or written to.\<close>

definition held_payment :: "payment \<Rightarrow> payment_row \<Rightarrow> bool" where
  "held_payment p r \<longleftrightarrow> p_id p = pr_id r \<and> p_order_id p = pr_order_id r \<and> p_merchant_id p = pr_merchant_id r \<and>
     minor (p_amount p) = pr_amount_minor r \<and> code (curr (p_amount p)) = pr_currency r \<and>
     p_amount_refunded p = pr_amount_refunded r \<and> p_status p = pr_status r \<and>
     p_captured_at p = pr_captured_at r"

definition held_order :: "order \<Rightarrow> order_row \<Rightarrow> bool" where
  "held_order o' q \<longleftrightarrow> o_id o' = or_id q \<and> o_merchant_id o' = or_merchant_id q \<and>
     minor (o_amount o') = or_amount_minor q \<and> code (curr (o_amount o')) = or_currency q \<and>
     o_amount_paid o' = or_amount_paid q \<and> o_status o' = or_status q"

lemma money_tables_emit: "emit X eps m ty j now w = (Inr u, w') \<Longrightarrow> money_tables w' = money_tables w"
  by (drule emit_Inr) (simp add: money_tables_def ledger_tables_def)

lemma money_tables_sel:
  assumes "money_tables w' = money_tables w"
  shows "db_orders w' = db_orders w" "db_payments w' = db_payments w" "db_refunds w' = db_refunds w"
    "ledger_tables w' = ledger_tables w"
  using assms by (simp_all add: money_tables_def)

lemma set_order_eta: "(\<lambda>r. r\<lparr>or_status := s, or_amount_paid := n\<rparr>) = set_order s n"
  by (simp add: fun_eq_iff set_order_def)

lemma settle_step:
  assumes "settle X p ord eps now w = (Inr res, w')" and "engine_inv w"
    and r: "r \<in> set (db_payments w)" "held_payment p r" and q: "q \<in> set (db_orders w)" "held_order ord q"
    and "p_order_id p = o_id ord"
  shows "engine_inv w' \<and> res = (p\<lparr>p_status := Pay_Captured, p_captured_at := Some now\<rparr>,
      ord\<lparr>o_status := Order_Paid, o_amount_paid := minor (p_amount p)\<rparr>) \<and>
    \<not> captured_row r \<and> or_status q = Order_Attempted \<and>
    db_payments w' = update_row pr_id (pr_id r) (set_payment_status Pay_Captured (Some now) 0 None None) (db_payments w) \<and>
    db_orders w' = update_row or_id (or_id q) (set_order Order_Paid (pr_amount_minor r)) (db_orders w) \<and>
    db_refunds w' = db_refunds w"
proof -
  let ?c = "curr (p_amount p)"
  obtain f w1 w2 w3 w4 u3 u4 u5 u6 where
    ps: "payment_can_transition_to (p_status p) Pay_Captured" and os: "o_status ord = Order_Attempted"
    and s1: "payment_update_status X (p_id p) Pay_Captured (Some now) (p_amount_refunded p) None None w = (Inr (), w1)"
    and s2: "order_update_status X (o_id ord) Order_Paid (minor (p_amount p)) w1 = (Inr (), w2)"
    and fees: "compute_fees (schedule_for_currency ?c) (p_amount p) = Inr f"
    and s3: "post_capture X (p_merchant_id p) (p_amount p) f (p_id p) now w2 = (Inr (), w3)"
    and s4: "emit X eps (p_merchant_id p) ''payment.captured'' u3 now w3 = (Inr u4, w4)"
    and s5: "emit X eps (p_merchant_id p) ''order.paid'' u5 now w4 = (Inr u6, w')"
    and res: "res = (p\<lparr>p_status := Pay_Captured, p_captured_at := Some now\<rparr>,
      ord\<lparr>o_status := Order_Paid, o_amount_paid := minor (p_amount p)\<rparr>)"
    using assms(1) by (auto simp: settle_def tbind_Inr mark_captured_Inr mark_paid_Inr)
  have unc: "\<not> captured_row r"
    using ps r(2) by (cases "p_status p") (auto simp: captured_row_def held_payment_def)
  have amt: "p_amount p = money_new (pr_amount_minor r) ?c"
    by (rule money_eqI) (use r(2) in \<open>simp_all add: held_payment_def\<close>)
  have "payment_ok (db_orders w) (db_refunds w) r" using assms(2) r(1) by (simp add: engine_inv_def)
  then have zero: "p_amount_refunded p = 0"
    using unc r(2) unfolding payment_ok_def held_payment_def by auto
  have w1: "w1 = w\<lparr>db_payments := update_row pr_id (pr_id r) (set_payment_status Pay_Captured (Some now) 0 None None) (db_payments w)\<rparr>"
    using s1 r(2) unfolding zero payment_update_status_Inr by (simp add: held_payment_def)
  have w2: "w2 = w1\<lparr>db_orders := update_row or_id (or_id q) (set_order Order_Paid (pr_amount_minor r)) (db_orders w)\<rparr>"
    using s2 q(2) r(2) w1 unfolding order_update_status_Inr set_order_eta by (simp add: held_order_def held_payment_def)
  obtain ms where ms: "posted ms w2 w3" "keyed w3 ms (capture_moves (p_merchant_id p) (p_amount p) f)"
    using post_capture_Inr [OF s3] by blast
  have frame: "db_orders w3 = db_orders w2" "db_payments w3 = db_payments w2" "db_refunds w3 = db_refunds w2"
    using ms(1) by (simp_all add: posted_def ledger_frame_def)
  have mt: "money_tables w' = money_tables w3"
    using money_tables_emit [OF s4] money_tables_emit [OF s5] by simp
  note t = money_tables_sel [OF mt]
  have "book_step (capture_moves (p_merchant_id p) (p_amount p) f) w w'"
    by (rule book_step_cong [OF _ t(4) [symmetric] posted_book_step [OF ms]])
      (simp add: w2 w1 ledger_tables_def)
  then have books: "book_step (capture_moves (pr_merchant_id r) (money_new (pr_amount_minor r) ?c) f) w w'"
    unfolding amt [symmetric] using r(2) by (simp add: held_payment_def)
  have pay: "db_payments w' = update_row pr_id (pr_id r) (set_payment_status Pay_Captured (Some now) 0 None None) (db_payments w)"
    and ordr: "db_orders w' = update_row or_id (or_id q) (set_order Order_Paid (pr_amount_minor r)) (db_orders w)"
    and ref: "db_refunds w' = db_refunds w"
    by (simp_all add: t frame w2 w1)
  have "engine_inv w'"
  proof (rule inv_capture [OF assms(2) r(1) unc _ q(1) _ _ _ pay ordr ref books])
    show "pr_currency r = code ?c" "or_id q = pr_order_id r" "or_status q \<noteq> Order_Paid"
      "compute_fees (schedule_for_currency ?c) (money_new (pr_amount_minor r) ?c) = Inr f"
      unfolding amt [symmetric] using r(2) q(2) assms(7) os fees by (simp_all add: held_payment_def held_order_def)
  qed
  then show ?thesis using res unc os q(2) pay ordr ref by (simp add: held_order_def)
qed

lemma money_tables_job:
  "job_enqueue X k pl t n now w = (Inr i, w') \<Longrightarrow> money_tables w' = money_tables w"
  by (drule job_enqueue_Inr) (simp add: money_tables_def ledger_tables_def)

lemma inv_money_tables: "engine_inv w \<Longrightarrow> money_tables w' = money_tables w \<Longrightarrow> engine_inv w'"
  using engine_inv_cong by blast

lemma find_mem: "find P xs = Some x \<Longrightarrow> x \<in> set xs \<and> P x"
  by (induction xs) (auto split: if_splits)

lemma held_found_payment:
  assumes "payment_find_by_id_for_update X i w = (Inr p, w')"
  shows "w' = w \<and> p_id p = i \<and> (\<exists>r \<in> set (db_payments w). held_payment p r)"
proof -
  obtain r where "w' = w" "p_id p = i" "find (\<lambda>r. pr_id r = i) (db_payments w) = Some r" "payment_into_domain X r = Inr p"
    using payment_find_Inr [OF assms] by blast
  moreover have "held_payment p r"
    using payment_into_domain_Inr [OF calculation(4)] by (simp add: held_payment_def)
  ultimately show ?thesis using find_mem by metis
qed

lemma held_found_order:
  assumes "order_find_by_id_for_update X i w = (Inr ord, w')"
  shows "w' = w \<and> o_id ord = i \<and> (\<exists>q \<in> set (db_orders w). held_order ord q)"
proof -
  obtain q where "w' = w" "o_id ord = i" "find (\<lambda>r. or_id r = i) (db_orders w) = Some q" "order_into_domain X q = Inr ord"
    using order_find_Inr [OF assms] by blast
  moreover have "held_order ord q"
    using calculation(4) unfolding order_into_domain_Inr by (simp add: held_order_def)
  ultimately show ?thesis using find_mem by metis
qed

text \<open>A change of status that captures nothing, followed by steps on other tables.\<close>

lemma status_step:
  assumes "payment_update_status X (p_id p) s None 0 a b w = (Inr u, w1)" and "engine_inv w"
    and "r \<in> set (db_payments w)" and "held_payment p r" and "p_status p = Pay_Created"
    and "s \<notin> {Pay_Captured, Pay_Refunded}"
  shows "engine_inv w1"
proof -
  have "w1 = w\<lparr>db_payments := update_row pr_id (pr_id r) (set_payment_status s None 0 a b) (db_payments w)\<rparr>"
    using assms(1,4) unfolding payment_update_status_Inr by (simp add: held_payment_def)
  moreover have "\<not> captured_row r" using assms(4,5) by (simp add: held_payment_def captured_row_def)
  ultimately show ?thesis using inv_payment_status [OF assms(2,3) _ assms(6)] by blast
qed

lemma apply_decision_inv:
  assumes "apply_decision X d m p ord eps now w = (Inr p', w')" and "engine_inv w"
    and r: "r \<in> set (db_payments w)" "held_payment p r" "p_status p = Pay_Created"
    and q: "q \<in> set (db_orders w)" "held_order ord q" "p_order_id p = o_id ord"
  shows "engine_inv w'"
proof (cases "dec_outcome d")
  case Out_Capture
  then obtain res where "settle X p ord eps now w = (Inr res, w')"
    using assms(1) by (auto simp: apply_decision_def tbind_Inr split: prod.splits)
  then show ?thesis using settle_step [OF _ assms(2) r(1,2) q] by blast
next
  case Out_CaptureThenDispute
  then obtain res w1 k pl t where "settle X p ord eps now w = (Inr res, w1)"
    and "job_enqueue X open_dispute pl t 3 now w1 = (Inr k, w')"
    using assms(1) by (auto simp: apply_decision_def tbind_Inr split: prod.splits)
  then show ?thesis using settle_step [OF _ assms(2) r(1,2) q] inv_money_tables money_tables_job by blast
next
  case Out_Authorize
  then obtain w1 ev j where
    st: "payment_update_status X (p_id p) Pay_Authorized None 0 None None w = (Inr (), w1)"
    and em: "emit X eps m ''payment.authorized'' j now w1 = (Inr ev, w')"
    using assms(1) r(3)
    by (auto simp: apply_decision_def tbind_Inr mark_authorized_def rbind_Inr payment_machine.trans_Inr_iff)
  show ?thesis
    by (rule inv_money_tables [OF status_step [OF st assms(2) r] money_tables_emit [OF em]]) simp
next
  case (Out_Decline c desc)
  then obtain w1 ev j where
    st: "payment_update_status X (p_id p) Pay_Failed None 0 (Some c) (Some desc) w = (Inr (), w1)"
    and em: "emit X eps m ''payment.failed'' j now w1 = (Inr ev, w')"
    using assms(1) r(3)
    by (auto simp: apply_decision_def tbind_Inr mark_failed_def rbind_Inr payment_machine.trans_Inr_iff)
  show ?thesis
    by (rule inv_money_tables [OF status_step [OF st assms(2) r] money_tables_emit [OF em]]) simp
next
  case Out_RequireAction
  then have st: "payment_update_status X (p_id p) Pay_RequiresAction None 0 None None w = (Inr (), w')"
    using assms(1) r(3)
    by (auto simp: apply_decision_def tbind_Inr mark_requires_action_def rbind_Inr payment_machine.trans_Inr_iff)
  show ?thesis by (rule status_step [OF st assms(2) r]) simp
next
  case Out_RiskHold
  then obtain k pl t where "job_enqueue X ''resolve_risk_review'' pl t 3 now w = (Inr k, w')"
    using assms(1) by (auto simp: apply_decision_def tbind_Inr)
  then show ?thesis using assms(2) inv_money_tables money_tables_job by blast
qed

lemma new_card_attempt_sel [simp]:
  "p_id (new_card_attempt i oid m a c n now) = i"
  "p_order_id (new_card_attempt i oid m a c n now) = oid"
  "p_merchant_id (new_card_attempt i oid m a c n now) = m"
  "p_amount (new_card_attempt i oid m a c n now) = a"
  "p_amount_refunded (new_card_attempt i oid m a c n now) = 0"
  "p_status (new_card_attempt i oid m a c n now) = Pay_Created"
  by (simp_all add: new_card_attempt_def)

lemma held_written: "held_payment p (payment_to_row p)"
  by (simp add: held_payment_def payment_to_row_def)

text \<open>The steps of \<open>create\<close> up to the decision, named.\<close>

lemma payment_create_tx_steps:
  assumes "payment_create_tx X pepper m inp d eps now w = (Inr p', w')"
  obtains ord details p w1 w2 w3 where
    "order_find_by_id_for_update X (cp_order_id inp) w = (Inr ord, w)"
    "o_merchant_id ord = m" "\<not> order_is_terminal (o_status ord)"
    "p = new_card_attempt (now_v7 X (uuid_calls w)) (o_id ord) m (o_amount ord) details (cp_notes inp) now"
    "order_update_status X (o_id ord) Order_Attempted (o_amount_paid ord) (w\<lparr>uuid_calls := Suc (uuid_calls w)\<rparr>)
      = (Inr (), w1)"
    "payment_insert X p w1 = (Inr (), w2)"
    "attempt_insert X (p_id p) 1 (attempt_outcome_str d) (attempt_decline_code d)
      (wrap32 (int (dec_latency_ms d))) now w2 = (Inr (), w3)"
    "apply_decision X d m p (ord\<lparr>o_status := Order_Attempted\<rparr>) eps now w3 = (Inr p', w')"
    "card_details_new (cp_card_number inp) (card_fingerprint X pepper (cp_card_number inp)) (cp_exp_month inp)
      (cp_exp_year inp) = Inr details"
  using assms
  by (auto simp: payment_create_tx_def tbind_Inr Let_def mark_attempted_Inr order_find_by_id_for_update_def
      split: if_splits)

text \<open>The state in which the decision is applied: the order is attempted and the new payment is in it.\<close>

lemma payment_create_tx_prefix:
  assumes "payment_create_tx X pepper m inp d eps now w = (Inr p', w')" and "engine_inv w"
  obtains ord q details p w3 where
    "q \<in> set (db_orders w)" "held_order ord q" "or_id q = cp_order_id inp" "or_merchant_id q = m"
    "\<not> order_is_terminal (or_status q)"
    "p = new_card_attempt (now_v7 X (uuid_calls w)) (o_id ord) m (o_amount ord) details (cp_notes inp) now"
    "engine_inv w3" "p_id p \<notin> pr_id ` set (db_payments w)"
    "db_payments w3 = db_payments w @ [payment_to_row p]"
    "db_orders w3 = update_row or_id (or_id q) (set_order Order_Attempted (or_amount_paid q)) (db_orders w)"
    "db_refunds w3 = db_refunds w" "ledger_tables w3 = ledger_tables w"
    "set_order Order_Attempted (or_amount_paid q) q \<in> set (db_orders w3)"
    "held_order (ord\<lparr>o_status := Order_Attempted\<rparr>) (set_order Order_Attempted (or_amount_paid q) q)"
    "p_order_id p = o_id (ord\<lparr>o_status := Order_Attempted\<rparr>)"
    "apply_decision X d m p (ord\<lparr>o_status := Order_Attempted\<rparr>) eps now w3 = (Inr p', w')"
    "card_details_new (cp_card_number inp) (card_fingerprint X pepper (cp_card_number inp)) (cp_exp_month inp)
      (cp_exp_year inp) = Inr details"
  using assms(1)
proof (rule payment_create_tx_steps)
  fix ord details p w1 w2 w3
  let ?w = "w\<lparr>uuid_calls := Suc (uuid_calls w)\<rparr>"
  assume find: "order_find_by_id_for_update X (cp_order_id inp) w = (Inr ord, w)"
    and m: "o_merchant_id ord = m" and live: "\<not> order_is_terminal (o_status ord)"
    and p: "p = new_card_attempt (now_v7 X (uuid_calls w)) (o_id ord) m (o_amount ord) details (cp_notes inp) now"
    and s1: "order_update_status X (o_id ord) Order_Attempted (o_amount_paid ord) ?w = (Inr (), w1)"
    and s2: "payment_insert X p w1 = (Inr (), w2)"
    and s3: "attempt_insert X (p_id p) 1 (attempt_outcome_str d) (attempt_decline_code d)
      (wrap32 (int (dec_latency_ms d))) now w2 = (Inr (), w3)"
    and rest: "apply_decision X d m p (ord\<lparr>o_status := Order_Attempted\<rparr>) eps now w3 = (Inr p', w')"
    and details: "card_details_new (cp_card_number inp) (card_fingerprint X pepper (cp_card_number inp)) (cp_exp_month inp)
      (cp_exp_year inp) = Inr details"
  obtain q where q: "q \<in> set (db_orders w)" "held_order ord q"
    using held_found_order [OF find] by blast
  let ?q = "set_order Order_Attempted (or_amount_paid q) q"
  have inv0: "engine_inv ?w" using assms(2) by (rule inv_money_tables) (simp add: money_tables_def ledger_tables_def)
  have w1: "w1 = ?w\<lparr>db_orders := update_row or_id (or_id q) (set_order Order_Attempted (or_amount_paid q)) (db_orders ?w)\<rparr>"
    using s1 q(2) unfolding order_update_status_Inr set_order_eta by (simp add: held_order_def)
  have "or_status q \<noteq> Order_Paid" using live q(2) by (auto simp: held_order_def)
  then have inv1: "engine_inv w1" unfolding w1 using inv_attempt_order [OF inv0, of q] q(1) by simp
  have q1: "?q \<in> set (db_orders w1)" using q(1) unfolding w1 by (auto simp: mem_update_row)
  note ins = payment_insert_Inr [OF s2]
  have inv2: "engine_inv w2"
  proof -
    have "pr_id (payment_to_row p) \<notin> pr_id ` set (db_payments w1)"
      using ins by (simp add: payment_to_row_def)
    moreover have "or_currency q \<in> range code" using q(2) unfolding held_order_def by (metis rangeI)
    ultimately have "engine_inv (w1\<lparr>db_payments := db_payments w1 @ [payment_to_row p]\<rparr>)"
      using q(2) m by (intro inv_add_payment [OF inv1 _ q1])
        (auto simp: payment_to_row_def p same_order_def held_order_def)
    then show ?thesis using ins by simp
  qed
  have inv3: "engine_inv w3"
    using inv2 by (rule inv_money_tables)
      (use attempt_insert_Inr [OF s3] in \<open>simp add: money_tables_def ledger_tables_def\<close>)
  note att = attempt_insert_Inr [OF s3]
  show thesis
  proof (rule that [OF q(1,2) _ _ _ p inv3 _ _ _ _ _ _ _ _ rest details])
    show "or_id q = cp_order_id inp" "or_merchant_id q = m"
      using held_found_order [OF find] q(2) m by (auto simp: held_order_def)
    show "\<not> order_is_terminal (or_status q)" using live q(2) by (simp add: held_order_def)
    show "?q \<in> set (db_orders w3)" using att ins q1 by simp
    show "p_id p \<notin> pr_id ` set (db_payments w)" using ins by (simp add: w1)
  qed (use att ins q(2) in \<open>simp_all add: w1 p held_order_def ledger_tables_def\<close>)
qed

lemma payment_create_tx_inv:
  assumes "payment_create_tx X pepper m inp d eps now w = (Inr p', w')" and "engine_inv w"
  shows "engine_inv w'"
  using assms
proof (rule payment_create_tx_prefix)
  fix ord :: order and q :: order_row and details p w3
  assume p: "p = new_card_attempt (now_v7 X (uuid_calls w)) (o_id ord) m (o_amount ord) details (cp_notes inp) now"
    and inv3: "engine_inv w3" and pay: "db_payments w3 = db_payments w @ [payment_to_row p]"
    and q: "set_order Order_Attempted (or_amount_paid q) q \<in> set (db_orders w3)"
    and held: "held_order (ord\<lparr>o_status := Order_Attempted\<rparr>) (set_order Order_Attempted (or_amount_paid q) q)"
    and oid: "p_order_id p = o_id (ord\<lparr>o_status := Order_Attempted\<rparr>)"
    and rest: "apply_decision X d m p (ord\<lparr>o_status := Order_Attempted\<rparr>) eps now w3 = (Inr p', w')"
  show "engine_inv w'"
    by (rule apply_decision_inv [OF rest inv3 _ held_written _ q held oid]) (simp_all add: p pay)
qed

lemma payment_capture_tx_steps:
  assumes "payment_capture_tx X m i eps now w = (Inr p', w')"
  obtains p ord res where "payment_find_by_id_for_update X i w = (Inr p, w)" "p_merchant_id p = m"
    "p_status p = Pay_Authorized" "order_find_by_id_for_update X (p_order_id p) w = (Inr ord, w)"
    "settle X p ord eps now w = (Inr res, w')" "p' = fst res"
  using assms
  by (auto simp: payment_capture_tx_def tbind_Inr try_capturable_Inr payment_find_by_id_for_update_def
      order_find_by_id_for_update_def split: if_splits prod.splits)

lemma payment_capture_tx_inv:
  assumes "payment_capture_tx X m i eps now w = (Inr p', w')" and "engine_inv w"
  shows "engine_inv w'"
  using assms(1)
proof (rule payment_capture_tx_steps)
  fix p ord res
  assume find: "payment_find_by_id_for_update X i w = (Inr p, w)"
    and ford: "order_find_by_id_for_update X (p_order_id p) w = (Inr ord, w)"
    and st: "settle X p ord eps now w = (Inr res, w')"
  show "engine_inv w'"
    using settle_step [OF st assms(2)] held_found_payment [OF find] held_found_order [OF ford] by metis
qed

text \<open>The steps of a refund, named; under the invariant the arithmetic does not wrap.\<close>

lemma refund_create_tx_steps:
  assumes "refund_create_tx X m inp eps now w = (Inr rf, w')" and "engine_inv w"
  obtains p r v fee w1 w2 w3 j ev where
    "payment_find_by_id_for_update X (cr_payment_id inp) w = (Inr p, w)"
    "r \<in> set (db_payments w)" "held_payment p r" "captured_row r" "p_merchant_id p = m"
    "0 < v" "p_amount_refunded p + v \<le> minor (p_amount p)"
    "v = unwrap_or (minor (p_amount p) - p_amount_refunded p) (cr_amount_minor inp)"
    "rf = \<lparr>re_id = now_v7 X (uuid_calls w), re_payment_id = p_id p, re_merchant_id = m,
       re_amount = money_new v (curr (p_amount p)), re_reason = cr_reason inp, re_status = Ref_Processed,
       re_created_at = now, re_processed_at = Some now\<rparr>"
    "refund_insert X rf (w\<lparr>uuid_calls := Suc (uuid_calls w)\<rparr>) = (Inr (), w1)"
    "fee = fee_slice (p_amount p) (p_amount_refunded p) (p_amount_refunded p + v)"
    "post_refund X m (money_new v (curr (p_amount p))) fee (re_id rf) now w1 = (Inr (), w2)"
    "payment_update_status X (p_id p)
       (if p_amount_refunded p + v \<ge> minor (p_amount p) then Pay_Refunded else Pay_Captured)
       (p_captured_at p) (p_amount_refunded p + v) None None w2 = (Inr (), w3)"
    "emit X eps m ''refund.processed'' j now w3 = (Inr ev, w')"
proof -
  obtain p where find: "payment_find_by_id_for_update X (cr_payment_id inp) w = (Inr p, w)"
    and m: "p_merchant_id p = m" and st: "p_status p \<in> {Pay_Captured, Pay_Refunded}"
    using assms(1) by (auto simp: refund_create_tx_def tbind_Inr payment_find_by_id_for_update_def split: if_splits)
  obtain r where r: "r \<in> set (db_payments w)" "held_payment p r" using held_found_payment [OF find] by blast
  have cap: "captured_row r" using st r(2) by (simp add: captured_row_def held_payment_def)
  have rok: "payment_ok (db_orders w) (db_refunds w) r" using assms(2) r(1) by (simp add: engine_inv_def)
  then have n: "refunds_against (p_id p) (db_refunds w) = p_amount_refunded p" "0 \<le> p_amount_refunded p"
    using r(2) unfolding payment_ok_def held_payment_def by auto
  obtain q where "q \<in> set (db_orders w)" "same_order r q" using rok by (auto simp: payment_ok_def)
  then have amt: "0 < minor (p_amount p)" "in_i64 (minor (p_amount p))"
    using assms(2) r(2) unfolding engine_inv_def order_ok_def same_order_def held_payment_def by force+
  let ?a = "minor (p_amount p)" and ?n = "p_amount_refunded p"
  have le: "?n \<le> ?a"
    using rok cap r(2) unfolding payment_ok_def held_payment_def captured_row_def by auto
  have rem: "wrap64 (?a - ?n) = ?a - ?n" by (rule i64_difference [OF amt(2)]) (use n le amt in simp_all)
  let ?v = "unwrap_or (?a - ?n) (cr_amount_minor inp)"
  have v: "0 < ?v" "?v \<le> ?a - ?n"
    using assms(1) find m st by (auto simp: refund_create_tx_def tbind_Inr refund_sum_Inr n rem Let_def split: if_splits)
  have total: "wrap64 (?n + ?v) = ?n + ?v"
    by (rule wrap64_id) (use v n le amt in \<open>simp add: in_i64_iff\<close>)
  note fee = proportional_fee_refund_ok [OF amt n(2), of "?n + ?v"]
  have fee': "proportional_fee_refund (p_amount p) ?n (?n + ?v) = Inr (fee_slice (p_amount p) ?n (?n + ?v))"
    using fee v by simp
  let ?rf = "\<lparr>re_id = now_v7 X (uuid_calls w), re_payment_id = p_id p, re_merchant_id = m,
       re_amount = money_new ?v (curr (p_amount p)), re_reason = cr_reason inp, re_status = Ref_Processed,
       re_created_at = now, re_processed_at = Some now\<rparr>"
  obtain p' w1 w2 w3 j ev where steps: "rf = ?rf"
    "refund_insert X ?rf (w\<lparr>uuid_calls := Suc (uuid_calls w)\<rparr>) = (Inr (), w1)"
    "post_refund X m (money_new ?v (curr (p_amount p))) (fee_slice (p_amount p) ?n (?n + ?v)) (re_id ?rf) now w1
      = (Inr (), w2)"
    "(if ?n + ?v \<ge> ?a then map_err E_PaymentTransition (mark_refunded p (?n + ?v))
      else Inr (p\<lparr>p_amount_refunded := ?n + ?v\<rparr>)) = Inr p'"
    "payment_update_status X (p_id p') (p_status p') (p_captured_at p') (p_amount_refunded p') None None w2 = (Inr (), w3)"
    "emit X eps m ''refund.processed'' j now w3 = (Inr ev, w')"
    using assms(1) find m st v
    by (auto simp: refund_create_tx_def tbind_Inr refund_sum_Inr n rem total fee' Let_def new_non_negative_Inr
        simp del: unwrap_or_def split: if_splits)
  have st': "p_status p = Pay_Captured"
  proof -
    have "p_status p \<noteq> Pay_Refunded"
      using rok v r(2) unfolding payment_ok_def held_payment_def by auto
    then show ?thesis using st by blast
  qed
  have p': "p_id p' = p_id p" "p_status p' = (if ?n + ?v \<ge> ?a then Pay_Refunded else Pay_Captured)"
    "p_captured_at p' = p_captured_at p" "p_amount_refunded p' = ?n + ?v"
    using steps(4) st' by (auto simp: mark_refunded_Inr split: if_splits)
  show ?thesis
    by (rule that [OF find r cap m v(1) _ refl steps(1) _ refl _ _ steps(6)])
      (use v steps p' in \<open>simp_all\<close>)
qed

text \<open>What the statements of a refund leave in the tables.\<close>

lemma refund_tail:
  assumes ins: "refund_insert X rf (w\<lparr>uuid_calls := k\<rparr>) = (Inr (), w1)"
    and post: "post_refund X m amt fee i now w1 = (Inr (), w2)"
    and upd: "payment_update_status X pid s cat n None None w2 = (Inr (), w3)"
    and em: "emit X eps m ''refund.processed'' j now w3 = (Inr ev, w')"
  shows "db_payments w' = update_row pr_id pid (set_payment_status s cat n None None) (db_payments w) \<and>
    db_orders w' = db_orders w \<and> db_refunds w' = db_refunds w @ [refund_to_row rf] \<and>
    rr_id (refund_to_row rf) \<notin> rr_id ` set (db_refunds w) \<and>
    book_step (refund_moves m amt fee) w w'"
proof -
  note w1 = refund_insert_Inr [OF ins]
  obtain ms where ms: "posted ms w1 w2" "keyed w2 ms (refund_moves m amt fee)"
    using post_refund_Inr [OF post] by blast
  have frame: "db_orders w2 = db_orders w1" "db_payments w2 = db_payments w1" "db_refunds w2 = db_refunds w1"
    using ms(1) by (simp_all add: posted_def ledger_frame_def)
  have w3: "w3 = w2\<lparr>db_payments := update_row pr_id pid (set_payment_status s cat n None None) (db_payments w2)\<rparr>"
    using upd unfolding payment_update_status_Inr by blast
  note t = money_tables_sel [OF money_tables_emit [OF em]]
  have l2: "ledger_tables w2 = ledger_tables w'" using t(4) by (simp add: w3 ledger_tables_def)
  have "book_step (refund_moves m amt fee) w w'"
    by (rule book_step_cong [OF _ l2 posted_book_step [OF ms]]) (simp add: conjunct1 [OF w1] ledger_tables_def)
  moreover have "rr_id (refund_to_row rf) \<notin> rr_id ` set (db_refunds w)"
    using w1 by (simp add: refund_to_row_def)
  moreover have "db_payments w' = update_row pr_id pid (set_payment_status s cat n None None) (db_payments w) \<and>
      db_orders w' = db_orders w \<and> db_refunds w' = db_refunds w @ [refund_to_row rf]"
    by (simp add: t w3 frame conjunct1 [OF w1])
  ultimately show ?thesis by blast
qed

lemma refund_create_tx_inv:
  assumes "refund_create_tx X m inp eps now w = (Inr rf, w')" and "engine_inv w"
  shows "engine_inv w'"
  using assms
proof (rule refund_create_tx_steps)
  fix p :: payment and r :: payment_row and fee :: fee_refund and v w1 w2 w3 j ev
  let ?w = "w\<lparr>uuid_calls := Suc (uuid_calls w)\<rparr>" and ?n = "p_amount_refunded p" and ?a = "minor (p_amount p)"
  let ?s = "if ?n + v \<ge> ?a then Pay_Refunded else Pay_Captured" and ?c = "curr (p_amount p)"
  assume r: "r \<in> set (db_payments w)" "held_payment p r" "captured_row r" and m: "p_merchant_id p = m"
    and v: "0 < v" "?n + v \<le> ?a"
    and rf: "rf = \<lparr>re_id = now_v7 X (uuid_calls w), re_payment_id = p_id p, re_merchant_id = m,
       re_amount = money_new v ?c, re_reason = cr_reason inp, re_status = Ref_Processed,
       re_created_at = now, re_processed_at = Some now\<rparr>"
    and ins: "refund_insert X rf ?w = (Inr (), w1)"
    and fee: "fee = fee_slice (p_amount p) ?n (?n + v)"
    and post: "post_refund X m (money_new v ?c) fee (re_id rf) now w1 = (Inr (), w2)"
    and upd: "payment_update_status X (p_id p) ?s (p_captured_at p) (?n + v) None None w2 = (Inr (), w3)"
    and em: "emit X eps m ''refund.processed'' j now w3 = (Inr ev, w')"
  note tail = refund_tail [OF ins post upd em]
  have amt: "p_amount p = money_new (pr_amount_minor r) ?c"
    by (rule money_eqI) (use r(2) in \<open>simp_all add: held_payment_def\<close>)
  have books: "book_step (refund_moves (pr_merchant_id r) (money_new v ?c)
      (fee_slice (money_new (pr_amount_minor r) ?c) (pr_amount_refunded r) (pr_amount_refunded r + v))) w w'"
    unfolding amt [symmetric] using tail r(2) m by (simp add: held_payment_def fee)
  show "engine_inv w'"
  proof (rule inv_refund [OF assms(2) r(1,3) _ _ _ _ _ _ _ v(1) _ _ _ _ _ books, where x = "refund_to_row rf" and s = ?s])
    show "pr_currency r = code ?c" using r(2) by (simp add: held_payment_def)
    show "db_payments w' = update_row pr_id (pr_id r)
        (set_payment_status ?s (p_captured_at p) (pr_amount_refunded r + v) None None) (db_payments w)"
      using r(2) tail by (simp add: held_payment_def)
    show "rr_id (refund_to_row rf) \<notin> rr_id ` set (db_refunds w)"
      "db_orders w' = db_orders w" "db_refunds w' = db_refunds w @ [refund_to_row rf]"
      using tail by simp_all
  qed (use r(2) m v in \<open>simp_all add: held_payment_def refund_to_row_def rf\<close>)
qed

section \<open>Reachable states\<close>

text \<open>
  A step is one call of the engine, whatever its result, or any other operation, which leaves the
  money tables alone: the registration of merchants, keys and endpoints, the queue, deliveries and
  idempotency keys all do. The amount of a new order is an \<open>i64\<close>.
\<close>

inductive engine_step :: "ext \<Rightarrow> db \<Rightarrow> db \<Rightarrow> bool" for X where
  create_order: "order_create X m inp now w = (res, w') \<Longrightarrow> in_i64 (co_amount_minor inp) \<Longrightarrow> engine_step X w w'"
| create_payment: "payment_create X pepper m pin d now w = (pres, w') \<Longrightarrow> engine_step X w w'"
| capture: "payment_capture X m i now w = (pres, w') \<Longrightarrow> engine_step X w w'"
| create_refund: "refund_create X m rin now w = (rres, w') \<Longrightarrow> engine_step X w w'"
| elsewhere: "money_tables w' = money_tables w \<Longrightarrow> engine_step X w w'"

inductive engine_reachable :: "ext \<Rightarrow> db \<Rightarrow> db \<Rightarrow> bool" for X w where
  start: "engine_reachable X w w"
| step: "engine_reachable X w w1 \<Longrightarrow> engine_step X w1 w2 \<Longrightarrow> engine_reachable X w w2"

inductive_cases engine_stepE: "engine_step X w w'"

text \<open>The database after the migrations: accounts, and no orders, payments, refunds or entries.\<close>

definition fresh_books :: "db \<Rightarrow> bool" where
  "fresh_books w \<longleftrightarrow>
     db_orders w = [] \<and> db_payments w = [] \<and> db_refunds w = [] \<and> db_ltxns w = [] \<and> db_entries w = [] \<and>
     distinct (map ar_id (db_accounts w)) \<and> distinct (map acct_key (db_accounts w))"

lemma fresh_books_inv: "fresh_books w \<Longrightarrow> engine_inv w"
  by (simp add: fresh_books_def engine_inv_def books_ok_def ids_ok_def book_equation_def accounts_exist_def
      account_sum_def)

lemma after_endpoints:
  "tbind (store (list_active_for_merchant m)) f w =
     f (sort_key ep_created_at (filter (\<lambda>r. ep_merchant_id r = m \<and> ep_disabled_at r = None) (db_endpoints w))) w"
  by (simp add: list_active_for_merchant_def store_def tmap_err_def query_def tbind_def)

lemma run_tx_inv:
  assumes "run_tx X conv body w = (res, w')" and "engine_inv w"
    and "\<And>a. body w = (Inr a, w') \<Longrightarrow> engine_inv w'"
  shows "engine_inv w'"
proof (cases res)
  case (Inl e)
  obtain n where "w' = w\<lparr>uuid_calls := n\<rparr>" using run_tx_Inl [OF assms(1) [unfolded Inl]] by blast
  then show ?thesis by (intro inv_money_tables [OF assms(2)]) (simp add: money_tables_def ledger_tables_def)
next
  case (Inr a)
  then show ?thesis using assms(1,3) by (simp add: run_tx_Inr)
qed

lemma order_create_Inl:
  assumes "order_create X m inp now w = (Inl e, w')"
  shows "\<exists>n. w' = w\<lparr>uuid_calls := n\<rparr>"
proof -
  have "w' = w \<or> w' = w\<lparr>uuid_calls := Suc (uuid_calls w)\<rparr>"
    using assms
    by (auto simp: order_create_def Let_def tbind_Inl new_non_negative_def order_insert_def guarded_Inl
        store_def tmap_err_def fresh_id_def min_amount_minor_def split: if_splits prod.splits)
      (auto simp: guarded_def split: sum.splits)
  then show ?thesis by (metis db.surjective db.update_convs(15))
qed

lemma order_create_inv:
  assumes "order_create X m inp now w = (res, w')" and "engine_inv w" and "in_i64 (co_amount_minor inp)"
  shows "engine_inv w'"
proof (cases res)
  case (Inl e)
  then obtain n where "w' = w\<lparr>uuid_calls := n\<rparr>" using order_create_Inl assms(1) by blast
  then show ?thesis by (intro inv_money_tables [OF assms(2)]) (simp add: money_tables_def ledger_tables_def)
next
  case (Inr r)
  note step = order_create_Inr [of X m inp now w r w']
  have "engine_inv (w\<lparr>db_orders := db_orders w @ [order_to_row r], uuid_calls := Suc (uuid_calls w)\<rparr>)"
    using step assms Inr by (intro inv_add_order [OF assms(2)]) (auto simp: order_to_row_def)
  then show ?thesis using step assms(1) Inr by simp
qed

lemma engine_step_inv:
  assumes "engine_step X w w'" and "engine_inv w"
  shows "engine_inv w'"
  using assms(1)
proof cases
  case (create_order m inp now res)
  then show ?thesis using order_create_inv assms(2) by blast
next
  case (create_payment pepper m pin d now pres)
  show ?thesis
    using create_payment(1) assms(2)
    unfolding payment_create_def after_endpoints by (rule run_tx_inv) (rule payment_create_tx_inv [OF _ assms(2)])
next
  case (capture m i now pres)
  show ?thesis
    using capture(1) assms(2)
    unfolding payment_capture_def after_endpoints by (rule run_tx_inv) (rule payment_capture_tx_inv [OF _ assms(2)])
next
  case (create_refund m rin now rres)
  show ?thesis
  proof (cases "case cr_reason rin of None \<Rightarrow> False | Some r \<Rightarrow> length r > max_reason_length")
    case True
    then have "w' = w" using create_refund by (simp add: refund_create_def)
    then show ?thesis using assms(2) by simp
  next
    case False
    then have "run_tx X E_Store (refund_create_tx X m rin (sort_key ep_created_at
        (filter (\<lambda>r. ep_merchant_id r = m \<and> ep_disabled_at r = None) (db_endpoints w))) now) w = (rres, w')"
      using create_refund by (simp add: refund_create_def after_endpoints)
    then show ?thesis by (rule run_tx_inv [OF _ assms(2)]) (rule refund_create_tx_inv [OF _ assms(2)])
  qed
next
  case elsewhere
  then show ?thesis by (rule inv_money_tables [OF assms(2)])
qed

lemma engine_reachable_inv:
  "engine_reachable X w w' \<Longrightarrow> fresh_books w \<Longrightarrow> engine_inv w'"
  by (induction rule: engine_reachable.induct) (auto intro: fresh_books_inv engine_step_inv)

lemma refund_create_run:
  assumes "refund_create X m inp now w = (Inr rf, w')"
  shows "\<exists>eps. refund_create_tx X m inp eps now w = (Inr rf, w')"
  using assms by (auto simp: refund_create_def after_endpoints run_tx_Inr split: if_splits)

end
