(* ===== verification/Engine_Properties.thy ===== *)
theory Engine_Properties
  imports Engine_Invariant "HOL-Library.Code_Target_Nat"
begin

text \<open>
  What the engine guarantees in every state it reaches from the migrated database, and how its
  calls answer at the edges: failures, foreign merchants, paid orders.
\<close>

section \<open>A run on the small database\<close>

definition demo_order_input :: create_order_input where
  "demo_order_input = \<lparr>co_amount_minor = 10000, co_currency = INR, co_receipt = None, co_notes = []\<rparr>"

definition demo_card :: create_payment_input where
  "demo_card = \<lparr>cp_order_id = 1000, cp_card_number = ''4242424242424242'', cp_exp_month = 12,
     cp_exp_year = 2030, cp_notes = []\<rparr>"

definition demo_decision :: attempt_decision where
  "demo_decision = \<lparr>dec_outcome = Out_Capture, dec_latency_ms = 5\<rparr>"

definition demo_w1 :: db where
  "demo_w1 = snd (order_create demo_ext 7 demo_order_input 0 demo_db)"

definition demo_w2 :: db where
  "demo_w2 = snd (payment_create demo_ext ''pepper'' 7 demo_card demo_decision 0 demo_w1)"

definition demo_refund :: create_refund_input where
  "demo_refund = \<lparr>cr_payment_id = 1001, cr_amount_minor = Some 4000, cr_reason = None\<rparr>"

definition demo_w3 :: db where
  "demo_w3 = snd (refund_create demo_ext 7 demo_refund 0 demo_w2)"

text \<open>What is read off the last state, as one predicate, so that the run is evaluated once.\<close>

definition demo_end :: "db \<Rightarrow> bool" where
  "demo_end w \<longleftrightarrow>
     map (\<lambda>a. (acct_key a, account_sum (ar_id a) (db_entries w))) (db_accounts w) =
       [((None, GatewayClearing, ''INR''), - 6000), ((None, PlatformRevenue, ''INR''), 300),
        ((None, TaxPayable, ''INR''), 54), ((Some 7, MerchantPending, ''INR''), 5646)] \<and>
     map (\<lambda>r. (pr_id r, pr_order_id r, pr_status r, pr_amount_refunded r)) (db_payments w) =
       [(1001, 1000, Pay_Captured, 4000)] \<and>
     map (\<lambda>q. (or_id q, or_status q)) (db_orders w) = [(1000, Order_Paid)] \<and>
     length (db_ltxns w) = 4"

lemma demo_w3_end: "demo_end demo_w3"
  by code_simp

lemmas demo_w3_facts = demo_w3_end [unfolded demo_end_def]

lemma demo_fresh: "fresh_books demo_db"
  by (simp add: fresh_books_def demo_db_def demo_account_def acct_key_def)

lemma demo_w1_reachable: "engine_reachable demo_ext demo_db demo_w1"
    unfolding demo_w1_def
    by (rule engine_reachable.step [OF engine_reachable.start engine_step.create_order [OF prod.collapse [symmetric]]])
      (simp add: demo_order_input_def in_i64_iff)

lemma demo_w2_reachable: "engine_reachable demo_ext demo_db demo_w2"
  unfolding demo_w2_def
  by (rule engine_reachable.step [OF demo_w1_reachable engine_step.create_payment [OF prod.collapse [symmetric]]])

lemma demo_w3_reachable: "engine_reachable demo_ext demo_db demo_w3"
  unfolding demo_w3_def
  by (rule engine_reachable.step [OF demo_w2_reachable engine_step.create_refund [OF prod.collapse [symmetric]]])

section \<open>The books\<close>

lemma txn_balanced_zero:
  assumes "txn_balanced t es"
  shows "sum_in c (entries_of t es) = 0"
proof (cases "\<exists>e \<in> set (entries_of t es). er_currency e = c")
  case True
  then show ?thesis using assms by (auto simp: txn_balanced_def list_all_iff)
next
  case False
  then have "filter (\<lambda>e. er_currency e = c) (entries_of t es) = []" by (auto simp: filter_empty_conv)
  then show ?thesis by (simp only: sum_in_def list.map sum_list.Nil)
qed

lemma books_ok_trigger_any: "books_ok w \<Longrightarrow> ledger_trigger X before w = None"
  by (auto simp: books_ok_def ledger_trigger_def list_all_iff dest!: in_set_dropD)

text \<open>
  C1. The balance of every ledger account is what the payments explain, in every reachable state: the
  sum over the captured payments of their net effect, in which clearing holds the amount not refunded,
  revenue and tax the fee less the part returned for the refunds so far, and the merchant the rest.
\<close>
theorem balances_are_explained:
  assumes "engine_reachable X w0 w" and "fresh_books w0" and "a \<in> set (db_accounts w)"
  shows "account_sum (ar_id a) (db_entries w) =
    (\<Sum>r \<leftarrow> db_payments w.
       case currency_from_str (pr_currency r) of
         Inl _ \<Rightarrow> 0
       | Inr c \<Rightarrow>
           if pr_status r \<in> {Pay_Captured, Pay_Refunded}
           then settled (acct_key a) (pr_merchant_id r) (money_new (pr_amount_minor r) c) (pr_amount_refunded r)
           else 0)"
  using engine_reachable_inv [OF assms(1,2)] assms(3)
  unfolding engine_inv_def book_equation_def contribution_def captured_row_def by blast

theorem balances_are_explained_witness:
  "\<exists>a \<in> set (db_accounts demo_w3). acct_key a = (None, PlatformRevenue, ''INR'') \<and>
     account_sum (ar_id a) (db_entries demo_w3) = 300 \<and>
     (\<Sum>r \<leftarrow> db_payments demo_w3.
       case currency_from_str (pr_currency r) of
         Inl _ \<Rightarrow> 0
       | Inr c \<Rightarrow>
           if pr_status r \<in> {Pay_Captured, Pay_Refunded}
           then settled (acct_key a) (pr_merchant_id r) (money_new (pr_amount_minor r) c) (pr_amount_refunded r)
           else 0) = 300"
proof -
  have "((None, PlatformRevenue, ''INR''), 300) \<in>
      set (map (\<lambda>a. (acct_key a, account_sum (ar_id a) (db_entries demo_w3))) (db_accounts demo_w3))"
    unfolding conjunct1 [OF demo_w3_facts] by simp
  then obtain a where "a \<in> set (db_accounts demo_w3)" "acct_key a = (None, PlatformRevenue, ''INR'')"
    "account_sum (ar_id a) (db_entries demo_w3) = 300"
    by auto
  then show ?thesis
    using balances_are_explained [OF demo_w3_reachable demo_fresh] by (intro bexI [of _ a]) simp_all
qed

text \<open>
  C6. Every transaction in the ledger balances: its entries sum to zero in every currency and are at
  least two, every entry belongs to a stored transaction and account, and so the trigger that is
  deferred to the commit lets every further commit of the state through.
\<close>
theorem ledger_always_balances:
  assumes "engine_reachable X w0 w" and "fresh_books w0"
  shows "(\<forall>t \<in> set (db_ltxns w). 2 \<le> length (entries_of (lt_id t) (db_entries w)) \<and>
       (\<forall>c. sum_in c (entries_of (lt_id t) (db_entries w)) = 0)) \<and>
    (\<forall>e \<in> set (db_entries w). er_transaction_id e \<in> lt_id ` set (db_ltxns w) \<and>
       er_account_id e \<in> ar_id ` set (db_accounts w)) \<and>
    (\<forall>before. ledger_trigger X before w = None)"
proof -
  have ok: "books_ok w" using engine_reachable_inv [OF assms] by (simp add: engine_inv_def)
  have "txn_balanced (lt_id t) (db_entries w)" if "t \<in> set (db_ltxns w)" for t
    using ok that unfolding books_ok_def by blast
  then have "\<forall>t \<in> set (db_ltxns w). 2 \<le> length (entries_of (lt_id t) (db_entries w)) \<and>
       (\<forall>c. sum_in c (entries_of (lt_id t) (db_entries w)) = 0)"
    using txn_balanced_zero unfolding txn_balanced_def by blast
  moreover have "\<forall>e \<in> set (db_entries w). er_transaction_id e \<in> lt_id ` set (db_ltxns w) \<and>
       er_account_id e \<in> ar_id ` set (db_accounts w)"
    using ok unfolding books_ok_def by blast
  moreover have "ledger_trigger X before w = None" for before
    using books_ok_trigger_any [OF ok] .
  ultimately show ?thesis by blast
qed

theorem ledger_always_balances_witness:
  "length (db_ltxns demo_w3) = 4 \<and>
   list_all (\<lambda>t. sum_in ''INR'' (entries_of (lt_id t) (db_entries demo_w3)) = 0) (db_ltxns demo_w3)"
  using ledger_always_balances [OF demo_w3_reachable demo_fresh] demo_w3_facts by (simp add: list_all_iff)

text \<open>
  When every captured payment has been refunded in full, every account of the ledger is back at
  zero: no rounding of the fees and their returns leaves anything behind.
\<close>
theorem fully_refunded_books_are_empty:
  assumes "engine_reachable X w0 w" and "fresh_books w0"
    and "\<And>r. r \<in> set (db_payments w) \<Longrightarrow> pr_status r \<noteq> Pay_Captured"
    and "a \<in> set (db_accounts w)"
  shows "account_sum (ar_id a) (db_entries w) = 0"
proof -
  have inv: "engine_inv w" by (rule engine_reachable_inv [OF assms(1,2)])
  have "contribution (acct_key a) r = 0" if r: "r \<in> set (db_payments w)" for r
  proof (cases "captured_row r")
    case True
    then have "pr_status r = Pay_Refunded" using assms(3) [OF r] by (simp add: captured_row_def)
    moreover have ok: "payment_ok (db_orders w) (db_refunds w) r" using inv r by (simp add: engine_inv_def)
    ultimately have "pr_amount_refunded r = pr_amount_minor r" unfolding payment_ok_def by blast
    moreover have "0 < pr_amount_minor r"
    proof -
      obtain q where "q \<in> set (db_orders w)" "same_order r q" using ok by (auto simp: payment_ok_def)
      then have "100 \<le> pr_amount_minor r"
        using inv by (auto simp: engine_inv_def order_ok_def same_order_def)
      then show ?thesis by simp
    qed
    ultimately show ?thesis
      using settled_fully_refunded [of "money_new (pr_amount_minor r) _" "acct_key a" "pr_merchant_id r"]
      by (auto simp: contribution_def split: sum.splits)
  qed simp
  then have "(\<Sum>r \<leftarrow> db_payments w. contribution (acct_key a) r) = 0" by (rule sum_zero_nonneg)
  then show ?thesis using inv assms(4) by (simp add: engine_inv_def book_equation_def)
qed

definition demo_w4 :: db where
  "demo_w4 = snd (refund_create demo_ext 7 (demo_refund\<lparr>cr_amount_minor := None\<rparr>) 0 demo_w3)"

definition demo_refunded :: "db \<Rightarrow> bool" where
  "demo_refunded w \<longleftrightarrow> map pr_status (db_payments w) = [Pay_Refunded] \<and> length (db_accounts w) = 4 \<and>
     length (db_entries w) = 15 \<and> map or_status (db_orders w) = [Order_Paid] \<and>
     map rr_amount_minor (db_refunds w) = [4000, 6000]"

lemma demo_w4_end: "demo_refunded demo_w4"
  by code_simp

lemma demo_w4_reachable: "engine_reachable demo_ext demo_db demo_w4"
  unfolding demo_w4_def
  by (rule engine_reachable.step [OF demo_w3_reachable engine_step.create_refund [OF prod.collapse [symmetric]]])

theorem fully_refunded_books_are_empty_witness:
  "length (db_entries demo_w4) = 15 \<and>
   list_all (\<lambda>a. account_sum (ar_id a) (db_entries demo_w4) = 0) (db_accounts demo_w4)"
proof -
  note facts = demo_w4_end [unfolded demo_refunded_def]
  have "pr_status r \<noteq> Pay_Captured" if "r \<in> set (db_payments demo_w4)" for r
  proof -
    have "pr_status r \<in> set (map pr_status (db_payments demo_w4))" using that by simp
    then show ?thesis using facts by simp
  qed
  then show ?thesis
    using fully_refunded_books_are_empty [OF demo_w4_reachable demo_fresh] facts by (simp add: list_all_iff)
qed

section \<open>Orders, payments and refunds\<close>

text \<open>
  C4. An order is paid at most once, and its status says so: in every reachable state an order is
  \<open>paid\<close> exactly when one of its payments was captured, then there is exactly one such payment, it is for
  the amount and the merchant of the order, and the amount paid is the amount of the order; otherwise
  none of its payments was captured and the amount paid is zero.
\<close>
theorem order_paid_by_one_capture:
  assumes "engine_reachable X w0 w" and "fresh_books w0" and "q \<in> set (db_orders w)"
  shows "(\<Sum>r \<leftarrow> db_payments w. if pr_order_id r = or_id q \<and> pr_status r \<in> {Pay_Captured, Pay_Refunded} then 1 else 0)
      = (if or_status q = Order_Paid then 1 else (0::int)) \<and>
    or_amount_paid q = (if or_status q = Order_Paid then or_amount_minor q else 0) \<and>
    (\<forall>r \<in> set (db_payments w). pr_order_id r = or_id q \<longrightarrow>
       pr_amount_minor r = or_amount_minor q \<and> pr_currency r = or_currency q \<and> pr_merchant_id r = or_merchant_id q)"
proof -
  have inv: "engine_inv w" by (rule engine_reachable_inv [OF assms(1,2)])
  then have ok: "order_ok (db_payments w) q" using assms(3) by (simp add: engine_inv_def)
  have "pr_amount_minor r = or_amount_minor q \<and> pr_currency r = or_currency q \<and> pr_merchant_id r = or_merchant_id q"
    if r: "r \<in> set (db_payments w)" "pr_order_id r = or_id q" for r
  proof -
    have "payment_ok (db_orders w) (db_refunds w) r" using inv r(1) by (simp add: engine_inv_def)
    then obtain q' where q': "q' \<in> set (db_orders w)" "same_order r q'" unfolding payment_ok_def by blast
    have "q' = q"
      using same_key [of or_id "db_orders w" q' q] inv q' assms(3) r(2)
      by (simp add: engine_inv_def ids_ok_def same_order_def)
    then show ?thesis using q'(2) by (simp add: same_order_def)
  qed
  then show ?thesis
    using ok by (auto simp: order_ok_def captured_for_def captured_row_def split: if_splits)
qed

theorem order_paid_by_one_capture_witness:
  "\<exists>q \<in> set (db_orders demo_w4). or_status q = Order_Paid \<and> or_amount_paid q = or_amount_minor q"
proof -
  have "map or_status (db_orders demo_w4) = [Order_Paid]" using demo_w4_end by (simp add: demo_refunded_def)
  then obtain q where "q \<in> set (db_orders demo_w4)" "or_status q = Order_Paid" by auto
  then show ?thesis
    using order_paid_by_one_capture [OF demo_w4_reachable demo_fresh, of q] by (intro bexI [of _ q]) simp_all
qed

text \<open>
  C5. No payment is ever refunded beyond its amount: in every reachable state the refunded total of a
  payment is the sum of its refunds, lies between zero and the amount, reaches the amount exactly when
  the payment is \<open>refunded\<close>, and is zero unless the payment was captured; every refund is positive and
  in the currency and of the merchant of its payment.
\<close>
theorem refunds_stay_within_payment:
  assumes "engine_reachable X w0 w" and "fresh_books w0" and "r \<in> set (db_payments w)"
  shows "pr_amount_refunded r = refunds_against (pr_id r) (db_refunds w) \<and>
    0 \<le> pr_amount_refunded r \<and> pr_amount_refunded r \<le> pr_amount_minor r \<and>
    (pr_status r = Pay_Refunded) = (pr_amount_refunded r = pr_amount_minor r) \<and>
    (pr_status r \<in> {Pay_Captured, Pay_Refunded} \<or> pr_amount_refunded r = 0) \<and>
    (\<forall>x \<in> set (db_refunds w). rr_payment_id x = pr_id r \<longrightarrow>
       0 < rr_amount_minor x \<and> rr_currency x = pr_currency r \<and> rr_merchant_id x = pr_merchant_id r)"
proof -
  have inv: "engine_inv w" by (rule engine_reachable_inv [OF assms(1,2)])
  have ok: "payment_ok (db_orders w) (db_refunds w) r" using inv assms(3) by (simp add: engine_inv_def)
  have "0 < pr_amount_minor r"
  proof -
    obtain q where "q \<in> set (db_orders w)" "same_order r q" using ok by (auto simp: payment_ok_def)
    then have "100 \<le> pr_amount_minor r" using inv by (auto simp: engine_inv_def order_ok_def same_order_def)
    then show ?thesis by simp
  qed
  moreover have "0 < rr_amount_minor x \<and> rr_currency x = pr_currency r \<and> rr_merchant_id x = pr_merchant_id r"
    if x: "x \<in> set (db_refunds w)" "rr_payment_id x = pr_id r" for x
  proof -
    have "refund_ok (db_payments w) x" using inv x(1) by (simp add: engine_inv_def)
    then obtain r' where "0 < rr_amount_minor x" "r' \<in> set (db_payments w)" "pr_id r' = pr_id r"
      "pr_merchant_id r' = rr_merchant_id x" "pr_currency r' = rr_currency x"
      using x(2) by (auto simp: refund_ok_def)
    moreover have "r' = r"
      using same_key [of pr_id "db_payments w" r' r] inv calculation assms(3) by (simp add: engine_inv_def ids_ok_def)
    ultimately show ?thesis by simp
  qed
  ultimately show ?thesis
    using ok unfolding payment_ok_def captured_row_def by (cases "pr_status r") auto
qed

theorem refunds_stay_within_payment_witness:
  "\<exists>r \<in> set (db_payments demo_w3). pr_amount_refunded r = 4000 \<and> refunds_against 1001 (db_refunds demo_w3) = 4000"
proof -
  have "(1001, 1000, Pay_Captured, 4000) \<in> set (map (\<lambda>r. (pr_id r, pr_order_id r, pr_status r, pr_amount_refunded r)) (db_payments demo_w3))"
    using demo_w3_facts by simp
  then obtain r where "r \<in> set (db_payments demo_w3)" "pr_id r = 1001" "pr_amount_refunded r = 4000" by auto
  then show ?thesis
    using refunds_stay_within_payment [OF demo_w3_reachable demo_fresh, of r] by (intro bexI [of _ r]) simp_all
qed

section \<open>Calls that fail\<close>

lemma tables_kept_refl: "\<exists>n. w = w\<lparr>uuid_calls := n\<rparr>"
  by (rule exI [of _ "uuid_calls w"]) simp

lemma run_after_endpoints_Inl:
  "tbind (store (list_active_for_merchant m)) (\<lambda>eps. run_tx X E_Store (body eps)) w = (Inl e, w') \<Longrightarrow>
     \<exists>n. w' = w\<lparr>uuid_calls := n\<rparr>"
  unfolding after_endpoints by (rule run_tx_Inl)

text \<open>
  C8. A call that fails changes nothing: whatever error ends the creation of an order, of a payment, a
  capture or a refund, at whatever statement or at the commit, every table is exactly as it was.
\<close>
theorem failed_calls_change_nothing:
  "(order_create X m oin now w = (Inl e, w') \<longrightarrow> (\<exists>n. w' = w\<lparr>uuid_calls := n\<rparr>)) \<and>
   (payment_create X pepper m pin d now w = (Inl e, w') \<longrightarrow> (\<exists>n. w' = w\<lparr>uuid_calls := n\<rparr>)) \<and>
   (payment_capture X m i now w = (Inl e, w') \<longrightarrow> (\<exists>n. w' = w\<lparr>uuid_calls := n\<rparr>)) \<and>
   (refund_create X m rin now w = (Inl e, w') \<longrightarrow> (\<exists>n. w' = w\<lparr>uuid_calls := n\<rparr>))"
proof (intro conjI impI)
  assume "order_create X m oin now w = (Inl e, w')"
  then show "\<exists>n. w' = w\<lparr>uuid_calls := n\<rparr>" by (rule order_create_Inl)
next
  assume "payment_create X pepper m pin d now w = (Inl e, w')"
  then show "\<exists>n. w' = w\<lparr>uuid_calls := n\<rparr>"
    unfolding payment_create_def by (rule run_after_endpoints_Inl)
next
  assume "payment_capture X m i now w = (Inl e, w')"
  then show "\<exists>n. w' = w\<lparr>uuid_calls := n\<rparr>"
    unfolding payment_capture_def by (rule run_after_endpoints_Inl)
next
  assume r: "refund_create X m rin now w = (Inl e, w')"
  show "\<exists>n. w' = w\<lparr>uuid_calls := n\<rparr>"
  proof (cases "case cr_reason rin of None \<Rightarrow> False | Some r \<Rightarrow> length r > max_reason_length")
    case True
    then have "w' = w" using r by (simp add: refund_create_def)
    then show ?thesis using tables_kept_refl [of w] by simp
  next
    case False
    then show ?thesis using r by (auto simp: refund_create_def dest: run_after_endpoints_Inl)
  qed
qed

theorem failed_calls_change_nothing_witness:
  "\<exists>e w'. payment_capture demo_ext 7 99 0 demo_db = (Inl e, w') \<and> (\<exists>n. w' = demo_db\<lparr>uuid_calls := n\<rparr>)"
proof -
  have "case payment_capture demo_ext 7 99 0 demo_db of (r, w') \<Rightarrow> r = Inl (E_Store (S_NotFound ''payment''))"
    by code_simp
  then obtain w' where run: "payment_capture demo_ext 7 99 0 demo_db = (Inl (E_Store (S_NotFound ''payment'')), w')"
    by (cases "payment_capture demo_ext 7 99 0 demo_db") simp
  then have "\<exists>n. w' = demo_db\<lparr>uuid_calls := n\<rparr>"
    using failed_calls_change_nothing [of demo_ext 7 undefined 0 demo_db "E_Store (S_NotFound ''payment'')" w' undefined undefined undefined 99 undefined] by blast
  with run show ?thesis by blast
qed

lemma store_tbind_ok: "m w = (Inr a, w') \<Longrightarrow> tbind (store m) f w = f a w'"
  by (rule tbind_ok) simp

lemma fst_run_tx_Inl: "body w = (Inl e, w') \<Longrightarrow> fst (run_tx X conv body w) = Inl e"
  by (simp add: run_tx_def)

text \<open>
  A merchant cannot tell another merchant's resource from one that does not exist: reading a foreign
  order, payment or refund, capturing or refunding a foreign payment, and paying a foreign order each
  fail with an error that counts as not found, as they do for an identifier that is in no row.
\<close>
theorem foreign_resources_look_absent:
  "(\<forall>r. order_find_by_id X i w = (Inr r, w) \<and> o_merchant_id r \<noteq> m \<longrightarrow>
      order_get X m i w = (Inl (E_NotFound ''order''), w)) \<and>
   (\<forall>p. payment_find_by_id X i w = (Inr p, w) \<and> p_merchant_id p \<noteq> m \<longrightarrow>
      payment_get X m i w = (Inl (E_NotFound ''payment''), w) \<and>
      fst (payment_capture X m i now w) = Inl (E_NotFound ''payment'') \<and>
      fst (refund_create X m \<lparr>cr_payment_id = i, cr_amount_minor = v, cr_reason = None\<rparr> now w)
        = Inl (E_NotFound ''payment'') \<and>
      refund_list X m i w = (Inl (E_NotFound ''payment''), w)) \<and>
   (\<forall>r. refund_find_by_id i w = (Inr r, w) \<and> re_merchant_id r \<noteq> m \<longrightarrow>
      refund_get X m i w = (Inl (E_NotFound ''refund''), w)) \<and>
   (\<forall>r. order_find_by_id X (cp_order_id pin) w = (Inr r, w) \<and> o_merchant_id r \<noteq> m \<longrightarrow>
      fst (payment_create X pepper m pin d now w) = Inl (E_NotFound ''order'')) \<and>
   (i \<notin> pr_id ` set (db_payments w) \<longrightarrow>
      payment_get X m i w = (Inl (E_Store (S_NotFound ''payment'')), w)) \<and>
   (i \<notin> or_id ` set (db_orders w) \<longrightarrow> order_get X m i w = (Inl (E_Store (S_NotFound ''order'')), w)) \<and>
   engine_is_not_found (E_NotFound what) \<and> engine_is_not_found (E_Store (S_NotFound what))"
proof (intro conjI allI impI)
  fix r assume "order_find_by_id X i w = (Inr r, w) \<and> o_merchant_id r \<noteq> m"
  then show "order_get X m i w = (Inl (E_NotFound ''order''), w)"
    by (simp add: order_get_def store_tbind_ok)
next
  fix p assume "payment_find_by_id X i w = (Inr p, w) \<and> p_merchant_id p \<noteq> m"
  then have p: "payment_find_by_id X i w = (Inr p, w)" "p_merchant_id p \<noteq> m" by simp_all
  then have p': "payment_find_by_id_for_update X i w = (Inr p, w)"
    by (simp add: payment_find_by_id_def payment_find_by_id_for_update_def)
  show "payment_get X m i w = (Inl (E_NotFound ''payment''), w)"
    using p by (simp add: payment_get_def store_tbind_ok)
  show "fst (payment_capture X m i now w) = Inl (E_NotFound ''payment'')"
    unfolding payment_capture_def after_endpoints
    by (rule fst_run_tx_Inl [where w' = w]) (use p p' in \<open>simp add: payment_capture_tx_def store_tbind_ok\<close>)
  show "fst (refund_create X m \<lparr>cr_payment_id = i, cr_amount_minor = v, cr_reason = None\<rparr> now w)
      = Inl (E_NotFound ''payment'')"
    unfolding refund_create_def after_endpoints
    by (simp, rule fst_run_tx_Inl [where w' = w]) (use p p' in \<open>simp add: refund_create_tx_def store_tbind_ok\<close>)
  show "refund_list X m i w = (Inl (E_NotFound ''payment''), w)"
    using p by (simp add: refund_list_def store_tbind_ok)
next
  fix r assume "refund_find_by_id i w = (Inr r, w) \<and> re_merchant_id r \<noteq> m"
  then show "refund_get X m i w = (Inl (E_NotFound ''refund''), w)"
    by (simp add: refund_get_def store_tbind_ok)
next
  fix r assume "order_find_by_id X (cp_order_id pin) w = (Inr r, w) \<and> o_merchant_id r \<noteq> m"
  then have "order_find_by_id_for_update X (cp_order_id pin) w = (Inr r, w)" "o_merchant_id r \<noteq> m"
    by (simp_all add: order_find_by_id_def order_find_by_id_for_update_def)
  then show "fst (payment_create X pepper m pin d now w) = Inl (E_NotFound ''order'')"
    unfolding payment_create_def after_endpoints
    by (intro fst_run_tx_Inl [where w' = w]) (simp add: payment_create_tx_def store_tbind_ok)
next
  assume "i \<notin> pr_id ` set (db_payments w)"
  then show "payment_get X m i w = (Inl (E_Store (S_NotFound ''payment'')), w)"
    by (simp add: payment_get_def payment_find_by_id_def payment_rows.fetch_missing store_query tbind_err)
next
  assume "i \<notin> or_id ` set (db_orders w)"
  then show "order_get X m i w = (Inl (E_Store (S_NotFound ''order'')), w)"
    by (simp add: order_get_def order_find_by_id_def order_rows.fetch_missing store_query tbind_err)
qed (simp_all add: engine_is_not_found_def store_is_not_found_def)

theorem foreign_resources_look_absent_witness:
  "order_get demo_ext 8 1000 demo_w1 = (Inl (E_NotFound ''order''), demo_w1) \<and>
   payment_get demo_ext 8 5 demo_db = (Inl (E_Store (S_NotFound ''payment'')), demo_db)"
proof
  have "case order_find_by_id demo_ext 1000 demo_w1 of (r, _) \<Rightarrow> (case r of Inl _ \<Rightarrow> False | Inr q \<Rightarrow> o_merchant_id q = 7)"
    by code_simp
  then obtain q where "order_find_by_id demo_ext 1000 demo_w1 = (Inr q, demo_w1)" "o_merchant_id q \<noteq> 8"
    by (auto simp: order_find_by_id_def query_def split: sum.splits)
  then show "order_get demo_ext 8 1000 demo_w1 = (Inl (E_NotFound ''order''), demo_w1)"
    using foreign_resources_look_absent [of demo_ext 1000 demo_w1 8] by blast
  show "payment_get demo_ext 8 5 demo_db = (Inl (E_Store (S_NotFound ''payment'')), demo_db)"
    using foreign_resources_look_absent [of demo_ext 5 demo_db 8] by (simp add: demo_db_def)
qed

section \<open>What a successful call returns\<close>

lemma is_ok_run:
  assumes "case m of (r, _) \<Rightarrow> is_ok r"
  obtains a w' where "m = (Inr a, w')"
  using assms by (cases m; cases "fst m") auto

lemma update_row_append: "update_row k i f (rs @ [r]) = update_row k i f rs @ [if k r = i then f r else r]"
  by (simp add: update_row_def)

lemma set_order_twice:
  "update_row or_id i (set_order s n) (update_row or_id i (set_order t k) rs) = update_row or_id i (set_order s n) rs"
  by (simp add: update_row_def set_order_def)

text \<open>
  C19. A refund that succeeds is within what was left, on any reachable state: the payment belongs to the
  merchant and was captured, the refund is for the amount asked for, or for all that was left when none
  was asked for, it is positive and at most what was left; the one new refund row is that refund, and the
  payment's total grows by it, with the status \<open>refunded\<close> exactly when nothing is left.
\<close>
theorem refund_takes_what_is_left:
  assumes "engine_reachable X w0 w" and "fresh_books w0" and "refund_create X m inp now w = (Inr rf, w')"
  shows "\<exists>r v s. r \<in> set (db_payments w) \<and> pr_id r = cr_payment_id inp \<and> pr_merchant_id r = m \<and>
    pr_status r = Pay_Captured \<and>
    v = (case cr_amount_minor inp of None \<Rightarrow> pr_amount_minor r - pr_amount_refunded r | Some a \<Rightarrow> a) \<and>
    0 < v \<and> pr_amount_refunded r + v \<le> pr_amount_minor r \<and>
    db_refunds w' = db_refunds w @ [refund_to_row rf] \<and> minor (re_amount rf) = v \<and> re_payment_id rf = pr_id r \<and>
    s = (if pr_amount_refunded r + v = pr_amount_minor r then Pay_Refunded else Pay_Captured) \<and>
    db_payments w' = update_row pr_id (pr_id r)
      (set_payment_status s (pr_captured_at r) (pr_amount_refunded r + v) None None) (db_payments w)"
proof -
  obtain eps where run: "refund_create_tx X m inp eps now w = (Inr rf, w')"
    using refund_create_run [OF assms(3)] by blast
  have inv: "engine_inv w" by (rule engine_reachable_inv [OF assms(1,2)])
  show ?thesis
  proof (rule refund_create_tx_steps [OF run inv])
    fix p :: payment and r :: payment_row and fee :: fee_refund and v w1 w2 w3 j ev
    let ?n = "p_amount_refunded p" and ?a = "minor (p_amount p)"
    let ?s = "if ?n + v \<ge> ?a then Pay_Refunded else Pay_Captured"
    assume find: "payment_find_by_id_for_update X (cr_payment_id inp) w = (Inr p, w)"
      and r: "r \<in> set (db_payments w)" "held_payment p r" "captured_row r" and m: "p_merchant_id p = m"
      and v: "0 < v" "?n + v \<le> ?a" "v = unwrap_or (?a - ?n) (cr_amount_minor inp)"
      and rf: "rf = \<lparr>re_id = now_v7 X (uuid_calls w), re_payment_id = p_id p, re_merchant_id = m,
         re_amount = money_new v (curr (p_amount p)), re_reason = cr_reason inp, re_status = Ref_Processed,
         re_created_at = now, re_processed_at = Some now\<rparr>"
      and steps: "refund_insert X rf (w\<lparr>uuid_calls := Suc (uuid_calls w)\<rparr>) = (Inr (), w1)"
        "post_refund X m (money_new v (curr (p_amount p))) fee (re_id rf) now w1 = (Inr (), w2)"
        "payment_update_status X (p_id p) ?s (p_captured_at p) (?n + v) None None w2 = (Inr (), w3)"
        "emit X eps m ''refund.processed'' j now w3 = (Inr ev, w')"
    note tail = refund_tail [OF steps]
    have ok: "payment_ok (db_orders w) (db_refunds w) r" using inv r(1) by (simp add: engine_inv_def)
    have st: "pr_status r = Pay_Captured"
      using ok r(2,3) v unfolding payment_ok_def captured_row_def held_payment_def by auto
    have id: "pr_id r = cr_payment_id inp" using held_found_payment [OF find] r(2) by (simp add: held_payment_def)
    show ?thesis
      using r(1) st id m v tail r(2) rf
      by (intro exI [of _ r] exI [of _ v] exI [of _ ?s] conjI)
        (auto simp: held_payment_def unwrap_or_def split: option.splits)
  qed
qed

theorem refund_takes_what_is_left_witness:
  "\<exists>rf w' r. refund_create demo_ext 7 demo_refund 0 demo_w2 = (Inr rf, w') \<and>
     r \<in> set (db_payments demo_w2) \<and> pr_status r = Pay_Captured \<and> minor (re_amount rf) = 4000"
proof -
  have "case refund_create demo_ext 7 demo_refund 0 demo_w2 of (r, _) \<Rightarrow> is_ok r"
    by code_simp
  then obtain rf w' where run: "refund_create demo_ext 7 demo_refund 0 demo_w2 = (Inr rf, w')"
    by (rule is_ok_run)
  show ?thesis
    using run refund_takes_what_is_left [OF demo_w2_reachable demo_fresh run] by (auto simp: demo_refund_def)
qed

text \<open>
  A payment that is captured at once leaves the order paid, on any reachable state: the order was the
  merchant's and open, the new payment is for its whole amount and captured now, the order is \<open>paid\<close> with
  that amount, and no other order and no other payment changed.
\<close>
theorem captured_payment_pays_order:
  assumes "engine_reachable X w0 w" and "fresh_books w0"
    and "payment_create X pepper m inp d now w = (Inr p, w')"
    and "dec_outcome d = Out_Capture \<or> dec_outcome d = Out_CaptureThenDispute"
  shows "p_status p = Pay_Captured \<and> p_captured_at p = Some now \<and> p_merchant_id p = m \<and>
    (\<exists>q \<in> set (db_orders w). or_id q = cp_order_id inp \<and> or_merchant_id q = m \<and>
       or_status q \<in> {Order_Created, Order_Attempted} \<and> minor (p_amount p) = or_amount_minor q \<and>
       p_order_id p = or_id q \<and>
       db_orders w' = update_row or_id (or_id q) (set_order Order_Paid (or_amount_minor q)) (db_orders w)) \<and>
    (\<exists>r. db_payments w' = db_payments w @ [r] \<and> pr_id r = p_id p \<and> pr_status r = Pay_Captured \<and>
       pr_captured_at r = Some now \<and> pr_amount_refunded r = 0)"
proof -
  obtain eps where run: "payment_create_tx X pepper m inp d eps now w = (Inr p, w')"
    using assms(3) by (auto simp: payment_create_def after_endpoints run_tx_Inr)
  have inv: "engine_inv w" by (rule engine_reachable_inv [OF assms(1,2)])
  from run inv show ?thesis
  proof (rule payment_create_tx_prefix)
    fix ord :: order and q :: order_row and details p0 w3
    let ?q = "set_order Order_Attempted (or_amount_paid q) q" and ?ord = "ord\<lparr>o_status := Order_Attempted\<rparr>"
    assume q: "q \<in> set (db_orders w)" "held_order ord q" "or_id q = cp_order_id inp" "or_merchant_id q = m"
        "\<not> order_is_terminal (or_status q)"
      and p0: "p0 = new_card_attempt (now_v7 X (uuid_calls w)) (o_id ord) m (o_amount ord) details (cp_notes inp) now"
      and inv3: "engine_inv w3" and new: "p_id p0 \<notin> pr_id ` set (db_payments w)"
      and pay: "db_payments w3 = db_payments w @ [payment_to_row p0]"
      and ords: "db_orders w3 = update_row or_id (or_id q) (set_order Order_Attempted (or_amount_paid q)) (db_orders w)"
      and held: "?q \<in> set (db_orders w3)" "held_order ?ord ?q" "p_order_id p0 = o_id ?ord"
      and rest: "apply_decision X d m p0 ?ord eps now w3 = (Inr p, w')"
    obtain res w4 where st: "settle X p0 ?ord eps now w3 = (Inr res, w4)" and p: "p = fst res"
      and same: "money_tables w' = money_tables w4"
      using rest assms(4)
      by (auto simp: apply_decision_def tbind_Inr split: prod.splits dest!: money_tables_job)
    have "payment_to_row p0 \<in> set (db_payments w3)" by (simp add: pay)
    note step = settle_step [OF st inv3 this held_written held]
    have id: "pr_id (payment_to_row p0) = p_id p0" by (simp add: payment_to_row_def)
    have "db_payments w' = db_payments w @ [set_payment_status Pay_Captured (Some now) 0 None None (payment_to_row p0)]"
      using step money_tables_sel [OF same] new by (simp add: pay id update_row_append update_row_absent)
    moreover have "db_orders w' = update_row or_id (or_id q) (set_order Order_Paid (or_amount_minor q)) (db_orders w)"
      using step money_tables_sel [OF same] q(2) by (simp add: ords p0 held_order_def set_order_twice payment_to_row_def)
    moreover have "p = p0\<lparr>p_status := Pay_Captured, p_captured_at := Some now\<rparr>" using step p by simp
    moreover have "or_status q \<in> {Order_Created, Order_Attempted}" using q(5) by (cases "or_status q") auto
    ultimately show ?thesis
      using q by (auto simp: p0 held_order_def payment_to_row_def set_payment_status_def)
  qed
qed

theorem captured_payment_pays_order_witness:
  "\<exists>p w'. payment_create demo_ext ''pepper'' 7 demo_card demo_decision 0 demo_w1 = (Inr p, w') \<and>
     p_status p = Pay_Captured \<and> length (db_payments w') = Suc (length (db_payments demo_w1))"
proof -
  have "case payment_create demo_ext ''pepper'' 7 demo_card demo_decision 0 demo_w1 of (r, _) \<Rightarrow> is_ok r"
    by code_simp
  then obtain p w' where run: "payment_create demo_ext ''pepper'' 7 demo_card demo_decision 0 demo_w1 = (Inr p, w')"
    by (rule is_ok_run)
  have "dec_outcome demo_decision = Out_Capture" by (simp add: demo_decision_def)
  then show ?thesis
    using run captured_payment_pays_order [OF demo_w1_reachable demo_fresh run] by (intro exI conjI) auto
qed

section \<open>Paid orders\<close>

text \<open>
  C18. A paid order takes no more money, in any reachable state and whoever asks: creating another payment
  for it fails whatever the card and the decision, and so does capturing any payment of it, among them
  the ones that were authorized before the order was paid.
\<close>
theorem paid_order_takes_no_more_money:
  assumes "engine_reachable X w0 w" and "fresh_books w0" and "q \<in> set (db_orders w)" and "or_status q = Order_Paid"
    and "cp_order_id inp = or_id q" and "r \<in> set (db_payments w)" and "pr_order_id r = or_id q"
  shows "(\<exists>e. fst (payment_create X pepper m inp d now w) = Inl e) \<and>
    (\<exists>e. fst (payment_capture X m (pr_id r) now w) = Inl e)"
proof
  have inv: "engine_inv w" by (rule engine_reachable_inv [OF assms(1,2)])
  have same_q: "q' = q" if "q' \<in> set (db_orders w)" "or_id q' = or_id q" for q'
    using same_key [of or_id "db_orders w" q' q] inv that assms(3) by (simp add: engine_inv_def ids_ok_def)
  have same_r: "r' = r" if "r' \<in> set (db_payments w)" "pr_id r' = pr_id r" for r'
    using same_key [of pr_id "db_payments w" r' r] inv that assms(6) by (simp add: engine_inv_def ids_ok_def)
  show "\<exists>e. fst (payment_create X pepper m inp d now w) = Inl e"
  proof (cases "fst (payment_create X pepper m inp d now w)")
    case (Inr p)
    then obtain w' eps where "payment_create_tx X pepper m inp d eps now w = (Inr p, w')"
      by (cases "payment_create X pepper m inp d now w")
        (auto simp: payment_create_def after_endpoints run_tx_Inr)
    then have False using inv
    proof (rule payment_create_tx_prefix)
      fix q'
      assume q': "q' \<in> set (db_orders w)" "or_id q' = cp_order_id inp" "\<not> order_is_terminal (or_status q')"
      have "q' = q" by (rule same_q) (use q' assms(5) in simp_all)
      then show False using q'(3) assms(4) by simp
    qed
    then show ?thesis ..
  qed simp
  show "\<exists>e. fst (payment_capture X m (pr_id r) now w) = Inl e"
  proof (cases "fst (payment_capture X m (pr_id r) now w)")
    case (Inr p)
    then obtain w' eps where "payment_capture_tx X m (pr_id r) eps now w = (Inr p, w')"
      by (cases "payment_capture X m (pr_id r) now w")
        (auto simp: payment_capture_def after_endpoints run_tx_Inr)
    then have False
    proof (rule payment_capture_tx_steps)
      fix p0 ord res
      assume find: "payment_find_by_id_for_update X (pr_id r) w = (Inr p0, w)"
        and ford: "order_find_by_id_for_update X (p_order_id p0) w = (Inr ord, w)"
        and st: "settle X p0 ord eps now w = (Inr res, w')"
      obtain r' where r': "r' \<in> set (db_payments w)" "held_payment p0 r'" "p_id p0 = pr_id r"
        using held_found_payment [OF find] by blast
      obtain q' where q': "q' \<in> set (db_orders w)" "held_order ord q'" "o_id ord = p_order_id p0"
        using held_found_order [OF ford] by blast
      have "r' = r" using same_r r' by (simp add: held_payment_def)
      then have "q' = q" using same_q q' r'(2) assms(7) by (simp add: held_payment_def held_order_def)
      then show False
        using settle_step [OF st inv r'(1,2) q'(1,2)] q'(3) assms(4) by simp
    qed
    then show ?thesis ..
  qed simp
qed

theorem paid_order_takes_no_more_money_witness:
  "(\<exists>e. fst (payment_create demo_ext ''pepper'' 7 demo_card demo_decision 0 demo_w3) = Inl e) \<and>
   (\<exists>e. fst (payment_capture demo_ext 7 1001 0 demo_w3) = Inl e)"
proof -
  have "(1000, Order_Paid) \<in> set (map (\<lambda>q. (or_id q, or_status q)) (db_orders demo_w3))"
    using demo_w3_facts by simp
  then obtain q where q: "q \<in> set (db_orders demo_w3)" "or_id q = 1000" "or_status q = Order_Paid" by auto
  have "(1001, 1000, Pay_Captured, 4000) \<in>
      set (map (\<lambda>r. (pr_id r, pr_order_id r, pr_status r, pr_amount_refunded r)) (db_payments demo_w3))"
    using demo_w3_facts by simp
  then obtain r where r: "r \<in> set (db_payments demo_w3)" "pr_id r = 1001" "pr_order_id r = 1000" by auto
  have "cp_order_id demo_card = or_id q" using q(2) by (simp add: demo_card_def)
  from paid_order_takes_no_more_money [OF demo_w3_reachable demo_fresh q(1,3) this r(1)] q(2) r(2,3)
  show ?thesis by simp
qed

end
