(* ===== verification/Queue_Worker.thy ===== *)
theory Queue_Worker
  imports Engine_Event
begin

text \<open>
  \<open>crates/queue\<close>: the retry ladder (\<open>scheduler.rs\<close>), the outcome of a job (\<open>job.rs\<close>) and the worker
  (\<open>worker.rs\<close>), which reaps abandoned leases, claims a batch in a short transaction and executes the
  claimed jobs one after the other. A handler is a function of what it sees outside the database
  (\<open>'env\<close>: the clock, the answer of an endpoint), the payload and the database; it returns its result
  and the database it leaves, with \<^const>\<open>None\<close> for a panic, which \<open>execute\<close> does not catch.
\<close>

section \<open>Scheduler\<close>

definition ladder_secs :: "int list" where
  "ladder_secs = [60, 300, 1800, 7200, 21600, 86400]"

definition next_retry_at :: "int \<Rightarrow> instant \<Rightarrow> instant option" where
  "next_retry_at attempts now =
     (if attempts < 1 then Some now
      else let idx = nat (attempts - 1) in
        if idx < length ladder_secs then Some (now + seconds (ladder_secs ! idx)) else None)"

definition ladder_description :: "string list" where
  "ladder_description = [''1m'', ''5m'', ''30m'', ''2h'', ''6h'', ''24h'', ''dead'']"

section \<open>Jobs\<close>

datatype job_error = Retryable string | Permanent string

type_synonym 'env handler = "'env \<Rightarrow> json \<Rightarrow> db \<Rightarrow> (job_error + unit) option \<times> db"

definition expire_order :: string where "expire_order = ''expire_order''"
definition release_settlement :: string where "release_settlement = ''release_settlement''"
definition purge_expired_data :: string where "purge_expired_data = ''purge_expired_data''"

section \<open>Worker\<close>

record worker_config =
  worker_id :: string
  batch_size :: int
  idle_sleep_ms :: nat
  lease_timeout :: int

definition worker_config_default :: "string \<Rightarrow> worker_config" where
  "worker_config_default uuid_text =
     \<lparr>worker_id = ''worker-'' @ uuid_text, batch_size = 10, idle_sleep_ms = 500, lease_timeout = seconds 300\<rparr>"

text \<open>\<open>Worker::register\<close> on the map from kinds to handlers.\<close>

definition register :: "string \<Rightarrow> 'env handler \<Rightarrow> (string \<Rightarrow> 'env handler option) \<Rightarrow> string \<Rightarrow> 'env handler option" where
  "register kind h handlers = handlers(kind \<mapsto> h)"

text \<open>\<open>Worker::execute\<close>: whether it returned (a panic unwinds through it), and the database.\<close>

definition execute :: "(string \<Rightarrow> 'env handler option) \<Rightarrow> 'env \<Rightarrow> instant \<Rightarrow> job \<Rightarrow> db \<Rightarrow> bool \<times> db" where
  "execute handlers env now j w =
     (case handlers (j_kind j) of
        None \<Rightarrow> (True, snd (fail_and_reschedule (j_id j) ''no handler registered'' None now w))
      | Some handle \<Rightarrow>
          (case handle env (j_payload j) w of
             (None, w') \<Rightarrow> (False, w')
           | (Some (Inr _), w') \<Rightarrow> (True, snd (job_complete (j_id j) now w'))
           | (Some (Inl (Permanent msg)), w') \<Rightarrow>
               (True, snd (fail_and_reschedule (j_id j) msg None now w'))
           | (Some (Inl (Retryable msg)), w') \<Rightarrow>
               (True, snd (fail_and_reschedule (j_id j) msg (next_retry_at (j_attempts j) now) now w'))))"

text \<open>
  What one tick sees from outside: the clock when it starts, the rows another claim holds locked at
  that moment, and for each job it executes the clock and the handler's surroundings.
\<close>

record 'env tick_env =
  tick_now :: instant
  tick_locked :: "uuid set"
  exec_envs :: "nat \<Rightarrow> instant \<times> 'env"

fun execute_all ::
  "(string \<Rightarrow> 'env handler option) \<Rightarrow> (nat \<Rightarrow> instant \<times> 'env) \<Rightarrow> nat \<Rightarrow> job list \<Rightarrow> db \<Rightarrow> bool \<times> db" where
  "execute_all handlers envs n [] w = (True, w)"
| "execute_all handlers envs n (j # js) w =
     (case execute handlers (snd (envs n)) (fst (envs n)) j w of
        (True, w') \<Rightarrow> execute_all handlers envs (Suc n) js w'
      | (False, w') \<Rightarrow> (False, w'))"

definition worker_tick ::
  "ext \<Rightarrow> worker_config \<Rightarrow> (string \<Rightarrow> 'env handler option) \<Rightarrow> 'env tick_env \<Rightarrow> db \<Rightarrow> bool \<times> db" where
  "worker_tick X c handlers e w =
     (let now = tick_now e; stale_before = now - lease_timeout c;
          w1 = snd (reap_stale_leases stale_before now w) in
      case run_tx X (\<lambda>err. err) (claim_batch X (tick_locked e) (worker_id c) (batch_size c) now) w1 of
        (Inl _, w2) \<Rightarrow> (True, w2)
      | (Inr claimed, w2) \<Rightarrow> execute_all handlers (exec_envs e) 0 claimed w2)"

text \<open>\<open>Worker::run\<close>: tick after tick until the shutdown; a panic ends the worker's task.\<close>

fun worker_run ::
  "ext \<Rightarrow> worker_config \<Rightarrow> (string \<Rightarrow> 'env handler option) \<Rightarrow> 'env tick_env list \<Rightarrow> db \<Rightarrow> bool \<times> db" where
  "worker_run X c handlers [] w = (True, w)"
| "worker_run X c handlers (e # es) w =
     (case worker_tick X c handlers e w of
        (True, w') \<Rightarrow> worker_run X c handlers es w'
      | (False, w') \<Rightarrow> (False, w'))"

section \<open>The ladder\<close>

lemma next_retry_at_None: "next_retry_at n now = None \<longleftrightarrow> 7 \<le> n"
  by (auto simp: next_retry_at_def ladder_secs_def Let_def)

lemma ladder_positive: "i < length ladder_secs \<Longrightarrow> 60 \<le> ladder_secs ! i"
  by (simp add: ladder_secs_def less_Suc_eq_0_disj nth_Cons' numeral_eq_Suc) auto

lemma next_retry_at_later: "1 \<le> n \<Longrightarrow> next_retry_at n now = Some t \<Longrightarrow> now + seconds 60 \<le> t"
  using ladder_positive [of "nat (n - 1)"]
  by (auto simp: next_retry_at_def Let_def seconds_def split: if_splits)

section \<open>What an execution does to the queue\<close>

text \<open>The row of a job after an execution with a result, for the attempt the job was claimed as.\<close>

definition finish_row :: "instant \<Rightarrow> int \<Rightarrow> job_error + unit \<Rightarrow> job_row \<Rightarrow> job_row" where
  "finish_row now n res r =
     (case res of
        Inr _ \<Rightarrow> r\<lparr>jr_state := Job_Completed, jr_locked_at := None, jr_locked_by := None, jr_updated_at := now\<rparr>
      | Inl e \<Rightarrow>
          (let (msg, retry) = (case e of Retryable m \<Rightarrow> (m, next_retry_at n now) | Permanent m \<Rightarrow> (m, None)) in
           case retry of
             Some t \<Rightarrow> r\<lparr>jr_state := Job_Pending, jr_run_at := t, jr_last_error := Some msg,
                        jr_locked_at := None, jr_locked_by := None, jr_updated_at := now\<rparr>
           | None \<Rightarrow> r\<lparr>jr_state := Job_Dead, jr_last_error := Some msg,
                       jr_locked_at := None, jr_locked_by := None, jr_updated_at := now\<rparr>))"

definition is_terminal_job :: "job_row \<Rightarrow> bool" where
  "is_terminal_job r \<longleftrightarrow> jr_state r = Job_Completed \<or> jr_state r = Job_Dead"

text \<open>What one execution leaves of its row: finished, dead, or pending for a later time with a lower attempt.\<close>

definition settled_row :: "job_row \<Rightarrow> bool" where
  "settled_row r \<longleftrightarrow> jr_locked_at r = None \<and> jr_locked_by r = None \<and>
     (case jr_state r of
        Job_Completed \<Rightarrow> True
      | Job_Dead \<Rightarrow> jr_last_error r \<noteq> None
      | Job_Pending \<Rightarrow> jr_last_error r \<noteq> None \<and> jr_attempts r < max_attempts \<and> jr_updated_at r \<le> jr_run_at r
      | _ \<Rightarrow> False)"

lemma finish_row_keeps [simp]:
  "jr_id (finish_row now n res r) = jr_id r" "jr_kind (finish_row now n res r) = jr_kind r"
  "jr_payload (finish_row now n res r) = jr_payload r" "jr_attempts (finish_row now n res r) = jr_attempts r"
  "jr_max_attempts (finish_row now n res r) = jr_max_attempts r"
  by (auto simp: finish_row_def Let_def split: sum.split job_error.split option.split)

lemma next_retry_at_ge: "next_retry_at n now = Some t \<Longrightarrow> now \<le> t"
  using next_retry_at_later [of n now t] by (cases "1 \<le> n") (auto simp: seconds_def next_retry_at_def)

lemma finish_row_settled: "settled_row (finish_row now (jr_attempts r) res r)"
  using next_retry_at_None [of "jr_attempts r" now] next_retry_at_ge [of "jr_attempts r" now]
  by (auto simp: finish_row_def settled_row_def max_attempts_def Let_def
      split: sum.split job_error.split option.split)

lemma finish_row_retry_forever:
  "jr_state (finish_row now n (Inl (Retryable m)) r) = (if n < max_attempts then Job_Pending else Job_Dead)"
  using next_retry_at_None [of n now]
  by (auto simp: finish_row_def max_attempts_def Let_def split: option.split)

lemma fail_and_reschedule_jobs:
  "snd (fail_and_reschedule i m None now w) = w\<lparr>db_jobs := update_row jr_id i (finish_row now n (Inl (Permanent m))) (db_jobs w)\<rparr>"
  "snd (fail_and_reschedule i m (next_retry_at n now) now w)
     = w\<lparr>db_jobs := update_row jr_id i (finish_row now n (Inl (Retryable m))) (db_jobs w)\<rparr>"
  by (simp_all add: fail_and_reschedule_def modify_def finish_row_def [abs_def] Let_def)

lemma job_complete_jobs:
  "snd (job_complete i now w) = w\<lparr>db_jobs := update_row jr_id i (finish_row now n (Inr ())) (db_jobs w)\<rparr>"
  by (simp add: job_complete_def modify_def finish_row_def [abs_def])

text \<open>
  The contract between the worker and the handlers registered with it: a handler leaves the table of
  jobs alone, which is the worker's.
\<close>

locale job_handlers =
  fixes handlers :: "string \<Rightarrow> 'env handler option"
  assumes leaves_jobs: "handlers kind = Some h \<Longrightarrow> h env payload w = (r, w') \<Longrightarrow> db_jobs w' = db_jobs w"
begin

lemma execute_returned:
  assumes "execute handlers env now j w = (True, w')"
  shows "\<exists>res. db_jobs w' = update_row jr_id (j_id j) (finish_row now (j_attempts j) res) (db_jobs w)"
proof (cases "handlers (j_kind j)")
  case None
  then have "w' = snd (fail_and_reschedule (j_id j) ''no handler registered'' None now w)"
    using assms by (simp add: execute_def)
  then show ?thesis by (auto simp: fail_and_reschedule_jobs [where n = "j_attempts j"])
next
  case (Some h)
  obtain r v where run: "h env (j_payload j) w = (r, v)" by fastforce
  have jobs: "db_jobs v = db_jobs w" by (rule leaves_jobs [OF Some run])
  obtain res where r: "r = Some res" using assms Some run by (cases r) (simp_all add: execute_def)
  have "db_jobs w' = update_row jr_id (j_id j) (finish_row now (j_attempts j) res) (db_jobs v)"
    using assms Some run r
    by (cases res; cases "projl res")
      (auto simp: execute_def fail_and_reschedule_jobs [where n = "j_attempts j"] job_complete_jobs [where n = "j_attempts j"])
  then show ?thesis unfolding jobs by blast
qed

lemma execute_panicked: "execute handlers env now j w = (False, w') \<Longrightarrow> db_jobs w' = db_jobs w"
  using leaves_jobs by (auto simp: execute_def split: option.splits prod.splits sum.splits job_error.splits)

end

section \<open>Workers that share the queue\<close>

text \<open>
  Several workers on one database, with the jobs each has claimed and not yet executed. The atomic steps
  are the ones a tick is made of, the death of a worker (a panic or a crash), and any other transaction,
  which at most appends new jobs. A lease is reaped only when its worker no longer holds the job, that
  is, when every live worker finishes its batch within the lease.
\<close>

record queue =
  q_db :: db
  q_flight :: "string \<Rightarrow> job list"

definition new_job :: "job_row \<Rightarrow> bool" where
  "new_job r \<longleftrightarrow> jr_state r = Job_Pending \<and> jr_attempts r = 0 \<and> 0 \<le> jr_max_attempts r"

definition abandoned :: "(string \<Rightarrow> job list) \<Rightarrow> job_row \<Rightarrow> bool" where
  "abandoned flight r \<longleftrightarrow> (\<forall>wk. jr_id r \<notin> j_id ` set (flight wk))"

inductive queue_step :: "ext \<Rightarrow> (string \<Rightarrow> 'env handler option) \<Rightarrow> queue \<Rightarrow> queue \<Rightarrow> bool"
  for X :: ext and handlers :: "string \<Rightarrow> 'env handler option" where
  Reap: "reap_stale_leases before now w = (Inr n, w') \<Longrightarrow>
      (\<And>r. r \<in> set (db_jobs w) \<Longrightarrow> is_stale before r \<Longrightarrow> abandoned flight r) \<Longrightarrow>
      queue_step X handlers \<lparr>q_db = w, q_flight = flight\<rparr> \<lparr>q_db = w', q_flight = flight\<rparr>"
| Claim: "flight wk = [] \<Longrightarrow> run_tx X (\<lambda>e. e) (claim_batch X locked wk batch now) w = (Inr js, w') \<Longrightarrow>
      queue_step X handlers \<lparr>q_db = w, q_flight = flight\<rparr> \<lparr>q_db = w', q_flight = flight(wk := js)\<rparr>"
| Execute: "flight wk = j # js \<Longrightarrow> execute handlers env now j w = (True, w') \<Longrightarrow>
      queue_step X handlers \<lparr>q_db = w, q_flight = flight\<rparr> \<lparr>q_db = w', q_flight = flight(wk := js)\<rparr>"
| Panic: "flight wk = j # js \<Longrightarrow> execute handlers env now j w = (False, w') \<Longrightarrow>
      queue_step X handlers \<lparr>q_db = w, q_flight = flight\<rparr> \<lparr>q_db = w', q_flight = flight(wk := [])\<rparr>"
| Crash: "queue_step X handlers \<lparr>q_db = w, q_flight = flight\<rparr> \<lparr>q_db = w, q_flight = flight(wk := [])\<rparr>"
| Other: "db_jobs w' = db_jobs w @ new \<Longrightarrow> list_all new_job new \<Longrightarrow> distinct (map jr_id (db_jobs w')) \<Longrightarrow>
      queue_step X handlers \<lparr>q_db = w, q_flight = flight\<rparr> \<lparr>q_db = w', q_flight = flight\<rparr>"

inductive queue_reachable :: "ext \<Rightarrow> (string \<Rightarrow> 'env handler option) \<Rightarrow> queue \<Rightarrow> bool"
  for X :: ext and handlers :: "string \<Rightarrow> 'env handler option" where
  Start: "db_jobs w = [] \<Longrightarrow> queue_reachable X handlers \<lparr>q_db = w, q_flight = (\<lambda>_. [])\<rparr>"
| Step: "queue_reachable X handlers s \<Longrightarrow> queue_step X handlers s s' \<Longrightarrow> queue_reachable X handlers s'"

definition row_bounds :: "job_row \<Rightarrow> bool" where
  "row_bounds r \<longleftrightarrow> 0 \<le> jr_attempts r \<and> jr_attempts r \<le> jr_max_attempts r"

definition held_by :: "string \<Rightarrow> job \<Rightarrow> job_row \<Rightarrow> bool" where
  "held_by wk j r \<longleftrightarrow> jr_id r = j_id j \<and> jr_state r = Job_Running \<and> jr_locked_by r = Some wk \<and>
     jr_attempts r = j_attempts j"

definition queue_inv :: "queue \<Rightarrow> bool" where
  "queue_inv s \<longleftrightarrow> distinct (map jr_id (db_jobs (q_db s))) \<and> list_all row_bounds (db_jobs (q_db s)) \<and>
     (\<forall>wk. distinct (map j_id (q_flight s wk)) \<and>
        (\<forall>j \<in> set (q_flight s wk). \<exists>r \<in> set (db_jobs (q_db s)). held_by wk j r))"

lemma queue_invI:
  assumes "distinct (map jr_id (db_jobs w))" and "\<And>r. r \<in> set (db_jobs w) \<Longrightarrow> row_bounds r"
    and "\<And>wk. distinct (map j_id (flight wk))"
    and "\<And>wk j. j \<in> set (flight wk) \<Longrightarrow> \<exists>r \<in> set (db_jobs w). held_by wk j r"
  shows "queue_inv \<lparr>q_db = w, q_flight = flight\<rparr>"
  using assms by (simp add: queue_inv_def list_all_iff)

lemma queue_invD:
  assumes "queue_inv \<lparr>q_db = w, q_flight = flight\<rparr>"
  shows "distinct (map jr_id (db_jobs w))" "r \<in> set (db_jobs w) \<Longrightarrow> row_bounds r"
    "distinct (map j_id (flight wk))" "j \<in> set (flight wk) \<Longrightarrow> \<exists>r \<in> set (db_jobs w). held_by wk j r"
  using assms by (simp_all add: queue_inv_def list_all_iff)

text \<open>Two workers never hold the same job.\<close>

lemma queue_inv_exclusive:
  assumes "queue_inv \<lparr>q_db = w, q_flight = flight\<rparr>" and "j \<in> set (flight wk)" and "j' \<in> set (flight wk')"
    and "j_id j = j_id j'"
  shows "wk = wk'"
proof -
  obtain r r' where "r \<in> set (db_jobs w)" "r' \<in> set (db_jobs w)" and h: "held_by wk j r" "held_by wk' j' r'"
    using queue_invD(4) [OF assms(1)] assms(2,3) by meson
  moreover have "jr_id r = jr_id r'" using h assms(4) by (simp add: held_by_def)
  ultimately have "r = r'" using queue_invD(1) [OF assms(1)] by (metis find_key_Some option.inject)
  with h show ?thesis by (simp add: held_by_def)
qed

lemma reap_jobs:
  "reap_stale_leases before now w = (Inr n, w') \<Longrightarrow>
     db_jobs w' = map (\<lambda>r. if is_stale before r
       then r\<lparr>jr_state := Job_Pending, jr_locked_at := None, jr_locked_by := None, jr_updated_at := now\<rparr>
       else r) (db_jobs w)"
  by (auto simp: reap_stale_leases_def)

lemma claim_tx:
  assumes "run_tx X conv (claim_batch X locked wk batch now) w = (Inr js, w')"
  defines "chosen \<equiv> set (map jr_id (due_jobs locked batch now (db_jobs w)))"
  shows "db_jobs w' = map (\<lambda>r. if jr_id r \<in> chosen then claim_row wk now r else r) (db_jobs w)"
    and "js = map job_of_row (filter (\<lambda>r. jr_id r \<in> chosen) (db_jobs w'))"
    and "r \<in> set (db_jobs w) \<Longrightarrow> jr_id r \<in> chosen \<Longrightarrow> row_bounds (claim_row wk now r)"
proof -
  let ?rows = "map (\<lambda>r. if jr_id r \<in> chosen then claim_row wk now r else r) (db_jobs w)"
  have "claim_batch X locked wk batch now w = (Inr js, w')" using assms(1) by (simp add: run_tx_Inr)
  then have w': "w' = w\<lparr>db_jobs := ?rows\<rparr>" and js: "js = map job_of_row (filter (\<lambda>r. jr_id r \<in> chosen) ?rows)"
    and ok: "list_all snd (concat (map job_checks (filter (\<lambda>r. jr_id r \<in> chosen) ?rows)))"
    unfolding chosen_def by (auto simp: claim_batch_def Let_def split: sum.splits if_splits)
  show "db_jobs w' = ?rows" by (simp add: w')
  show "js = map job_of_row (filter (\<lambda>r. jr_id r \<in> chosen) (db_jobs w'))" unfolding js w' by simp
  assume "r \<in> set (db_jobs w)" "jr_id r \<in> chosen"
  then have "claim_row wk now r \<in> set (filter (\<lambda>r. jr_id r \<in> chosen) ?rows)"
    by (force simp: claim_row_def)
  then show "row_bounds (claim_row wk now r)"
    using ok by (force simp: list_all_iff job_checks_def row_bounds_def)
qed

lemma claim_batch_frame:
  "claim_batch X locked wk batch now w = (r, w') \<Longrightarrow>
     w' = w\<lparr>db_jobs := db_jobs w'\<rparr> \<and> (\<forall>e. r = Inl e \<longrightarrow> w' = w)"
  by (auto simp: claim_batch_def Let_def split: sum.splits if_splits)

lemma claim_failed:
  assumes "run_tx X conv (claim_batch X locked wk batch now) w = (Inl err, w')"
  shows "w' = w"
proof -
  obtain r v where c: "claim_batch X locked wk batch now w = (r, v)" by fastforce
  note frame = claim_batch_frame [OF c]
  have "db_entries v = db_entries w" "restore_tables w v = w"
    by (subst conjunct1 [OF frame], simp add: restore_tables_def)+
  then show ?thesis
    using assms by (cases r) (simp_all add: run_tx_def c ledger_trigger_def)
qed

lemma same_row: "distinct (map k rs) \<Longrightarrow> r \<in> set rs \<Longrightarrow> r' \<in> set rs \<Longrightarrow> k r = k r' \<Longrightarrow> r = r'"
  by (metis find_key_Some option.inject)

lemma chosen_due:
  assumes "distinct (map jr_id rows)" and "r \<in> set rows"
    and "jr_id r \<in> set (map jr_id (due_jobs locked batch now rows))"
  shows "r \<in> set (due_jobs locked batch now rows)"
proof -
  obtain r' where r': "r' \<in> set (due_jobs locked batch now rows)" "jr_id r' = jr_id r" using assms(3) by auto
  moreover from this have "r' \<in> set rows" by (simp add: set_due_jobs)
  ultimately have "r' = r" using same_row [OF assms(1) _ assms(2)] by blast
  with r' show ?thesis by simp
qed

lemma chosen_pending:
  assumes "distinct (map jr_id rows)" and "r \<in> set rows"
    and "jr_id r \<in> set (map jr_id (due_jobs locked batch now rows))"
  shows "jr_state r = Job_Pending \<and> jr_run_at r \<le> now \<and> jr_id r \<notin> locked"
  using set_due_jobs [OF chosen_due [OF assms]] by simp

text \<open>A row a step leaves alone is held by whom it was; every step changes rows in place and keeps their ids.\<close>

lemma held_map:
  "r \<in> set rs \<Longrightarrow> held_by wk j r \<Longrightarrow> f r = r \<Longrightarrow> \<exists>r \<in> set (map f rs). held_by wk j r"
  by force

lemma held_not_terminal: "held_by wk j r \<Longrightarrow> \<not> is_terminal_job r"
  by (simp add: held_by_def is_terminal_job_def)

lemma inv_reap:
  assumes inv: "queue_inv \<lparr>q_db = w, q_flight = flight\<rparr>" and run: "reap_stale_leases before now w = (Inr n, w')"
    and "\<And>r. r \<in> set (db_jobs w) \<Longrightarrow> is_stale before r \<Longrightarrow> abandoned flight r"
  shows "queue_inv \<lparr>q_db = w', q_flight = flight\<rparr>"
proof (rule queue_invI)
  note jobs = reap_jobs [OF run] and old = queue_invD [OF inv]
  show "distinct (map jr_id (db_jobs w'))" using old(1) by (simp add: jobs comp_def if_distrib cong: if_cong)
  show "\<And>r. r \<in> set (db_jobs w') \<Longrightarrow> row_bounds r" using old(2) by (auto simp: jobs row_bounds_def)
  show "distinct (map j_id (flight wk))" for wk by (rule old(3))
  fix wk j assume j: "j \<in> set (flight wk)"
  then obtain r where r: "r \<in> set (db_jobs w)" "held_by wk j r" using old(4) by blast
  have "\<not> is_stale before r"
    using assms(3) [OF r(1)] r(2) j by (auto simp: abandoned_def held_by_def)
  then show "\<exists>r \<in> set (db_jobs w'). held_by wk j r" unfolding jobs using r by (intro held_map) auto
qed

lemma inv_claim:
  assumes inv: "queue_inv \<lparr>q_db = w, q_flight = flight\<rparr>" and idle: "flight wk = []"
    and run: "run_tx X conv (claim_batch X locked wk batch now) w = (Inr js, w')"
  shows "queue_inv \<lparr>q_db = w', q_flight = flight(wk := js)\<rparr>"
proof (rule queue_invI)
  note claim = claim_tx [OF run] and old = queue_invD [OF inv]
  let ?chosen = "set (map jr_id (due_jobs locked batch now (db_jobs w)))"
  have ids: "map jr_id (db_jobs w') = map jr_id (db_jobs w)" by (simp add: claim(1) claim_row_def comp_def if_distrib cong: if_cong)
  show d: "distinct (map jr_id (db_jobs w'))" using old(1) by (simp only: ids)
  show "\<And>r. r \<in> set (db_jobs w') \<Longrightarrow> row_bounds r" using old(2) claim(3) by (auto simp: claim(1) split: if_splits)
  have js: "map j_id js = filter (\<lambda>i. i \<in> ?chosen) (map jr_id (db_jobs w'))"
    by (simp add: claim(2) filter_map comp_def job_of_row_def)
  show "distinct (map j_id ((flight(wk := js)) k))" for k
  proof (cases "k = wk")
    case True
    have "distinct (map j_id js)" unfolding js using d by (rule distinct_filter)
    with True show ?thesis by simp
  next
    case False
    then show ?thesis using old(3) [of k] by simp
  qed
  fix k j assume j: "j \<in> set ((flight(wk := js)) k)"
  show "\<exists>r \<in> set (db_jobs w'). held_by k j r"
  proof (cases "k = wk")
    case True
    with j obtain r where r: "r \<in> set (db_jobs w)" "jr_id r \<in> ?chosen" "j = job_of_row (claim_row wk now r)"
      by (auto simp: claim(1,2) claim_row_def split: if_splits)
    then have "claim_row wk now r \<in> set (db_jobs w')" unfolding claim(1) by force
    moreover have "held_by k j (claim_row wk now r)" using True r(3) by (simp add: held_by_def job_of_row_def claim_row_def)
    ultimately show ?thesis by blast
  next
    case False
    then have "j \<in> set (flight k)" using j by simp
    then obtain r where r: "r \<in> set (db_jobs w)" "held_by k j r" using old(4) by blast
    have "jr_id r \<notin> ?chosen"
    proof
      assume "jr_id r \<in> ?chosen"
      from chosen_pending [OF old(1) r(1) this] show False using r(2) by (simp add: held_by_def)
    qed
    then show ?thesis unfolding claim(1) by (intro held_map [OF r]) (rule if_not_P)
  qed
qed

lemma inv_drop:
  assumes inv: "queue_inv \<lparr>q_db = w, q_flight = flight\<rparr>" and jobs: "db_jobs w' = db_jobs w"
  shows "queue_inv \<lparr>q_db = w', q_flight = flight(wk := [])\<rparr>"
  by (rule queue_invI) (use queue_invD [OF inv] in \<open>auto simp: jobs split: if_splits\<close>)

lemma inv_append:
  assumes inv: "queue_inv \<lparr>q_db = w, q_flight = flight\<rparr>" and jobs: "db_jobs w' = db_jobs w @ new"
    and "list_all new_job new" and "distinct (map jr_id (db_jobs w'))"
  shows "queue_inv \<lparr>q_db = w', q_flight = flight\<rparr>"
proof (rule queue_invI)
  show "distinct (map jr_id (db_jobs w'))" by fact
  show "\<And>r. r \<in> set (db_jobs w') \<Longrightarrow> row_bounds r"
    using queue_invD(2) [OF inv] assms(3) by (auto simp: jobs list_all_iff new_job_def row_bounds_def)
  show "distinct (map j_id (flight wk))" for wk by (rule queue_invD(3) [OF inv])
  show "\<And>wk j. j \<in> set (flight wk) \<Longrightarrow> \<exists>r \<in> set (db_jobs w'). held_by wk j r"
    using queue_invD(4) [OF inv] unfolding jobs by (metis UnCI set_append)
qed

lemma inv_finish:
  assumes inv: "queue_inv \<lparr>q_db = w, q_flight = flight\<rparr>" and hd: "flight wk = j # js"
    and jobs: "db_jobs w' = update_row jr_id (j_id j) (finish_row now (j_attempts j) res) (db_jobs w)"
  shows "queue_inv \<lparr>q_db = w', q_flight = flight(wk := js)\<rparr>"
proof (rule queue_invI)
  note old = queue_invD [OF inv]
  show "distinct (map jr_id (db_jobs w'))" using old(1) by (simp add: jobs update_row_keys)
  show "\<And>r. r \<in> set (db_jobs w') \<Longrightarrow> row_bounds r"
    using old(2) by (auto simp: jobs set_update_row row_bounds_def)
  show "distinct (map j_id ((flight(wk := js)) k))" for k using old(3) [of k] old(3) [of wk] hd by auto
  fix k i assume i: "i \<in> set ((flight(wk := js)) k)"
  then have "i \<in> set (flight k)" using hd by (auto split: if_splits)
  then obtain r where r: "r \<in> set (db_jobs w)" "held_by k i r" using old(4) by blast
  have "j_id i \<noteq> j_id j"
  proof
    assume "j_id i = j_id j"
    moreover from this have "k = wk"
      using queue_inv_exclusive [OF inv \<open>i \<in> set (flight k)\<close>, of j wk] hd by simp
    ultimately show False using i old(3) [of wk] hd by (metis distinct.simps(2) fun_upd_same image_eqI list.set_map list.simps(9))
  qed
  with r show "\<exists>r \<in> set (db_jobs w'). held_by k i r"
    unfolding jobs update_row_def by (intro held_map) (auto simp: held_by_def)
qed

text \<open>What is finished or dead stays as it is, whatever the workers do.\<close>

lemma terminal_claim:
  assumes "distinct (map jr_id (db_jobs w))" and "r \<in> set (db_jobs w)" and "is_terminal_job r"
    and run: "run_tx X conv (claim_batch X locked wk batch now) w = (Inr js, w')"
  shows "r \<in> set (db_jobs w')"
proof -
  let ?chosen = "set (map jr_id (due_jobs locked batch now (db_jobs w)))"
  have "jr_id r \<notin> ?chosen"
  proof
    assume "jr_id r \<in> ?chosen"
    from chosen_pending [OF assms(1,2) this] show False using assms(3) by (simp add: is_terminal_job_def)
  qed
  then have "r = (if jr_id r \<in> ?chosen then claim_row wk now r else r)" by (simp only: if_False)
  then show ?thesis unfolding claim_tx(1) [OF run] set_map by (rule image_eqI) (rule assms(2))
qed

lemma terminal_reap:
  assumes "reap_stale_leases before now w = (Inr n, w')" and "r \<in> set (db_jobs w)" and "is_terminal_job r"
  shows "r \<in> set (db_jobs w')"
proof -
  have "\<not> is_stale before r" using assms(3) by (auto simp: is_stale_def is_terminal_job_def)
  then show ?thesis using assms(2) unfolding reap_jobs [OF assms(1)] set_map by (metis (mono_tags, lifting) image_eqI)
qed

lemma terminal_finish:
  assumes inv: "queue_inv \<lparr>q_db = w, q_flight = flight\<rparr>" and "flight wk = j # js"
    and jobs: "db_jobs w' = update_row jr_id (j_id j) (finish_row now n res) (db_jobs w)"
    and r: "r \<in> set (db_jobs w)" "is_terminal_job r"
  shows "r \<in> set (db_jobs w')"
proof -
  obtain q where q: "q \<in> set (db_jobs w)" "held_by wk j q" using queue_invD(4) [OF inv, of j wk] assms(2) by auto
  have "jr_id r \<noteq> j_id j"
  proof
    assume "jr_id r = j_id j"
    then have "r = q" using q r(1) queue_invD(1) [OF inv] by (metis find_key_Some held_by_def option.inject)
    with q(2) r(2) held_not_terminal show False by blast
  qed
  with r(1) show ?thesis unfolding jobs set_update_row by blast
qed

context job_handlers
begin

lemma queue_step_inv:
  assumes "queue_step X handlers s s'" and "queue_inv s"
  shows "queue_inv s'"
  using assms
proof (cases rule: queue_step.cases)
  case Reap
  with assms(2) inv_reap show ?thesis by blast
next
  case Claim
  with assms(2) inv_claim show ?thesis by blast
next
  case (Execute flight wk j js env now w w')
  obtain res where "db_jobs w' = update_row jr_id (j_id j) (finish_row now (j_attempts j) res) (db_jobs w)"
    using execute_returned [OF Execute(4)] by blast
  with Execute assms(2) inv_finish show ?thesis by blast
next
  case Panic
  with assms(2) inv_drop execute_panicked show ?thesis by blast
next
  case Crash
  with assms(2) inv_drop show ?thesis by blast
next
  case Other
  with assms(2) inv_append show ?thesis by blast
qed

lemma queue_reachable_inv: "queue_reachable X handlers s \<Longrightarrow> queue_inv s"
proof (induction rule: queue_reachable.induct)
  case (Start w)
  then show ?case by (intro queue_invI) simp_all
next
  case (Step s s')
  then show ?case by (blast intro: queue_step_inv)
qed

lemma queue_step_terminal:
  assumes "queue_step X handlers s s'" and "queue_inv s" and "r \<in> set (db_jobs (q_db s))" and "is_terminal_job r"
  shows "r \<in> set (db_jobs (q_db s'))"
  using assms(1)
proof (cases rule: queue_step.cases)
  case Reap
  with assms terminal_reap show ?thesis by auto
next
  case (Claim flight wk locked batch now w js w')
  then show ?thesis using terminal_claim [OF queue_invD(1) _ _ Claim(4)] assms by simp
next
  case (Execute flight wk j js env now w w')
  obtain res where "db_jobs w' = update_row jr_id (j_id j) (finish_row now (j_attempts j) res) (db_jobs w)"
    using execute_returned [OF Execute(4)] by blast
  then show ?thesis using terminal_finish Execute assms by (metis queue.select_convs(1))
next
  case Panic
  with assms execute_panicked show ?thesis by auto
next
  case Crash
  with assms show ?thesis by simp
next
  case Other
  with assms show ?thesis by simp
qed

text \<open>A tick is a run of those steps: its reaping, its claim and its executions, in this order.\<close>

lemma execute_all_steps:
  "execute_all handlers envs n js w = (ok, w') \<Longrightarrow>
     (queue_step X handlers)\<^sup>*\<^sup>* \<lparr>q_db = w, q_flight = flight(wk := js)\<rparr> \<lparr>q_db = w', q_flight = flight(wk := [])\<rparr>"
proof (induction js arbitrary: n w)
  case (Cons j js)
  let ?f = "flight(wk := j # js)"
  obtain ok1 w1 where run: "execute handlers (snd (envs n)) (fst (envs n)) j w = (ok1, w1)" by fastforce
  show ?case
  proof (cases ok1)
    case True
    then have "queue_step X handlers \<lparr>q_db = w, q_flight = ?f\<rparr> \<lparr>q_db = w1, q_flight = ?f(wk := js)\<rparr>"
      using run by (intro Execute) simp_all
    moreover have "(queue_step X handlers)\<^sup>*\<^sup>* \<lparr>q_db = w1, q_flight = flight(wk := js)\<rparr> \<lparr>q_db = w', q_flight = flight(wk := [])\<rparr>"
      using Cons.IH [of "Suc n" w1] Cons.prems run True by (simp del: fun_upd_apply)
    ultimately show ?thesis by (simp add: converse_rtranclp_into_rtranclp del: fun_upd_apply)
  next
    case False
    then have "queue_step X handlers \<lparr>q_db = w, q_flight = ?f\<rparr> \<lparr>q_db = w1, q_flight = ?f(wk := [])\<rparr>"
      using run by (intro Panic) simp_all
    moreover have "w1 = w'" using Cons(2) run False by simp
    ultimately show ?thesis by (simp add: r_into_rtranclp del: fun_upd_apply)
  qed
qed simp

lemma tick_steps:
  assumes tick: "worker_tick X c handlers e w = (ok, w')" and idle: "flight (worker_id c) = []"
    and "\<And>r. r \<in> set (db_jobs w) \<Longrightarrow> is_stale (tick_now e - lease_timeout c) r \<Longrightarrow> abandoned flight r"
  shows "(queue_step X handlers)\<^sup>*\<^sup>* \<lparr>q_db = w, q_flight = flight\<rparr> \<lparr>q_db = w', q_flight = flight\<rparr>"
proof -
  let ?now = "tick_now e"
  obtain n w1 where reap: "reap_stale_leases (?now - lease_timeout c) ?now w = (Inr n, w1)"
    by (simp add: reap_stale_leases_def)
  let ?claim = "run_tx X (\<lambda>err. err) (claim_batch X (tick_locked e) (worker_id c) (batch_size c) ?now)"
  have step1: "queue_step X handlers \<lparr>q_db = w, q_flight = flight\<rparr> \<lparr>q_db = w1, q_flight = flight\<rparr>"
    using assms(3) by (intro Reap [OF reap])
  show ?thesis
  proof (cases "?claim w1")
    case (Pair res w2)
    show ?thesis
    proof (cases res)
      case (Inl err)
      have "w' = w2" using tick reap Pair Inl by (simp add: worker_tick_def Let_def)
      also have "\<dots> = w1" by (rule claim_failed) (use Pair Inl in simp)
      finally show ?thesis using step1 by simp
    next
      case (Inr js)
      then have "queue_step X handlers \<lparr>q_db = w1, q_flight = flight\<rparr> \<lparr>q_db = w2, q_flight = flight(worker_id c := js)\<rparr>"
        using Pair idle by (intro Claim) simp_all
      moreover have "execute_all handlers (exec_envs e) 0 js w2 = (ok, w')"
        using tick reap Pair Inr by (simp add: worker_tick_def Let_def)
      ultimately have "(queue_step X handlers)\<^sup>*\<^sup>* \<lparr>q_db = w1, q_flight = flight\<rparr>
          \<lparr>q_db = w', q_flight = flight(worker_id c := [])\<rparr>"
        using execute_all_steps [of "exec_envs e" 0 js w2 ok w' X flight "worker_id c"]
        by (meson converse_rtranclp_into_rtranclp)
      moreover have "flight(worker_id c := []) = flight" using idle by (simp add: fun_upd_idem)
      ultimately show ?thesis using step1 by (simp add: converse_rtranclp_into_rtranclp)
    qed
  qed
qed

end

section \<open>What a claim takes\<close>

lemma sorted_take_drop:
  assumes "sorted (map f xs)" and "a \<in> set (take n xs)" and "b \<in> set (drop n xs)"
  shows "f a \<le> f b"
proof -
  have "sorted (map f (take n xs) @ map f (drop n xs))" using assms(1) by (simp flip: map_append)
  then show ?thesis using assms(2,3) by (simp add: sorted_append)
qed

lemma due_jobs_split:
  obtains xs where "due_jobs locked limit now rows = take (nat limit) xs" and "sorted (map jr_run_at xs)"
    and "set xs = {r \<in> set rows. jr_state r = Job_Pending \<and> jr_run_at r \<le> now \<and> jr_id r \<notin> locked}"
  by (rule that [of "filter (\<lambda>r. jr_id r \<notin> locked) (sort_key jr_run_at
        (filter (\<lambda>r. jr_state r = Job_Pending \<and> jr_run_at r \<le> now) rows))"])
    (auto simp: due_jobs_def sorted_filter)

lemma due_jobs_oldest:
  assumes "r \<in> set (due_jobs locked limit now rows)" and "q \<in> set rows" and "jr_state q = Job_Pending"
    and "jr_run_at q \<le> now" and "jr_id q \<notin> locked" and "q \<notin> set (due_jobs locked limit now rows)"
  shows "jr_run_at r \<le> jr_run_at q"
proof -
  obtain xs where xs: "due_jobs locked limit now rows = take (nat limit) xs" "sorted (map jr_run_at xs)"
    "set xs = {r \<in> set rows. jr_state r = Job_Pending \<and> jr_run_at r \<le> now \<and> jr_id r \<notin> locked}"
    by (rule due_jobs_split)
  have "q \<in> set (take (nat limit) xs @ drop (nat limit) xs)" using assms(2-5) xs(3) by simp
  then have "q \<in> set (drop (nat limit) xs)" using assms(6) xs(1) by (simp only: set_append Un_iff) simp
  then show ?thesis using sorted_take_drop [OF xs(2)] assms(1) xs(1) by simp
qed

lemma claim_ids:
  assumes "claim_batch X locked wk limit now w = (Inr js, w')"
  shows "j_id ` set js \<subseteq> jr_id ` set (due_jobs locked limit now (db_jobs w))"
proof -
  let ?A = "set (map jr_id (due_jobs locked limit now (db_jobs w)))"
  have "set (map j_id js) = set (filter (\<lambda>i. i \<in> ?A) (map jr_id (db_jobs w)))"
    by (simp only: claim_batch_Inr(3) [OF assms refl])
  then have "set (map j_id js) \<subseteq> ?A" unfolding set_filter by blast
  then show ?thesis by (simp only: set_map)
qed

lemma claimed_row:
  "q \<in> set (filter (\<lambda>r. jr_id r \<in> A) (map (\<lambda>r. if jr_id r \<in> A then claim_row wk now r else r) rs)) \<Longrightarrow>
     \<exists>r \<in> set rs. jr_id r \<in> A \<and> q = claim_row wk now r"
  by (induction rs) (auto simp: claim_row_def split: if_splits)

lemma claimed_row_in:
  "r \<in> set rs \<Longrightarrow> jr_id r \<in> A \<Longrightarrow>
     claim_row wk now r \<in> set (filter (\<lambda>r. jr_id r \<in> A) (map (\<lambda>r. if jr_id r \<in> A then claim_row wk now r else r) rs))"
  by (induction rs) (auto simp: claim_row_def)

lemma claimed_rows:
  assumes "j \<in> set (map job_of_row (filter (\<lambda>r. jr_id r \<in> A) (map (\<lambda>r. if jr_id r \<in> A then claim_row wk now r else r) rs)))"
  shows "\<exists>r \<in> set rs. jr_id r \<in> A \<and> j = job_of_row (claim_row wk now r)"
  using assms claimed_row [of _ A wk now rs] unfolding set_map [of job_of_row] by blast

text \<open>
  What a claim takes. A claim returns exactly the due pending jobs that no other claim has locked, the
  oldest ones first up to the limit: each of them is now running, counts one attempt more, and no job
  that was left behind is older; and a second worker that claims while the first holds its rows locked
  gets a disjoint set.
\<close>
theorem claim_takes_oldest_due:
  assumes d: "distinct (map jr_id (db_jobs w))" and claim: "claim_batch X locked wk limit now w = (Inr js, w')"
  shows "int (length js) \<le> limit \<and> distinct (map j_id js) \<and>
    (\<forall>j \<in> set js. j_state j = Job_Running \<and>
       (\<exists>r \<in> set (db_jobs w). jr_id r = j_id j \<and> jr_state r = Job_Pending \<and> jr_run_at r \<le> now \<and>
          jr_id r \<notin> locked \<and> j_attempts j = jr_attempts r + 1 \<and>
          (\<forall>q \<in> set (db_jobs w). jr_state q = Job_Pending \<longrightarrow> jr_run_at q \<le> now \<longrightarrow> jr_id q \<notin> locked \<longrightarrow>
             jr_id q \<in> j_id ` set js \<or> jr_run_at r \<le> jr_run_at q))) \<and>
    (claim_batch X (locked \<union> j_id ` set js) wk' limit' now' w = (Inr js', w'') \<longrightarrow>
       j_id ` set js \<inter> j_id ` set js' = {})"
proof -
  let ?due = "due_jobs locked limit now (db_jobs w)" and ?ids = "set (map jr_id (due_jobs locked limit now (db_jobs w)))"
  have ids: "map j_id js = filter (\<lambda>i. i \<in> ?ids) (map jr_id (db_jobs w))" and limit: "0 \<le> limit"
    using claim_batch_Inr [OF claim refl] by simp_all
  have sub: "?ids \<subseteq> set (map jr_id (db_jobs w))" using set_due_jobs by fastforce
  then have set_ids: "j_id ` set js = ?ids" using arg_cong [OF ids, of set] by auto
  have dist: "distinct (map j_id js)" unfolding ids using d by simp
  have "length js = card (j_id ` set js)" using dist distinct_card [of "map j_id js"] by simp
  also have "\<dots> \<le> length ?due" unfolding set_ids using card_length [of "map jr_id ?due"] by simp
  finally have len: "int (length js) \<le> limit" using limit by (simp add: due_jobs_def le_nat_iff)
  have tx: "js = map job_of_row (filter (\<lambda>r. jr_id r \<in> ?ids)
      (map (\<lambda>r. if jr_id r \<in> ?ids then claim_row wk now r else r) (db_jobs w)))"
    using claim by (auto simp: claim_batch_def Let_def split: sum.splits if_splits)
  have taken: "j_state j = Job_Running \<and>
       (\<exists>r \<in> set (db_jobs w). jr_id r = j_id j \<and> jr_state r = Job_Pending \<and> jr_run_at r \<le> now \<and>
          jr_id r \<notin> locked \<and> j_attempts j = jr_attempts r + 1 \<and>
          (\<forall>q \<in> set (db_jobs w). jr_state q = Job_Pending \<longrightarrow> jr_run_at q \<le> now \<longrightarrow> jr_id q \<notin> locked \<longrightarrow>
             jr_id q \<in> j_id ` set js \<or> jr_run_at r \<le> jr_run_at q))" if "j \<in> set js" for j
  proof -
    from that have "j \<in> set (map job_of_row (filter (\<lambda>r. jr_id r \<in> ?ids)
        (map (\<lambda>r. if jr_id r \<in> ?ids then claim_row wk now r else r) (db_jobs w))))" by (simp only: tx)
    from claimed_rows [OF this] obtain r where r: "r \<in> set (db_jobs w)" "jr_id r \<in> ?ids"
      and j: "j = job_of_row (claim_row wk now r)" by blast
    have due: "r \<in> set ?due" by (rule chosen_due [OF d r])
    have older: "jr_run_at r \<le> jr_run_at q"
      if "q \<in> set (db_jobs w)" "jr_state q = Job_Pending" "jr_run_at q \<le> now" "jr_id q \<notin> locked" "jr_id q \<notin> j_id ` set js" for q
      using due_jobs_oldest [OF due that(1-4)] that(5) unfolding set_ids by force
    have "\<forall>q \<in> set (db_jobs w). jr_state q = Job_Pending \<longrightarrow> jr_run_at q \<le> now \<longrightarrow> jr_id q \<notin> locked \<longrightarrow>
        jr_id q \<in> j_id ` set js \<or> jr_run_at r \<le> jr_run_at q"
      by (intro ballI impI, rule ccontr, drule de_Morgan_disj [THEN iffD1], elim conjE, erule notE, rule older)
    moreover have "j_state j = Job_Running" "jr_id r = j_id j" "j_attempts j = jr_attempts r + 1"
      by (simp_all add: j job_of_row_def claim_row_def)
    ultimately show ?thesis using set_due_jobs [OF due] by (intro conjI bexI [OF _ r(1)]) simp_all
  qed
  have others: "j_id ` set js \<inter> j_id ` set js' = {}"
    if "claim_batch X (locked \<union> j_id ` set js) wk' limit' now' w = (Inr js', w'')"
  proof -
    let ?due' = "due_jobs (locked \<union> j_id ` set js) limit' now' (db_jobs w)"
    show ?thesis
    proof (rule equals0I, elim IntE)
      fix i assume i: "i \<in> j_id ` set js" "i \<in> j_id ` set js'"
      from subsetD [OF claim_ids [OF that] i(2)] obtain r where "i = jr_id r" "r \<in> set ?due'" by (rule imageE)
      with i(1) set_due_jobs [OF this(2)] show False by simp
    qed
  qed
  show ?thesis by (rule conjI [OF len conjI [OF dist conjI]], rule ballI, erule taken, rule impI, erule others)
qed

definition demo_job :: "uuid \<Rightarrow> instant \<Rightarrow> int \<Rightarrow> job_row" where
  "demo_job i run_at n = (new_job_row i deliver_webhook JNull run_at max_attempts 0)\<lparr>jr_attempts := n\<rparr>"

definition demo_queue :: db where
  "demo_queue = demo_db\<lparr>db_jobs := [demo_job 11 50 0, demo_job 12 40 2, demo_job 13 90 0, demo_job 14 30 1]\<rparr>"

theorem claim_takes_oldest_due_witness:
  "\<exists>js w'. claim_batch demo_ext {12} ''w1'' 1 60 demo_queue = (Inr js, w') \<and> map j_id js = [14] \<and>
     map j_attempts js = [2] \<and> distinct (map j_id js)"
proof -
  have "case claim_batch demo_ext {12} ''w1'' 1 60 demo_queue of (r, w') \<Rightarrow>
     (case r of Inr js \<Rightarrow> map j_id js = [14] \<and> map j_attempts js = [2] | Inl _ \<Rightarrow> False)" by code_simp
  then obtain js w' where run: "claim_batch demo_ext {12} ''w1'' 1 60 demo_queue = (Inr js, w')"
    and js: "map j_id js = [14]" "map j_attempts js = [2]"
    by (cases "claim_batch demo_ext {12} ''w1'' 1 60 demo_queue") (auto split: sum.splits)
  have d: "distinct (map jr_id (db_jobs demo_queue))" by (simp add: demo_queue_def demo_job_def new_job_row_def)
  have "distinct (map j_id js)" by (rule claim_takes_oldest_due [OF d run, THEN conjunct2, THEN conjunct1])
  with run js show ?thesis by (intro exI conjI)
qed

section \<open>What a tick leaves of the queue\<close>

definition reaped :: "instant \<Rightarrow> instant \<Rightarrow> job_row \<Rightarrow> job_row" where
  "reaped before now r = (if is_stale before r
     then r\<lparr>jr_state := Job_Pending, jr_locked_at := None, jr_locked_by := None, jr_updated_at := now\<rparr> else r)"

lemma reap_rows:
  "snd (reap_stale_leases before now w) = w\<lparr>db_jobs := map (reaped before now) (db_jobs w)\<rparr>"
  by (simp add: reap_stale_leases_def reaped_def [abs_def])

lemma reaped_keeps [simp]:
  "jr_id (reaped before now r) = jr_id r" "jr_attempts (reaped before now r) = jr_attempts r"
  "jr_run_at (reaped before now r) = jr_run_at r" "jr_max_attempts (reaped before now r) = jr_max_attempts r"
  by (simp_all add: reaped_def)

definition ready :: "instant \<Rightarrow> job_row \<Rightarrow> bool" where
  "ready now r \<longleftrightarrow> jr_state r = Job_Pending \<and> jr_run_at r \<le> now"

text \<open>Due in a tick: pending, perhaps only by the tick's own reaping, its time come, and locked by no other claim.\<close>

definition due_for :: "worker_config \<Rightarrow> 'env tick_env \<Rightarrow> job_row \<Rightarrow> bool" where
  "due_for c e r \<longleftrightarrow> ready (tick_now e) (reaped (tick_now e - lease_timeout c) (tick_now e) r) \<and> jr_id r \<notin> tick_locked e"

lemma claim_rows:
  assumes run: "run_tx X conv (claim_batch X locked wk limit now) w = (Inr js, w')" and d: "distinct (map jr_id (db_jobs w))"
  shows "db_jobs w' = map (\<lambda>r. if jr_id r \<in> j_id ` set js then claim_row wk now r else r) (db_jobs w)"
    and "distinct (map j_id js)"
    and "j \<in> set js \<Longrightarrow> r \<in> set (db_jobs w') \<Longrightarrow> jr_id r = j_id j \<Longrightarrow> jr_attempts r = j_attempts j"
    and "q \<in> set (db_jobs w) \<Longrightarrow> jr_id q \<in> j_id ` set js \<Longrightarrow> ready now q \<and> jr_id q \<notin> locked"
proof -
  define A where "A = set (map jr_id (due_jobs locked limit now (db_jobs w)))"
  have w': "db_jobs w' = map (\<lambda>r. if jr_id r \<in> A then claim_row wk now r else r) (db_jobs w)"
    and js: "js = map job_of_row (filter (\<lambda>r. jr_id r \<in> A) (db_jobs w'))"
    using claim_tx(1,2) [OF run] unfolding A_def by simp_all
  have ids: "map jr_id (db_jobs w') = map jr_id (db_jobs w)"
    unfolding w' by (simp add: comp_def claim_row_def if_distrib cong: if_cong)
  have jid: "map j_id js = filter (\<lambda>i. i \<in> A) (map jr_id (db_jobs w))"
    by (simp add: js ids [symmetric] filter_map comp_def job_of_row_def)
  show "distinct (map j_id js)" unfolding jid using d by (rule distinct_filter)
  have "A \<subseteq> set (map jr_id (db_jobs w))" unfolding A_def using set_due_jobs by fastforce
  then have A: "j_id ` set js = A" using arg_cong [OF jid, of set] by auto
  show "db_jobs w' = map (\<lambda>r. if jr_id r \<in> j_id ` set js then claim_row wk now r else r) (db_jobs w)"
    unfolding A by (rule w')
  show "jr_attempts r = j_attempts j" if "j \<in> set js" "r \<in> set (db_jobs w')" "jr_id r = j_id j" for j r
  proof -
    from that(1) obtain q where q: "q \<in> set (db_jobs w')" "j = job_of_row q" unfolding js by auto
    have "distinct (map jr_id (db_jobs w'))" using d by (simp only: ids)
    from same_row [OF this q(1) that(2)] have "q = r" using that(3) q(2) by (simp add: job_of_row_def)
    with q(2) show ?thesis by (simp add: job_of_row_def)
  qed
  show "ready now q \<and> jr_id q \<notin> locked" if "q \<in> set (db_jobs w)" "jr_id q \<in> j_id ` set js" for q
    using chosen_pending [OF d that(1)] that(2) unfolding A A_def ready_def by blast
qed

context job_handlers
begin

lemma execute_all_rows:
  "execute_all handlers envs n js w = (True, w') \<Longrightarrow> distinct (map j_id js) \<Longrightarrow>
   (\<And>j r. j \<in> set js \<Longrightarrow> r \<in> set (db_jobs w) \<Longrightarrow> jr_id r = j_id j \<Longrightarrow> jr_attempts r = j_attempts j) \<Longrightarrow>
   \<exists>F. db_jobs w' = map F (db_jobs w) \<and>
     (\<forall>r \<in> set (db_jobs w). if jr_id r \<in> j_id ` set js then \<exists>now res. F r = finish_row now (jr_attempts r) res r
        else F r = r)"
proof (induction js arbitrary: n w)
  case Nil
  then show ?case by (intro exI [of _ "\<lambda>r. r"]) simp
next
  case (Cons j js)
  let ?now = "fst (envs n)"
  obtain w1 where run: "execute handlers (snd (envs n)) ?now j w = (True, w1)"
    and rest: "execute_all handlers envs (Suc n) js w1 = (True, w')"
    using Cons.prems(1) by (auto split: prod.splits bool.splits)
  obtain res where w1: "db_jobs w1 = update_row jr_id (j_id j) (finish_row ?now (j_attempts j) res) (db_jobs w)"
    using execute_returned [OF run] by blast
  let ?G = "\<lambda>r. if jr_id r = j_id j then finish_row ?now (j_attempts j) res r else r"
  have jobs: "db_jobs w1 = map ?G (db_jobs w)" by (simp add: w1 update_row_def)
  have "jr_attempts r = j_attempts i" if "i \<in> set js" "r \<in> set (db_jobs w1)" "jr_id r = j_id i" for i r
    using that Cons.prems(3) [of i] unfolding jobs by (auto split: if_splits)
  with Cons.IH [OF rest] Cons.prems(2) obtain F where F: "db_jobs w' = map F (db_jobs w1)"
    and F': "\<And>r. r \<in> set (db_jobs w1) \<Longrightarrow>
      if jr_id r \<in> j_id ` set js then \<exists>now res. F r = finish_row now (jr_attempts r) res r else F r = r"
    by (metis distinct.simps(2) list.simps(9))
  have rows: "if jr_id r \<in> j_id ` set (j # js) then \<exists>now res. F (?G r) = finish_row now (jr_attempts r) res r
      else F (?G r) = r" if r: "r \<in> set (db_jobs w)" for r
  proof -
    have "?G r \<in> set (db_jobs w1)" using r unfolding jobs by simp
    from F' [OF this] show ?thesis
      using Cons.prems(2) Cons.prems(3) [of j r] r by (auto split: if_splits)
  qed
  show ?case
  proof (intro exI conjI ballI)
    show "db_jobs w' = map (\<lambda>r. F (?G r)) (db_jobs w)" by (simp add: F jobs)
  qed (rule rows)
qed

lemma tick_claimed:
  assumes tick: "worker_tick X c handlers e w = (True, w')" and d: "distinct (map jr_id (db_jobs w))"
    and run: "run_tx X (\<lambda>err. err) (claim_batch X (tick_locked e) (worker_id c) (batch_size c) (tick_now e))
      (w\<lparr>db_jobs := map (reaped (tick_now e - lease_timeout c) (tick_now e)) (db_jobs w)\<rparr>) = (Inr js, w2)"
  shows "\<exists>F. db_jobs w' = map F (db_jobs w) \<and> (\<forall>r \<in> set (db_jobs w). jr_id (F r) = jr_id r \<and>
    (if jr_id r \<in> j_id ` set js
     then settled_row (F r) \<and> jr_attempts (F r) = jr_attempts r + 1 \<and> due_for c e r
     else F r = reaped (tick_now e - lease_timeout c) (tick_now e) r))"
proof -
  let ?now = "tick_now e" and ?reap = "reaped (tick_now e - lease_timeout c) (tick_now e)"
  let ?w1 = "w\<lparr>db_jobs := map ?reap (db_jobs w)\<rparr>"
  let ?C = "\<lambda>r. if jr_id r \<in> j_id ` set js then claim_row (worker_id c) ?now r else r"
  have "distinct (map jr_id (db_jobs ?w1))" using d by (simp add: comp_def)
  note claim = claim_rows [OF run this]
  have ex: "execute_all handlers (exec_envs e) 0 js w2 = (True, w')"
    using tick run by (simp add: worker_tick_def Let_def reap_rows)
  obtain F where F: "db_jobs w' = map F (db_jobs w2)" and F': "\<And>r. r \<in> set (db_jobs w2) \<Longrightarrow>
    if jr_id r \<in> j_id ` set js then \<exists>now res. F r = finish_row now (jr_attempts r) res r else F r = r"
    using execute_all_rows [OF ex claim(2,3)] by blast
  have rows: "jr_id (F (?C (?reap r))) = jr_id r \<and> (if jr_id r \<in> j_id ` set js
      then settled_row (F (?C (?reap r))) \<and> jr_attempts (F (?C (?reap r))) = jr_attempts r + 1 \<and> due_for c e r
      else F (?C (?reap r)) = ?reap r)"
    if r: "r \<in> set (db_jobs w)" for r
  proof -
    have q: "?reap r \<in> set (db_jobs ?w1)" "?C (?reap r) \<in> set (db_jobs w2)" using r unfolding claim(1) by simp_all
    show ?thesis
    proof (cases "jr_id r \<in> j_id ` set js")
      case True
      then have "due_for c e r" using claim(4) [OF q(1)] by (simp add: due_for_def)
      moreover obtain now' res where "F (?C (?reap r)) = finish_row now' (jr_attempts r + 1) res (claim_row (worker_id c) ?now (?reap r))"
        using F' [OF q(2)] True by (auto simp: claim_row_def)
      ultimately show ?thesis using True finish_row_settled [of now' "claim_row (worker_id c) ?now (?reap r)" res]
        by (simp add: claim_row_def)
    next
      case False
      then show ?thesis using F' [OF q(2)] by simp
    qed
  qed
  show ?thesis
  proof (intro exI conjI ballI)
    show "db_jobs w' = map (\<lambda>r. F (?C (?reap r))) (db_jobs w)" by (simp add: F claim(1))
  qed (use rows in \<open>blast+\<close>)
qed

end

text \<open>Nothing that is due is left behind when the batch has room for all of it.\<close>

lemma due_jobs_all:
  assumes "int (length (filter (\<lambda>r. ready now r \<and> jr_id r \<notin> locked) rows)) \<le> limit"
  shows "set (due_jobs locked limit now rows) = {r \<in> set rows. ready now r \<and> jr_id r \<notin> locked}"
proof -
  let ?xs = "filter (\<lambda>r. jr_id r \<notin> locked) (sort_key jr_run_at (filter (ready now) rows))"
  have "length ?xs = length (filter (\<lambda>r. ready now r \<and> jr_id r \<notin> locked) rows)"
    by (simp add: filter_sort conj_commute)
  then have "length ?xs \<le> nat limit" using assms by (simp add: nat_le_iff)
  then have "due_jobs locked limit now rows = ?xs" by (simp add: due_jobs_def ready_def [abs_def])
  then show ?thesis by auto
qed

lemma claim_succeeds:
  assumes room: "int (length (filter (\<lambda>r. ready now r \<and> jr_id r \<notin> locked) (db_jobs w))) \<le> limit"
    and d: "distinct (map jr_id (db_jobs w))"
    and left: "\<And>r. r \<in> set (db_jobs w) \<Longrightarrow> ready now r \<Longrightarrow> jr_id r \<notin> locked \<Longrightarrow>
      0 \<le> jr_attempts r \<and> jr_attempts r < jr_max_attempts r"
  shows "\<exists>js w'. run_tx X conv (claim_batch X locked wk limit now) w = (Inr js, w') \<and>
    (\<forall>r \<in> set (db_jobs w). ready now r \<and> jr_id r \<notin> locked \<longrightarrow> jr_id r \<in> j_id ` set js)"
proof -
  let ?due = "due_jobs locked limit now (db_jobs w)"
  let ?A = "set (map jr_id ?due)"
  let ?rows = "map (\<lambda>r. if jr_id r \<in> ?A then claim_row wk now r else r) (db_jobs w)"
  let ?js = "map job_of_row (filter (\<lambda>r. jr_id r \<in> ?A) ?rows)"
  have "row_bounds q" if "q \<in> set (filter (\<lambda>r. jr_id r \<in> ?A) ?rows)" for q
  proof -
    from claimed_row [OF that] obtain r where r: "r \<in> set (db_jobs w)" "jr_id r \<in> ?A" "q = claim_row wk now r" by blast
    have "ready now r" "jr_id r \<notin> locked" using chosen_due [OF d r(1,2)] due_jobs_all [OF room] by blast+
    with left [OF r(1)] show ?thesis by (simp add: r(3) row_bounds_def claim_row_def)
  qed
  then have "list_all snd (concat (map job_checks (filter (\<lambda>r. jr_id r \<in> ?A) ?rows)))"
    unfolding list_all_iff by (auto simp: job_checks_def row_bounds_def)
  moreover have "0 \<le> limit" using room by linarith
  ultimately have "claim_batch X locked wk limit now w = (Inr ?js, w\<lparr>db_jobs := ?rows\<rparr>)"
    by (simp add: claim_batch_def Let_def)
  then have run: "run_tx X conv (claim_batch X locked wk limit now) w = (Inr ?js, w\<lparr>db_jobs := ?rows\<rparr>)"
    by (simp add: run_tx_Inr ledger_trigger_def Let_def)
  have "jr_id r \<in> j_id ` set ?js" if r: "r \<in> set (db_jobs w)" "ready now r \<and> jr_id r \<notin> locked" for r
  proof -
    have "r \<in> set ?due" using r due_jobs_all [OF room] by blast
    then have "jr_id r \<in> ?A" by simp
    from imageI [OF claimed_row_in [OF r(1) this], of job_of_row] have "job_of_row (claim_row wk now r) \<in> set ?js"
      by (simp only: set_map [of job_of_row])
    moreover have "j_id (job_of_row (claim_row wk now r)) = jr_id r" by (simp add: job_of_row_def claim_row_def)
    ultimately show ?thesis by (rule image_eqI [rotated, OF _ sym])
  qed
  with run show ?thesis by (intro exI conjI ballI impI)
qed

context job_handlers
begin

lemma due_jobs_executed:
  assumes tick: "worker_tick X c handlers e w = (True, w')" and d: "distinct (map jr_id (db_jobs w))"
    and room: "int (length (filter (due_for c e) (db_jobs w))) \<le> batch_size c"
    and left: "list_all (\<lambda>r. due_for c e r \<longrightarrow> 0 \<le> jr_attempts r \<and> jr_attempts r < jr_max_attempts r) (db_jobs w)"
  shows "list_all2 (\<lambda>r r'. jr_id r' = jr_id r \<and>
    (if due_for c e r then settled_row r' \<and> jr_attempts r' = jr_attempts r + 1
     else r' = reaped (tick_now e - lease_timeout c) (tick_now e) r)) (db_jobs w) (db_jobs w')"
proof -
  let ?reap = "reaped (tick_now e - lease_timeout c) (tick_now e)"
  let ?w1 = "w\<lparr>db_jobs := map ?reap (db_jobs w)\<rparr>"
  have "\<exists>js w2. run_tx X (\<lambda>err. err) (claim_batch X (tick_locked e) (worker_id c) (batch_size c) (tick_now e)) ?w1 = (Inr js, w2) \<and>
      (\<forall>r \<in> set (db_jobs ?w1). ready (tick_now e) r \<and> jr_id r \<notin> tick_locked e \<longrightarrow> jr_id r \<in> j_id ` set js)"
    using room left d by (intro claim_succeeds) (auto simp: due_for_def [abs_def] comp_def list_all_iff filter_map)
  then obtain js w2 where
    run: "run_tx X (\<lambda>err. err) (claim_batch X (tick_locked e) (worker_id c) (batch_size c) (tick_now e)) ?w1 = (Inr js, w2)"
    and all: "\<And>r. r \<in> set (db_jobs w) \<Longrightarrow> due_for c e r \<Longrightarrow> jr_id r \<in> j_id ` set js"
    by (auto simp: due_for_def)
  from tick_claimed [OF tick d run] obtain F where F: "db_jobs w' = map F (db_jobs w)"
    and F': "\<And>r. r \<in> set (db_jobs w) \<Longrightarrow> jr_id (F r) = jr_id r \<and>
      (if jr_id r \<in> j_id ` set js
       then settled_row (F r) \<and> jr_attempts (F r) = jr_attempts r + 1 \<and> due_for c e r else F r = ?reap r)" by blast
  have "jr_id (F r) = jr_id r \<and> (if due_for c e r
      then settled_row (F r) \<and> jr_attempts (F r) = jr_attempts r + 1 else F r = ?reap r)" if "r \<in> set (db_jobs w)" for r
    using F' [OF that] all [OF that] by (auto split: if_splits)
  then show ?thesis unfolding F by (simp add: list_all2_map2 list.rel_refl_strong)
qed

end

section \<open>A job left in its last attempt\<close>

lemma due_among_oldest:
  assumes p: "p \<in> set rows" "ready now p" "jr_id p \<notin> locked" and d: "distinct rows"
    and few: "int (length (filter (\<lambda>r. ready now r \<and> r \<noteq> p \<and> jr_run_at r \<le> jr_run_at p) rows)) < limit"
  shows "p \<in> set (due_jobs locked limit now rows)"
proof -
  let ?xs = "filter (\<lambda>r. jr_id r \<notin> locked) (sort_key jr_run_at (filter (ready now) rows))"
  let ?older = "filter (\<lambda>r. ready now r \<and> r \<noteq> p \<and> jr_run_at r \<le> jr_run_at p) rows"
  have "p \<in> set ?xs" using p by simp
  then obtain A B where xs: "?xs = A @ p # B" "p \<notin> set A" by (meson split_list_first)
  have "sorted (map jr_run_at ?xs)" by (simp add: sorted_filter)
  then have "\<forall>a \<in> set A. jr_run_at a \<le> jr_run_at p" unfolding xs by (simp add: sorted_append)
  moreover have "set A \<subseteq> set ?xs" unfolding xs by auto
  ultimately have "set A \<subseteq> set ?older" using xs(2) by auto
  moreover have "distinct ?xs" using d by simp
  then have "distinct A" unfolding xs by simp
  ultimately have "length A \<le> length ?older" by (metis card_length card_mono distinct_card finite_set le_trans)
  then have "length A < nat limit" using few by linarith
  moreover have "due_jobs locked limit now rows = take (nat limit) ?xs" by (simp add: due_jobs_def ready_def [abs_def])
  ultimately show ?thesis unfolding xs by (simp add: take_Cons')
qed

text \<open>A claim whose batch holds a row with no attempt left violates the check and takes nothing.\<close>

lemma poisoned_claim:
  assumes "p \<in> set (due_jobs locked limit now (db_jobs w))" and "jr_max_attempts p \<le> jr_attempts p"
  shows "\<exists>e. run_tx X conv (claim_batch X locked wk limit now) w = (Inl e, w)"
proof -
  obtain res w' where run: "run_tx X conv (claim_batch X locked wk limit now) w = (res, w')" by fastforce
  show ?thesis
  proof (cases res)
    case (Inl e)
    with run claim_failed show ?thesis by blast
  next
    case (Inr js)
    have "p \<in> set (db_jobs w)" using set_due_jobs [OF assms(1)] by simp
    then have "row_bounds (claim_row wk now p)" using claim_tx(3) run Inr assms(1) by (metis image_eqI set_map)
    then show ?thesis using assms(2) by (simp add: row_bounds_def claim_row_def)
  qed
qed

lemma reaped_unfinished:
  "jr_state (reaped before now r) \<in> {Job_Pending, Job_Running} \<longleftrightarrow> jr_state r \<in> {Job_Pending, Job_Running}"
  by (auto simp: reaped_def is_stale_def)

text \<open>One tick that meets such a row among the oldest does nothing but to reap.\<close>

lemma poisoned_tick:
  assumes p: "p \<in> set (db_jobs w)" "jr_max_attempts p \<le> jr_attempts p" and due: "due_for c e p"
    and d: "distinct (map jr_id (db_jobs w))"
    and few: "int (length (filter (\<lambda>r. jr_state r \<in> {Job_Pending, Job_Running} \<and> jr_id r \<noteq> jr_id p \<and>
      jr_run_at r \<le> jr_run_at p) (db_jobs w))) < batch_size c"
  shows "worker_tick X c handlers e w =
    (True, w\<lparr>db_jobs := map (reaped (tick_now e - lease_timeout c) (tick_now e)) (db_jobs w)\<rparr>)"
proof -
  let ?reap = "reaped (tick_now e - lease_timeout c) (tick_now e)"
  let ?rows = "map ?reap (db_jobs w)" and ?p = "?reap p"
  let ?older = "\<lambda>r. jr_state r \<in> {Job_Pending, Job_Running} \<and> jr_id r \<noteq> jr_id p \<and> jr_run_at r \<le> jr_run_at p"
  have "distinct (map jr_id ?rows)" using d by (simp add: comp_def)
  then have dist: "distinct ?rows" using distinct_map by blast
  have "length (filter (\<lambda>r. ready (tick_now e) r \<and> r \<noteq> ?p \<and> jr_run_at r \<le> jr_run_at ?p) ?rows) \<le> length (filter ?older (db_jobs w))"
  proof -
    have "set (filter (\<lambda>r. ready (tick_now e) r \<and> r \<noteq> ?p \<and> jr_run_at r \<le> jr_run_at ?p) ?rows) \<subseteq> ?reap ` set (filter ?older (db_jobs w))"
      (is "set ?l \<subseteq> _")
    proof
      fix q assume "q \<in> set ?l"
      then obtain r where r: "r \<in> set (db_jobs w)" "q = ?reap r" "ready (tick_now e) (?reap r)" "?reap r \<noteq> ?p" "jr_run_at r \<le> jr_run_at p"
        by auto
      have "jr_id r \<noteq> jr_id p" using same_row [OF d r(1) p(1)] r(4) by blast
      moreover have "jr_state r \<in> {Job_Pending, Job_Running}"
        using r(3) reaped_unfinished [of "tick_now e - lease_timeout c" "tick_now e" r] by (simp add: ready_def)
      ultimately show "q \<in> ?reap ` set (filter ?older (db_jobs w))" using r(1,2,5) by simp
    qed
    then have "card (set ?l) \<le> card (set (filter ?older (db_jobs w)))"
      by (meson List.finite_set card_image_le card_mono finite_imageI le_trans)
    also have "\<dots> \<le> length (filter ?older (db_jobs w))" by (rule card_length)
    finally show ?thesis using distinct_card [OF distinct_filter [OF dist]] by metis
  qed
  then have "?p \<in> set (due_jobs (tick_locked e) (batch_size c) (tick_now e) ?rows)"
    using p(1) due few by (intro due_among_oldest [OF _ _ _ dist]) (auto simp: due_for_def)
  then have "?p \<in> set (due_jobs (tick_locked e) (batch_size c) (tick_now e) (db_jobs (w\<lparr>db_jobs := ?rows\<rparr>)))" by simp
  from poisoned_claim [OF this, of X "\<lambda>err. err" "worker_id c"] obtain err where
    "run_tx X (\<lambda>err. err) (claim_batch X (tick_locked e) (worker_id c) (batch_size c) (tick_now e)) (w\<lparr>db_jobs := ?rows\<rparr>)
      = (Inl err, w\<lparr>db_jobs := ?rows\<rparr>)" using p(2) by auto
  then show ?thesis by (simp add: worker_tick_def Let_def reap_rows)
qed

text \<open>
  C33. A job left in its last attempt stops the queue. A worker that dies while it holds a job in its last attempt
  leaves a running row with no attempt left; once the lease is stale, a tick puts it back to pending like any
  other. A tick for which the row is due, which does not find it locked by another claim in that instant, and in which
  fewer than a batch of the unfinished jobs are as old as it, selects it, and the statement that claims the batch
  violates the check on the attempts as a whole. However many such ticks follow one another, whatever else is due and
  whatever the handlers, nothing is executed: all that changes is that further stale leases are put back to pending.
\<close>
theorem exhausted_job_stops_queue:
  assumes "p \<in> set (db_jobs w)" and "jr_max_attempts p \<le> jr_attempts p" and "distinct (map jr_id (db_jobs w))"
    and few: "int (length (filter (\<lambda>r. jr_state r \<in> {Job_Pending, Job_Running} \<and> jr_id r \<noteq> jr_id p \<and>
      jr_run_at r \<le> jr_run_at p) (db_jobs w))) < batch_size c"
    and ticks: "list_all (\<lambda>e. jr_run_at p \<le> tick_now e \<and> jr_id p \<notin> tick_locked e \<and>
      (jr_state p = Job_Pending \<or> is_stale (tick_now e - lease_timeout c) p)) es"
  shows "\<exists>F. worker_run X c handlers es w = (True, w\<lparr>db_jobs := map F (db_jobs w)\<rparr>) \<and>
    (\<forall>r \<in> set (db_jobs w). F r = r \<or> jr_state r = Job_Running \<and>
      (\<exists>t. F r = r\<lparr>jr_state := Job_Pending, jr_locked_at := None, jr_locked_by := None, jr_updated_at := t\<rparr>))"
  using assms
proof (induction es arbitrary: w p)
  case Nil
  then show ?case by (intro exI [of _ id]) simp
next
  case (Cons e es)
  let ?reap = "reaped (tick_now e - lease_timeout c) (tick_now e)"
  let ?w1 = "w\<lparr>db_jobs := map ?reap (db_jobs w)\<rparr>"
  have due: "due_for c e p" using Cons.prems(5) by (auto simp: due_for_def ready_def reaped_def)
  then have pending: "jr_state (?reap p) = Job_Pending" by (simp add: due_for_def ready_def)
  have "filter (\<lambda>r. jr_state r \<in> {Job_Pending, Job_Running} \<and> jr_id r \<noteq> jr_id (?reap p) \<and>
      jr_run_at r \<le> jr_run_at (?reap p)) (db_jobs ?w1) = map ?reap (filter (\<lambda>r. jr_state r \<in> {Job_Pending, Job_Running} \<and>
      jr_id r \<noteq> jr_id p \<and> jr_run_at r \<le> jr_run_at p) (db_jobs w))"
    by (simp add: filter_map comp_def reaped_unfinished [simplified])
  then have "\<exists>F. worker_run X c handlers es ?w1 = (True, ?w1\<lparr>db_jobs := map F (db_jobs ?w1)\<rparr>) \<and>
    (\<forall>r \<in> set (db_jobs ?w1). F r = r \<or> jr_state r = Job_Running \<and>
      (\<exists>t. F r = r\<lparr>jr_state := Job_Pending, jr_locked_at := None, jr_locked_by := None, jr_updated_at := t\<rparr>))"
    using Cons.prems pending by (intro Cons.IH [of "?reap p"]) (simp_all add: comp_def list_all_iff)
  then obtain F where F: "worker_run X c handlers es ?w1 = (True, ?w1\<lparr>db_jobs := map F (db_jobs ?w1)\<rparr>)"
    and F': "\<And>r. r \<in> set (db_jobs w) \<Longrightarrow> F (?reap r) = ?reap r \<or> jr_state (?reap r) = Job_Running \<and>
      (\<exists>t. F (?reap r) = (?reap r)\<lparr>jr_state := Job_Pending, jr_locked_at := None, jr_locked_by := None, jr_updated_at := t\<rparr>)" by auto
  have "F (?reap r) = r \<or> jr_state r = Job_Running \<and>
      (\<exists>t. F (?reap r) = r\<lparr>jr_state := Job_Pending, jr_locked_at := None, jr_locked_by := None, jr_updated_at := t\<rparr>)"
    if "r \<in> set (db_jobs w)" for r
    using F' [OF that] by (cases "is_stale (tick_now e - lease_timeout c) r") (auto simp: reaped_def is_stale_def)
  then show ?case
    using F poisoned_tick [OF Cons.prems(1,2) due Cons.prems(3,4), of X handlers]
    by (intro exI [of _ "\<lambda>r. F (?reap r)"]) (simp add: comp_def)
qed

definition demo_worker :: worker_config where
  "demo_worker = worker_config_default ''1''"

text \<open>
  A job claimed for the seventh time by a worker that crashed, and two due jobs behind it: two ticks after its lease
  has run out execute nothing.
\<close>

definition demo_crashed :: db where
  "demo_crashed = snd (claim_batch demo_ext {} ''w0'' 1 10
       (demo_db\<lparr>db_jobs := [demo_job 11 5 6, demo_job 12 20 0, demo_job 13 30 0]\<rparr>))"

theorem exhausted_job_stops_queue_witness:
  "map jr_state (db_jobs demo_crashed) = [Job_Running, Job_Pending, Job_Pending] \<and>
   (\<exists>w'. worker_run demo_ext demo_worker (\<lambda>_. Some (\<lambda>_ _ w. (Some (Inr ()), w)))
     [\<lparr>tick_now = seconds 400, tick_locked = {}, exec_envs = (\<lambda>_. (0, ()))\<rparr>,
      \<lparr>tick_now = seconds 900, tick_locked = {}, exec_envs = (\<lambda>_. (0, ()))\<rparr>] demo_crashed = (True, w') \<and>
     map jr_attempts (db_jobs w') = [7, 0, 0])"
proof -
  let ?es = "[\<lparr>tick_now = seconds 400, tick_locked = {}, exec_envs = (\<lambda>_. (0, ()))\<rparr>,
      \<lparr>tick_now = seconds 900, tick_locked = {}, exec_envs = (\<lambda>_. (0, ()))\<rparr>]"
  let ?h = "\<lambda>_. Some (\<lambda>_ _ w. (Some (Inr ()), w))"
  let ?p = "(demo_job 11 5 7)\<lparr>jr_state := Job_Running, jr_locked_at := Some 10, jr_locked_by := Some ''w0'', jr_updated_at := 10\<rparr>"
  have jobs: "db_jobs demo_crashed = [?p, demo_job 12 20 0, demo_job 13 30 0]" by code_simp
  have "\<exists>F. worker_run demo_ext demo_worker ?h ?es demo_crashed = (True, demo_crashed\<lparr>db_jobs := map F (db_jobs demo_crashed)\<rparr>) \<and>
    (\<forall>r \<in> set (db_jobs demo_crashed). F r = r \<or> jr_state r = Job_Running \<and>
      (\<exists>t. F r = r\<lparr>jr_state := Job_Pending, jr_locked_at := None, jr_locked_by := None, jr_updated_at := t\<rparr>))"
    by (rule exhausted_job_stops_queue [of ?p])
      (simp_all add: jobs demo_job_def new_job_row_def demo_worker_def worker_config_default_def max_attempts_def
        seconds_def is_stale_def)
  then obtain F where run: "worker_run demo_ext demo_worker ?h ?es demo_crashed =
      (True, demo_crashed\<lparr>db_jobs := map F (db_jobs demo_crashed)\<rparr>)"
    and "\<And>r. r \<in> set (db_jobs demo_crashed) \<Longrightarrow> jr_attempts (F r) = jr_attempts r" by force
  then have "map jr_attempts (map F (db_jobs demo_crashed)) = map jr_attempts (db_jobs demo_crashed)" by simp
  then show ?thesis using run by (simp add: jobs demo_job_def new_job_row_def)
qed

end
