(* ===== verification/Webhooks.thy ===== *)
theory Webhooks
  imports Queue_Worker Crypto "HOL-Library.Code_Target_Nat"
begin

text \<open>
  \<open>crates/webhooks\<close>: the envelope of an event, the signed request and what its answer means
  (\<open>delivery.rs\<close>), and the handler of the delivery job (\<open>worker.rs\<close>), with the registration of the
  server (\<open>crates/sandbox-server/src/startup.rs\<close>). The HTTP client is what the surroundings of an
  execution give: a function from the request to its answer, with the time it took and the readings of
  the clock.
\<close>

section \<open>Text of a response\<close>

text \<open>
  \<open>String::from_utf8_lossy\<close>: characters in UTF-8 are kept, and every maximal run of bytes that cannot
  begin one is replaced by the replacement character. \<open>utf8_char\<close> says whether a character begins the
  bytes, and how many bytes were looked at to find out.
\<close>

definition safe_get :: "nat list \<Rightarrow> nat \<Rightarrow> nat" where
  "safe_get bs i = (if i < length bs then bs ! i else 0)"

definition is_continuation :: "nat \<Rightarrow> bool" where
  "is_continuation b \<longleftrightarrow> 128 \<le> b \<and> b \<le> 191"

definition second_byte_ok :: "nat \<Rightarrow> nat \<Rightarrow> bool" where
  "second_byte_ok b c \<longleftrightarrow>
     (if b = 224 then 160 \<le> c \<and> c \<le> 191 else if b = 237 then 128 \<le> c \<and> c \<le> 159
      else if b = 240 then 144 \<le> c \<and> c \<le> 191 else if b = 244 then 128 \<le> c \<and> c \<le> 143
      else is_continuation c)"

definition utf8_char :: "nat list \<Rightarrow> bool \<times> nat" where
  "utf8_char bs =
     (let b = safe_get bs 0; c = safe_get bs 1 in
      if b < 128 then (True, 1)
      else if 194 \<le> b \<and> b \<le> 223 then (if is_continuation c then (True, 2) else (False, 1))
      else if 224 \<le> b \<and> b \<le> 239 then
        (if \<not> second_byte_ok b c then (False, 1)
         else if is_continuation (safe_get bs 2) then (True, 3) else (False, 2))
      else if 240 \<le> b \<and> b \<le> 244 then
        (if \<not> second_byte_ok b c then (False, 1)
         else if \<not> is_continuation (safe_get bs 2) then (False, 2)
         else if is_continuation (safe_get bs 3) then (True, 4) else (False, 3))
      else (False, 1))"

fun lossy_bytes :: "nat list \<Rightarrow> nat list" where
  "lossy_bytes [] = []"
| "lossy_bytes (b # bs) =
     (let (valid, n) = utf8_char (b # bs) in
      (if valid then take n (b # bs) else [239, 191, 189]) @ lossy_bytes (drop (n - 1) bs))"

definition from_utf8_lossy :: "string \<Rightarrow> string" where
  "from_utf8_lossy s = map char_of (lossy_bytes (map of_char s))"

section \<open>Delivery\<close>

record webhook_config =
  wc_timeout_ms :: nat
  wc_max_response_bytes :: nat

definition webhook_config_default :: webhook_config where
  "webhook_config_default = \<lparr>wc_timeout_ms = 10000, wc_max_response_bytes = 2048\<rparr>"

definition build_envelope :: "ext \<Rightarrow> event_row \<Rightarrow> json" where
  "build_envelope X ev = jobject [
     (''id'', JStr (id_to_string X EventMarker (ev_id ev))),
     (''type'', JStr (ev_type ev)),
     (''created_at'', JStr (unwrap_or '''' (rfc3339_format X (ev_created_at ev)))),
     (''api_version'', JStr (ev_api_version ev)),
     (''data'', ev_payload ev)]"

datatype send_outcome =
    Delivered int string int
  | Failed "int option" "string option" int string

record http_request =
  rq_url :: string
  rq_timeout_ms :: nat
  rq_headers :: "(string \<times> string) list"
  rq_body :: string

datatype http_failure = TimedOut | Transport string

text \<open>The status of an answer, and its body unless reading it failed.\<close>

record http_response =
  rs_status :: nat
  rs_bytes :: "string option"

record delivery_env =
  de_now :: instant
  de_sign_now :: instant
  de_http :: "http_request \<Rightarrow> http_failure + http_response"
  de_elapsed_ms :: nat

definition unix_timestamp :: "instant \<Rightarrow> int" where
  "unix_timestamp t = t div 1000000000"

definition i32_max :: int where
  "i32_max = 2 ^ 31 - 1"

definition delivery_request ::
  "ext \<Rightarrow> webhook_config \<Rightarrow> instant \<Rightarrow> endpoint_row \<Rightarrow> event_row \<Rightarrow> http_request" where
  "delivery_request X cfg sign_now endpoint ev =
     (let body = json_text X (build_envelope X ev);
          timestamp = unix_timestamp sign_now;
          signature = build_header X (ep_signing_secret endpoint) timestamp body in
      \<lparr>rq_url = ep_url endpoint, rq_timeout_ms = wc_timeout_ms cfg,
       rq_headers = [
         (''Content-Type'', ''application/json''),
         (''X-Sandbox-Signature'', signature),
         (''X-Sandbox-Event-Id'', id_to_string X EventMarker (ev_id ev)),
         (''X-Sandbox-Event-Type'', ev_type ev),
         (''User-Agent'', ''payment-sandbox-webhooks/0.1'')],
       rq_body = body\<rparr>)"

definition send ::
  "ext \<Rightarrow> webhook_config \<Rightarrow> delivery_env \<Rightarrow> endpoint_row \<Rightarrow> event_row \<Rightarrow> send_outcome" where
  "send X cfg env endpoint ev =
     (let duration_ms = min (int (de_elapsed_ms env)) i32_max in
      case de_http env (delivery_request X cfg (de_sign_now env) endpoint ev) of
        Inr resp \<Rightarrow>
          let status = int (rs_status resp);
              bytes = unwrap_or [] (rs_bytes resp);
              truncated = take (wc_max_response_bytes cfg) bytes;
              body_text = from_utf8_lossy truncated in
          if 200 \<le> status \<and> status < 300 then Delivered status body_text duration_ms
          else Failed (Some status) (Some body_text) duration_ms (''endpoint returned '' @ show_int status)
      | Inl e \<Rightarrow>
          Failed None None duration_ms
            (case e of TimedOut \<Rightarrow> ''request timed out'' | Transport m \<Rightarrow> ''transport error: '' @ m))"

section \<open>The handler\<close>

record deliver_payload =
  dp_delivery_id :: uuid
  dp_event_id :: string
  dp_endpoint_id :: string

text \<open>
  The derived \<open>Deserialize\<close> on a JSON value: an object with the three fields, others ignored, or an array of the
  three values in order.
\<close>

definition payload_fields :: "ext \<Rightarrow> json option \<Rightarrow> json option \<Rightarrow> json option \<Rightarrow> deliver_payload option" where
  "payload_fields X a b c =
     (case (a, b, c) of
        (Some (JStr d), Some (JStr e), Some (JStr p)) \<Rightarrow>
          map_option (\<lambda>u. \<lparr>dp_delivery_id = u, dp_event_id = e, dp_endpoint_id = p\<rparr>) (uuid_parse X d)
      | _ \<Rightarrow> None)"

definition payload_from_value :: "ext \<Rightarrow> json \<Rightarrow> deliver_payload option" where
  "payload_from_value X j =
     (case j of
        JObj kvs \<Rightarrow> payload_fields X (map_of kvs ''delivery_id'') (map_of kvs ''event_id'') (map_of kvs ''endpoint_id'')
      | JArr [a, b, c] \<Rightarrow> payload_fields X (Some a) (Some b) (Some c)
      | _ \<Rightarrow> None)"

text \<open>The part of \<open>deliver\<close> up to the rows: every failure in it is permanent.\<close>

definition deliver_lookup :: "ext \<Rightarrow> json \<Rightarrow> db \<Rightarrow> job_error + (event_row \<times> endpoint_row \<times> delivery_row)" where
  "deliver_lookup X payload w =
     rbind (ok_or (payload_from_value X payload)
              (Permanent (''malformed payload: '' @ serde_struct_error X ''DeliverPayload'' payload))) (\<lambda>parsed.
     rbind (map_err (\<lambda>_. Permanent ''bad event_id'') (id_from_str X EventMarker (dp_event_id parsed))) (\<lambda>event_id.
     rbind (map_err (\<lambda>_. Permanent ''bad endpoint_id'')
              (id_from_str X WebhookEndpointMarker (dp_endpoint_id parsed))) (\<lambda>endpoint_id.
     rbind (map_err (\<lambda>e. Permanent (''event missing: '' @ store_error_text X e))
              (fst (event_find_by_id event_id w))) (\<lambda>ev.
     rbind (map_err (\<lambda>e. Permanent (''endpoint missing: '' @ store_error_text X e))
              (fst (endpoint_find_by_id endpoint_id w))) (\<lambda>endpoint.
     rbind (map_err (\<lambda>e. Permanent (''delivery row missing: '' @ store_error_text X e))
              (fst (delivery_find_by_id (dp_delivery_id parsed) w))) (\<lambda>delivery.
     Inr (ev, endpoint, delivery)))))))"

definition deliver :: "ext \<Rightarrow> webhook_config \<Rightarrow> delivery_env handler" where
  "deliver X cfg env payload w =
     (let now = de_now env in
      case deliver_lookup X payload w of
        Inl e \<Rightarrow> (Some (Inl e), w)
      | Inr (ev, endpoint, delivery) \<Rightarrow>
          let record = record_attempt X (dr_id delivery); attempt = dr_attempt delivery in
          if \<not> endpoint_is_active endpoint then
            (Some (Inl (Permanent ''endpoint disabled'')),
             snd (record Del_Dead None (Some ''endpoint disabled'') 0 None attempt now w))
          else (case send X cfg env endpoint ev of
              Delivered status body duration_ms \<Rightarrow>
                (case record Del_Delivered (Some status) (Some body) duration_ms None attempt now w of
                   (Inl e, w') \<Rightarrow>
                     (Some (Inl (Retryable (''failed to record delivery: '' @ store_error_text X e))), w')
                 | (Inr _, w') \<Rightarrow> (Some (Inr ()), w'))
            | Failed status body duration_ms error \<Rightarrow>
                let next_retry = next_retry_at attempt now;
                    (row_status, next_attempt) =
                      (case next_retry of Some _ \<Rightarrow> (Del_Failed, attempt + 1) | None \<Rightarrow> (Del_Dead, attempt)) in
                (Some (Inl (Retryable error)),
                 snd (record row_status status body duration_ms next_retry next_attempt now w))))"

text \<open>The handlers the server registers: the delivery of webhooks and nothing else.\<close>

definition server_handlers :: "ext \<Rightarrow> string \<Rightarrow> delivery_env handler option" where
  "server_handlers X = register deliver_webhook (deliver X webhook_config_default) Map.empty"

section \<open>The text that is stored\<close>

lemma length_lossy_bytes: "length (lossy_bytes bs) \<le> 3 * length bs"
proof (induction bs rule: lossy_bytes.induct)
  case (2 b bs)
  obtain valid n where u: "utf8_char (b # bs) = (valid, n)" by fastforce
  have "length (lossy_bytes (drop (n - 1) bs)) \<le> 3 * (length bs - (n - 1))" using 2 [of "(valid, n)" valid n] u by simp
  then show ?case by (auto simp: u)
qed simp

lemma lossy_bytes_ascii: "list_all (\<lambda>b. b < 128) bs \<Longrightarrow> lossy_bytes bs = bs"
  by (induction bs) (simp_all add: utf8_char_def safe_get_def)

lemma from_utf8_lossy_length: "length (from_utf8_lossy s) \<le> 3 * length s"
  using length_lossy_bytes [of "map of_char s"] by (simp add: from_utf8_lossy_def)

lemma from_utf8_lossy_ascii: "list_all (\<lambda>c. (of_char c :: nat) < 128) s \<Longrightarrow> from_utf8_lossy s = s"
  by (simp add: from_utf8_lossy_def lossy_bytes_ascii list_all_iff comp_def)

lemma lossy_invalid: "lossy_bytes (replicate n 255) = concat (replicate n [239, 191, 189])"
  by (induction n) (simp_all add: utf8_char_def safe_get_def)

text \<open>The limit is on the bytes received: what is stored of them can be three times as long.\<close>

lemma stored_body_can_triple: "length (from_utf8_lossy (replicate 2048 (char_of (255::nat)))) = 6144"
proof -
  have "map of_char (replicate 2048 (char_of (255::nat) :: char)) = replicate 2048 (255::nat)" by (simp add: map_replicate)
  moreover have "length (concat (replicate n [239::nat, 191, 189])) = 3 * n" for n by (induction n) simp_all
  ultimately show ?thesis by (simp add: from_utf8_lossy_def lossy_invalid)
qed

section \<open>What the handler leaves alone\<close>

definition attempted ::
  "delivery_status \<Rightarrow> int option \<Rightarrow> string option \<Rightarrow> int \<Rightarrow> instant option \<Rightarrow> int \<Rightarrow> instant \<Rightarrow> delivery_row \<Rightarrow> delivery_row" where
  "attempted st rs body ms retry n now r = r\<lparr>dr_status := st, dr_response_status := rs, dr_response_body := body,
     dr_duration_ms := Some ms, dr_next_retry_at := retry, dr_attempt := n, dr_updated_at := now\<rparr>"

lemma attempted_keeps [simp]:
  "dr_id (attempted st rs body ms retry n now r) = dr_id r" "dr_status (attempted st rs body ms retry n now r) = st"
  "dr_attempt (attempted st rs body ms retry n now r) = n"
  "dr_next_retry_at (attempted st rs body ms retry n now r) = retry"
  by (simp_all add: attempted_def)

lemma record_attempt_Inr:
  "record_attempt X i st rs body ms retry n now w = (Inr u, w') \<Longrightarrow>
     w' = w\<lparr>db_deliveries := update_row dr_id i (attempted st rs body ms retry n now) (db_deliveries w)\<rparr>"
  by (simp add: record_attempt_def guarded_Inr attempted_def [abs_def])

lemma record_attempt_Inl: "record_attempt X i st rs body ms retry n now w = (Inl e, w') \<Longrightarrow> w' = w"
  by (simp add: record_attempt_def guarded_Inl)

lemma record_attempt_ok:
  assumes "\<not> has_nul (unwrap_or '''' body)" and "1 \<le> n"
  shows "record_attempt X i st rs body ms retry n now w =
    (Inr (), w\<lparr>db_deliveries := update_row dr_id i (attempted st rs body ms retry n now) (db_deliveries w)\<rparr>)"
  using assms by (simp add: record_attempt_def guarded_def attempted_def [abs_def])

definition deliveries_only :: "db \<Rightarrow> db \<Rightarrow> bool" where
  "deliveries_only w w' \<longleftrightarrow> (\<exists>ds. w' = w\<lparr>db_deliveries := ds\<rparr> \<and> map dr_id ds = map dr_id (db_deliveries w))"

lemma deliveries_only_self: "deliveries_only w w"
  unfolding deliveries_only_def by (rule exI [of _ "db_deliveries w"]) simp

lemma record_attempt_frame:
  assumes "record_attempt X i st rs body ms retry n now w = (res, w')"
  shows "deliveries_only w w'"
proof (cases res)
  case (Inl e)
  then show ?thesis using record_attempt_Inl assms deliveries_only_self by metis
next
  case (Inr u)
  then have w': "w' = w\<lparr>db_deliveries := update_row dr_id i (attempted st rs body ms retry n now) (db_deliveries w)\<rparr>"
    using record_attempt_Inr assms by metis
  have "map dr_id (update_row dr_id i (attempted st rs body ms retry n now) (db_deliveries w)) = map dr_id (db_deliveries w)"
    by (rule update_row_keys) (rule attempted_keeps(1))
  then show ?thesis unfolding w' deliveries_only_def by blast
qed

lemma deliver_frame:
  assumes "deliver X cfg env payload w = (r, w')"
  shows "r \<noteq> None \<and> deliveries_only w w'"
proof (cases "deliver_lookup X payload w")
  case (Inl e)
  with assms show ?thesis by (auto simp: deliver_def deliveries_only_self)
next
  case (Inr x)
  obtain ev ep d where x: "x = (ev, ep, d)" by (cases x)
  have rec: "deliveries_only w (snd (record_attempt X i st rs body ms retry n now w))" for i st rs body ms retry n now
    using record_attempt_frame prod.collapse by metis
  show ?thesis
    using assms unfolding deliver_def Inr x Let_def
    by (auto split: if_splits send_outcome.splits prod.splits sum.splits option.splits simp: rec intro: record_attempt_frame)
qed

interpretation server: job_handlers "server_handlers X" for X
proof unfold_locales
  fix kind h env payload w r w'
  assume "server_handlers X kind = Some h" and run: "h env payload w = (r, w')"
  then have "h = deliver X webhook_config_default" by (simp add: server_handlers_def register_def split: if_splits)
  then show "db_jobs w' = db_jobs w" using deliver_frame [of X webhook_config_default env payload w r w'] run
    by (auto simp: deliveries_only_def)
qed

section \<open>One delivery\<close>

definition accepted :: "http_failure + http_response \<Rightarrow> bool" where
  "accepted reply = (case reply of Inr resp \<Rightarrow> 200 \<le> rs_status resp \<and> rs_status resp < 300 | Inl _ \<Rightarrow> False)"

definition stored_body :: "webhook_config \<Rightarrow> http_failure + http_response \<Rightarrow> string option" where
  "stored_body cfg reply = (case reply of
     Inr resp \<Rightarrow> Some (from_utf8_lossy (take (wc_max_response_bytes cfg) (unwrap_or [] (rs_bytes resp)))) | Inl _ \<Rightarrow> None)"

lemma send_cases:
  assumes "reply = de_http env (delivery_request X cfg (de_sign_now env) ep ev)"
  shows "accepted reply \<Longrightarrow> \<exists>st b ms. send X cfg env ep ev = Delivered st b ms \<and> stored_body cfg reply = Some b"
    and "\<not> accepted reply \<Longrightarrow> \<exists>st ms err. send X cfg env ep ev = Failed st (stored_body cfg reply) ms err"
  unfolding send_def Let_def assms [symmetric]
  by (auto simp: accepted_def stored_body_def split: sum.splits)

lemma lookup_rows:
  assumes "deliver_lookup X payload w = Inr (ev, ep, d)"
  shows "ev \<in> set (db_events w)" "ep \<in> set (db_endpoints w)" "d \<in> set (db_deliveries w)"
  using assms by (auto simp: deliver_lookup_def rbind_Inr event_find_by_id_def endpoint_find_by_id_def
      delivery_find_by_id_def query_def fetch_row_def find_Some_iff)

text \<open>The row of the delivery after its handler, and what the handler returns, for an active endpoint.\<close>

lemma deliver_active:
  assumes found: "deliver_lookup X payload w = Inr (ev, ep, d)" and active: "endpoint_is_active ep"
    and n: "1 \<le> dr_attempt d"
    and reply: "reply = de_http env (delivery_request X cfg (de_sign_now env) ep ev)"
    and clean: "\<not> has_nul (unwrap_or '''' (stored_body cfg reply))"
  shows "\<exists>st ms err. deliver X cfg env payload w =
    (let (res, row_status, retry, attempt) =
       (if accepted reply then (Inr (), Del_Delivered, None, dr_attempt d)
        else (Inl (Retryable err), if dr_attempt d < 7 then Del_Failed else Del_Dead,
              next_retry_at (dr_attempt d) (de_now env), if dr_attempt d < 7 then dr_attempt d + 1 else dr_attempt d)) in
     (Some res, w\<lparr>db_deliveries := update_row dr_id (dr_id d)
        (attempted row_status st (stored_body cfg reply) ms retry attempt (de_now env)) (db_deliveries w)\<rparr>))"
proof (cases "accepted reply")
  case True
  then obtain st b ms where sent: "send X cfg env ep ev = Delivered st b ms" and b: "stored_body cfg reply = Some b"
    using send_cases(1) [OF reply] by blast
  have "record_attempt X (dr_id d) Del_Delivered (Some st) (Some b) ms None (dr_attempt d) (de_now env) w =
      (Inr (), w\<lparr>db_deliveries := update_row dr_id (dr_id d)
        (attempted Del_Delivered (Some st) (Some b) ms None (dr_attempt d) (de_now env)) (db_deliveries w)\<rparr>)"
    using clean n b by (intro record_attempt_ok) simp_all
  with True found active sent b show ?thesis by (intro exI [of _ "Some st"] exI [of _ ms]) (simp add: deliver_def Let_def)
next
  case False
  then obtain st ms err where sent: "send X cfg env ep ev = Failed st (stored_body cfg reply) ms err"
    using send_cases(2) [OF reply] by blast
  have rec: "record_attempt X (dr_id d) rst st (stored_body cfg reply) ms retry k (de_now env) w =
      (Inr (), w\<lparr>db_deliveries := update_row dr_id (dr_id d)
        (attempted rst st (stored_body cfg reply) ms retry k (de_now env)) (db_deliveries w)\<rparr>)" if "1 \<le> k" for rst retry k
    using clean that by (intro record_attempt_ok)
  show ?thesis
  proof (cases "next_retry_at (dr_attempt d) (de_now env)")
    case None
    then have "\<not> dr_attempt d < 7" using next_retry_at_None by force
    with None False found active sent rec [OF n] show ?thesis
      by (intro exI [of _ st] exI [of _ ms] exI [of _ err]) (simp add: deliver_def Let_def)
  next
    case (Some t)
    then have "dr_attempt d < 7" using next_retry_at_None [of "dr_attempt d" "de_now env"] by force
    with Some False found active sent rec [of "dr_attempt d + 1"] n show ?thesis
      by (intro exI [of _ st] exI [of _ ms] exI [of _ err]) (simp add: deliver_def Let_def)
  qed
qed

lemma next_retry_at_shift: "next_retry_at n t = Some u \<Longrightarrow> next_retry_at n t' = Some (t' + (u - t))"
  by (auto simp: next_retry_at_def Let_def split: if_splits)

text \<open>The row of the job and the row of the delivery after one execution of a delivery job.\<close>

lemma execute_delivery:
  assumes kind: "j_kind j = deliver_webhook" and row: "r \<in> set (db_jobs w)" "jr_id r = j_id j"
    and found: "deliver_lookup X (j_payload j) w = Inr (ev, ep, d)" and active: "endpoint_is_active ep"
    and n: "1 \<le> dr_attempt d"
    and reply: "reply = de_http env (delivery_request X webhook_config_default (de_sign_now env) ep ev)"
    and clean: "\<not> has_nul (unwrap_or '''' (stored_body webhook_config_default reply))"
    and run: "execute (server_handlers X) env now j w = (ok, w')"
  shows "ok \<and> (\<exists>r' \<in> set (db_jobs w'). \<exists>d' \<in> set (db_deliveries w'). jr_id r' = j_id j \<and> dr_id d' = dr_id d \<and>
    (if accepted reply then jr_state r' = Job_Completed \<and> dr_status d' = Del_Delivered \<and> dr_next_retry_at d' = None
     else jr_state r' = (if j_attempts j < 7 then Job_Pending else Job_Dead) \<and>
       (j_attempts j < 7 \<longrightarrow> next_retry_at (j_attempts j) now = Some (jr_run_at r')) \<and>
       dr_status d' = (if dr_attempt d < 7 then Del_Failed else Del_Dead) \<and>
       dr_next_retry_at d' = next_retry_at (dr_attempt d) (de_now env) \<and>
       dr_attempt d' = (if dr_attempt d < 7 then dr_attempt d + 1 else dr_attempt d)))"
proof -
  let ?c = webhook_config_default
  let ?res = "\<lambda>err. if accepted reply then Inr () else Inl (Retryable err)"
  let ?row = "\<lambda>st ms. if accepted reply
      then attempted Del_Delivered st (stored_body ?c reply) ms None (dr_attempt d) (de_now env)
      else attempted (if dr_attempt d < 7 then Del_Failed else Del_Dead) st (stored_body ?c reply) ms
        (next_retry_at (dr_attempt d) (de_now env)) (if dr_attempt d < 7 then dr_attempt d + 1 else dr_attempt d) (de_now env)"
  obtain st ms err where dl: "deliver X ?c env (j_payload j) w =
      (Some (?res err), w\<lparr>db_deliveries := update_row dr_id (dr_id d) (?row st ms) (db_deliveries w)\<rparr>)"
    using deliver_active [OF found active n reply clean] by (auto simp: Let_def split: if_splits)
  have h: "server_handlers X (j_kind j) = Some (deliver X ?c)" by (simp add: server_handlers_def register_def kind)
  have ok: ok and jobs: "db_jobs w' = update_row jr_id (j_id j) (finish_row now (j_attempts j) (?res err)) (db_jobs w)"
    and dels: "db_deliveries w' = update_row dr_id (dr_id d) (?row st ms) (db_deliveries w)"
    using run by (auto simp: execute_def h dl job_complete_jobs [where n = "j_attempts j"]
        fail_and_reschedule_jobs(2) split: if_splits)
  let ?r = "finish_row now (j_attempts j) (?res err) r" and ?d = "?row st ms d"
  have "?r \<in> set (db_jobs w')" "jr_id ?r = j_id j" using row unfolding jobs set_update_row by auto
  moreover have "?d \<in> set (db_deliveries w')" "dr_id ?d = dr_id d"
    using lookup_rows(3) [OF found] unfolding dels set_update_row by auto
  moreover have "jr_state (finish_row now (j_attempts j) (Inl (Retryable err)) r) = (if j_attempts j < 7 then Job_Pending else Job_Dead)"
    by (simp add: finish_row_retry_forever max_attempts_def)
  moreover have "j_attempts j < 7 \<longrightarrow>
      next_retry_at (j_attempts j) now = Some (jr_run_at (finish_row now (j_attempts j) (Inl (Retryable err)) r))"
    using next_retry_at_None [of "j_attempts j" now] by (auto simp: finish_row_def)
  moreover have "jr_state (finish_row now (j_attempts j) (Inr ()) r) = Job_Completed" by (simp add: finish_row_def)
  ultimately show ?thesis using ok by (intro conjI bexI [of _ ?r] bexI [of _ ?d]) simp_all
qed

text \<open>An endpoint disabled since, and an answer that cannot be stored.\<close>

lemma deliver_disabled:
  assumes "deliver_lookup X payload w = Inr (ev, ep, d)" and "\<not> endpoint_is_active ep" and "1 \<le> dr_attempt d"
  shows "deliver X cfg env payload w = (Some (Inl (Permanent ''endpoint disabled'')),
    w\<lparr>db_deliveries := update_row dr_id (dr_id d)
      (attempted Del_Dead None (Some ''endpoint disabled'') 0 None (dr_attempt d) (de_now env)) (db_deliveries w)\<rparr>)"
proof -
  have "\<not> has_nul (unwrap_or '''' (Some ''endpoint disabled''))" by code_simp
  then show ?thesis using assms by (simp add: deliver_def Let_def record_attempt_ok)
qed

lemma deliver_unstorable:
  assumes found: "deliver_lookup X payload w = Inr (ev, ep, d)" and active: "endpoint_is_active ep"
    and reply: "reply = de_http env (delivery_request X cfg (de_sign_now env) ep ev)"
    and nul: "has_nul (unwrap_or '''' (stored_body cfg reply))"
  shows "\<exists>m. deliver X cfg env payload w = (Some (Inl (Retryable m)), w)"
proof -
  have rec: "\<exists>e. record_attempt X i rst st (stored_body cfg reply) ms retry n (de_now env) w = (Inl e, w)" for i rst st ms retry n
    using nul by (simp add: record_attempt_def guarded_def)
  show ?thesis
  proof (cases "accepted reply")
    case True
    then obtain st b ms where sent: "send X cfg env ep ev = Delivered st b ms" and b: "stored_body cfg reply = Some b"
      using send_cases(1) [OF reply] by blast
    obtain e where "record_attempt X (dr_id d) Del_Delivered (Some st) (Some b) ms None (dr_attempt d) (de_now env) w = (Inl e, w)"
      using rec unfolding b by blast
    then show ?thesis using found active sent by (simp add: deliver_def Let_def)
  next
    case False
    then obtain st ms err where sent: "send X cfg env ep ev = Failed st (stored_body cfg reply) ms err"
      using send_cases(2) [OF reply] by blast
    have "snd (record_attempt X i rst st (stored_body cfg reply) ms retry n (de_now env) w) = w" for i rst retry n
      using rec [of i rst st ms retry n] by auto
    then show ?thesis using found active sent by (simp add: deliver_def Let_def split: option.split)
  qed
qed

lemma server_deliver: "j_kind j = deliver_webhook \<Longrightarrow> server_handlers X (j_kind j) = Some (deliver X webhook_config_default)"
  by (simp add: server_handlers_def register_def)

lemma finish_row_in:
  "r \<in> set rows \<Longrightarrow> jr_id r = i \<Longrightarrow> finish_row now n res r \<in> set (update_row jr_id i (finish_row now n res) rows)"
  by (auto simp: set_update_row)

lemma execute_disabled:
  assumes "j_kind j = deliver_webhook" and row: "r \<in> set (db_jobs w)" "jr_id r = j_id j"
    and found: "deliver_lookup X (j_payload j) w = Inr (ev, ep, d)" and "\<not> endpoint_is_active ep" and "1 \<le> dr_attempt d"
    and run: "execute (server_handlers X) env now j w = (ok, w')"
  shows "ok \<and> (\<exists>r' \<in> set (db_jobs w'). \<exists>d' \<in> set (db_deliveries w'). jr_id r' = j_id j \<and> dr_id d' = dr_id d \<and>
    jr_state r' = Job_Dead \<and> dr_status d' = Del_Dead \<and> dr_next_retry_at d' = None)"
proof -
  let ?e = "Inl (Permanent ''endpoint disabled'')" and
    ?d = "attempted Del_Dead None (Some ''endpoint disabled'') 0 None (dr_attempt d) (de_now env)"
  have w': "ok" "db_jobs w' = update_row jr_id (j_id j) (finish_row now (j_attempts j) ?e) (db_jobs w)"
    "db_deliveries w' = update_row dr_id (dr_id d) ?d (db_deliveries w)"
    using run by (auto simp: execute_def server_deliver [OF assms(1)] deliver_disabled [OF found assms(5,6)]
        fail_and_reschedule_jobs(1) [where n = "j_attempts j"])
  moreover have "?d d \<in> set (db_deliveries w')" using lookup_rows(3) [OF found] by (auto simp: w'(3) set_update_row)
  ultimately show ?thesis
    using finish_row_in [OF row, of now "j_attempts j" ?e] row(2)
    by (intro conjI bexI [of _ "finish_row now (j_attempts j) ?e r"] bexI [of _ "?d d"]) (simp_all add: finish_row_def)
qed

lemma execute_unstorable:
  assumes "j_kind j = deliver_webhook" and row: "r \<in> set (db_jobs w)" "jr_id r = j_id j"
    and found: "deliver_lookup X (j_payload j) w = Inr (ev, ep, d)" and "endpoint_is_active ep"
    and "reply = de_http env (delivery_request X webhook_config_default (de_sign_now env) ep ev)"
    and "has_nul (unwrap_or '''' (stored_body webhook_config_default reply))"
    and run: "execute (server_handlers X) env now j w = (ok, w')"
  shows "ok \<and> db_deliveries w' = db_deliveries w \<and> (\<exists>r' \<in> set (db_jobs w'). jr_id r' = j_id j \<and>
    jr_state r' = (if j_attempts j < 7 then Job_Pending else Job_Dead))"
proof -
  obtain m where m: "deliver X webhook_config_default env (j_payload j) w = (Some (Inl (Retryable m)), w)"
    using deliver_unstorable [OF found assms(5-7)] by blast
  have w': "ok" "db_jobs w' = update_row jr_id (j_id j) (finish_row now (j_attempts j) (Inl (Retryable m))) (db_jobs w)"
    "db_deliveries w' = db_deliveries w"
    using run by (auto simp: execute_def server_deliver [OF assms(1)] m fail_and_reschedule_jobs(2))
  then show ?thesis
    using finish_row_in [OF row, of now "j_attempts j" "Inl (Retryable m)"] row(2)
    by (intro conjI bexI [of _ "finish_row now (j_attempts j) (Inl (Retryable m)) r"])
      (simp_all add: finish_row_retry_forever max_attempts_def)
qed


text \<open>
  Where the mirror breaks. A crash between a claim and its execution counts an attempt of the job but none
  of the delivery, so in its last attempt the job can be ahead of its delivery; when the endpoint then fails,
  the job dies while the delivery log still shows a failed delivery with the time of a retry that never comes.
\<close>
theorem crash_breaks_the_mirror:
  assumes "j_kind j = deliver_webhook" and "r \<in> set (db_jobs w)" and "jr_id r = j_id j"
    and "deliver_lookup X (j_payload j) w = Inr (ev, ep, d)" and "endpoint_is_active ep"
    and "1 \<le> dr_attempt d" and behind: "dr_attempt d < 7" "j_attempts j = 7"
    and reply: "reply = de_http env (delivery_request X webhook_config_default (de_sign_now env) ep ev)"
    and "\<not> has_nul (unwrap_or '''' (stored_body webhook_config_default reply))" and refused: "\<not> accepted reply"
    and "execute (server_handlers X) env now j w = (ok, w')"
  shows "\<exists>r' \<in> set (db_jobs w'). \<exists>d' \<in> set (db_deliveries w'). jr_id r' = j_id j \<and> dr_id d' = dr_id d \<and>
    jr_state r' = Job_Dead \<and> dr_status d' = Del_Failed \<and> dr_next_retry_at d' \<noteq> None"
  using execute_delivery [OF assms(1-6) reply assms(10,12)] behind refused
    next_retry_at_None [of "dr_attempt d" "de_now env"] by fastforce

section \<open>A delivery on concrete data\<close>

definition demo_reply :: "http_failure + http_response \<Rightarrow> delivery_env" where
  "demo_reply reply = \<lparr>de_now = 100, de_sign_now = 100, de_http = (\<lambda>_. reply), de_elapsed_ms = 5\<rparr>"

text \<open>An event with one subscribed endpoint, whose job is claimed for its attempt \<open>n\<close>.\<close>

definition demo_emitted :: db where
  "demo_emitted = snd (emit demo_ext [demo_endpoint 41 [] None] 7 ''payment.failed'' JNull 9
     (demo_db\<lparr>db_endpoints := [demo_endpoint 41 [] None]\<rparr>))"

definition demo_claim :: "int \<Rightarrow> job \<times> db" where
  "demo_claim n =
     (let w = demo_emitted\<lparr>db_jobs := map (\<lambda>r. r\<lparr>jr_attempts := n - 1\<rparr>) (db_jobs demo_emitted)\<rparr> in
      case claim_batch demo_ext {} ''w1'' 10 9 w of (res, w') \<Rightarrow> (hd (projr res), w'))"

definition demo_ready :: "int \<Rightarrow> int \<Rightarrow> job \<times> db \<Rightarrow> bool" where
  "demo_ready n k x = (case x of (j, w) \<Rightarrow> j_kind j = deliver_webhook \<and> j_attempts j = n \<and>
     list_ex (\<lambda>r. jr_id r = j_id j) (db_jobs w) \<and>
     (case deliver_lookup demo_ext (j_payload j) w of
        Inr (ev, ep, d) \<Rightarrow> endpoint_is_active ep \<and> dr_attempt d = k | Inl _ \<Rightarrow> False))"

lemma demo_readyD:
  assumes "demo_ready n k (j, w)"
  obtains r ev ep d where "j_kind j = deliver_webhook" "j_attempts j = n" "r \<in> set (db_jobs w)" "jr_id r = j_id j"
    "deliver_lookup demo_ext (j_payload j) w = Inr (ev, ep, d)" "endpoint_is_active ep" "dr_attempt d = k"
  using assms by (auto simp: demo_ready_def list_ex_iff split: sum.splits prod.splits)

lemma demo_claims: "demo_ready 1 1 (demo_claim 1)" "demo_ready 7 1 (demo_claim 7)"
  by code_simp+

definition demo_500 :: "http_failure + http_response" where
  "demo_500 = Inr \<lparr>rs_status = 500, rs_bytes = Some ''no''\<rparr>"

lemma demo_500: "\<not> accepted demo_500" "\<not> has_nul (unwrap_or '''' (stored_body webhook_config_default demo_500))"
  by code_simp+

definition demo_nul :: "http_failure + http_response" where
  "demo_nul = Inr \<lparr>rs_status = 200, rs_bytes = Some [CHR ''o'', CHR 0x00]\<rparr>"

lemma demo_nul: "accepted demo_nul" "has_nul (unwrap_or '''' (stored_body webhook_config_default demo_nul))"
  by code_simp+


theorem crash_breaks_the_mirror_witness:
  "\<exists>j w ok w'. demo_claim 7 = (j, w) \<and> execute (server_handlers demo_ext) (demo_reply demo_500) 100 j w = (ok, w') \<and>
     (\<exists>r' \<in> set (db_jobs w'). \<exists>d' \<in> set (db_deliveries w').
        jr_state r' = Job_Dead \<and> dr_status d' = Del_Failed \<and> dr_next_retry_at d' \<noteq> None)"
proof -
  obtain j w where c: "demo_claim 7 = (j, w)" by fastforce
  obtain ok w' where run: "execute (server_handlers demo_ext) (demo_reply demo_500) 100 j w = (ok, w')" by fastforce
  from demo_claims(2) [unfolded c] obtain r ev ep d where f: "j_kind j = deliver_webhook" "j_attempts j = 7"
    "r \<in> set (db_jobs w)" "jr_id r = j_id j" "deliver_lookup demo_ext (j_payload j) w = Inr (ev, ep, d)"
    "endpoint_is_active ep" "dr_attempt d = 1" by (rule demo_readyD)
  have "\<exists>r' \<in> set (db_jobs w'). \<exists>d' \<in> set (db_deliveries w').
        jr_state r' = Job_Dead \<and> dr_status d' = Del_Failed \<and> dr_next_retry_at d' \<noteq> None"
    using crash_breaks_the_mirror [OF f(1,3-6) _ _ f(2) _ demo_500(2,1) run] f(7) by (auto simp: demo_reply_def)
  with c run show ?thesis by blast
qed

section \<open>From an emission to the endpoint\<close>

lemma payload_roundtrip:
  assumes "uuid_text_ok X"
  shows "payload_from_value X (delivery_payload X d ev ep) =
    Some \<lparr>dp_delivery_id = d, dp_event_id = id_to_string X EventMarker ev,
          dp_endpoint_id = id_to_string X WebhookEndpointMarker ep\<rparr>"
  using assms by (simp add: payload_from_value_def delivery_payload_def jobject_def map_of_sort_key payload_fields_def uuid_text_ok_def)

lemma fetch_row_present:
  "distinct (map k rs) \<Longrightarrow> r \<in> set rs \<Longrightarrow> k r = i \<Longrightarrow> fetch_row what k Inr i rs = Inr r"
  by (simp add: fetch_row_def find_key_Some [THEN iffD2])

lemma deliver_lookup_present:
  assumes "uuid_text_ok X" and "distinct (map ev_id (db_events w))" and "distinct (map ep_id (db_endpoints w))"
    and "distinct (map dr_id (db_deliveries w))"
    and "ev \<in> set (db_events w)" and "ep \<in> set (db_endpoints w)" and "d \<in> set (db_deliveries w)"
  shows "deliver_lookup X (delivery_payload X (dr_id d) (ev_id ev) (ep_id ep)) w = Inr (ev, ep, d)"
  using assms by (simp add: deliver_lookup_def payload_roundtrip id_from_own_text event_find_by_id_def
      endpoint_find_by_id_def delivery_find_by_id_def query_def fetch_row_present)

lemma fanout_jobs_mem:
  "j \<in> set (fanout_jobs X ev now n es) \<Longrightarrow>
     \<exists>e \<in> set es. \<exists>d \<in> set (fanout_deliveries X ev now n es).
       jr_payload j = delivery_payload X (dr_id d) ev (ep_id e) \<and> dr_attempt d = 1"
  by (induction es arbitrary: n) (auto simp: new_job_row_def)

lemma request_signed:
  assumes "hex_text_ok X" and "in_i64 (unix_timestamp t)" and "0 \<le> recv" and "recv < 2 ^ 62"
    and "\<bar>recv - unix_timestamp t\<bar> \<le> default_tolerance_secs"
  shows "\<exists>sg. map_of (rq_headers (delivery_request X cfg t e r)) ''X-Sandbox-Signature'' = Some sg \<and>
    sig_verify X (ep_signing_secret e) sg (rq_body (delivery_request X cfg t e r)) recv default_tolerance_secs = Inr ()"
  using sig_verify_built [OF assms(1,2)] wrapped_drift [OF assms(3,4,2), of default_tolerance_secs] assms(5)
  by (simp add: delivery_request_def Let_def default_tolerance_secs_def)



section \<open>Endpoints that are disabled\<close>

text \<open>
  A disabled endpoint gets nothing. When its endpoint was disabled after the job was written, executing the
  job sends no request (what any endpoint would answer makes no difference), the job is dead without a retry
  and the delivery log shows the delivery dead.
\<close>
theorem disabled_endpoint_gets_nothing:
  assumes "j_kind j = deliver_webhook" and "r \<in> set (db_jobs w)" and "jr_id r = j_id j"
    and found: "deliver_lookup X (j_payload j) w = Inr (ev, ep, d)" and off: "ep_disabled_at ep = Some t"
    and "1 \<le> dr_attempt d" and run: "execute (server_handlers X) env now j w = (ok, w')"
  shows "ok \<and> execute (server_handlers X) (env\<lparr>de_http := other\<rparr>) now j w = (ok, w') \<and>
    (\<exists>r' \<in> set (db_jobs w'). \<exists>d' \<in> set (db_deliveries w'). jr_id r' = j_id j \<and> dr_id d' = dr_id d \<and>
       jr_state r' = Job_Dead \<and> dr_status d' = Del_Dead \<and> dr_next_retry_at d' = None)"
proof -
  have off': "\<not> endpoint_is_active ep" using off by (simp add: endpoint_is_active_def)
  have "execute (server_handlers X) (env\<lparr>de_http := other\<rparr>) now j w = (ok, w')"
    using run by (simp add: execute_def server_deliver [OF assms(1)] deliver_disabled [OF found off' assms(6)])
  then show ?thesis using execute_disabled [OF assms(1-3) found off' assms(6) run] by blast
qed

definition demo_disabled :: "job \<times> db" where
  "demo_disabled = (case demo_claim 1 of (j, w) \<Rightarrow>
     (j, w\<lparr>db_endpoints := map (\<lambda>e. e\<lparr>ep_disabled_at := Some 50\<rparr>) (db_endpoints w)\<rparr>))"

theorem disabled_endpoint_gets_nothing_witness:
  "\<exists>j w w'. demo_disabled = (j, w) \<and> execute (server_handlers demo_ext) (demo_reply demo_500) 100 j w = (True, w') \<and>
     (\<exists>d' \<in> set (db_deliveries w'). dr_status d' = Del_Dead)"
proof -
  obtain j w where c: "demo_disabled = (j, w)" by fastforce
  have "case demo_disabled of (j, w) \<Rightarrow> j_kind j = deliver_webhook \<and> list_ex (\<lambda>r. jr_id r = j_id j) (db_jobs w) \<and>
     (case deliver_lookup demo_ext (j_payload j) w of
        Inr (ev, ep, d) \<Rightarrow> ep_disabled_at ep = Some 50 \<and> dr_attempt d = 1 | Inl _ \<Rightarrow> False)" by code_simp
  then obtain r ev ep d where f: "j_kind j = deliver_webhook" "r \<in> set (db_jobs w)" "jr_id r = j_id j"
    "deliver_lookup demo_ext (j_payload j) w = Inr (ev, ep, d)" "ep_disabled_at ep = Some 50" "dr_attempt d = 1"
    by (auto simp: c list_ex_iff split: sum.splits prod.splits)
  obtain ok w' where run: "execute (server_handlers demo_ext) (demo_reply demo_500) 100 j w = (ok, w')" by fastforce
  have "1 \<le> dr_attempt d" using f(6) by simp
  from disabled_endpoint_gets_nothing [OF f(1-5) this run] c run show ?thesis by (metis (full_types))
qed

end
