(* ===== verification/Queue_Properties.thy ===== *)
theory Queue_Properties
  imports Webhooks
begin

text \<open>
  What the queue of the server promises, with the handlers it registers: the safety of several workers that
  share it, what a tick executes, and where the promises end. The lemmas
  come from the interpretation \<open>server\<close> of the contract \<open>job_handlers\<close>.
\<close>

section \<open>Ticks return\<close>

lemma server_execute_returns: "fst (execute (server_handlers X) env now j w)"
proof -
  obtain r w' where run: "deliver X webhook_config_default env (j_payload j) w = (r, w')" by fastforce
  from deliver_frame [OF this] obtain res where "r = Some res" by blast
  with run show ?thesis
    by (auto simp: execute_def server_handlers_def register_def split: sum.splits job_error.splits)
qed

lemma server_execute_all_returns: "fst (execute_all (server_handlers X) envs n js w)"
proof (induction js arbitrary: n w)
  case (Cons j js)
  obtain ok w1 where run: "execute (server_handlers X) (snd (envs n)) (fst (envs n)) j w = (ok, w1)" by fastforce
  then have ok using server_execute_returns [of X "snd (envs n)" "fst (envs n)" j w] by simp
  with Cons run show ?case by simp
qed simp

lemma server_tick_returns: "worker_tick X c (server_handlers X) e w = (ok, w') \<Longrightarrow> ok"
  using server_execute_all_returns [of X "exec_envs e" 0]
  by (auto simp: worker_tick_def Let_def split: prod.splits sum.splits) (metis fst_conv)

definition demo_tick :: "delivery_env tick_env" where
  "demo_tick = \<lparr>tick_now = 60, tick_locked = {}, exec_envs = (\<lambda>_. (60, demo_reply demo_500))\<rparr>"

section \<open>Safety\<close>

text \<open>
  C25. Workers that share the queue. Whatever the interleaving of claims, executions, crashes, reaping and other
  transactions, as long as a lease is reaped only from a worker that no longer holds it: two workers never hold
  the same job; a job a worker holds is running, stamped with that worker, in the attempt it was claimed as; the
  attempts of every job stay within its limit; and a job that is completed or dead stays as it is.
\<close>
theorem workers_share_queue_safely:
  assumes "queue_reachable X (server_handlers X) s" and "queue_step X (server_handlers X) s s'"
  shows "(wk \<noteq> wk' \<longrightarrow> j_id ` set (q_flight s wk) \<inter> j_id ` set (q_flight s wk') = {}) \<and>
    (\<forall>j \<in> set (q_flight s wk). \<exists>r \<in> set (db_jobs (q_db s)). jr_id r = j_id j \<and> jr_state r = Job_Running \<and>
       jr_locked_by r = Some wk \<and> jr_attempts r = j_attempts j) \<and>
    (\<forall>r \<in> set (db_jobs (q_db s)). 0 \<le> jr_attempts r \<and> jr_attempts r \<le> jr_max_attempts r \<and>
       (jr_state r = Job_Completed \<or> jr_state r = Job_Dead \<longrightarrow> r \<in> set (db_jobs (q_db s'))))"
proof -
  obtain w flight where s: "s = \<lparr>q_db = w, q_flight = flight\<rparr>" by (cases s) 
  have inv: "queue_inv s" by (rule server.queue_reachable_inv [OF assms(1)])
  note D = queue_invD [OF inv [unfolded s]]
  have "wk = wk'" if "j \<in> set (flight wk)" "j' \<in> set (flight wk')" "j_id j = j_id j'" for j j'
    using queue_inv_exclusive [OF inv [unfolded s] that] .
  then have "wk \<noteq> wk' \<longrightarrow> j_id ` set (q_flight s wk) \<inter> j_id ` set (q_flight s wk') = {}" by (auto simp: s)
  moreover have "\<exists>r \<in> set (db_jobs w). jr_id r = j_id j \<and> jr_state r = Job_Running \<and>
      jr_locked_by r = Some wk \<and> jr_attempts r = j_attempts j" if "j \<in> set (flight wk)" for j
    using D(4) [OF that] by (simp add: held_by_def)
  moreover have "0 \<le> jr_attempts r \<and> jr_attempts r \<le> jr_max_attempts r" if "r \<in> set (db_jobs w)" for r
    using D(2) [OF that] by (simp add: row_bounds_def)
  moreover have "r \<in> set (db_jobs (q_db s'))" if "r \<in> set (db_jobs w)" "jr_state r = Job_Completed \<or> jr_state r = Job_Dead" for r
    using server.queue_step_terminal [OF assms(2) inv] that by (simp add: s is_terminal_job_def)
  ultimately show ?thesis by (simp add: s)
qed

theorem workers_share_queue_safely_witness:
  "\<exists>s s'. queue_reachable demo_ext (server_handlers demo_ext) s \<and> queue_step demo_ext (server_handlers demo_ext) s s' \<and>
     map j_id (q_flight s ''w1'') = [12] \<and>
     (\<forall>j \<in> set (q_flight s ''w1''). \<exists>r \<in> set (db_jobs (q_db s)). jr_id r = j_id j \<and> jr_state r = Job_Running \<and>
       jr_locked_by r = Some ''w1'' \<and> jr_attempts r = j_attempts j)"
proof -
  let ?new = "[demo_job 11 50 0, demo_job 12 40 0]" and ?H = "server_handlers demo_ext"
  let ?w = "demo_db\<lparr>db_jobs := ?new\<rparr>"
  have "queue_reachable demo_ext ?H \<lparr>q_db = demo_db, q_flight = (\<lambda>_. [])\<rparr>"
    by (rule Start) (simp add: demo_db_def)
  moreover have "queue_step demo_ext ?H \<lparr>q_db = demo_db, q_flight = (\<lambda>_. [])\<rparr> \<lparr>q_db = ?w, q_flight = (\<lambda>_. [])\<rparr>"
    by (rule Other [where new = ?new])
      (simp_all add: demo_db_def demo_job_def new_job_row_def new_job_def max_attempts_def)
  ultimately have r1: "queue_reachable demo_ext ?H \<lparr>q_db = ?w, q_flight = (\<lambda>_. [])\<rparr>" by (rule Step)
  let ?claim = "run_tx demo_ext (\<lambda>e. e) (claim_batch demo_ext {} ''w1'' 1 60) ?w"
  have "case ?claim of (r, w') \<Rightarrow> (case r of Inr js \<Rightarrow> map j_id js = [12] | Inl _ \<Rightarrow> False)" by code_simp
  then obtain js w' where run: "?claim = (Inr js, w')" and js: "map j_id js = [12]"
    by (cases ?claim) (auto split: sum.splits)
  let ?s = "\<lparr>q_db = w', q_flight = (\<lambda>_. [])(''w1'' := js)\<rparr>"
  have "queue_step demo_ext ?H \<lparr>q_db = ?w, q_flight = (\<lambda>_. [])\<rparr> ?s" by (rule Claim [OF _ run]) simp
  with r1 have r2: "queue_reachable demo_ext ?H ?s" by (rule Step)
  have step: "queue_step demo_ext ?H ?s \<lparr>q_db = w', q_flight = ((\<lambda>_. [])(''w1'' := js))(''w1'' := [])\<rparr>" by (rule Crash)
  have "\<forall>j \<in> set (q_flight ?s ''w1''). \<exists>r \<in> set (db_jobs (q_db ?s)). jr_id r = j_id j \<and> jr_state r = Job_Running \<and>
       jr_locked_by r = Some ''w1'' \<and> jr_attempts r = j_attempts j"
    by (rule workers_share_queue_safely [OF r2 step, THEN conjunct2, THEN conjunct1])
  moreover have "map j_id (q_flight ?s ''w1'') = [12]" using js by simp
  ultimately show ?thesis using r2 step by (intro exI conjI)
qed

text \<open>
  C26. Due work is done. When a tick finds no more due jobs than its batch has room for, counting those whose lease a dead
  worker left to expire and leaving out those another claim has locked in that instant, and each of these due jobs has
  an attempt left, then the tick returns with every one of them executed once, in one attempt more: completed, dead
  with its error, or waiting for a later time with attempts left. All other jobs, whatever their attempts, are as they
  were, save that an expired lease is back to pending.
\<close>
theorem tick_executes_due_jobs:
  assumes tick: "worker_tick X c (server_handlers X) e w = (ok, w')" and d: "distinct (map jr_id (db_jobs w))"
    and room: "int (length (filter (due_for c e) (db_jobs w))) \<le> batch_size c"
    and left: "list_all (\<lambda>r. due_for c e r \<longrightarrow> 0 \<le> jr_attempts r \<and> jr_attempts r < jr_max_attempts r) (db_jobs w)"
  shows "ok \<and> list_all2 (\<lambda>r r'. jr_id r' = jr_id r \<and>
    (if due_for c e r then settled_row r' \<and> jr_attempts r' = jr_attempts r + 1
     else r' = reaped (tick_now e - lease_timeout c) (tick_now e) r)) (db_jobs w) (db_jobs w')"
proof -
  have ok: ok by (rule server_tick_returns [OF tick])
  then show ?thesis using server.due_jobs_executed [OF tick [unfolded eqTrueI [OF ok]] d room left] by blast
qed

text \<open>A queue with a job that died in its last attempt and one that another claim has locked; the other two are executed.\<close>

definition demo_mixed :: db where
  "demo_mixed = demo_queue\<lparr>db_jobs := (demo_job 10 20 7)\<lparr>jr_state := Job_Dead, jr_last_error := Some ''timeout''\<rparr> # db_jobs demo_queue\<rparr>"

theorem tick_executes_due_jobs_witness:
  "\<exists>w'. worker_tick demo_ext demo_worker (server_handlers demo_ext) (demo_tick\<lparr>tick_locked := {12}\<rparr>) demo_mixed = (True, w') \<and>
     list_all2 (\<lambda>r r'. jr_id r' = jr_id r) (db_jobs demo_mixed) (db_jobs w') \<and>
     map jr_state (db_jobs w') = [Job_Dead, Job_Dead, Job_Pending, Job_Pending, Job_Dead]"
proof -
  let ?e = "demo_tick\<lparr>tick_locked := {12}\<rparr>"
  let ?tick = "worker_tick demo_ext demo_worker (server_handlers demo_ext) ?e demo_mixed"
  have "case ?tick of (ok, w') \<Rightarrow> ok \<and> map jr_state (db_jobs w') = [Job_Dead, Job_Dead, Job_Pending, Job_Pending, Job_Dead]"
    by code_simp
  then obtain w' where run: "?tick = (True, w')"
    and states: "map jr_state (db_jobs w') = [Job_Dead, Job_Dead, Job_Pending, Job_Pending, Job_Dead]" by (cases ?tick) auto
  have d: "distinct (map jr_id (db_jobs demo_mixed))" by (simp add: demo_mixed_def demo_queue_def demo_job_def new_job_row_def)
  have room: "int (length (filter (due_for demo_worker ?e) (db_jobs demo_mixed))) \<le> batch_size demo_worker"
    by code_simp
  have left: "list_all (\<lambda>r. due_for demo_worker ?e r \<longrightarrow> 0 \<le> jr_attempts r \<and> jr_attempts r < jr_max_attempts r) (db_jobs demo_mixed)"
    by (simp add: demo_mixed_def demo_queue_def demo_job_def new_job_row_def max_attempts_def due_for_def ready_def reaped_def is_stale_def)
  have "list_all2 (\<lambda>r r'. jr_id r' = jr_id r) (db_jobs demo_mixed) (db_jobs w')"
    by (rule list_all2_mono [OF tick_executes_due_jobs [OF run d room left, THEN conjunct2]]) (erule conjunct1)
  with run states show ?thesis by (intro exI conjI)
qed

section \<open>Where the promises end\<close>

lemma unfinished_covers_due:
  "length (filter (due_for c e) rows) \<le> length (filter (\<lambda>q. jr_state q \<in> {Job_Pending, Job_Running}) rows)"
proof -
  have "due_for c e q \<Longrightarrow> jr_state q \<in> {Job_Pending, Job_Running}" for q
    by (auto simp: due_for_def ready_def reaped_def is_stale_def split: if_splits)
  then show ?thesis by (induction rows) auto
qed

lemma list_all2_memD: "list_all2 P xs ys \<Longrightarrow> x \<in> set xs \<Longrightarrow> \<exists>y \<in> set ys. P x y"
  by (induction rule: list_all2_induct) auto

text \<open>What the late execution leaves: the finished row is pending again.\<close>

lemma late_execution:
  assumes "j_kind j = deliver_webhook"
    and fails: "deliver X webhook_config_default env (j_payload j) w = (Some (Inl (Retryable m)), v)"
    and r: "r \<in> set (db_jobs w)" "jr_id r = j_id j" "is_terminal_job r"
    and t: "next_retry_at (j_attempts j) now = Some t"
    and run: "execute (server_handlers X) env now j w = (ok, w')"
  obtains r' where "ok" "r' \<in> set (db_jobs w')" "jr_id r' = jr_id r" "jr_state r' = Job_Pending" "jr_locked_by r' = None"
    "jr_attempts r' = jr_attempts r" "jr_max_attempts r' = jr_max_attempts r" "jr_run_at r' = t"
    "r \<notin> set (db_jobs w')" "map jr_id (db_jobs w') = map jr_id (db_jobs w)"
proof -
  let ?f = "finish_row now (j_attempts j) (Inl (Retryable m))"
  have "db_jobs v = db_jobs w" using deliver_frame [OF fails] by (auto simp: deliveries_only_def)
  then have w': "ok" "db_jobs w' = update_row jr_id (j_id j) ?f (db_jobs w)"
    using run by (auto simp: execute_def server_deliver [OF assms(1)] fails fail_and_reschedule_jobs(2))
  have pending: "jr_state (?f q) = Job_Pending" for q by (simp add: finish_row_def t)
  moreover have "?f r \<in> set (db_jobs w')" unfolding w'(2) by (rule finish_row_in [OF r(1,2)])
  moreover have "r \<notin> set (db_jobs w')"
    using pending r(2,3) by (auto simp: w'(2) set_update_row is_terminal_job_def)
  moreover have "jr_locked_by (?f r) = None" "jr_run_at (?f r) = t" by (simp_all add: finish_row_def t)
  moreover have "map jr_id (db_jobs w') = map jr_id (db_jobs w)" unfolding w'(2) by (rule update_row_keys) simp
  ultimately show thesis using w'(1) by (intro that [of "?f r"]) simp_all
qed

text \<open>
  C40. A worker that is late. Finishing a job writes its row by id alone, whoever holds it now: when a worker
  outlives its lease and its delivery then fails with an attempt left, a job that another worker finished in the meantime
  goes back to pending, without a lease. Take then a tick for which that row is due and not locked, whose batch has room
  for every unfinished job and whose other due jobs have an attempt left. When the other worker's attempt was not the
  last of the job, the tick executes the finished job once more; when it was the last, the tick executes nothing at all.
\<close>
theorem late_worker_reopens_finished_job:
  assumes "j_kind j = deliver_webhook"
    and "deliver X webhook_config_default env (j_payload j) w = (Some (Inl (Retryable m)), v)"
    and "r \<in> set (db_jobs w)" and "jr_id r = j_id j" and "is_terminal_job r" and "0 \<le> jr_attempts r"
    and d: "distinct (map jr_id (db_jobs w))"
    and late: "execute (server_handlers X) env now j w = (ok, w')"
    and tick: "worker_tick X c (server_handlers X) e w' = (ok', w'')"
    and due: "next_retry_at (j_attempts j) now = Some t" "t \<le> tick_now e" "jr_id r \<notin> tick_locked e"
    and room: "int (length (filter (\<lambda>q. jr_state q \<in> {Job_Pending, Job_Running}) (db_jobs w'))) \<le> batch_size c"
    and left: "list_all (\<lambda>q. due_for c e q \<and> jr_id q \<noteq> jr_id r \<longrightarrow> 0 \<le> jr_attempts q \<and> jr_attempts q < jr_max_attempts q) (db_jobs w')"
  shows "ok \<and> r \<notin> set (db_jobs w') \<and>
    (\<exists>r' \<in> set (db_jobs w'). jr_id r' = jr_id r \<and> jr_state r' = Job_Pending \<and> jr_locked_by r' = None \<and> jr_run_at r' = t) \<and>
    (if jr_attempts r < jr_max_attempts r
     then \<exists>r'' \<in> set (db_jobs w''). jr_id r'' = jr_id r \<and> settled_row r'' \<and> jr_attempts r'' = jr_attempts r + 1
     else w'' = w'\<lparr>db_jobs := map (reaped (tick_now e - lease_timeout c) (tick_now e)) (db_jobs w')\<rparr>)"
proof -
  obtain r' where r': "ok" "r' \<in> set (db_jobs w')" "jr_id r' = jr_id r"
    "jr_state r' = Job_Pending" "jr_locked_by r' = None" "jr_attempts r' = jr_attempts r"
    "jr_max_attempts r' = jr_max_attempts r" "jr_run_at r' = t" "r \<notin> set (db_jobs w')"
    and ids: "map jr_id (db_jobs w') = map jr_id (db_jobs w)"
    by (rule late_execution [OF assms(1-5) due(1) late])
  have d': "distinct (map jr_id (db_jobs w'))" using d by (simp only: ids)
  have mine: "due_for c e r'" using r' due(2,3) by (auto simp: due_for_def ready_def reaped_def is_stale_def)
  have "if jr_attempts r < jr_max_attempts r
     then \<exists>r'' \<in> set (db_jobs w''). jr_id r'' = jr_id r \<and> settled_row r'' \<and> jr_attempts r'' = jr_attempts r + 1
     else w'' = w'\<lparr>db_jobs := map (reaped (tick_now e - lease_timeout c) (tick_now e)) (db_jobs w')\<rparr>"
  proof (cases "jr_attempts r < jr_max_attempts r")
    case True
    have ok': ok' by (rule server_tick_returns [OF tick])
    have "list_all (\<lambda>q. due_for c e q \<longrightarrow> 0 \<le> jr_attempts q \<and> jr_attempts q < jr_max_attempts q) (db_jobs w')"
      using left True assms(6) r'(2,3,6,7) same_row [OF d' r'(2)] by (metis (mono_tags, lifting) list_all_iff)
    from server.due_jobs_executed [OF tick [unfolded eqTrueI [OF ok']] d' _ this] room
      unfinished_covers_due [of c e "db_jobs w'"]
    have "list_all2 (\<lambda>q q'. jr_id q' = jr_id q \<and> (if due_for c e q then settled_row q' \<and> jr_attempts q' = jr_attempts q + 1
      else q' = reaped (tick_now e - lease_timeout c) (tick_now e) q)) (db_jobs w') (db_jobs w'')" by linarith
    from list_all2_memD [OF this r'(2)] show ?thesis using mine True r'(3,6) by auto
  next
    case False
    have "length (filter (\<lambda>q. jr_state q \<in> {Job_Pending, Job_Running} \<and> jr_id q \<noteq> jr_id r' \<and> jr_run_at q \<le> jr_run_at r') (db_jobs w'))
        < length (filter (\<lambda>q. jr_state q \<in> {Job_Pending, Job_Running}) (db_jobs w'))"
      using length_filter_less [of r' "filter (\<lambda>q. jr_state q \<in> {Job_Pending, Job_Running}) (db_jobs w')"
        "\<lambda>q. jr_id q \<noteq> jr_id r' \<and> jr_run_at q \<le> jr_run_at r'"] r'(2,4) by simp
    with room have "int (length (filter (\<lambda>q. jr_state q \<in> {Job_Pending, Job_Running} \<and> jr_id q \<noteq> jr_id r' \<and>
        jr_run_at q \<le> jr_run_at r') (db_jobs w'))) < batch_size c" by linarith
    from poisoned_tick [OF r'(2) _ mine d' this, of X "server_handlers X"] tick False r'(6,7) show ?thesis by simp
  qed
  with r' show ?thesis by blast
qed

text \<open>
  A delivery claimed by one worker, reaped six minutes later, claimed and completed by another; the first one's request
  then times out, and the tick that follows sends the event again.
\<close>

definition demo_late :: "job \<times> db" where
  "demo_late = (case demo_claim 1 of (j, w) \<Rightarrow>
     (j, snd (job_complete (j_id j) (seconds 361) (snd (claim_batch demo_ext {} ''w2'' 1 (seconds 360)
           (snd (reap_stale_leases (seconds 60) (seconds 360) w)))))))"

definition demo_timeout :: delivery_env where
  "demo_timeout = demo_reply (Inl TimedOut)"

definition demo_later :: "delivery_env tick_env" where
  "demo_later = \<lparr>tick_now = seconds 1000, tick_locked = {}, exec_envs = (\<lambda>_. (seconds 1000, demo_timeout))\<rparr>"

definition demo_reopened :: "job \<Rightarrow> db \<Rightarrow> db" where
  "demo_reopened j w = snd (execute (server_handlers demo_ext) demo_timeout (seconds 362) j w)"

definition demo_late_facts :: bool where
  "demo_late_facts \<longleftrightarrow> (case demo_late of (j, w) \<Rightarrow>
     j_kind j = deliver_webhook \<and> j_attempts j = 1 \<and> map jr_id (db_jobs w) = [j_id j] \<and>
     map jr_state (db_jobs w) = [Job_Completed] \<and> map jr_attempts (db_jobs w) = [2] \<and> map jr_max_attempts (db_jobs w) = [7] \<and>
     (case fst (deliver demo_ext webhook_config_default demo_timeout (j_payload j) w) of
        Some (Inl (Retryable _)) \<Rightarrow> True | _ \<Rightarrow> False) \<and>
     length (db_jobs (demo_reopened j w)) = 1 \<and> map jr_id (db_jobs (demo_reopened j w)) = [j_id j])"

lemma demo_late_holds: "demo_late_facts"
  by code_simp

theorem late_worker_reopens_finished_job_witness:
  "\<exists>j w w'' ok'. demo_late = (j, w) \<and> map jr_state (db_jobs w) = [Job_Completed] \<and>
     worker_tick demo_ext demo_worker (server_handlers demo_ext) demo_later (demo_reopened j w) = (ok', w'') \<and>
     (\<exists>r' \<in> set (db_jobs (demo_reopened j w)). jr_state r' = Job_Pending) \<and>
     (\<exists>r'' \<in> set (db_jobs w''). jr_attempts r'' = 3)"
proof -
  obtain j w where c: "demo_late = (j, w)" by fastforce
  note f = demo_late_holds [unfolded demo_late_facts_def c prod.case]
  then obtain r where r: "db_jobs w = [r]" "jr_id r = j_id j" "jr_state r = Job_Completed" "jr_attempts r = 2" "jr_max_attempts r = 7"
    by (auto simp: map_eq_Cons_conv)
  obtain m v where fails: "deliver demo_ext webhook_config_default demo_timeout (j_payload j) w = (Some (Inl (Retryable m)), v)"
    using f by (auto split: option.splits sum.splits job_error.splits simp: prod_eq_iff)
  obtain ok w' where late: "execute (server_handlers demo_ext) demo_timeout (seconds 362) j w = (ok, w')" by fastforce
  then have w': "w' = demo_reopened j w" by (simp add: demo_reopened_def)
  then obtain r' where jobs: "db_jobs w' = [r']" "jr_id r' = j_id j" using f by (auto simp: map_eq_Cons_conv)
  obtain ok' w'' where tick: "worker_tick demo_ext demo_worker (server_handlers demo_ext) demo_later w' = (ok', w'')" by fastforce
  have t: "next_retry_at (j_attempts j) (seconds 362) = Some (seconds 422)"
    using f by (simp add: next_retry_at_def ladder_secs_def seconds_def)
  have room: "int (length (filter (\<lambda>q. jr_state q \<in> {Job_Pending, Job_Running}) (db_jobs w'))) \<le> batch_size demo_worker"
    using length_filter_le [of "\<lambda>q. jr_state q \<in> {Job_Pending, Job_Running}" "db_jobs w'"]
    by (simp add: jobs(1) demo_worker_def worker_config_default_def)
  have "(\<exists>r' \<in> set (db_jobs w'). jr_state r' = Job_Pending) \<and> (\<exists>r'' \<in> set (db_jobs w''). jr_attempts r'' = 3)"
    using late_worker_reopens_finished_job [OF _ fails _ r(2) _ _ _ late tick t _ _ room] f r jobs
    by (auto simp: is_terminal_job_def demo_later_def seconds_def demo_worker_def worker_config_default_def)
  then show ?thesis using c f tick by (intro exI [of _ j] exI [of _ w] exI [of _ w''] exI [of _ ok']) (simp add: w')
qed

end
