(* ===== verification/Api_Error.thy ===== *)
theory Api_Error
  imports Engine_Payment Simulator
begin

text \<open>
  \<open>crates/api/error.rs\<close>: the one error a client sees, its constructors, the conversion of store and engine
  errors into it and its response; the texts of the domain errors that reach a message
  (\<open>crates/domain/src\<close>); and \<open>crates/api/validate.rs\<close>, the checks of the edge. The identifier of the current
  request, a task-local of the code, is an argument of the response.
\<close>

section \<open>Texts of domain errors\<close>

definition squote :: string where
  "squote = [CHR 0x27]"

definition quoted :: "string \<Rightarrow> string" where
  "quoted s = squote @ s @ squote"

fun order_status_debug :: "order_status \<Rightarrow> string" where
  "order_status_debug Order_Created = ''Created''"
| "order_status_debug Order_Attempted = ''Attempted''"
| "order_status_debug Order_Paid = ''Paid''"
| "order_status_debug Order_Expired = ''Expired''"

fun payment_status_debug :: "payment_status \<Rightarrow> string" where
  "payment_status_debug Pay_Created = ''Created''"
| "payment_status_debug Pay_RequiresAction = ''RequiresAction''"
| "payment_status_debug Pay_Authorized = ''Authorized''"
| "payment_status_debug Pay_Captured = ''Captured''"
| "payment_status_debug Pay_Failed = ''Failed''"
| "payment_status_debug Pay_Refunded = ''Refunded''"

definition order_transition_text :: "invalid_order_transition \<Rightarrow> string" where
  "order_transition_text t = (case t of InvalidOrderTransition a b \<Rightarrow>
     ''cannot transition order from '' @ quoted (order_status_debug a) @ '' to '' @ quoted (order_status_debug b))"

definition payment_transition_text :: "invalid_payment_transition \<Rightarrow> string" where
  "payment_transition_text t = (case t of InvalidPaymentTransition a b \<Rightarrow>
     ''cannot transition payment from '' @ quoted (payment_status_debug a) @ '' to '' @ quoted (payment_status_debug b))"

definition card_error_text :: "card_details_error \<Rightarrow> string" where
  "card_error_text e = (case e of
     InvalidLength n \<Rightarrow> ''card number must be 12-19 digits, got '' @ show_nat n
   | FailedLuhnCheck \<Rightarrow> ''card number failed the Luhn check''
   | InvalidMonth m \<Rightarrow> ''expiry month must be 1-12, got '' @ show_nat m
   | CardExpired \<Rightarrow> ''card is expired'')"

definition money_error_text :: "money_error \<Rightarrow> string" where
  "money_error_text e = (case e of
     CurrencyMismatch a b \<Rightarrow> ''currency mismatch: cannot combine '' @ code a @ '' and '' @ code b
   | MoneyOverflow \<Rightarrow> ''arithmetic overflow''
   | Negative n \<Rightarrow> ''amount must not be negative, got '' @ show_int n
   | UnknownCurrency s \<Rightarrow> ''unknown currency: '' @ s)"

section \<open>The error\<close>

record api_error =
  ae_status :: nat
  ae_type :: string
  ae_code :: string
  ae_message :: string
  ae_param :: "string option"
  ae_payment_id :: "string option"
  ae_retry_after :: "nat option"

type_synonym 'a api_result = "api_error + 'a"

definition api_error_new :: "nat \<Rightarrow> string \<Rightarrow> string \<Rightarrow> string \<Rightarrow> api_error" where
  "api_error_new status ty ecode message = \<lparr>ae_status = status, ae_type = ty, ae_code = ecode, ae_message = message,
     ae_param = None, ae_payment_id = None, ae_retry_after = None\<rparr>"

definition with_param :: "string \<Rightarrow> api_error \<Rightarrow> api_error" where
  "with_param p e = e\<lparr>ae_param := Some p\<rparr>"

definition retry_after :: "nat \<Rightarrow> api_error \<Rightarrow> api_error" where
  "retry_after secs e = e\<lparr>ae_retry_after := Some secs\<rparr>"

definition invalid_request :: "string \<Rightarrow> string \<Rightarrow> string option \<Rightarrow> api_error" where
  "invalid_request ecode message param =
     (api_error_new 400 ''invalid_request_error'' ecode message)\<lparr>ae_param := param\<rparr>"

definition not_found :: "string \<Rightarrow> api_error" where
  "not_found resource =
     api_error_new 404 ''invalid_request_error'' ''resource_missing'' (''No such '' @ resource @ ''.'')"

definition unauthorized :: "string \<Rightarrow> api_error" where
  "unauthorized message = api_error_new 401 ''authentication_error'' ''invalid_api_key'' message"

definition forbidden :: "string \<Rightarrow> api_error" where
  "forbidden message = api_error_new 403 ''permission_error'' ''insufficient_scope'' message"

definition unknown_endpoint :: "string \<Rightarrow> string \<Rightarrow> api_error" where
  "unknown_endpoint verb path = api_error_new 404 ''invalid_request_error'' ''unknown_endpoint''
     (verb @ '' '' @ path @ '' is not an endpoint on this API.'')"

definition method_not_allowed :: "string \<Rightarrow> string \<Rightarrow> api_error" where
  "method_not_allowed verb path = api_error_new 405 ''invalid_request_error'' ''method_not_allowed''
     (verb @ '' is not supported on '' @ path @ ''.'')"

definition conflict :: "string \<Rightarrow> string \<Rightarrow> api_error" where
  "conflict ecode message = api_error_new 409 ''idempotency_error'' ecode message"

definition payload_too_large :: "nat option \<Rightarrow> api_error" where
  "payload_too_large limit = api_error_new 413 ''invalid_request_error'' ''request_too_large''
     (case limit of
        Some bytes \<Rightarrow> ''Request body exceeds the '' @ show_nat bytes @ '' byte limit.''
      | None \<Rightarrow> ''Request body is too large.'')"

definition unsupported_media_type :: api_error where
  "unsupported_media_type = api_error_new 415 ''invalid_request_error'' ''unsupported_media_type''
     (''Send '' @ quoted ''Content-Type: application/json'' @ ''.'')"

definition card_error :: "string \<Rightarrow> string \<Rightarrow> string option \<Rightarrow> api_error" where
  "card_error ecode message payment_id =
     (api_error_new 402 ''card_error'' ecode message)\<lparr>ae_payment_id := payment_id\<rparr>"

definition unavailable :: api_error where
  "unavailable = (api_error_new 503 ''api_error'' ''service_unavailable''
     ''The service is temporarily unavailable. Please retry.'')\<lparr>ae_retry_after := Some 1\<rparr>"

definition timeout_error :: api_error where
  "timeout_error = (api_error_new 504 ''api_error'' ''request_timeout''
     (''The request took too long and was abandoned. Retry with the same '' @
      ''Idempotency-Key to find out whether it completed.''))\<lparr>ae_retry_after := Some 1\<rparr>"

definition internal_error :: api_error where
  "internal_error = api_error_new 500 ''api_error'' ''internal_error'' ''An internal error occurred.''"

definition is_server_fault :: "api_error \<Rightarrow> bool" where
  "is_server_fault e \<longleftrightarrow> 500 \<le> ae_status e \<and> ae_status e < 600"

section \<open>Responses\<close>

record reply =
  rp_status :: nat
  rp_headers :: "(string \<times> string) list"
  rp_body :: string

text \<open>How the future of a layer ends: it answers, the timeout drops it where it stands, or it panics.\<close>

datatype 'r fate = Done 'r | Dropped | Panicked

fun map_fate :: "('r \<Rightarrow> 's) \<Rightarrow> 'r fate \<Rightarrow> 's fate" where
  "map_fate f (Done r) = Done (f r)"
| "map_fate f Dropped = Dropped"
| "map_fate f Panicked = Panicked"

definition json_reply :: "ext \<Rightarrow> nat \<Rightarrow> json \<Rightarrow> reply" where
  "json_reply X status v =
     \<lparr>rp_status = status, rp_headers = [(''content-type'', ''application/json'')], rp_body = json_text X v\<rparr>"

definition error_json :: "string option \<Rightarrow> api_error \<Rightarrow> json" where
  "error_json request_id e = jobject [(''error'', jobject (
     [(''type'', JStr (ae_type e)), (''code'', JStr (ae_code e)), (''message'', JStr (ae_message e)),
      (''param'', jopt JStr (ae_param e))] @
     (case ae_payment_id e of None \<Rightarrow> [] | Some pid \<Rightarrow> [(''payment_id'', JStr pid)]) @
     (case request_id of None \<Rightarrow> [] | Some i \<Rightarrow> [(''request_id'', JStr i)])))]"

definition into_response :: "ext \<Rightarrow> string option \<Rightarrow> api_error \<Rightarrow> reply" where
  "into_response X request_id e =
     (let r = json_reply X (ae_status e) (error_json request_id e) in
      case ae_retry_after e of
        None \<Rightarrow> r
      | Some secs \<Rightarrow> r\<lparr>rp_headers := rp_headers r @ [(''retry-after'', show_nat secs)]\<rparr>)"

section \<open>Conversions\<close>

definition from_store :: "store_error \<Rightarrow> api_error" where
  "from_store e = (case e of
     S_NotFound resource \<Rightarrow> not_found resource
   | S_Conflict _ \<Rightarrow> conflict ''resource_already_exists'' ''That resource already exists.''
   | _ \<Rightarrow> internal_error)"

definition from_engine :: "engine_error \<Rightarrow> api_error" where
  "from_engine e = (case e of
     E_NotFound resource \<Rightarrow> not_found resource
   | E_Store s \<Rightarrow> from_store s
   | E_Validation field reason \<Rightarrow> invalid_request ''parameter_invalid'' (field @ '': '' @ reason) (Some field)
   | E_Card c \<Rightarrow> card_error ''card_invalid'' (card_error_text c) None
   | E_OrderTransition t \<Rightarrow> invalid_request ''invalid_state'' (order_transition_text t) None
   | E_PaymentTransition t \<Rightarrow> invalid_request ''invalid_state'' (payment_transition_text t) None
   | E_Money m \<Rightarrow> invalid_request ''amount_invalid'' (money_error_text m) (Some ''amount'')
   | _ \<Rightarrow> internal_error)"

section \<open>Checks of the edge\<close>

text \<open>
  A string of the code is UTF-8: its characters are the bytes that do not continue one. A parsed URL is what
  the url crate, a parameter, reads from a text.
\<close>

definition char_start :: "char \<Rightarrow> bool" where
  "char_start c \<longleftrightarrow> (of_char c :: nat) div 64 \<noteq> 2"

definition char_count :: "string \<Rightarrow> nat" where
  "char_count s = length (filter char_start s)"

fun take_chars :: "nat \<Rightarrow> string \<Rightarrow> string" where
  "take_chars n [] = []"
| "take_chars n (c # s) =
     (if char_start c then (case n of 0 \<Rightarrow> [] | Suc m \<Rightarrow> c # take_chars m s) else c # take_chars n s)"

definition truncate_chars :: "string \<Rightarrow> nat \<Rightarrow> string" where
  "truncate_chars s n = (if char_count s \<le> n then s
     else take_chars n s @ [char_of (226::nat), char_of (128::nat), char_of (166::nat)])"

definition cvc :: "string \<Rightarrow> api_error + unit" where
  "cvc raw = (if 3 \<le> length raw \<and> length raw \<le> 4 \<and> list_all is_digit raw then Inr ()
     else Inl (card_error ''incorrect_cvc'' ''The security code must be 3 or 4 digits.'' None))"

record url =
  url_scheme :: string
  url_host :: "string option"
  url_username :: string
  url_password :: "string option"
  url_fragment :: "string option"
  url_text :: string

definition url_invalid :: "string \<Rightarrow> api_error" where
  "url_invalid message = invalid_request ''url_invalid'' message (Some ''url'')"

definition webhook_url :: "(string \<Rightarrow> url option) \<Rightarrow> string \<Rightarrow> string api_result" where
  "webhook_url parse_url raw =
     (if 2048 < length raw then Inl (url_invalid ''Webhook URL must be at most 2048 characters.'')
      else case parse_url raw of
        None \<Rightarrow> Inl (url_invalid ''Webhook URL is not a valid absolute URL, e.g. https://example.com/hooks.'')
      | Some u \<Rightarrow>
          if url_scheme u \<noteq> ''http'' \<and> url_scheme u \<noteq> ''https''
          then Inl (url_invalid ''Webhook URL must use the http or https scheme.'')
          else if url_host u = None then Inl (url_invalid ''Webhook URL must include a host.'')
          else if url_username u \<noteq> [] \<or> url_password u \<noteq> None
          then Inl (url_invalid (''Webhook URL must not contain embedded credentials. Verify deliveries '' @
                 ''with the signing secret instead.''))
          else if url_fragment u \<noteq> None then Inl (url_invalid ''Webhook URL must not contain a fragment.'')
          else Inr (url_text u))"

definition is_lower :: "char \<Rightarrow> bool" where
  "is_lower c \<longleftrightarrow> 97 \<le> (of_char c :: nat) \<and> (of_char c :: nat) \<le> 122"

definition event_shaped :: "string \<Rightarrow> bool" where
  "event_shaped event \<longleftrightarrow> length event \<le> 64 \<and>
     (case split_once (CHR ''.'') event of
        None \<Rightarrow> False
      | Some (resource, action) \<Rightarrow> resource \<noteq> [] \<and> action \<noteq> [] \<and>
          list_all (\<lambda>b. is_lower b \<or> b = CHR ''.'' \<or> b = CHR ''_'') event)"

definition events_invalid :: "string \<Rightarrow> api_error" where
  "events_invalid message = invalid_request ''enabled_events_invalid'' message (Some ''enabled_events'')"

fun check_events :: "string list \<Rightarrow> string list \<Rightarrow> unit api_result" where
  "check_events seen [] = Inr ()"
| "check_events seen (event # rest) =
     (if event \<in> set seen then Inl (events_invalid (''Duplicate event type '' @ quoted event @ ''.''))
      else if \<not> event_shaped event
      then Inl (events_invalid (quoted (truncate_chars event 64) @
             '' is not a valid event type. Expected lowercase '' @ quoted ''resource.action'' @
             '', e.g. '' @ quoted ''payment.captured'' @ ''.''))
      else check_events (event # seen) rest)"

definition enabled_events :: "string list \<Rightarrow> unit api_result" where
  "enabled_events events =
     (if 32 < length events then Inl (events_invalid ''At most 32 event types may be enabled.'')
      else check_events [] events)"

definition is_graphic :: "char \<Rightarrow> bool" where
  "is_graphic c \<longleftrightarrow> 33 \<le> (of_char c :: nat) \<and> (of_char c :: nat) \<le> 126"

definition idempotency_key :: "string \<Rightarrow> string api_result" where
  "idempotency_key raw =
     (if 8 \<le> length raw \<and> length raw \<le> 255 \<and> list_all is_graphic raw then Inr raw
      else Inl (invalid_request ''idempotency_key_invalid'' (quoted ''Idempotency-Key'' @
             '' must be 8-255 printable ASCII characters. A UUID is a good choice.'') None))"

lemma check_events_ok:
  "check_events seen events = Inr () \<longleftrightarrow>
     distinct events \<and> set events \<inter> set seen = {} \<and> list_all event_shaped events"
  by (induction events arbitrary: seen) auto

lemma enabled_events_ok:
  "enabled_events events = Inr () \<longleftrightarrow>
     length events \<le> 32 \<and> distinct events \<and> list_all event_shaped events"
  by (simp add: enabled_events_def check_events_ok not_less)

lemma webhook_url_ok:
  "webhook_url parse_url raw = Inr text \<longleftrightarrow> length raw \<le> 2048 \<and>
     (\<exists>u. parse_url raw = Some u \<and> url_scheme u \<in> {''http'', ''https''} \<and> url_host u \<noteq> None \<and>
        url_username u = [] \<and> url_password u = None \<and> url_fragment u = None \<and> text = url_text u)"
  by (auto simp: webhook_url_def split: option.splits if_splits)

lemma webhook_url_err: "webhook_url parse_url raw = Inl e \<Longrightarrow> \<exists>message. e = url_invalid message"
  by (auto simp: webhook_url_def split: option.splits if_splits)

lemma take_chars_count: "char_count (take_chars n s) \<le> n"
  by (induction n s rule: take_chars.induct) (auto simp: char_count_def split: nat.splits)

lemma truncate_chars_bound: "char_count (truncate_chars s n) \<le> Suc n"
proof (cases "char_count s \<le> n")
  case False
  have "char_count [char_of (226::nat), char_of (128::nat), char_of (166::nat)] = 1" by code_simp
  then show ?thesis using take_chars_count [of n s] by (simp add: truncate_chars_def char_count_def)
qed (simp add: truncate_chars_def)

end
