(* ===== verification/Api_Auth.thy ===== *)
theory Api_Auth
  imports Api_Error Store_Merchant
begin

text \<open>
  \<open>crates/api/auth.rs\<close>: scope sets as 16-bit words, the context of an authenticated caller, the cache of
  key lookups, the reading of the bearer token, the lookup with its time limit and the middleware itself.
  The cache's clock is the monotonic one, in nanoseconds; a hash map is an association list with distinct
  keys. What the database answers within the limit is an argument of the lookup.
\<close>

unbundle bit_operations_syntax

section \<open>Scopes\<close>

definition all_scopes :: "scope list" where
  "all_scopes = [OrdersRead, OrdersWrite, PaymentsRead, PaymentsWrite, RefundsWrite, WebhooksManage]"

fun scope_bit :: "scope \<Rightarrow> 16 word" where
  "scope_bit OrdersRead = push_bit 0 1"
| "scope_bit OrdersWrite = push_bit 1 1"
| "scope_bit PaymentsRead = push_bit 2 1"
| "scope_bit PaymentsWrite = push_bit 3 1"
| "scope_bit RefundsWrite = push_bit 4 1"
| "scope_bit WebhooksManage = push_bit 5 1"

type_synonym scope_set = "16 word"

definition scope_with :: "scope_set \<Rightarrow> scope \<Rightarrow> scope_set" where
  "scope_with w s = w OR scope_bit s"

definition scope_contains :: "scope_set \<Rightarrow> scope \<Rightarrow> bool" where
  "scope_contains w s \<longleftrightarrow> w AND scope_bit s \<noteq> 0"

definition scope_set_of :: "scope list \<Rightarrow> scope_set" where
  "scope_set_of ss = foldl scope_with 0 ss"

definition scope_iter :: "scope_set \<Rightarrow> scope list" where
  "scope_iter w = filter (scope_contains w) all_scopes"

fun scope_index :: "scope \<Rightarrow> nat" where
  "scope_index OrdersRead = 0"
| "scope_index OrdersWrite = 1"
| "scope_index PaymentsRead = 2"
| "scope_index PaymentsWrite = 3"
| "scope_index RefundsWrite = 4"
| "scope_index WebhooksManage = 5"

lemma scope_index_eq [simp]: "scope_index s = scope_index t \<longleftrightarrow> s = t"
  by (cases s; cases t) simp_all

lemma scope_bit_index: "scope_bit s = push_bit (scope_index s) 1" and scope_index_lt: "scope_index s < 16"
  by (cases s; simp)+

lemma bit_scope_bit: "bit (scope_bit s) n \<longleftrightarrow> n = scope_index s"
  using scope_index_lt [of s] by (auto simp: scope_bit_index bit_simps)

lemma scope_contains_bit: "scope_contains w s \<longleftrightarrow> bit w (scope_index s)"
proof -
  have "w AND scope_bit s \<noteq> 0 \<longleftrightarrow> (\<exists>n. bit (w AND scope_bit s) n)"
    using bit_eqI [of "w AND scope_bit s" 0] by auto
  then show ?thesis by (auto simp: scope_contains_def bit_and_iff bit_scope_bit)
qed

lemma scope_contains_with [simp]: "scope_contains (scope_with w s) t \<longleftrightarrow> t = s \<or> scope_contains w t"
  by (auto simp: scope_contains_bit scope_with_def bit_or_iff bit_scope_bit)

lemma scope_contains_fold: "scope_contains (foldl scope_with w ss) t \<longleftrightarrow> t \<in> set ss \<or> scope_contains w t"
  by (induction ss arbitrary: w) auto

lemma scope_contains_set [simp]: "scope_contains (scope_set_of ss) t \<longleftrightarrow> t \<in> set ss"
  by (simp add: scope_set_of_def scope_contains_fold) (simp add: scope_contains_def)

lemma all_scopes_complete: "s \<in> set all_scopes" and all_scopes_distinct: "distinct all_scopes"
  by (cases s; simp add: all_scopes_def) (simp add: all_scopes_def)

lemma scope_iter_set: "set (scope_iter (scope_set_of ss)) = set ss" "distinct (scope_iter w)"
  using all_scopes_complete all_scopes_distinct by (auto simp: scope_iter_def)

section \<open>The authenticated caller\<close>

record auth_ctx =
  ac_merchant_id :: uuid
  ac_key_id :: uuid
  ac_scopes :: scope_set

definition require_scope :: "auth_ctx \<Rightarrow> scope \<Rightarrow> unit api_result" where
  "require_scope c s = (if scope_contains (ac_scopes c) s then Inr ()
     else Inl (forbidden (''This API key does not have the '' @ quoted (scope_str s) @ '' scope.'')))"

fun require_all :: "auth_ctx \<Rightarrow> scope list \<Rightarrow> unit api_result" where
  "require_all c [] = Inr ()"
| "require_all c (s # ss) = rbind (require_scope c s) (\<lambda>_. require_all c ss)"

fun join_comma :: "string list \<Rightarrow> string" where
  "join_comma [] = ''''"
| "join_comma [s] = s"
| "join_comma (s # t # ss) = s @ '', '' @ join_comma (t # ss)"

definition require_any :: "auth_ctx \<Rightarrow> scope list \<Rightarrow> unit api_result" where
  "require_any c ss =
     (if list_ex (scope_contains (ac_scopes c)) ss then Inr ()
      else Inl (forbidden (''This API key needs at least one of these scopes: '' @
             join_comma (map (\<lambda>s. quoted (scope_str s)) ss) @ ''.'')))"

lemma require_scope_ok [simp]: "require_scope c s = Inr () \<longleftrightarrow> scope_contains (ac_scopes c) s"
  by (simp add: require_scope_def)

lemma require_all_ok: "require_all c ss = Inr () \<longleftrightarrow> (\<forall>s \<in> set ss. scope_contains (ac_scopes c) s)"
  by (induction ss) (auto simp: rbind_Inr)

lemma require_any_ok: "require_any c ss = Inr () \<longleftrightarrow> (\<exists>s \<in> set ss. scope_contains (ac_scopes c) s)"
  by (auto simp: require_any_def list_ex_iff)

lemma bit_scope_set: "bit (scope_set_of ss) n \<longleftrightarrow> (\<exists>s \<in> set ss. n = scope_index s)"
proof -
  have "bit (foldl scope_with w ss) n \<longleftrightarrow> bit w n \<or> (\<exists>s \<in> set ss. n = scope_index s)" for w
    by (induction ss arbitrary: w) (auto simp: scope_with_def bit_or_iff bit_scope_bit)
  then show ?thesis by (simp add: scope_set_of_def)
qed

lemma scope_set_eq: "scope_set_of ss = scope_set_of ts \<longleftrightarrow> set ss = set ts"
proof
  assume "scope_set_of ss = scope_set_of ts"
  then have "scope_contains (scope_set_of ss) s = scope_contains (scope_set_of ts) s" for s by simp
  then show "set ss = set ts" by auto
next
  assume "set ss = set ts"
  then show "scope_set_of ss = scope_set_of ts" by (intro bit_eqI) (simp add: bit_scope_set)
qed

text \<open>
  C39. The 16-bit scope set behaves as the set of its scopes: it contains what was put in and nothing else, two of
  them are equal exactly when they were made from the same scopes, in whatever order and however often, its
  iterator gives each scope once, and a caller passes \<open>require_all\<close> for a subset of its scopes and
  \<open>require_any\<close> for a set that meets them.
\<close>
theorem scope_set_is_a_set:
  "(scope_contains (scope_set_of ss) s \<longleftrightarrow> s \<in> set ss) \<and>
   (scope_set_of ss = scope_set_of ts \<longleftrightarrow> set ss = set ts) \<and>
   set (scope_iter (scope_set_of ss)) = set ss \<and> distinct (scope_iter (scope_set_of ss)) \<and>
   (require_all \<lparr>ac_merchant_id = m, ac_key_id = k, ac_scopes = scope_set_of ss\<rparr> ts = Inr () \<longleftrightarrow> set ts \<subseteq> set ss) \<and>
   (require_any \<lparr>ac_merchant_id = m, ac_key_id = k, ac_scopes = scope_set_of ss\<rparr> ts = Inr () \<longleftrightarrow> set ts \<inter> set ss \<noteq> {})"
  by (auto simp: scope_set_eq scope_iter_set require_all_ok require_any_ok)

section \<open>The cache\<close>

datatype auth_outcome = Auth_Resolved auth_ctx | Auth_Rejected

record cache_entry =
  ce_outcome :: auth_outcome
  ce_expires_at :: int

record auth_cache =
  ca_ttl :: int
  ca_capacity :: nat
  ca_touch_interval :: int
  ca_entries :: "(string \<times> cache_entry) list"
  ca_touches :: "(uuid \<times> int) list"

definition hash_insert :: "'k \<Rightarrow> 'v \<Rightarrow> ('k \<times> 'v) list \<Rightarrow> ('k \<times> 'v) list" where
  "hash_insert k v m = (k, v) # filter (\<lambda>(k', _). k' \<noteq> k) m"

definition cache_with_settings :: "int \<Rightarrow> nat \<Rightarrow> int \<Rightarrow> auth_cache" where
  "cache_with_settings ttl capacity interval = \<lparr>ca_ttl = ttl, ca_capacity = capacity,
     ca_touch_interval = interval, ca_entries = [], ca_touches = []\<rparr>"

definition cache_new :: auth_cache where
  "cache_new = cache_with_settings (seconds 5) 4096 (seconds 60)"

definition cache_disabled :: auth_cache where
  "cache_disabled = cache_with_settings 0 0 0"

definition cache_is_enabled :: "auth_cache \<Rightarrow> bool" where
  "cache_is_enabled c \<longleftrightarrow> ca_ttl c \<noteq> 0 \<and> 0 < ca_capacity c"

definition cache_lookup :: "string \<Rightarrow> int \<Rightarrow> auth_cache \<Rightarrow> auth_outcome option" where
  "cache_lookup h now c =
     (if \<not> cache_is_enabled c then None
      else case map_of (ca_entries c) h of
        None \<Rightarrow> None
      | Some e \<Rightarrow> if now < ce_expires_at e then Some (ce_outcome e) else None)"

definition cache_store :: "string \<Rightarrow> auth_outcome \<Rightarrow> int \<Rightarrow> auth_cache \<Rightarrow> auth_cache" where
  "cache_store h outcome now c =
     (if \<not> cache_is_enabled c then c
      else
        let entries = ca_entries c;
            entries = (if ca_capacity c \<le> length entries then
                let live = filter (\<lambda>(_, e). now < ce_expires_at e) entries
                in if ca_capacity c \<le> length live then [] else live
              else entries)
        in c\<lparr>ca_entries :=
               hash_insert h \<lparr>ce_outcome = outcome, ce_expires_at = now + ca_ttl c\<rparr> entries\<rparr>)"

definition is_for_key :: "uuid \<Rightarrow> auth_outcome \<Rightarrow> bool" where
  "is_for_key i outcome = (case outcome of Auth_Resolved ctx \<Rightarrow> ac_key_id ctx = i | Auth_Rejected \<Rightarrow> False)"

definition invalidate_key :: "uuid \<Rightarrow> auth_cache \<Rightarrow> auth_cache" where
  "invalidate_key i c = c\<lparr>ca_entries := filter (\<lambda>(_, e). \<not> is_for_key i (ce_outcome e)) (ca_entries c),
     ca_touches := filter (\<lambda>(k, _). k \<noteq> i) (ca_touches c)\<rparr>"

definition invalidate_all :: "auth_cache \<Rightarrow> auth_cache" where
  "invalidate_all c = c\<lparr>ca_entries := [], ca_touches := []\<rparr>"

definition cache_len :: "auth_cache \<Rightarrow> nat" where
  "cache_len c = length (ca_entries c)"

definition duration_since :: "int \<Rightarrow> int \<Rightarrow> int" where
  "duration_since now earlier = max 0 (now - earlier)"

definition should_touch :: "uuid \<Rightarrow> int \<Rightarrow> auth_cache \<Rightarrow> bool \<times> auth_cache" where
  "should_touch i now c =
     (if ca_touch_interval c = 0 then (True, c)
      else if (case map_of (ca_touches c) i of
            None \<Rightarrow> False | Some at \<Rightarrow> duration_since now at < ca_touch_interval c)
      then (False, c)
      else
        let touches = (if max 1 (ca_capacity c) \<le> length (ca_touches c)
              then filter (\<lambda>(_, at). duration_since now at < ca_touch_interval c) (ca_touches c)
              else ca_touches c)
        in (True, c\<lparr>ca_touches := hash_insert i now touches\<rparr>))"

section \<open>Reading the token\<close>

definition all_headers :: "string \<Rightarrow> (string \<times> string) list \<Rightarrow> string list" where
  "all_headers name hs = map snd (filter (\<lambda>(n, _). n = name) hs)"

definition has_header :: "string \<Rightarrow> (string \<times> string) list \<Rightarrow> bool" where
  "has_header name hs \<longleftrightarrow> list_ex (\<lambda>(n, _). n = name) hs"

text \<open>\<open>HeaderValue::to_str\<close>: visible ASCII and the tab.\<close>

definition header_to_str :: "string \<Rightarrow> string option" where
  "header_to_str v =
     (if list_all (\<lambda>c. (32 \<le> (of_char c :: nat) \<and> (of_char c :: nat) < 127) \<or> (of_char c :: nat) = 9) v
      then Some v else None)"

definition ascii_lower :: "char \<Rightarrow> char" where
  "ascii_lower c = (if 65 \<le> (of_char c :: nat) \<and> (of_char c :: nat) \<le> 90
     then char_of ((of_char c :: nat) + 32) else c)"

definition eq_ignore_ascii_case :: "string \<Rightarrow> string \<Rightarrow> bool" where
  "eq_ignore_ascii_case a b \<longleftrightarrow> map ascii_lower a = map ascii_lower b"

definition is_alphanumeric :: "char \<Rightarrow> bool" where
  "is_alphanumeric c \<longleftrightarrow> is_digit c \<or> is_lower (ascii_lower c)"

definition is_hexdigit :: "char \<Rightarrow> bool" where
  "is_hexdigit c \<longleftrightarrow> is_digit c \<or> ascii_lower c \<in> set ''abcdef''"

definition starts_with :: "string \<Rightarrow> string \<Rightarrow> bool" where
  "starts_with p s \<longleftrightarrow> strip_prefix p s \<noteq> None"

definition missing_key :: api_error where
  "missing_key = unauthorized (''Missing API key. Send '' @ quoted ''Authorization: Bearer sk_test_...'' @ ''.'')"

definition extract_bearer :: "(string \<times> string) list \<Rightarrow> string api_result" where
  "extract_bearer headers =
     (case all_headers ''authorization'' headers of
        [] \<Rightarrow> Inl missing_key
      | raw # [] \<Rightarrow>
          if 512 < length raw then Inl (unauthorized ''Authorization header is too long.'')
          else (case header_to_str raw of
            None \<Rightarrow> Inl (unauthorized ''Authorization header must contain only ASCII characters.'')
          | Some raw \<Rightarrow> (case split_once (CHR '' '') (trim raw) of
              None \<Rightarrow> Inl (unauthorized (''Malformed Authorization header. Expected '' @
                     quoted ''Authorization: Bearer sk_test_...'' @ ''.''))
            | Some (scheme, rest) \<Rightarrow>
                if \<not> eq_ignore_ascii_case scheme ''Bearer''
                then Inl (unauthorized (if length scheme \<le> 16 \<and> list_all is_alphanumeric scheme
                    then ''Unsupported authorization scheme '' @ quoted scheme @ ''. Use '' @ quoted ''Bearer'' @ ''.''
                    else ''Unsupported authorization scheme. Use '' @ quoted ''Bearer'' @ ''.''))
                else Inr (trim rest)))
      | _ # _ # _ \<Rightarrow> Inl (unauthorized ''Multiple Authorization headers were sent. Send exactly one.''))"

definition validate_shape :: "string \<Rightarrow> unit api_result" where
  "validate_shape token =
     (if token = [] then Inl missing_key
      else if starts_with ''pk_test_'' token
      then Inl (unauthorized (''Publishable keys cannot call the server API. Use your secret key (sk_test_...) '' @
             em_dash @ '' and never expose it in browser code.''))
      else if \<not> is_test_key token
      then (if starts_with ''sk_live_'' token \<or> starts_with ''pk_live_'' token
        then Inl (unauthorized ''This sandbox only accepts test keys (sk_test_...). Never send a live key here.'')
        else Inl (unauthorized ''Invalid API key format.''))
      else
        let body = drop 8 token
        in if 32 \<le> length body \<and> length body \<le> 128 \<and> list_all is_hexdigit body then Inr ()
           else Inl (unauthorized ''Invalid API key format.''))"

lemma validate_shape_ok:
  "validate_shape token = Inr () \<longleftrightarrow>
     (\<exists>body. token = ''sk_test_'' @ body \<and> 32 \<le> length body \<and> length body \<le> 128 \<and> list_all is_hexdigit body)"
  (is "?l \<longleftrightarrow> ?r")
proof
  assume l: ?l
  then have "is_test_key token" "\<not> starts_with ''pk_test_'' token"
    by (auto simp: validate_shape_def Let_def split: if_splits)
  then obtain body where "token = ''sk_test_'' @ body"
    by (auto simp: is_test_key_def starts_with_def strip_prefix_Some)
  with l show ?r by (auto simp: validate_shape_def Let_def split: if_splits)
next
  assume ?r
  then show ?l by (auto simp: validate_shape_def is_test_key_def starts_with_def strip_prefix_def)
qed

section \<open>Looking the key up\<close>

text \<open>
  How the database can be reached: it answers, it fails with an error of its own, or nothing comes back
  within the two seconds of \<open>LOOKUP_TIMEOUT\<close>.
\<close>

datatype db_link = Link_Up | Link_Down sqlx_error | Link_Silent

datatype lookup_answer = Answered "store_error + api_key" | Elapsed

fun key_lookup :: "db_link \<Rightarrow> string \<Rightarrow> db \<Rightarrow> lookup_answer" where
  "key_lookup Link_Up h w = Answered (fst (find_active_by_hash h w))"
| "key_lookup (Link_Down e) h w = Answered (Inl (from_sqlx e))"
| "key_lookup Link_Silent h w = Elapsed"

definition invalid_key :: api_error where
  "invalid_key = unauthorized ''Invalid API key.''"

definition ctx_of_key :: "api_key \<Rightarrow> auth_ctx" where
  "ctx_of_key k = \<lparr>ac_merchant_id = k_merchant_id k, ac_key_id = k_id k, ac_scopes = scope_set_of (k_scopes k)\<rparr>"

text \<open>The second component is the key whose use is to be recorded by a task of its own.\<close>

definition resolve ::
  "lookup_answer \<Rightarrow> string \<Rightarrow> int \<Rightarrow> auth_cache \<Rightarrow> auth_ctx api_result \<times> uuid option \<times> auth_cache" where
  "resolve answer h now c =
     (case cache_lookup h now c of
        Some (Auth_Resolved ctx) \<Rightarrow> (Inr ctx, None, c)
      | Some Auth_Rejected \<Rightarrow> (Inl invalid_key, None, c)
      | None \<Rightarrow> (case answer of
          Answered (Inl e) \<Rightarrow>
            if store_is_not_found e then (Inl invalid_key, None, cache_store h Auth_Rejected now c)
            else (Inl unavailable, None, c)
        | Elapsed \<Rightarrow> (Inl unavailable, None, c)
        | Answered (Inr key) \<Rightarrow>
            if k_kind key \<noteq> Secret then (Inl invalid_key, None, cache_store h Auth_Rejected now c)
            else
              let ctx = ctx_of_key key;
                  (touch, c') = should_touch (ac_key_id ctx) now (cache_store h (Auth_Resolved ctx) now c)
              in (Inr ctx, if touch then Some (ac_key_id ctx) else None, c')))"

section \<open>The middleware\<close>

record api_request =
  aq_method :: string
  aq_path :: string
  aq_headers :: "(string \<times> string) list"
  aq_body :: string

text \<open>
  What one request meets besides the state: how the database is reached, the monotonic and the wall clock,
  and its identifier.
\<close>

record request_env =
  en_link :: db_link
  en_mono :: int
  en_now :: instant
  en_request_id :: "string option"

record api_state =
  as_db :: db
  as_cache :: auth_cache
  as_spawned :: "(uuid \<times> instant) list"

type_synonym 'r api_step = "api_state \<Rightarrow> 'r \<times> api_state"

definition authenticate ::
  "ext \<Rightarrow> request_env \<Rightarrow> (auth_ctx \<Rightarrow> 'r api_step) \<Rightarrow> api_request \<Rightarrow> (api_error + 'r) api_step" where
  "authenticate X env next_layer req st =
     (case rbind (extract_bearer (aq_headers req)) (\<lambda>token. rbind (validate_shape token) (\<lambda>_. Inr token)) of
        Inl e \<Rightarrow> (Inl e, st)
      | Inr token \<Rightarrow>
          let h = lookup_hash X token;
              (r, touch, c) = resolve (key_lookup (en_link env) h (as_db st)) h (en_mono env) (as_cache st);
              st = st\<lparr>as_cache := c,
                as_spawned := as_spawned st @ (case touch of None \<Rightarrow> [] | Some i \<Rightarrow> [(i, en_now env)])\<rparr>
          in (case r of
                Inl e \<Rightarrow> (Inl e, st)
              | Inr ctx \<Rightarrow> (case next_layer ctx st of (rp, st) \<Rightarrow> (Inr rp, st))))"

definition challenge_text :: "string \<Rightarrow> string" where
  "challenge_text err = ''Bearer realm=\"payment-sandbox\"'' @ (if err = [] then [] else '', error=\"'' @ err @ ''\"'')"

definition with_challenge :: "bool \<Rightarrow> reply \<Rightarrow> reply" where
  "with_challenge had_credentials r =
     (let add = (\<lambda>challenge. if has_header ''www-authenticate'' (rp_headers r) then r
                  else r\<lparr>rp_headers := rp_headers r @ [(''www-authenticate'', challenge)]\<rparr>)
      in if rp_status r = 401 \<and> had_credentials then add (challenge_text ''invalid_token'')
         else if rp_status r = 401 then add (challenge_text '''')
         else if rp_status r = 403 then add (challenge_text ''insufficient_scope'')
         else r)"

definition require_auth ::
  "ext \<Rightarrow> request_env \<Rightarrow> (auth_ctx \<Rightarrow> reply fate api_step) \<Rightarrow> api_request \<Rightarrow> reply fate api_step" where
  "require_auth X env next_layer req st =
     (case authenticate X env next_layer req st of (r, st') \<Rightarrow>
        (map_fate (with_challenge (has_header ''authorization'' (aq_headers req)))
           (case r of Inl e \<Rightarrow> Done (into_response X (en_request_id env) e) | Inr rp \<Rightarrow> rp), st'))"

text \<open>The spawned task that records the use of a key; its failure is only logged.\<close>

definition run_touch :: "uuid \<times> instant \<Rightarrow> db \<Rightarrow> db" where
  "run_touch t w = snd (touch_last_used (fst t) (snd t) w)"

section \<open>What the cache holds\<close>

lemma hash_insert_map_of: "map_of (hash_insert k v m) k' = (if k' = k then Some v else map_of m k')"
  by (induction m) (auto simp: hash_insert_def)

lemma hash_insert_set: "set (hash_insert k v m) \<subseteq> insert (k, v) (set m)"
  by (auto simp: hash_insert_def)

lemma hash_insert_length: "length (hash_insert k v m) \<le> Suc (length m)"
  by (simp add: hash_insert_def)

lemma hash_insert_distinct: "distinct (map fst m) \<Longrightarrow> distinct (map fst (hash_insert k v m))"
  by (induction m) (auto simp: hash_insert_def)

lemma filter_distinct_fst: "distinct (map fst m) \<Longrightarrow> distinct (map fst (filter P m))"
  by (induction m) auto

lemma cache_store_settings [simp]:
  "ca_ttl (cache_store h o' now c) = ca_ttl c" "ca_capacity (cache_store h o' now c) = ca_capacity c"
  "ca_touch_interval (cache_store h o' now c) = ca_touch_interval c"
  "ca_touches (cache_store h o' now c) = ca_touches c"
  by (simp_all add: cache_store_def Let_def)

lemma should_touch_settings [simp]:
  "ca_ttl (snd (should_touch i now c)) = ca_ttl c" "ca_capacity (snd (should_touch i now c)) = ca_capacity c"
  "ca_entries (snd (should_touch i now c)) = ca_entries c"
  by (simp_all add: should_touch_def Let_def)

text \<open>One use of the cache, and runs of them.\<close>

datatype auth_use =
    Auth_Request db_link string db int
  | Auth_Invalidate uuid
  | Auth_Clear

fun auth_step :: "auth_use \<Rightarrow> auth_cache \<Rightarrow> auth_cache" where
  "auth_step (Auth_Request link h w now) c = snd (snd (resolve (key_lookup link h w) h now c))"
| "auth_step (Auth_Invalidate i) c = invalidate_key i c"
| "auth_step Auth_Clear c = invalidate_all c"

definition auth_run :: "auth_use list \<Rightarrow> auth_cache \<Rightarrow> auth_cache" where
  "auth_run steps c = foldl (\<lambda>c s. auth_step s c) c steps"

definition cache_bounded :: "auth_cache \<Rightarrow> bool" where
  "cache_bounded c \<longleftrightarrow> distinct (map fst (ca_entries c)) \<and>
     (if cache_is_enabled c then length (ca_entries c) \<le> ca_capacity c else ca_entries c = [])"

lemma cache_store_entries:
  "cache_is_enabled c \<Longrightarrow> \<exists>kept. set kept \<subseteq> set (ca_entries c) \<and> length kept < ca_capacity c \<and>
     (distinct (map fst (ca_entries c)) \<longrightarrow> distinct (map fst kept)) \<and>
     ca_entries (cache_store h o' now c) = hash_insert h \<lparr>ce_outcome = o', ce_expires_at = now + ca_ttl c\<rparr> kept"
  by (intro exI [of _ "if ca_capacity c \<le> length (ca_entries c) then
        let live = filter (\<lambda>(_, e). now < ce_expires_at e) (ca_entries c)
        in if ca_capacity c \<le> length live then [] else live
      else ca_entries c"])
    (auto simp: cache_store_def Let_def cache_is_enabled_def filter_distinct_fst)

lemma cache_store_bounded: "cache_bounded c \<Longrightarrow> cache_bounded (cache_store h o' now c)"
proof (cases "cache_is_enabled c")
  case True
  assume b: "cache_bounded c"
  obtain kept where k: "length kept < ca_capacity c" "distinct (map fst (ca_entries c)) \<longrightarrow> distinct (map fst kept)"
    "ca_entries (cache_store h o' now c) = hash_insert h \<lparr>ce_outcome = o', ce_expires_at = now + ca_ttl c\<rparr> kept"
    using cache_store_entries [OF True] by metis
  have "length (ca_entries (cache_store h o' now c)) \<le> ca_capacity c"
    using hash_insert_length [of h _ kept] k(1,3) by (metis Suc_leI le_trans)
  then show ?thesis
    using b k hash_insert_distinct [of kept] True by (simp add: cache_bounded_def cache_is_enabled_def)
qed (simp add: cache_store_def)

lemma same_entries_bounded:
  "ca_entries c' = ca_entries c \<Longrightarrow> ca_ttl c' = ca_ttl c \<Longrightarrow> ca_capacity c' = ca_capacity c \<Longrightarrow>
     cache_bounded c' = cache_bounded c"
  by (simp add: cache_bounded_def cache_is_enabled_def)

text \<open>What a use of the cache leaves: nothing new, a rejection, or an answer of the database for this hash.\<close>

definition concluded :: "db_link \<Rightarrow> string \<Rightarrow> db \<Rightarrow> auth_outcome \<Rightarrow> bool" where
  "concluded link h w outcome \<longleftrightarrow>
     (case outcome of
        Auth_Resolved ctx \<Rightarrow> (\<exists>k. key_lookup link h w = Answered (Inr k) \<and> k_kind k = Secret \<and> ctx = ctx_of_key k)
      | Auth_Rejected \<Rightarrow> (case key_lookup link h w of
            Answered (Inl e) \<Rightarrow> store_is_not_found e
          | Answered (Inr k) \<Rightarrow> k_kind k \<noteq> Secret
          | Elapsed \<Rightarrow> False))"

definition could_not_look :: "db_link \<Rightarrow> string \<Rightarrow> db \<Rightarrow> bool" where
  "could_not_look link h w \<longleftrightarrow> (case key_lookup link h w of
       Answered (Inl e) \<Rightarrow> \<not> store_is_not_found e | Answered (Inr _) \<Rightarrow> False | Elapsed \<Rightarrow> True)"

definition answer_of :: "auth_outcome \<Rightarrow> auth_ctx api_result" where
  "answer_of outcome = (case outcome of Auth_Resolved ctx \<Rightarrow> Inr ctx | Auth_Rejected \<Rightarrow> Inl invalid_key)"

lemma resolve_cases:
  assumes "resolve (key_lookup link h w) h now c = (r, touch, c')"
  shows "(\<exists>outcome. cache_lookup h now c = Some outcome \<and> r = answer_of outcome \<and> touch = None \<and> c' = c) \<or>
    (r = Inl unavailable \<and> touch = None \<and> c' = c \<and> could_not_look link h w) \<or>
    (\<exists>outcome. concluded link h w outcome \<and> r = answer_of outcome \<and>
       ca_entries c' = ca_entries (cache_store h outcome now c) \<and> ca_ttl c' = ca_ttl c \<and>
       ca_capacity c' = ca_capacity c)"
proof (cases "cache_lookup h now c")
  case (Some outcome)
  then show ?thesis using assms by (cases outcome) (auto simp: resolve_def answer_of_def)
next
  case None
  note n = assms [unfolded resolve_def None Let_def, simplified]
  show ?thesis
  proof (cases "key_lookup link h w")
    case Elapsed
    then show ?thesis using n by (simp add: could_not_look_def)
  next
    case (Answered a)
    show ?thesis
    proof (cases a)
      case (Inl e)
      then show ?thesis using n Answered
        by (auto simp: could_not_look_def concluded_def answer_of_def split: if_splits
            intro!: exI [of _ Auth_Rejected])
    next
      case (Inr k)
      show ?thesis
      proof (cases "k_kind k = Secret")
        case True
        obtain t c2 where t: "should_touch (ac_key_id (ctx_of_key k)) now
            (cache_store h (Auth_Resolved (ctx_of_key k)) now c) = (t, c2)" by fastforce
        have "ca_entries c2 = ca_entries (cache_store h (Auth_Resolved (ctx_of_key k)) now c) \<and>
            ca_ttl c2 = ca_ttl c \<and> ca_capacity c2 = ca_capacity c"
          using should_touch_settings [of "ac_key_id (ctx_of_key k)" now
            "cache_store h (Auth_Resolved (ctx_of_key k)) now c"] t by simp
        moreover have "concluded link h w (Auth_Resolved (ctx_of_key k))"
          using Answered Inr True by (simp add: concluded_def)
        ultimately show ?thesis using n Answered Inr True t
          by (intro disjI2 exI [of _ "Auth_Resolved (ctx_of_key k)"]) (simp add: answer_of_def)
      next
        case False
        then show ?thesis using n Answered Inr
          by (auto simp: concluded_def answer_of_def intro!: exI [of _ Auth_Rejected])
      qed
    qed
  qed
qed

lemma auth_step_bounded:
  assumes "cache_bounded c"
  shows "cache_bounded (auth_step s c) \<and> ca_ttl (auth_step s c) = ca_ttl c \<and>
    ca_capacity (auth_step s c) = ca_capacity c"
proof (cases s)
  case (Auth_Request link h w now)
  obtain r touch c' where e: "resolve (key_lookup link h w) h now c = (r, touch, c')" by (metis surj_pair)
  then have s: "auth_step s c = c'" using Auth_Request by simp
  from resolve_cases [OF e] consider "c' = c" |
      outcome where "ca_entries c' = ca_entries (cache_store h outcome now c)" "ca_ttl c' = ca_ttl c"
        "ca_capacity c' = ca_capacity c" by blast
  then show ?thesis
  proof cases
    case (2 outcome)
    then have "cache_bounded c' = cache_bounded (cache_store h outcome now c)"
      by (intro same_entries_bounded) simp_all
    then show ?thesis using 2 s assms cache_store_bounded by simp
  qed (use assms s in simp)
next
  case (Auth_Invalidate i)
  then show ?thesis using assms filter_distinct_fst [of "ca_entries c"]
    by (auto simp: cache_bounded_def invalidate_key_def cache_is_enabled_def
        intro: le_trans [OF length_filter_le])
next
  case Auth_Clear
  then show ?thesis by (simp add: cache_bounded_def invalidate_all_def cache_is_enabled_def)
qed

lemma auth_run_snoc: "auth_run (steps @ [s]) c = auth_step s (auth_run steps c)"
  by (simp add: auth_run_def)

lemma auth_run_bounded:
  "cache_bounded c \<Longrightarrow> cache_bounded (auth_run steps c) \<and> ca_ttl (auth_run steps c) = ca_ttl c \<and>
     ca_capacity (auth_run steps c) = ca_capacity c"
  by (induction steps rule: rev_induct) (simp_all add: auth_run_snoc auth_step_bounded auth_run_def)

lemma cache_new_bounded [simp]: "cache_bounded (cache_with_settings ttl capacity interval)"
  by (simp add: cache_bounded_def cache_with_settings_def)

text \<open>Every entry was concluded from an answer of the database given one time to live before it expires.\<close>

definition sourced :: "auth_use list \<Rightarrow> auth_cache \<Rightarrow> bool" where
  "sourced steps c \<longleftrightarrow> (\<forall>(h, e) \<in> set (ca_entries c). \<exists>link w t.
     Auth_Request link h w t \<in> set steps \<and> ce_expires_at e = t + ca_ttl c \<and> concluded link h w (ce_outcome e))"

lemma sourced_mono: "sourced steps c \<Longrightarrow> sourced (steps @ [s]) c"
  unfolding sourced_def by fastforce

lemma sourced_subset:
  "sourced steps c \<Longrightarrow> set (ca_entries c') \<subseteq> set (ca_entries c) \<Longrightarrow> ca_ttl c' = ca_ttl c \<Longrightarrow> sourced steps c'"
  unfolding sourced_def by auto

lemma sourced_store:
  assumes "sourced steps c" and "concluded link h w outcome"
    and "ca_entries c' = ca_entries (cache_store h outcome now c)" and "ca_ttl c' = ca_ttl c"
  shows "sourced (steps @ [Auth_Request link h w now]) c'"
proof (cases "cache_is_enabled c")
  case True
  obtain kept where k: "set kept \<subseteq> set (ca_entries c)"
    "ca_entries (cache_store h outcome now c) =
       hash_insert h \<lparr>ce_outcome = outcome, ce_expires_at = now + ca_ttl c\<rparr> kept"
    using cache_store_entries [OF True] by metis
  have new: "\<exists>link' w' t. Auth_Request link' h w' t \<in> set (steps @ [Auth_Request link h w now]) \<and>
      now + ca_ttl c = t + ca_ttl c' \<and> concluded link' h w' outcome"
    using assms(2,4) by (intro exI [of _ link] exI [of _ w] exI [of _ now]) simp
  have "\<exists>link' w' t. Auth_Request link' h' w' t \<in> set (steps @ [Auth_Request link h w now]) \<and>
      ce_expires_at e = t + ca_ttl c' \<and> concluded link' h' w' (ce_outcome e)"
    if "(h', e) \<in> set (ca_entries c')" for h' e
  proof -
    have "(h', e) = (h, \<lparr>ce_outcome = outcome, ce_expires_at = now + ca_ttl c\<rparr>) \<or> (h', e) \<in> set (ca_entries c)"
      using that assms(3) k hash_insert_set [of h _ kept] by auto
    then show ?thesis
    proof
      assume "(h', e) \<in> set (ca_entries c)"
      then show ?thesis using assms(1,4) by (fastforce simp: sourced_def)
    qed (use new in simp)
  qed
  then show ?thesis unfolding sourced_def by blast
next
  case False
  then have "ca_entries c' = ca_entries c" using assms(3) by (simp add: cache_store_def)
  then show ?thesis using sourced_subset [of "steps @ [Auth_Request link h w now]" c c'] sourced_mono [OF assms(1)] assms(4) by simp
qed

lemma auth_step_sourced:
  assumes "sourced steps c"
  shows "sourced (steps @ [s]) (auth_step s c)"
proof (cases s)
  case (Auth_Request link h w now)
  obtain r touch c' where e: "resolve (key_lookup link h w) h now c = (r, touch, c')" by (metis surj_pair)
  then have s: "auth_step s c = c'" using Auth_Request by simp
  from resolve_cases [OF e] consider "c' = c" |
      outcome where "concluded link h w outcome" "ca_entries c' = ca_entries (cache_store h outcome now c)"
        "ca_ttl c' = ca_ttl c" by blast
  then show ?thesis
  proof cases
    case (2 outcome)
    then show ?thesis using sourced_store [OF assms] s Auth_Request by simp
  qed (use sourced_mono [OF assms] s in simp)
next
  case (Auth_Invalidate i)
  then show ?thesis using sourced_subset [OF sourced_mono [OF assms, of s]] by (simp add: invalidate_key_def)
next
  case Auth_Clear
  then show ?thesis by (simp add: sourced_def invalidate_all_def)
qed

lemma auth_run_sourced: "sourced steps (auth_run steps (cache_with_settings ttl capacity interval))"
  by (induction steps rule: rev_induct)
    (simp_all add: auth_run_snoc auth_step_sourced, simp add: auth_run_def sourced_def cache_with_settings_def)

lemma cache_lookup_entry:
  "cache_lookup h now c = Some outcome \<Longrightarrow>
     \<exists>e. (h, e) \<in> set (ca_entries c) \<and> now < ce_expires_at e \<and> ce_outcome e = outcome"
  by (auto simp: cache_lookup_def dest: map_of_SomeD split: if_splits option.splits)

section \<open>Properties\<close>

text \<open>Throttling the writes of a key's last use: a run of requests to touch, with what each was answered.\<close>

fun touch_run :: "(uuid \<times> int) list \<Rightarrow> auth_cache \<Rightarrow> bool list \<times> auth_cache" where
  "touch_run [] c = ([], c)"
| "touch_run ((i, now) # rest) c =
     (case should_touch i now c of (b, c1) \<Rightarrow> (case touch_run rest c1 of (bs, c2) \<Rightarrow> (b # bs, c2)))"

lemma should_touch_fresh:
  assumes "ca_touch_interval c \<noteq> 0" and "\<forall>(j, at) \<in> set (ca_touches c). j \<noteq> i \<and> at = now" and "0 < ca_touch_interval c"
  shows "fst (should_touch i now c) \<and> ca_touches (snd (should_touch i now c)) = (i, now) # ca_touches c \<and>
    ca_touch_interval (snd (should_touch i now c)) = ca_touch_interval c"
proof -
  have n: "map_of (ca_touches c) i = None" using assms(2) by (auto simp: map_of_eq_None_iff)
  have k: "filter (\<lambda>(_, at). duration_since now at < ca_touch_interval c) (ca_touches c) = ca_touches c"
    using assms(2,3) by (auto simp: duration_since_def filter_id_conv)
  have h: "filter (\<lambda>(k', _). k' \<noteq> i) (ca_touches c) = ca_touches c"
    using assms(2) by (auto simp: filter_id_conv)
  show ?thesis using assms(1) n k h by (simp add: should_touch_def Let_def hash_insert_def)
qed

lemma touch_run_fresh:
  assumes "0 < ca_touch_interval c" and "distinct is"
    and "\<forall>(j, at) \<in> set (ca_touches c). j \<notin> set is \<and> at = now"
  shows "list_all id (fst (touch_run (map (\<lambda>i. (i, now)) is) c)) \<and>
    length (ca_touches (snd (touch_run (map (\<lambda>i. (i, now)) is) c))) = length is + length (ca_touches c)"
  using assms
proof (induction "is" arbitrary: c)
  case (Cons i "is")
  obtain c1 where c1: "should_touch i now c = (True, c1)" "ca_touches c1 = (i, now) # ca_touches c"
    "ca_touch_interval c1 = ca_touch_interval c"
    using should_touch_fresh [of c i now] Cons.prems by (cases "should_touch i now c") auto
  show ?case using Cons.IH [of c1] Cons.prems c1 by (auto split: prod.splits)
qed simp

lemma resolve_fresh:
  assumes "fst (resolve (key_lookup link h w) h now (auth_run steps (cache_with_settings ttl capacity interval))) = r"
  shows "(\<exists>link' w' t outcome. Auth_Request link' h w' t \<in> set (steps @ [Auth_Request link h w now]) \<and>
      (now < t + ttl \<or> t = now) \<and> concluded link' h w' outcome \<and>
      r = answer_of outcome) \<or>
    (r = Inl unavailable \<and> could_not_look link h w)"
proof -
  let ?c = "auth_run steps (cache_with_settings ttl capacity interval)"
  obtain touch c' where e: "resolve (key_lookup link h w) h now ?c = (r, touch, c')"
    using assms by (metis prod.collapse)
  have ttl: "ca_ttl ?c = ttl"
    using auth_run_bounded [OF cache_new_bounded] by (simp add: cache_with_settings_def)
  from resolve_cases [OF e] consider
      outcome where "cache_lookup h now ?c = Some outcome" "r = answer_of outcome"
    | "r = Inl unavailable" "could_not_look link h w"
    | outcome where "concluded link h w outcome" "r = answer_of outcome" by blast
  then show ?thesis
  proof cases
    case (1 outcome)
    then obtain en where en: "(h, en) \<in> set (ca_entries ?c)" "now < ce_expires_at en" "ce_outcome en = outcome"
      using cache_lookup_entry by blast
    have "\<exists>link' w' t. Auth_Request link' h w' t \<in> set steps \<and> ce_expires_at en = t + ttl \<and>
        concluded link' h w' outcome"
      using auth_run_sourced [of steps ttl capacity interval] en(1,3) ttl unfolding sourced_def by fastforce
    then obtain link' w' t where s: "Auth_Request link' h w' t \<in> set steps" "ce_expires_at en = t + ttl"
        "concluded link' h w' outcome" by blast
    show ?thesis
      using s 1(2) en(2)
      by (intro disjI1 exI [of _ link'] exI [of _ w'] exI [of _ t] exI [of _ outcome]) simp
  next
    case 2
    then show ?thesis by simp
  next
    case (3 outcome)
    then show ?thesis
      by (intro disjI1 exI [of _ link] exI [of _ w] exI [of _ now] exI [of _ outcome]) simp
  qed
qed

lemma concluded_resolved:
  "concluded link h w (Auth_Resolved ctx) \<Longrightarrow> link = Link_Up \<and>
     (\<exists>row \<in> set (db_api_keys w). kr_secret_hash row = h \<and> kr_revoked_at row = None \<and> kr_kind row = Secret \<and>
        ctx = ctx_of_key (key_into_domain row))"
  by (cases link) (auto simp: concluded_def find_active_by_hash_def query_def rbind_Inr key_into_domain_def
      find_Some_iff)

lemma from_sqlx_found: "\<not> store_is_not_found (from_sqlx e)"
  by (auto simp: from_sqlx_def store_is_not_found_def Let_def split: sqlx_error.splits)

lemma concluded_rejected:
  "concluded link h w Auth_Rejected \<Longrightarrow> link = Link_Up \<and>
     \<not> (\<exists>row. find (\<lambda>r. kr_secret_hash r = h \<and> kr_revoked_at r = None) (db_api_keys w) = Some row \<and>
        kr_kind row = Secret)"
  by (cases link) (auto simp: concluded_def find_active_by_hash_def query_def rbind_Inr key_into_domain_def
      from_sqlx_found ok_or_def split: option.splits)

lemma could_not_look_link: "could_not_look link h w \<Longrightarrow> link \<noteq> Link_Up"
  by (auto simp: could_not_look_def find_active_by_hash_def query_def ok_or_def rbind_def
      store_is_not_found_def split: sum.splits option.splits)

text \<open>
  C10. Every answer of the key lookup is fresh. After any run of requests and invalidations on a new cache,
  a request is let in only with the merchant and the scopes of a secret key that the database held
  unrevoked under the presented hash at an answer given at this instant or less than one time to live ago;
  it is told that its key is bad only if the database, then, had no such key; and otherwise it gets the
  retryable 503, only when the database could not be asked. A revoked key is therefore out after
  one time to live, and an outage never reads as a bad key.
\<close>
theorem auth_answers_are_fresh:
  assumes "fst (resolve (key_lookup link h w) h now (auth_run steps (cache_with_settings ttl capacity interval))) = r"
  shows "case r of
      Inr ctx \<Rightarrow> (\<exists>w' t. Auth_Request Link_Up h w' t \<in> set (steps @ [Auth_Request link h w now]) \<and>
        (now < t + ttl \<or> t = now) \<and>
        (\<exists>row \<in> set (db_api_keys w'). kr_secret_hash row = h \<and> kr_revoked_at row = None \<and>
           kr_kind row = Secret \<and> ctx = ctx_of_key (key_into_domain row)))
    | Inl e \<Rightarrow> (e = unavailable \<and> link \<noteq> Link_Up) \<or>
        (e = invalid_key \<and> (\<exists>w' t. Auth_Request Link_Up h w' t \<in> set (steps @ [Auth_Request link h w now]) \<and>
           (now < t + ttl \<or> t = now) \<and>
           \<not> (\<exists>row. find (\<lambda>r. kr_secret_hash r = h \<and> kr_revoked_at r = None) (db_api_keys w') = Some row \<and>
              kr_kind row = Secret)))"
  using resolve_fresh [OF assms]
proof
  assume "\<exists>link' w' t outcome. Auth_Request link' h w' t \<in> set (steps @ [Auth_Request link h w now]) \<and>
    (now < t + ttl \<or> t = now) \<and> concluded link' h w' outcome \<and> r = answer_of outcome"
  then obtain link' w' t outcome where *: "Auth_Request link' h w' t \<in> set (steps @ [Auth_Request link h w now])"
    "now < t + ttl \<or> t = now" "concluded link' h w' outcome" "r = answer_of outcome" by blast
  show ?thesis
  proof (cases outcome)
    case (Auth_Resolved ctx)
    then show ?thesis using * concluded_resolved [of link' h w' ctx]
      by (simp add: answer_of_def del: set_append) blast
  next
    case Auth_Rejected
    then show ?thesis using * concluded_rejected [of link' h w']
      by (simp add: answer_of_def del: set_append) blast
  qed
qed (use could_not_look_link [of link h w] in auto)

text \<open>The first key revoked one second after it was last accepted, asked for within the five seconds and after.\<close>

definition demo_revoked :: db where
  "demo_revoked = snd (key_revoke 7 1 5 key_demo_world)"

definition demo_auth_steps :: "auth_use list" where
  "demo_auth_steps = [Auth_Request Link_Up ''h1'' key_demo_world 0]"

theorem auth_answers_are_fresh_witness:
  "is_ok (fst (resolve (key_lookup Link_Up ''h1'' demo_revoked) ''h1'' (seconds 4)
      (auth_run demo_auth_steps cache_new))) \<and>
   fst (resolve (key_lookup Link_Up ''h1'' demo_revoked) ''h1'' (seconds 5)
      (auth_run demo_auth_steps cache_new)) = Inl invalid_key \<and>
   fst (resolve (key_lookup Link_Silent ''h1'' demo_revoked) ''h1'' (seconds 5)
      (auth_run demo_auth_steps cache_new)) = Inl unavailable \<and>
   (\<exists>w' t. Auth_Request Link_Up ''h1'' w' t \<in> set (demo_auth_steps @ [Auth_Request Link_Up ''h1'' demo_revoked (seconds 5)]) \<and>
     (seconds 5 < t + seconds 5 \<or> t = seconds 5) \<and>
     \<not> (\<exists>row. find (\<lambda>r. kr_secret_hash r = ''h1'' \<and> kr_revoked_at r = None) (db_api_keys w') = Some row \<and>
        kr_kind row = Secret))"
proof -
  have 1: "is_ok (fst (resolve (key_lookup Link_Up ''h1'' demo_revoked) ''h1'' (seconds 4)
      (auth_run demo_auth_steps cache_new)))" by code_simp
  have 2: "fst (resolve (key_lookup Link_Up ''h1'' demo_revoked) ''h1'' (seconds 5)
      (auth_run demo_auth_steps cache_new)) = Inl invalid_key" by code_simp
  have 3: "fst (resolve (key_lookup Link_Silent ''h1'' demo_revoked) ''h1'' (seconds 5)
      (auth_run demo_auth_steps cache_new)) = Inl unavailable" by code_simp
  have "invalid_key \<noteq> unavailable" by code_simp
  then show ?thesis
    using 1 2 3 auth_answers_are_fresh [OF 2 [unfolded cache_new_def]] by simp
qed

text \<open>
  The cache of decisions never outgrows its capacity: after any run it has at most
  that many entries, one per hash. The record of touches is not bounded by it, although a comment says so: of any
  number of keys used within one interval, each is remembered, whatever the capacity.
\<close>
theorem auth_cache_is_bounded:
  "length (ca_entries (auth_run steps (cache_with_settings ttl capacity interval))) \<le> capacity \<and>
   distinct (map fst (ca_entries (auth_run steps (cache_with_settings ttl capacity interval)))) \<and>
   (0 < interval \<longrightarrow> distinct keys \<longrightarrow>
      length (ca_touches (snd (touch_run (map (\<lambda>i. (i, now)) keys) (cache_with_settings ttl capacity interval))))
        = length keys)"
proof -
  have "cache_bounded (auth_run steps (cache_with_settings ttl capacity interval)) \<and>
      ca_capacity (auth_run steps (cache_with_settings ttl capacity interval)) = capacity"
    using auth_run_bounded [OF cache_new_bounded] by (simp add: cache_with_settings_def)
  moreover have "length (ca_touches (snd (touch_run (map (\<lambda>i. (i, now)) keys)
      (cache_with_settings ttl capacity interval)))) = length keys" if "0 < interval" "distinct keys"
    using touch_run_fresh [of "cache_with_settings ttl capacity interval" keys now] that
    by (simp add: cache_with_settings_def)
  ultimately show ?thesis by (auto simp: cache_bounded_def split: if_splits)
qed

theorem auth_cache_is_bounded_witness:
  "length (ca_touches (snd (touch_run (map (\<lambda>i. (i, 9)) [1, 2, 3]) (cache_with_settings (seconds 5) 2 (seconds 60))))) = 3 \<and>
   distinct [1::nat, 2, 3] \<and> 0 < seconds 60"
  using auth_cache_is_bounded [where keys = "[1, 2, 3]" and interval = "seconds 60" and capacity = 2 and
      ttl = "seconds 5" and now = 9] by (simp add: seconds_def)

lemma extract_bearer_err: "extract_bearer headers = Inl e \<Longrightarrow> ae_status e = 401"
  by (auto simp: extract_bearer_def missing_key_def unauthorized_def api_error_new_def
      split: list.splits option.splits prod.splits if_splits)

lemma validate_shape_err: "validate_shape token = Inl e \<Longrightarrow> ae_status e = 401"
  by (auto simp: validate_shape_def Let_def missing_key_def unauthorized_def api_error_new_def
      split: if_splits)

lemma resolve_err: "resolve answer h now c = (Inl e, rest) \<Longrightarrow> e = invalid_key \<or> e = unavailable"
  by (auto simp: resolve_def Let_def split: option.splits auth_outcome.splits lookup_answer.splits sum.splits
      if_splits prod.splits)

lemma into_response_status [simp]: "rp_status (into_response X i e) = ae_status e"
  by (simp add: into_response_def json_reply_def Let_def split: option.splits)

lemma with_challenge_status [simp]: "rp_status (with_challenge b r) = rp_status r"
  and with_challenge_body [simp]: "rp_body (with_challenge b r) = rp_body r"
  by (simp_all add: with_challenge_def Let_def)

lemma has_header_append [simp]: "has_header n (hs @ ks) \<longleftrightarrow> has_header n hs \<or> has_header n ks"
  by (auto simp: has_header_def)

lemma with_challenge_header: "rp_status r \<in> {401, 403} \<Longrightarrow> has_header ''www-authenticate'' (rp_headers (with_challenge b r))"
  by (auto simp: with_challenge_def Let_def has_header_def)

lemma authenticate_cases:
  obtains e st' where "authenticate X env next_layer req st = (Inl e, st')" "ae_status e = 401 \<or> ae_status e = 503"
      "as_db st' = as_db st"
  | token ctx st' where "extract_bearer (aq_headers req) = Inr token" "validate_shape token = Inr ()"
      "fst (resolve (key_lookup (en_link env) (lookup_hash X token) (as_db st)) (lookup_hash X token)
         (en_mono env) (as_cache st)) = Inr ctx" "as_db st' = as_db st"
      "authenticate X env next_layer req st = (Inr (fst (next_layer ctx st')), snd (next_layer ctx st'))"
proof (cases "extract_bearer (aq_headers req)")
  case (Inl e)
  then show ?thesis using extract_bearer_err [OF Inl] that(1) by (simp add: authenticate_def)
next
  case (Inr token)
  show ?thesis
  proof (cases "validate_shape token")
    case (Inl e)
    then show ?thesis using validate_shape_err [OF Inl] that(1) Inr by (simp add: authenticate_def)
  next
    case v: (Inr u)
    define h where "h = lookup_hash X token"
    obtain r touch c where r: "resolve (key_lookup (en_link env) h (as_db st)) h (en_mono env) (as_cache st) = (r, touch, c)"
      by (metis surj_pair)
    define st' where "st' = st\<lparr>as_cache := c,
        as_spawned := as_spawned st @ (case touch of None \<Rightarrow> [] | Some i \<Rightarrow> [(i, en_now env)])\<rparr>"
    have d: "as_db st' = as_db st" by (simp add: st'_def)
    show ?thesis
    proof (cases r)
      case (Inl e)
      have "authenticate X env next_layer req st = (Inl e, st')"
        using Inr v r Inl by (simp add: authenticate_def Let_def h_def st'_def)
      moreover have "ae_status e = 401 \<or> ae_status e = 503"
        using resolve_err [OF r [unfolded Inl]] by (auto simp: invalid_key_def unavailable_def unauthorized_def api_error_new_def)
      ultimately show ?thesis using that(1) d by blast
    next
      case (Inr ctx)
      have "authenticate X env next_layer req st = (Inr (fst (next_layer ctx st')), snd (next_layer ctx st'))"
        using \<open>extract_bearer (aq_headers req) = Inr token\<close> v r Inr
        by (simp add: authenticate_def Let_def h_def st'_def split: prod.splits)
      moreover have "fst (resolve (key_lookup (en_link env) (lookup_hash X token) (as_db st))
          (lookup_hash X token) (en_mono env) (as_cache st)) = Inr ctx"
        using r Inr by (simp add: h_def)
      ultimately show ?thesis
        using that(2) d \<open>extract_bearer (aq_headers req) = Inr token\<close> v by simp
    qed
  qed
qed

text \<open>
  C11. Nothing behind the middleware runs for a caller it does not know: either the request carries one
  well-formed secret key that the lookup accepts, and the next layer is run once, with that key's context and
  the database as it was, and its reply comes back with a challenge added where one is due; or the
  answer is a 401 or the retryable 503 and the database is untouched. Every 401 and 403 that leaves, from
  here or from a handler, carries a challenge.
\<close>
theorem auth_gate:
  "((\<exists>token ctx st1. extract_bearer (aq_headers req) = Inr token \<and>
        (\<exists>body. token = ''sk_test_'' @ body \<and> 32 \<le> length body \<and> length body \<le> 128 \<and> list_all is_hexdigit body) \<and>
        fst (resolve (key_lookup (en_link env) (lookup_hash X token) (as_db st)) (lookup_hash X token)
          (en_mono env) (as_cache st)) = Inr ctx \<and> as_db st1 = as_db st \<and>
        require_auth X env next_layer req st =
          (map_fate (with_challenge (has_header ''authorization'' (aq_headers req))) (fst (next_layer ctx st1)),
           snd (next_layer ctx st1))) \<or>
    (\<exists>r. fst (require_auth X env next_layer req st) = Done r \<and> rp_status r \<in> {401, 503} \<and>
     as_db (snd (require_auth X env next_layer req st)) = as_db st)) \<and>
   (case fst (require_auth X env next_layer req st) of
      Done r \<Rightarrow> rp_status r \<in> {401, 403} \<longrightarrow> has_header ''www-authenticate'' (rp_headers r)
    | _ \<Rightarrow> True)"
  (is "?A \<and> ?B")
proof
  show ?A
  proof (rule authenticate_cases [of X env next_layer req st])
    fix e st'
    assume "authenticate X env next_layer req st = (Inl e, st')" "ae_status e = 401 \<or> ae_status e = 503"
      "as_db st' = as_db st"
    then show ?A by (intro disjI2) (simp add: require_auth_def)
  next
    fix token ctx st'
    assume *: "extract_bearer (aq_headers req) = Inr token" "validate_shape token = Inr ()"
      "fst (resolve (key_lookup (en_link env) (lookup_hash X token) (as_db st)) (lookup_hash X token)
         (en_mono env) (as_cache st)) = Inr ctx" "as_db st' = as_db st"
      "authenticate X env next_layer req st = (Inr (fst (next_layer ctx st')), snd (next_layer ctx st'))"
    show ?A
      using * (1,3,4,5) * (2) [unfolded validate_shape_ok]
      by (intro disjI1 exI [of _ token] exI [of _ ctx] exI [of _ st']) (simp add: require_auth_def)
  qed
  have "has_header ''www-authenticate'' (rp_headers r)"
    if "map_fate (with_challenge b) fr = Done r" "rp_status r \<in> {401, 403}" for b fr r
    using that by (cases fr) (auto intro!: with_challenge_header)
  then show ?B
    by (auto simp: require_auth_def split: fate.splits prod.splits)
qed

text \<open>A request without credentials.\<close>

theorem auth_gate_witness:
  "(case fst (require_auth demo_ext \<lparr>en_link = Link_Up, en_mono = 0, en_now = 0, en_request_id = None\<rparr>
       (\<lambda>ctx st. (Done (json_reply demo_ext 200 JNull), st))
       \<lparr>aq_method = ''GET'', aq_path = ''/orders'', aq_headers = [], aq_body = ''''\<rparr>
       \<lparr>as_db = demo_db, as_cache = cache_new, as_spawned = []\<rparr>) of
      Done r \<Rightarrow> rp_status r = 401 \<and> has_header ''www-authenticate'' (rp_headers r) | _ \<Rightarrow> False)"
proof -
  let ?r = "fst (require_auth demo_ext \<lparr>en_link = Link_Up, en_mono = 0, en_now = 0, en_request_id = None\<rparr>
       (\<lambda>ctx st. (Done (json_reply demo_ext 200 JNull), st))
       \<lparr>aq_method = ''GET'', aq_path = ''/orders'', aq_headers = [], aq_body = ''''\<rparr>
       \<lparr>as_db = demo_db, as_cache = cache_new, as_spawned = []\<rparr>)"
  have "(case ?r of Done r \<Rightarrow> rp_status r = 401 | _ \<Rightarrow> False)" by code_simp
  moreover have "(case ?r of Done r \<Rightarrow> rp_status r \<in> {401, 403} \<longrightarrow> has_header ''www-authenticate'' (rp_headers r)
      | _ \<Rightarrow> True)"
    by (rule auth_gate [THEN conjunct2])
  ultimately show ?thesis by (auto split: fate.splits)
qed

section \<open>A key that was issued is accepted\<close>

lemma ascii_lower_letter:
  assumes "ascii_lower c \<in> set ''abcdefghijklmnopqrstuvwxyz''"
  shows "65 \<le> (of_char c :: nat) \<and> (of_char c :: nat) \<le> 122"
proof (cases "65 \<le> (of_char c :: nat) \<and> (of_char c :: nat) \<le> 90")
  case False
  then have "ascii_lower c = c" by (auto simp: ascii_lower_def)
  then show ?thesis using assms by auto
qed auto

lemma bearer_scheme:
  assumes "eq_ignore_ascii_case scheme ''Bearer''"
  obtains c s where "scheme = c # s" "ascii_visible c" "length scheme = 6"
    "list_all (\<lambda>c. 65 \<le> (of_char c :: nat) \<and> (of_char c :: nat) \<le> 122) scheme"
proof -
  have m: "map ascii_lower scheme = ''bearer''"
  proof -
    have "map ascii_lower ''Bearer'' = ''bearer''" by code_simp
    then show ?thesis using assms by (simp only: eq_ignore_ascii_case_def)
  qed
  have l: "length scheme = 6" using arg_cong [OF m, of length] by simp
  have "list_all (\<lambda>c. 65 \<le> (of_char c :: nat) \<and> (of_char c :: nat) \<le> 122) scheme"
  proof -
    have "ascii_lower c \<in> set ''bearer''" if "c \<in> set scheme" for c
      using that m by (metis imageI image_set)
    moreover have "set ''bearer'' \<subseteq> set ''abcdefghijklmnopqrstuvwxyz''" by simp
    ultimately have "65 \<le> (of_char c :: nat) \<and> (of_char c :: nat) \<le> 122" if "c \<in> set scheme" for c
      using that by (intro ascii_lower_letter) (rule subsetD)
    then show ?thesis by (simp add: list_all_iff)
  qed
  then show thesis using that l by (cases scheme) (auto simp: ascii_visible_def)
qed

lemma hex_chars_plain:
  assumes "is_digit c \<or> c \<in> set ''abcdef''"
  shows "ascii_visible c" "is_hexdigit c" "32 \<le> (of_char c :: nat) \<and> (of_char c :: nat) < 127"
  using assms by (auto simp: is_hexdigit_def ascii_lower_def ascii_visible_def is_digit_def)

lemma extract_bearer_token:
  assumes "all_headers ''authorization'' headers = [scheme @ '' '' @ token]"
    and "eq_ignore_ascii_case scheme ''Bearer''"
    and "token = ''sk_test_'' @ body" and "body \<noteq> []" and "length body \<le> 128"
    and "list_all (\<lambda>c. is_digit c \<or> c \<in> set ''abcdef'') body"
  shows "extract_bearer headers = Inr token"
proof -
  obtain c s where s: "scheme = c # s" "ascii_visible c" "length scheme = 6"
    "list_all (\<lambda>c. 65 \<le> (of_char c :: nat) \<and> (of_char c :: nat) \<le> 122) scheme"
    using bearer_scheme [OF assms(2)] .
  obtain b d where b: "body = b @ [d]" using assms(4) by (cases body rule: rev_cases) auto
  have d: "ascii_visible d" using assms(6) b hex_chars_plain(1) [of d] by simp
  have t1: "trim (scheme @ '' '' @ token) = scheme @ '' '' @ token"
    using trim_visible [OF s(2) d, of "s @ '' sk_test_'' @ b"] s(1) assms(3) b by simp
  have "ascii_visible (CHR ''s'')" by (simp add: ascii_visible_def)
  then have t2: "trim token = token"
    using trim_visible [OF _ d, of "CHR ''s''" "''k_test_'' @ b"] assms(3) b by simp
  have "list_all (\<lambda>c. 32 \<le> (of_char c :: nat) \<and> (of_char c :: nat) < 127) body"
    using assms(6) hex_chars_plain(3) by (fastforce simp: list_all_iff)
  then have h: "header_to_str (scheme @ '' '' @ token) = Some (scheme @ '' '' @ token)"
    using s(4) assms(3) by (auto simp: header_to_str_def list_all_iff)
  have "CHR '' '' \<notin> set scheme" using s(4) by (auto simp: list_all_iff)
  then have p: "split_once (CHR '' '') (scheme @ '' '' @ token) = Some (scheme, token)"
    by (simp add: split_once_Some)
  have "length (scheme @ '' '' @ token) \<le> 512" using s(3) assms(3,5) by simp
  then show ?thesis
    using assms(1,2) h t1 t2 p by (simp add: extract_bearer_def)
qed

lemma find_append_None: "find P xs = None \<Longrightarrow> find P (xs @ ys) = find P ys"
  by (induction xs) auto

lemma find_issued:
  assumes "key_insert X k w = (Inr (), w')" and "k_revoked_at k = None"
  shows "find_active_by_hash (k_secret_hash k) w' = (Inr k, w')"
proof -
  have w': "w' = w\<lparr>db_api_keys := db_api_keys w @ [key_to_row k]\<rparr>"
    and u: "\<not> list_ex (\<lambda>q. kr_secret_hash q = kr_secret_hash (key_to_row k)) (db_api_keys w)"
    using assms(1) by (auto simp: key_insert_def guarded_Inr guard_row_Inr Let_def)
  have n: "find (\<lambda>r. kr_secret_hash r = k_secret_hash k \<and> kr_revoked_at r = None) (db_api_keys w) = None"
    using u by (auto simp: find_None_iff list_ex_iff key_to_row_def)
  have "key_into_domain (key_to_row k) = k" using key_rows.read_written [of k] by simp
  then show ?thesis
    using assms(2) by (simp add: w' find_active_by_hash_def query_def find_append_None [OF n] key_to_row_def)
qed

text \<open>
  A key that was issued works: once the secret key made from 32 random bytes has been inserted for a merchant,
  a request that presents its plaintext as a bearer token, the scheme in any case, is run by the next layer
  with that merchant, that key and every scope, on the database as the insertion left it, provided the
  database can be asked and the cache has nothing on the hash; and the use of the key is recorded.
\<close>
theorem issued_key_authenticates:
  assumes "hex_text_ok X" and "length (hex_encode X bytes) = 64"
    and "key_insert X (api_key_new i m Secret label (gk_hash (generate_key X ''sk_test'' bytes)) t) w = (Inr (), as_db st)"
    and "cache_lookup (gk_hash (generate_key X ''sk_test'' bytes)) (en_mono env) (as_cache st) = None"
    and "map_of (ca_touches (as_cache st)) i = None"
    and "en_link env = Link_Up" and "eq_ignore_ascii_case scheme ''Bearer''"
    and "all_headers ''authorization'' (aq_headers req) =
       [scheme @ '' '' @ gk_plaintext (generate_key X ''sk_test'' bytes)]"
  shows "\<exists>st'. authenticate X env next_layer req st =
        (case next_layer \<lparr>ac_merchant_id = m, ac_key_id = i, ac_scopes = scope_set_of all_scopes\<rparr> st' of
           (rp, st2) \<Rightarrow> (Inr rp, st2)) \<and>
      as_db st' = as_db st \<and> as_spawned st' = as_spawned st @ [(i, en_now env)]"
proof -
  let ?gk = "generate_key X ''sk_test'' bytes"
  let ?k = "api_key_new i m Secret label (gk_hash ?gk) t"
  have hex: "list_all (\<lambda>c. is_digit c \<or> c \<in> set ''abcdef'') (hex_encode X bytes)"
    using assms(1) by (simp add: hex_text_ok_def)
  have p: "gk_plaintext ?gk = ''sk_test_'' @ hex_encode X bytes" and g: "gk_hash ?gk = lookup_hash X (gk_plaintext ?gk)"
    by (simp_all add: generate_key_def Let_def)
  have e: "extract_bearer (aq_headers req) = Inr (gk_plaintext ?gk)"
    using extract_bearer_token [OF assms(8,7) p] assms(2) hex by fastforce
  have v: "validate_shape (gk_plaintext ?gk) = Inr ()"
    using p assms(2) hex hex_chars_plain(2) by (fastforce simp: validate_shape_ok list_all_iff)
  have f: "find_active_by_hash (gk_hash ?gk) (as_db st) = (Inr ?k, as_db st)"
    using find_issued [OF assms(3)] by (simp add: api_key_new_def)
  have c: "ctx_of_key ?k = \<lparr>ac_merchant_id = m, ac_key_id = i, ac_scopes = scope_set_of all_scopes\<rparr>"
    by (simp add: ctx_of_key_def api_key_new_def full_access_def all_scopes_def)
  obtain c' where r: "resolve (key_lookup Link_Up (gk_hash ?gk) (as_db st)) (gk_hash ?gk) (en_mono env) (as_cache st)
      = (Inr (ctx_of_key ?k), Some i, c')"
  proof -
    let ?c = "cache_store (gk_hash ?gk) (Auth_Resolved (ctx_of_key ?k)) (en_mono env) (as_cache st)"
    have "fst (should_touch i (en_mono env) ?c)"
      using assms(5) by (simp add: should_touch_def Let_def)
    then have "should_touch i (en_mono env) ?c = (True, snd (should_touch i (en_mono env) ?c))"
      by (metis prod.collapse)
    then obtain c1 where "should_touch i (en_mono env) ?c = (True, c1)" by blast
    moreover have "k_kind ?k = Secret" "ac_key_id (ctx_of_key ?k) = i" using c by (simp_all add: api_key_new_def)
    ultimately show thesis using f assms(4) by (intro that [of c1]) (simp add: resolve_def Let_def)
  qed
  show ?thesis
    by (intro exI [of _ "st\<lparr>as_cache := c', as_spawned := as_spawned st @ [(i, en_now env)]\<rparr>"])
      (simp add: authenticate_def Let_def e v r [unfolded c key_lookup.simps] assms(6) flip: g)
qed

definition demo_bytes :: string where
  "demo_bytes = replicate 32 (CHR ''a'')"

definition demo_issue :: "db" where
  "demo_issue = snd (key_insert demo_ext (api_key_new 9 7 Secret ''k''
     (gk_hash (generate_key demo_ext ''sk_test'' demo_bytes)) 0) demo_db)"

definition demo_get :: api_request where
  "demo_get = \<lparr>aq_method = ''GET'', aq_path = ''/orders'',
     aq_headers = [(''authorization'', ''bEARER '' @ gk_plaintext (generate_key demo_ext ''sk_test'' demo_bytes))],
     aq_body = ''''\<rparr>"

definition demo_state :: "db \<Rightarrow> api_state" where
  "demo_state w = \<lparr>as_db = w, as_cache = cache_new, as_spawned = []\<rparr>"

definition demo_env :: request_env where
  "demo_env = \<lparr>en_link = Link_Up, en_mono = 0, en_now = 0, en_request_id = None\<rparr>"

theorem issued_key_authenticates_witness:
  "\<exists>st'. authenticate demo_ext demo_env (\<lambda>ctx st. (json_reply demo_ext 200 JNull, st)) demo_get (demo_state demo_issue) =
        (Inr (json_reply demo_ext 200 JNull), st') \<and>
      as_db st' = demo_issue \<and> as_spawned st' = [(9, 0)]"
proof -
  let ?gk = "generate_key demo_ext ''sk_test'' demo_bytes"
  have l: "length (hex_encode demo_ext demo_bytes) = 64" by code_simp
  have "fst (key_insert demo_ext (api_key_new 9 7 Secret ''k'' (gk_hash ?gk) 0) demo_db) = Inr ()" by code_simp
  then have k: "key_insert demo_ext (api_key_new 9 7 Secret ''k'' (gk_hash ?gk) 0) demo_db =
      (Inr (), as_db (demo_state demo_issue))"
    by (simp add: demo_issue_def demo_state_def prod_eq_iff)
  have s: "eq_ignore_ascii_case ''bEARER'' ''Bearer''" by code_simp
  show ?thesis
    using issued_key_authenticates [OF demo_hex_text_ok l k, of demo_env "''bEARER''" demo_get
        "\<lambda>ctx st. (json_reply demo_ext 200 JNull, st)"] s
    by (simp add: demo_state_def cache_new_def cache_with_settings_def cache_lookup_def demo_env_def
        demo_get_def all_headers_def)
qed

end
