(* ===== verification/Api_Pagination.thy ===== *)
theory Api_Pagination
  imports Api_Error Engine_Order
begin

text \<open>
  \<open>crates/api/config.rs\<close> and \<open>crates/api/pagination.rs\<close>: the limits of the API, and the cursor pagination of
  its collections. The locale \<open>paged_collection\<close> is what a page handler relies on from the query behind it;
  it is interpreted by the orders and the events of a merchant.
\<close>

section \<open>Limits\<close>

record api_config =
  cf_max_body_bytes :: nat
  cf_max_recorded_response_bytes :: nat
  cf_request_timeout :: int
  cf_idempotency_ttl :: int
  cf_default_page_size :: int
  cf_max_page_size :: int
  cf_simulate_latency :: bool
  cf_max_simulated_latency :: int

definition api_config_default :: api_config where
  "api_config_default = \<lparr>cf_max_body_bytes = 256 * 1024, cf_max_recorded_response_bytes = 256 * 1024,
     cf_request_timeout = seconds 30, cf_idempotency_ttl = seconds (24 * 60 * 60),
     cf_default_page_size = 10, cf_max_page_size = 100, cf_simulate_latency = True,
     cf_max_simulated_latency = seconds 5\<rparr>"

section \<open>Pages\<close>

record list_params =
  lp_limit :: "int option"
  lp_before :: "string option"

record page_request =
  pq_limit :: int
  pq_before :: "instant option"

record page =
  pg_data :: "json list"
  pg_has_more :: bool
  pg_next_before :: "string option"

definition page_size :: "api_config \<Rightarrow> int option \<Rightarrow> int api_result" where
  "page_size cfg limit =
     (case limit of
        None \<Rightarrow> Inr (cf_default_page_size cfg)
      | Some n \<Rightarrow> if 1 \<le> n \<and> n \<le> cf_max_page_size cfg then Inr n
          else Inl (invalid_request ''limit_invalid'' (quoted ''limit'' @ '' must be between 1 and '' @
                 show_int (cf_max_page_size cfg) @ '', got '' @ show_int n @ ''.'') (Some ''limit'')))"

definition page_cursor :: "ext \<Rightarrow> string option \<Rightarrow> instant option api_result" where
  "page_cursor X before =
     (case before of
        None \<Rightarrow> Inr None
      | Some raw \<Rightarrow> (case rfc3339_parse X raw of
          None \<Rightarrow> Inl (invalid_request ''cursor_invalid'' (quoted ''before'' @
                 '' must be an RFC3339 timestamp, as returned in '' @ quoted ''next_before'' @ ''.'') (Some ''before''))
        | Some t \<Rightarrow> Inr (Some t)))"

definition resolve_params :: "ext \<Rightarrow> api_config \<Rightarrow> list_params \<Rightarrow> page_request api_result" where
  "resolve_params X cfg p =
     rbind (page_size cfg (lp_limit p)) (\<lambda>limit.
     rbind (page_cursor X (lp_before p)) (\<lambda>before.
     Inr \<lparr>pq_limit = limit, pq_before = before\<rparr>))"

definition fetch_limit :: "page_request \<Rightarrow> int" where
  "fetch_limit pq = (if i64_max < pq_limit pq + 1 then i64_max else pq_limit pq + 1)"

definition page_finish :: "ext \<Rightarrow> page_request \<Rightarrow> ('a \<Rightarrow> json) \<Rightarrow> ('a \<Rightarrow> instant) \<Rightarrow> 'a list \<Rightarrow> page" where
  "page_finish X pq render cursor items =
     (let has_more = (0 \<le> pq_limit pq \<and> nat (pq_limit pq) < length items);
          items = (if 0 \<le> pq_limit pq then take (nat (pq_limit pq)) items else items)
      in \<lparr>pg_data = map render items, pg_has_more = has_more,
          pg_next_before = (if has_more \<and> items \<noteq> [] then rfc3339_format X (cursor (last items)) else None)\<rparr>)"

definition page_into_json :: "page \<Rightarrow> json" where
  "page_into_json pg = jobject [(''object'', JStr ''list''), (''data'', JArr (pg_data pg)),
     (''has_more'', JBool (pg_has_more pg)), (''next_before'', jopt JStr (pg_next_before pg))]"

text \<open>The body the paginated list handlers share, around the query they make.\<close>

definition list_page ::
  "ext \<Rightarrow> api_config \<Rightarrow> (instant option \<Rightarrow> int \<Rightarrow> 'a list api_result) \<Rightarrow> ('a \<Rightarrow> json) \<Rightarrow> ('a \<Rightarrow> instant) \<Rightarrow>
   list_params \<Rightarrow> page api_result" where
  "list_page X cfg fetch render cursor p =
     rbind (resolve_params X cfg p) (\<lambda>pq.
     rbind (fetch (pq_before pq) (fetch_limit pq)) (\<lambda>items.
     Inr (page_finish X pq render cursor items)))"

text \<open>
  The client's loop: keep going while \<open>next_before\<close> is not null, for at most so many pages; what it collects.
\<close>

fun follow :: "nat \<Rightarrow> (string option \<Rightarrow> page api_result) \<Rightarrow> string option \<Rightarrow> json list option" where
  "follow 0 get before = None"
| "follow (Suc n) get before =
     (case get before of
        Inl _ \<Rightarrow> None
      | Inr pg \<Rightarrow> (case pg_next_before pg of
          None \<Rightarrow> Some (pg_data pg)
        | Some c \<Rightarrow> map_option (\<lambda>rest. pg_data pg @ rest) (follow n get (Some c))))"

definition is_before :: "instant option \<Rightarrow> instant \<Rightarrow> bool" where
  "is_before before t = (case before of None \<Rightarrow> True | Some b \<Rightarrow> t < b)"

section \<open>Following the pages\<close>

lemma newest_first_filter: "newest_first f (filter P xs) = filter P (newest_first f xs)"
  by (simp add: newest_first_def filter_sort)

lemma newest_first_set [simp]: "set (newest_first f xs) = set xs"
  by (simp add: newest_first_def)

lemma newest_first_length [simp]: "length (newest_first f xs) = length xs"
  by (simp add: newest_first_def)

lemma newest_first_strict:
  assumes "distinct (map f xs)"
  shows "sorted_wrt (\<lambda>a b. f b < f a) (newest_first f xs)"
proof -
  have s: "sorted (map (\<lambda>r. - f r) (newest_first f xs))" by (simp add: newest_first_def)
  have d: "distinct (map f (newest_first f xs))"
    using assms by (simp add: distinct_map newest_first_def)
  have "sorted_wrt (\<lambda>a b. f b < f a) ys" if "sorted (map (\<lambda>r. - f r) ys)" "distinct (map f ys)" for ys
    using that by (induction ys) (auto simp: less_le image_iff)
  then show ?thesis using s d by blast
qed

lemma filter_after:
  fixes f :: "'a \<Rightarrow> instant"
  assumes "sorted_wrt (\<lambda>a b. f b < f a) (as @ x # bs)"
  shows "filter (\<lambda>r. f r < f x) (as @ x # bs) = bs"
proof -
  have "\<forall>a \<in> set as. f x < f a" using assms by (simp add: sorted_wrt_append)
  then have "\<forall>a \<in> set as. \<not> f a < f x" by (auto dest: less_not_sym)
  moreover have "\<forall>b \<in> set bs. f b < f x" using assms by (auto simp: sorted_wrt_append)
  ultimately show ?thesis by simp
qed

locale paged_collection =
  fixes fetch :: "'w \<Rightarrow> instant option \<Rightarrow> int \<Rightarrow> 'a list api_result"
    and rows :: "'w \<Rightarrow> 'a list"
    and created :: "'a \<Rightarrow> instant"
    and readable :: "'w \<Rightarrow> bool"
  assumes fetch_page: "readable w \<Longrightarrow> 1 \<le> limit \<Longrightarrow> limit \<le> 200 \<Longrightarrow>
     fetch w before limit =
       Inr (take (nat limit) (newest_first created (filter (\<lambda>r. is_before before (created r)) (rows w))))"
begin

lemma page_of_rest:
  assumes "readable w" and "page_size cfg limit = Inr n" and "1 \<le> n" and "n < 200"
    and "page_cursor X before = Inr cur"
    and "newest_first created (filter (\<lambda>r. is_before cur (created r)) (rows w)) = rest"
  shows "list_page X cfg (fetch w) render created \<lparr>lp_limit = limit, lp_before = before\<rparr> =
     Inr \<lparr>pg_data = map render (take (nat n) rest), pg_has_more = nat n < length rest,
          pg_next_before = (if nat n < length rest then rfc3339_format X (created (last (take (nat n) rest))) else None)\<rparr>"
proof -
  have f: "fetch_limit \<lparr>pq_limit = n, pq_before = cur\<rparr> = n + 1"
    using assms(4) by (simp add: fetch_limit_def i64_max_def)
  have t: "take (nat n) (take (nat (n + 1)) rest) = take (nat n) rest"
    using assms(3) by (simp add: take_take min_def)
  have l: "nat n < length (take (nat (n + 1)) rest) \<longleftrightarrow> nat n < length rest"
    using assms(3) by auto
  have "fetch w cur (n + 1) = Inr (take (nat (n + 1)) rest)"
    using fetch_page [OF assms(1), of "n + 1" cur] assms(3,4,6) by simp
  then show ?thesis
    using assms(2,3,5) f t l by (auto simp: list_page_def resolve_params_def page_finish_def Let_def)
qed

lemma follow_rest:
  assumes "readable w" and "page_size cfg limit = Inr n" and "1 \<le> n" and "n < 200"
    and "distinct (map created (rows w))"
    and "\<forall>r \<in> set (rows w). \<exists>s. rfc3339_format X (created r) = Some s \<and> rfc3339_parse X s = Some (created r)"
    and "page_cursor X before = Inr cur"
    and "newest_first created (filter (\<lambda>r. is_before cur (created r)) (rows w)) = rest"
    and "newest_first created (rows w) = done @ rest"
    and "length rest < fuel"
  shows "follow fuel (\<lambda>b. list_page X cfg (fetch w) render created \<lparr>lp_limit = limit, lp_before = b\<rparr>) before
     = Some (map render rest)"
  using assms(7-)
proof (induction fuel arbitrary: before cur rest "done")
  case (Suc fuel)
  note page = page_of_rest [OF assms(1-4) Suc.prems(1,2), of render]
  show ?case
  proof (cases "nat n < length rest")
    case False
    then show ?thesis using page by simp
  next
    case True
    define k where "k = nat n"
    have k: "0 < k" "k < length rest" using True assms(3) by (auto simp: k_def)
    then obtain pre x where px: "take k rest = pre @ [x]" by (cases "take k rest" rule: rev_cases) auto
    have split: "newest_first created (rows w) = (done @ pre) @ x # drop k rest"
      using Suc.prems(3) px by (metis append.assoc append_Cons append_Nil append_take_drop_id)
    have x: "x \<in> set (rows w)" using split by (metis in_set_conv_decomp newest_first_set)
    then obtain s where s: "rfc3339_format X (created x) = Some s" "rfc3339_parse X s = Some (created x)"
      using assms(6) by blast
    have "filter (\<lambda>r. is_before (Some (created x)) (created r)) (newest_first created (rows w)) = drop k rest"
      using filter_after [of created "done @ pre" x "drop k rest"] newest_first_strict [OF assms(5)] split
      by (simp add: is_before_def)
    then have "follow fuel (\<lambda>b. list_page X cfg (fetch w) render created \<lparr>lp_limit = limit, lp_before = b\<rparr>) (Some s)
        = Some (map render (drop k rest))"
      using s(2) split k Suc.prems(4)
      by (intro Suc.IH [of "Some s" "Some (created x)" "drop k rest" "(done @ pre) @ [x]"])
        (simp_all add: page_cursor_def newest_first_filter)
    moreover have "map render (take k rest) @ map render (drop k rest) = map render rest"
      by (metis append_take_drop_id map_append)
    ultimately show ?thesis using page True px s(1) by (simp add: k_def)
  qed
qed simp

lemma follow_all:
  assumes "readable w" and "page_size cfg limit = Inr n" and "1 \<le> n" and "n < 200"
    and "distinct (map created (rows w))"
    and "\<forall>r \<in> set (rows w). \<exists>s. rfc3339_format X (created r) = Some s \<and> rfc3339_parse X s = Some (created r)"
  shows "follow (Suc (length (rows w)))
      (\<lambda>b. list_page X cfg (fetch w) render created \<lparr>lp_limit = limit, lp_before = b\<rparr>) None =
    Some (map render (newest_first created (rows w)))"
  using follow_rest [OF assms, of None None "newest_first created (rows w)" "[]"]
  by (simp add: page_cursor_def is_before_def del: follow.simps)

end

section \<open>The collections\<close>

definition run_query :: "(db, store_error, 'a) tx \<Rightarrow> db \<Rightarrow> 'a api_result" where
  "run_query m w = map_err from_store (fst (m w))"

definition run_engine_query :: "'a engine \<Rightarrow> db \<Rightarrow> 'a api_result" where
  "run_engine_query m w = map_err from_engine (fst (m w))"

definition merchant_events :: "uuid \<Rightarrow> db \<Rightarrow> event_row list" where
  "merchant_events m w = filter (\<lambda>r. ev_merchant_id r = m) (db_events w)"

definition merchant_order_rows :: "uuid \<Rightarrow> db \<Rightarrow> order_row list" where
  "merchant_order_rows m w = filter (\<lambda>r. or_merchant_id r = m) (db_orders w)"

definition merchant_orders :: "ext \<Rightarrow> uuid \<Rightarrow> db \<Rightarrow> order list" where
  "merchant_orders X m w = List.map_filter (\<lambda>r. res_ok (order_into_domain X r)) (merchant_order_rows m w)"

definition orders_readable :: "ext \<Rightarrow> uuid \<Rightarrow> db \<Rightarrow> bool" where
  "orders_readable X m w \<longleftrightarrow> list_all (\<lambda>r. is_ok (order_into_domain X r)) (merchant_order_rows m w)"

interpretation event_pages: paged_collection
  "\<lambda>w before limit. run_query (event_list_for_merchant X m before limit) w"
  "merchant_events m" ev_created_at "\<lambda>_. True" for X m
proof
  fix w :: db and before and limit :: int
  assume "1 \<le> limit" "limit \<le> 200"
  have "filter (\<lambda>r. is_before before (ev_created_at r)) (merchant_events m w) = filter (\<lambda>r. ev_merchant_id r = m \<and>
      (case before of None \<Rightarrow> True | Some t \<Rightarrow> ev_created_at r < t)) (db_events w)"
    by (auto simp: merchant_events_def is_before_def intro!: filter_cong split: option.splits)
  then show "run_query (event_list_for_merchant X m before limit) w =
     Inr (take (nat limit) (newest_first ev_created_at
       (filter (\<lambda>r. is_before before (ev_created_at r)) (merchant_events m w))))"
    using \<open>1 \<le> limit\<close> by (simp add: run_query_def event_list_for_merchant_def query_def limit_rows_def)
qed

text \<open>Reading the rows of a page in order reads that page of the orders.\<close>

lemma traverse_map_filter:
  assumes "list_all (\<lambda>r. is_ok (f r)) rs"
  shows "traverse f rs = Inr (List.map_filter (\<lambda>r. res_ok (f r)) rs)"
  using assms
proof (induction rs)
  case (Cons r rs)
  then show ?case by (cases "f r") (auto simp: List.map_filter_simps res_ok_def)
qed (simp add: List.map_filter_simps)

lemma map_filter_decoded:
  assumes "list_all (\<lambda>r. is_ok (f r)) rs"
  shows "List.map_filter (\<lambda>r. res_ok (f r)) rs = map (\<lambda>r. projr (f r)) rs"
  using assms by (induction rs) (auto simp: List.map_filter_simps res_ok_def is_ok_def split: sum.splits)

lemma sort_key_map: "sort_key g (map f xs) = map f (sort_key (\<lambda>x. g (f x)) xs)"
proof (induction xs)
  case (Cons x xs)
  have "insort_key g (f x) (map f ys) = map f (insort_key (\<lambda>x. g (f x)) x ys)" for ys
    by (induction ys) auto
  then show ?case using Cons by simp
qed simp

lemma sort_key_cong: "(\<And>x. x \<in> set xs \<Longrightarrow> f x = g x) \<Longrightarrow> sort_key f xs = sort_key g xs"
proof (induction xs)
  case (Cons x xs)
  have ins: "insort_key f x ys = insort_key g x ys" if "\<And>y. y \<in> set (x # ys) \<Longrightarrow> f y = g y" for ys
    using that by (induction ys) auto
  have "insort_key f x (sort_key g xs) = insort_key g x (sort_key g xs)"
    by (rule ins) (use Cons.prems in auto)
  then show ?case using Cons by simp
qed simp

lemma order_list_page:
  assumes "orders_readable X m w" and "1 \<le> limit" and "limit \<le> 200"
  shows "run_engine_query (order_list X m before limit) w =
     Inr (take (nat limit) (newest_first o_created_at
       (filter (\<lambda>r. is_before before (o_created_at r)) (merchant_orders X m w))))"
proof -
  let ?rs = "merchant_order_rows m w" and ?d = "\<lambda>r. projr (order_into_domain X r)"
  have ok: "list_all (\<lambda>r. is_ok (order_into_domain X r)) ?rs" using assms(1) by (simp add: orders_readable_def)
  have c: "o_created_at (?d r) = or_created_at r" if "r \<in> set ?rs" for r
  proof -
    have "is_ok (order_into_domain X r)" using ok that by (simp add: list_all_iff)
    then obtain q where q: "order_into_domain X r = Inr q" by (cases "order_into_domain X r") auto
    then have "o_created_at q = or_created_at r" by (simp add: order_into_domain_Inr)
    then show ?thesis by (simp add: q)
  qed
  let ?page = "take (nat limit) (newest_first or_created_at (filter (\<lambda>r. is_before before (or_created_at r)) ?rs))"
  have sub: "set ?page \<subseteq> set ?rs" by (auto dest!: in_set_takeD)
  have okp: "list_all (\<lambda>r. is_ok (order_into_domain X r)) ?page"
    using ok sub unfolding list_all_iff by blast
  have f: "filter (\<lambda>r. is_before before (or_created_at r)) ?rs = filter (\<lambda>r. or_merchant_id r = m \<and>
      (case before of None \<Rightarrow> True | Some t \<Rightarrow> or_created_at r < t)) (db_orders w)"
    by (auto simp: merchant_order_rows_def is_before_def intro!: filter_cong split: option.splits)
  have "run_engine_query (order_list X m before limit) w = map_err from_engine (map_err E_Store
      (traverse (order_into_domain X) ?page))"
    using assms(2,3) f
    by (simp add: run_engine_query_def order_list_def store_query order_list_for_merchant_def limit_rows_def
        clamp_def max_list_limit_def)
  also have "traverse (order_into_domain X) ?page = Inr (map ?d ?page)"
    by (simp only: traverse_map_filter [OF okp] map_filter_decoded [OF okp])
  also have "map ?d ?page = take (nat limit) (newest_first o_created_at
       (filter (\<lambda>r. is_before before (o_created_at r)) (map ?d ?rs)))"
  proof -
    have "filter (\<lambda>r. is_before before (o_created_at r)) (map ?d ?rs) =
        map ?d (filter (\<lambda>r. is_before before (or_created_at r)) ?rs)"
      using c by (simp add: filter_map o_def cong: filter_cong)
    moreover have "sort_key (\<lambda>r. - or_created_at r) (filter (\<lambda>r. is_before before (or_created_at r)) ?rs) =
        sort_key (\<lambda>r. - o_created_at (?d r)) (filter (\<lambda>r. is_before before (or_created_at r)) ?rs)"
      using c by (intro sort_key_cong) auto
    ultimately show ?thesis by (simp add: newest_first_def sort_key_map take_map)
  qed
  finally show ?thesis using ok by (simp add: merchant_orders_def map_filter_decoded)
qed

interpretation order_pages: paged_collection
  "\<lambda>w before limit. run_engine_query (order_list X m before limit) w"
  "merchant_orders X m" o_created_at "orders_readable X m" for X m
  by unfold_locales (rule order_list_page)

end
