(* ===== verification/Api_Idempotency.thy ===== *)
theory Api_Idempotency
  imports Api_Auth Api_Pagination Store_Idempotency
begin

text \<open>
  \<open>crates/api/middleware\<close>: \<open>idempotency.rs\<close>, \<open>timeout.rs\<close> and \<open>request_id.rs\<close>, and the stack \<open>routes/mod.rs\<close>
  builds of them around the routes. A layer is a function around the next one; the future of a layer may be
  dropped by the timeout or unwind in a panic (\<open>fate\<close>), and then what comes after it in a layer
  outside does not run. Reading JSON from bytes is a parameter.
\<close>

section \<open>Idempotency\<close>

text \<open>How the key store can be reached at each of its three calls: an error of the connection, or none.\<close>

record store_links =
  sl_acquire :: "sqlx_error option"
  sl_complete :: "sqlx_error option"
  sl_release :: "sqlx_error option"

definition links_up :: store_links where
  "links_up = \<lparr>sl_acquire = None, sl_complete = None, sl_release = None\<rparr>"

definition over_link :: "sqlx_error option \<Rightarrow> (db, store_error, 'a) tx \<Rightarrow> (store_error + 'a) api_step" where
  "over_link broken m st =
     (case broken of
        Some e \<Rightarrow> (Inl (from_sqlx e), st)
      | None \<Rightarrow> (case m (as_db st) of (r, w) \<Rightarrow> (r, st\<lparr>as_db := w\<rparr>)))"

definition is_mutating :: "string \<Rightarrow> bool" where
  "is_mutating verb \<longleftrightarrow> verb \<in> {''POST'', ''PUT'', ''PATCH'', ''DELETE''}"

definition header_value :: "(string \<times> string) list \<Rightarrow> string option" where
  "header_value headers =
     (case map_of headers ''idempotency-key'' of
        None \<Rightarrow> None
      | Some v \<Rightarrow> (case header_to_str v of
          None \<Rightarrow> None
        | Some s \<Rightarrow> if trim s = [] then None else Some (trim s)))"

definition buffer :: "string \<Rightarrow> nat \<Rightarrow> string option" where
  "buffer body limit = (if length body \<le> limit then Some body else None)"

definition fingerprint :: "ext \<Rightarrow> string \<Rightarrow> string \<Rightarrow> string" where
  "fingerprint X endpoint body = sha256_hex X (endpoint @ [CHR 0x00] @ body)"

definition replay_response :: "ext \<Rightarrow> int \<Rightarrow> json option \<Rightarrow> reply" where
  "replay_response X status body =
     (let r = json_reply X (if 100 \<le> status \<and> status \<le> 999 then nat status else 200) (unwrap_or JNull body)
      in r\<lparr>rp_headers := rp_headers r @ [(''idempotent-replayed'', ''true'')]\<rparr>)"

definition release_key :: "store_links \<Rightarrow> auth_ctx \<Rightarrow> string \<Rightarrow> api_state \<Rightarrow> api_state" where
  "release_key links auth key st = snd (over_link (sl_release links) (idem_release (ac_merchant_id auth) key) st)"

definition record_response ::
  "(string \<Rightarrow> json option) \<Rightarrow> store_links \<Rightarrow> api_config \<Rightarrow> auth_ctx \<Rightarrow> string \<Rightarrow> reply \<Rightarrow> reply api_step" where
  "record_response parse links cfg auth key r st =
     (case buffer (rp_body r) (cf_max_recorded_response_bytes cfg) of
        None \<Rightarrow> (r\<lparr>rp_body := ''''\<rparr>, release_key links auth key st)
      | Some bytes \<Rightarrow>
          if 500 \<le> rp_status r \<and> rp_status r < 600 then (r, release_key links auth key st)
          else (r, snd (over_link (sl_complete links)
                 (idem_complete (ac_merchant_id auth) key (int (rp_status r)) (unwrap_or JNull (parse bytes))) st)))"

definition key_reused :: api_error where
  "key_reused = conflict ''idempotency_key_reused''
     (''This Idempotency-Key was already used for a request with a different '' @
      ''body. Use a new key for a new request.'')"

definition key_in_flight :: api_error where
  "key_in_flight = retry_after 1 (conflict ''idempotency_key_in_flight''
     (''A request with this Idempotency-Key is still in progress. Retry '' @
      ''shortly to receive its result.''))"

definition idempotency_guarded ::
  "ext \<Rightarrow> (string \<Rightarrow> json option) \<Rightarrow> store_links \<Rightarrow> api_config \<Rightarrow> instant \<Rightarrow> auth_ctx option \<Rightarrow>
   (api_request \<Rightarrow> reply fate api_step) \<Rightarrow> api_request \<Rightarrow> (api_error + reply fate) api_step" where
  "idempotency_guarded X parse links cfg now auth next_layer req st =
     (if \<not> is_mutating (aq_method req) then (case next_layer req st of (r, st) \<Rightarrow> (Inr r, st))
      else case header_value (aq_headers req) of
        None \<Rightarrow> (case next_layer req st of (r, st) \<Rightarrow> (Inr r, st))
      | Some raw_key \<Rightarrow> (case idempotency_key raw_key of
          Inl e \<Rightarrow> (Inl e, st)
        | Inr key \<Rightarrow> (case auth of
            None \<Rightarrow> (Inl internal_error, st)
          | Some auth \<Rightarrow>
              let endpoint = aq_method req @ '' '' @ aq_path req
              in (case buffer (aq_body req) (cf_max_body_bytes cfg) of
                None \<Rightarrow> (Inl (payload_too_large (Some (cf_max_body_bytes cfg))), st)
              | Some body \<Rightarrow>
                  (case over_link (sl_acquire links) (acquire X (ac_merchant_id auth) key endpoint
                      (fingerprint X endpoint body) (now + cf_idempotency_ttl cfg) now) st of
                    (Inl _, st) \<Rightarrow> (Inl unavailable, st)
                  | (Inr (Replay status stored), st) \<Rightarrow> (Inr (Done (replay_response X status stored)), st)
                  | (Inr Mismatch, st) \<Rightarrow> (Inl key_reused, st)
                  | (Inr InFlight, st) \<Rightarrow> (Inl key_in_flight, st)
                  | (Inr Acquired, st) \<Rightarrow>
                      (case next_layer (req\<lparr>aq_body := body\<rparr>) st of
                        (Done r, st) \<Rightarrow> (case record_response parse links cfg auth key r st of
                            (r, st) \<Rightarrow> (Inr (Done r), st))
                      | (other, st) \<Rightarrow> (Inr other, st)))))))"

definition idempotency_enforce ::
  "ext \<Rightarrow> (string \<Rightarrow> json option) \<Rightarrow> store_links \<Rightarrow> api_config \<Rightarrow> request_env \<Rightarrow> auth_ctx option \<Rightarrow>
   (api_request \<Rightarrow> reply fate api_step) \<Rightarrow> api_request \<Rightarrow> reply fate api_step" where
  "idempotency_enforce X parse links cfg env auth next_layer req st =
     (case idempotency_guarded X parse links cfg (en_now env) auth next_layer req st of
        (Inl e, st) \<Rightarrow> (Done (into_response X (en_request_id env) e), st)
      | (Inr r, st) \<Rightarrow> (r, st))"

section \<open>The other layers\<close>

definition handle_panic :: "ext \<Rightarrow> string option \<Rightarrow> reply" where
  "handle_panic X request_id = into_response X request_id internal_error"

definition timeout_enforce :: "ext \<Rightarrow> string option \<Rightarrow> reply fate \<Rightarrow> reply fate" where
  "timeout_enforce X request_id r = (case r of Dropped \<Rightarrow> Done (into_response X request_id timeout_error) | _ \<Rightarrow> r)"

definition id_acceptable :: "string \<Rightarrow> bool" where
  "id_acceptable candidate \<longleftrightarrow> 8 \<le> length candidate \<and> length candidate \<le> 128 \<and>
     list_all (\<lambda>b. is_alphanumeric b \<or> b \<in> set ''-_.:'') candidate"

text \<open>The identifier a request is served under; \<open>fresh\<close> is what a new one is made of (\<open>Uuid::now_v7\<close>, printed plain).\<close>

definition request_id_of :: "string \<Rightarrow> (string \<times> string) list \<Rightarrow> string" where
  "request_id_of fresh headers =
     (case Option.bind (map_of headers ''x-request-id'') header_to_str of
        None \<Rightarrow> ''req_'' @ fresh
      | Some v \<Rightarrow> if id_acceptable (trim v) then trim v else ''req_'' @ fresh)"

definition with_header_once :: "string \<Rightarrow> string \<Rightarrow> reply \<Rightarrow> reply" where
  "with_header_once name v r =
     (if has_header name (rp_headers r) then r else r\<lparr>rp_headers := rp_headers r @ [(name, v)]\<rparr>)"

definition propagate :: "string \<Rightarrow> (string \<Rightarrow> api_request \<Rightarrow> reply api_step) \<Rightarrow> api_request \<Rightarrow> reply api_step" where
  "propagate fresh next_layer req st =
     (let i = request_id_of fresh (aq_headers req);
          headers = (''x-request-id'', i) # filter (\<lambda>(n, _). n \<noteq> ''x-request-id'') (aq_headers req)
      in case next_layer i (req\<lparr>aq_headers := headers\<rparr>) st of (r, st) \<Rightarrow> (with_header_once ''x-request-id'' i r, st))"

text \<open>
  The stack around the routes under \<open>/v1\<close>: the identifier, the panic layer, the timeout, the authentication,
  the idempotency layer, then the route.
\<close>

definition serve ::
  "ext \<Rightarrow> (string \<Rightarrow> json option) \<Rightarrow> store_links \<Rightarrow> api_config \<Rightarrow> request_env \<Rightarrow> string \<Rightarrow>
   (request_env \<Rightarrow> auth_ctx \<Rightarrow> api_request \<Rightarrow> reply fate api_step) \<Rightarrow> api_request \<Rightarrow> reply api_step" where
  "serve X parse links cfg env fresh route req =
     propagate fresh (\<lambda>i req st.
       let env = env\<lparr>en_request_id := Some i\<rparr> in
       (case require_auth X env (\<lambda>ctx. idempotency_enforce X parse links cfg env (Some ctx) (route env ctx) req) req st of
          (r, st) \<Rightarrow> (case timeout_enforce X (Some i) r of
              Done rp \<Rightarrow> (rp, st)
            | _ \<Rightarrow> (handle_panic X (Some i), st)))) req"

section \<open>What a request with a key does\<close>

definition keyed :: "api_config \<Rightarrow> string \<Rightarrow> api_request \<Rightarrow> bool" where
  "keyed cfg key req \<longleftrightarrow> is_mutating (aq_method req) \<and> header_value (aq_headers req) = Some key \<and>
     idempotency_key key = Inr key \<and> length (aq_body req) \<le> cf_max_body_bytes cfg"

definition request_hash :: "ext \<Rightarrow> api_request \<Rightarrow> string" where
  "request_hash X req = fingerprint X (aq_method req @ '' '' @ aq_path req) (aq_body req)"

definition key_row :: "uuid \<Rightarrow> string \<Rightarrow> api_state \<Rightarrow> idem_row option" where
  "key_row m key st = idem_lookup m key (as_db st)"

lemma acquire_known:
  "idem_lookup m k w = Some r \<Longrightarrow> acquire X m k ep h ex now w =
     (Inr (if ir_state r = Idem_InProgress then InFlight
         else if ir_request_hash r = h
         then Replay (unwrap_or 200 (ir_response_status r)) (ir_response_body r) else Mismatch), w)"
  using idem_lookup_None [of m k w] by (cases "ir_state r") (simp_all add: acquire_def idem_lookup_def)

lemma enforce_known:
  assumes "keyed cfg key req" and "key_row (ac_merchant_id ctx) key st = Some row" and "sl_acquire links = None"
  shows "idempotency_enforce X parse links cfg env (Some ctx) next_layer req st =
    (Done (if ir_state row = Idem_InProgress then into_response X (en_request_id env) key_in_flight
       else if ir_request_hash row = request_hash X req
       then replay_response X (unwrap_or 200 (ir_response_status row)) (ir_response_body row)
       else into_response X (en_request_id env) key_reused), st)"
  using assms
  by (simp add: idempotency_enforce_def idempotency_guarded_def keyed_def buffer_def key_row_def over_link_def
      acquire_known request_hash_def Let_def)

lemma enforce_unreachable:
  assumes "keyed cfg key req" and "sl_acquire links = Some e"
  shows "idempotency_enforce X parse links cfg env (Some ctx) next_layer req st =
    (Done (into_response X (en_request_id env) unavailable), st)"
  using assms by (simp add: idempotency_enforce_def idempotency_guarded_def keyed_def buffer_def over_link_def Let_def)

lemma find_new_row:
  "find (same_key m k) rs = None \<Longrightarrow> find (same_key m k) (rs @ [new_idem_row m k ep h ex now]) = Some (new_idem_row m k ep h ex now)"
  by (induction rs) (auto simp: same_key_def new_idem_row_def split: if_splits)

text \<open>The state in which the request with a fresh key is run: the table holds the claimed row.\<close>

definition claimed :: "ext \<Rightarrow> api_config \<Rightarrow> instant \<Rightarrow> uuid \<Rightarrow> string \<Rightarrow> api_request \<Rightarrow> api_state \<Rightarrow> api_state" where
  "claimed X cfg now m key req st = st\<lparr>as_db := (as_db st)\<lparr>db_idem := db_idem (as_db st) @
     [new_idem_row m key (aq_method req @ '' '' @ aq_path req) (request_hash X req) (now + cf_idempotency_ttl cfg) now]\<rparr>\<rparr>"

lemma enforce_fresh:
  assumes "keyed cfg key req" and "key_row (ac_merchant_id ctx) key st = None" and "sl_acquire links = None"
    and "ac_merchant_id ctx \<in> m_id ` set (db_merchants (as_db st))"
  shows "idempotency_enforce X parse links cfg env (Some ctx) next_layer req st =
       (case next_layer req (claimed X cfg (en_now env) (ac_merchant_id ctx) key req st) of
          (Done r, st1) \<Rightarrow> (case record_response parse links cfg ctx key r st1 of (r, st2) \<Rightarrow> (Done r, st2))
        | (other, st1) \<Rightarrow> (other, st1))"
proof -
  let ?endpoint = "aq_method req @ '' '' @ aq_path req"
  have a: "acquire X (ac_merchant_id ctx) key ?endpoint (fingerprint X ?endpoint (aq_body req))
      (en_now env + cf_idempotency_ttl cfg) (en_now env) (as_db st) =
      (Inr Acquired, as_db (claimed X cfg (en_now env) (ac_merchant_id ctx) key req st))"
    using acquire_spec [OF assms(4)] assms(2) by (simp add: key_row_def request_hash_def claimed_def)
  have s: "st\<lparr>as_db := as_db (claimed X cfg now m key req st)\<rparr> = claimed X cfg now m key req st" for now m
    by (simp add: claimed_def)
  obtain fate st1 where n: "next_layer req (claimed X cfg (en_now env) (ac_merchant_id ctx) key req st) = (fate, st1)"
    by fastforce
  show ?thesis
    using assms(1,3)
    by (cases fate) (simp_all add: idempotency_enforce_def idempotency_guarded_def keyed_def buffer_def over_link_def
        Let_def a [simplified] s n case_prod_beta)
qed

lemma key_row_claimed:
  "key_row m key st = None \<Longrightarrow> key_row m key (claimed X cfg now m key req st) =
     Some (new_idem_row m key (aq_method req @ '' '' @ aq_path req) (request_hash X req) (now + cf_idempotency_ttl cfg) now)"
  using find_new_row by (simp add: claimed_def key_row_def idem_lookup_def)

lemma enforce_first:
  assumes "keyed cfg key req" and "key_row (ac_merchant_id ctx) key st = None" and "sl_acquire links = None"
    and "ac_merchant_id ctx \<in> m_id ` set (db_merchants (as_db st))"
  obtains claimed where
    "\<exists>rows. claimed = st\<lparr>as_db := (as_db st)\<lparr>db_idem := rows\<rparr>\<rparr>"
    "key_row (ac_merchant_id ctx) key claimed = Some (new_idem_row (ac_merchant_id ctx) key
       (aq_method req @ '' '' @ aq_path req) (request_hash X req) (en_now env + cf_idempotency_ttl cfg) (en_now env))"
    "idempotency_enforce X parse links cfg env (Some ctx) next_layer req st =
       (case next_layer req claimed of
          (Done r, st1) \<Rightarrow> (case record_response parse links cfg ctx key r st1 of (r, st2) \<Rightarrow> (Done r, st2))
        | (other, st1) \<Rightarrow> (other, st1))"
  by (rule that [OF _ key_row_claimed [OF assms(2)] enforce_fresh [OF assms]]) (auto simp: claimed_def)

lemma complete_row:
  assumes "key_row m key st = Some r"
  shows "key_row m key (snd (over_link None (idem_complete m key s b) st)) =
    Some (r\<lparr>ir_state := Idem_Completed, ir_response_status := Some s, ir_response_body := Some b\<rparr>)"
proof -
  obtain out w' where c: "run_call undefined m key (Call_Complete s b) (as_db st) = (out, w')" by fastforce
  then have "w' = snd (idem_complete m key s b (as_db st))" by (simp add: run_call_def)
  then show ?thesis
    using complete_lookup [OF _ c] assms by (simp add: key_row_def over_link_def case_prod_beta)
qed

lemma release_row:
  assumes "key_row m key st = Some r" and "ir_state r = Idem_InProgress" and "keys_unique (db_idem (as_db st))"
  shows "key_row m key (snd (over_link None (idem_release m key) st)) = None"
proof -
  have r: "r \<in> set (db_idem (as_db st))" "same_key m key r"
    using assms(1) by (auto simp: key_row_def idem_lookup_def find_Some_iff)
  have "q = r" if "q \<in> set (db_idem (as_db st))" "same_key m key q" for q
    using assms(3) r that by (auto simp: keys_unique_def distinct_map inj_on_def same_key_def)
  then show ?thesis
    using assms(2)
    by (auto simp: key_row_def over_link_def idem_release_def modify_def idem_lookup_def find_None_iff)
qed

text \<open>
  C13. A retry gets the first answer. When a request of a known merchant that presents a fresh key is answered
  with a JSON body and a status from 100 below 500, its handler having left the key alone, then no later request of
  that merchant under the key, on any state that still has the key's row as it was left, with any credentials, clock
  and handler, runs a handler or changes anything. It is answered with the same status and body when its fingerprint,
  the SHA-256 of method, path and body, is that of the first request, as it is when the three are the same, and with
  a 409 when it is not; with one exception on either side: when the first answer could not be stored, every
  request is told with a 409 that one is in progress, and when the later request cannot reach the key store
  it is told with a 503 that the service is unavailable.
\<close>
theorem retry_replays_response:
  assumes "keyed cfg key req" and "ac_merchant_id ctx = m" and "m \<in> m_id ` set (db_merchants (as_db st))"
    and "key_row m key st = None"
    and "\<forall>s. key_row m key (snd (next_layer req s)) = key_row m key s"
    and "idempotency_enforce X parse links cfg env (Some ctx) next_layer req st = (Done r, st1)"
    and "100 \<le> rp_status r" and "rp_status r < 500"
    and "rp_body r = json_text X v" and "json_text X v \<noteq> ''''" and "parse (json_text X v) = Some v"
    and "keyed cfg key req'" and "ac_merchant_id ctx' = m" and "key_row m key later = key_row m key st1"
  shows "idempotency_enforce X parse' links' cfg env' (Some ctx') next' req' later =
    (Done (if sl_acquire links' \<noteq> None then into_response X (en_request_id env') unavailable
       else if sl_complete links \<noteq> None then into_response X (en_request_id env') key_in_flight
       else if request_hash X req' = request_hash X req
       then \<lparr>rp_status = rp_status r,
              rp_headers = [(''content-type'', ''application/json''), (''idempotent-replayed'', ''true'')],
              rp_body = rp_body r\<rparr>
       else into_response X (en_request_id env') key_reused), later)"
proof (cases "sl_acquire links'")
  case (Some e)
  then show ?thesis using enforce_unreachable [OF assms(12)] by simp
next
  case None
  let ?new = "new_idem_row m key (aq_method req @ '' '' @ aq_path req) (request_hash X req)
       (en_now env + cf_idempotency_ttl cfg) (en_now env)"
  have up: "sl_acquire links = None"
    using enforce_unreachable [OF assms(1), of links] assms(6,8)
    by (cases "sl_acquire links") (auto simp: unavailable_def api_error_new_def)
  obtain claimed where c: "key_row m key claimed = Some ?new"
    "idempotency_enforce X parse links cfg env (Some ctx) next_layer req st =
       (case next_layer req claimed of
          (Done r, st1) \<Rightarrow> (case record_response parse links cfg ctx key r st1 of (r, st2) \<Rightarrow> (Done r, st2))
        | (other, st1) \<Rightarrow> (other, st1))"
    by (rule enforce_first [OF assms(1), where ctx = ctx and st = st and links = links and X = X and
        env = env and parse = parse and next_layer = next_layer])
      (use assms(2-4) up in simp_all)
  obtain r0 stm where n: "next_layer req claimed = (Done r0, stm)"
    and rec: "record_response parse links cfg ctx key r0 stm = (r, st1)"
    using c(2) assms(6) by (auto split: prod.splits fate.splits)
  have "rp_body r0 = rp_body r \<and> length (rp_body r0) \<le> cf_max_recorded_response_bytes cfg \<and> r0 = r"
    using rec assms(9,10) by (auto simp: record_response_def buffer_def split: if_splits)
  then have st1: "st1 = snd (over_link (sl_complete links) (idem_complete m key (int (rp_status r)) v) stm)"
    using rec assms(2,8,9,11) by (auto simp: record_response_def buffer_def unwrap_or_def)
  have stm: "key_row m key stm = Some ?new" using assms(5) n c(1) by (metis snd_conv)
  show ?thesis
  proof (cases "sl_complete links")
    case None
    then have "key_row m key later = Some (?new\<lparr>ir_state := Idem_Completed,
        ir_response_status := Some (int (rp_status r)), ir_response_body := Some v\<rparr>)"
      using assms(14) st1 stm complete_row by simp
    then show ?thesis
      using enforce_known [OF assms(12), of ctx' later _ links' X parse' env' next'] assms(7-9,13) None \<open>sl_acquire links' = None\<close>
      by (auto simp: new_idem_row_def unwrap_or_def replay_response_def json_reply_def Let_def)
  next
    case (Some e)
    then have "key_row m key later = Some ?new" using assms(14) st1 stm by (simp add: over_link_def)
    then show ?thesis
      using enforce_known [OF assms(12), of ctx' later _ links' X parse' env' next'] assms(13) Some \<open>sl_acquire links' = None\<close>
      by (simp add: new_idem_row_def)
  qed
qed

text \<open>A POST with a key, answered with 201 by a handler that writes nothing.\<close>

definition demo_ctx :: auth_ctx where
  "demo_ctx = \<lparr>ac_merchant_id = 7, ac_key_id = 9, ac_scopes = scope_set_of all_scopes\<rparr>"

definition demo_config :: api_config where
  "demo_config = \<lparr>cf_max_body_bytes = 100, cf_max_recorded_response_bytes = 100, cf_request_timeout = 30,
     cf_idempotency_ttl = 86400, cf_default_page_size = 1, cf_max_page_size = 2, cf_simulate_latency = False,
     cf_max_simulated_latency = 5\<rparr>"

definition demo_post :: "string \<Rightarrow> api_request" where
  "demo_post body = \<lparr>aq_method = ''POST'', aq_path = ''/orders'',
     aq_headers = [(''idempotency-key'', ''key-00000001'')], aq_body = body\<rparr>"

definition demo_201 :: "api_request \<Rightarrow> reply fate api_step" where
  "demo_201 req st = (Done (json_reply demo_ext 201 (JStr ''x'')), st)"

definition demo_first :: "(api_request \<Rightarrow> reply fate api_step) \<Rightarrow> reply fate \<times> api_state" where
  "demo_first handler = idempotency_enforce demo_ext (\<lambda>_. Some (JStr ''x'')) links_up demo_config demo_env
     (Some demo_ctx) handler (demo_post ''{}'') (demo_state demo_db)"

lemma demo_keyed: "length body \<le> 100 \<Longrightarrow> keyed demo_config ''key-00000001'' (demo_post body)"
proof -
  have "header_value [(''idempotency-key'', ''key-00000001'')] = Some ''key-00000001''" by code_simp
  moreover have "idempotency_key ''key-00000001'' = Inr ''key-00000001''" by code_simp
  moreover have "is_mutating ''POST''" by code_simp
  ultimately show "length body \<le> 100 \<Longrightarrow> ?thesis" by (simp add: keyed_def demo_post_def demo_config_def)
qed

lemma demo_fresh_key: "key_row 7 ''key-00000001'' (demo_state demo_db) = None"
  by (simp add: key_row_def idem_lookup_def demo_state_def demo_db_def)

lemma demo_merchant_known: "7 \<in> m_id ` set (db_merchants (as_db (demo_state demo_db)))"
  by (simp add: demo_state_def demo_db_def demo_merchant_def)

theorem retry_replays_response_witness:
  "fst (demo_first demo_201) = Done (json_reply demo_ext 201 (JStr ''x'')) \<and>
   idempotency_enforce demo_ext (\<lambda>_. None) links_up demo_config demo_env (Some demo_ctx)
     (\<lambda>req st. (Panicked, st)) (demo_post ''{}'') (snd (demo_first demo_201)) =
   (Done \<lparr>rp_status = 201,
      rp_headers = [(''content-type'', ''application/json''), (''idempotent-replayed'', ''true'')],
      rp_body = ''{}''\<rparr>, snd (demo_first demo_201))"
proof -
  have f: "fst (demo_first demo_201) = Done (json_reply demo_ext 201 (JStr ''x''))" by code_simp
  then have e: "idempotency_enforce demo_ext (\<lambda>_. Some (JStr ''x'')) links_up demo_config demo_env
     (Some demo_ctx) demo_201 (demo_post ''{}'') (demo_state demo_db) =
     (Done (json_reply demo_ext 201 (JStr ''x'')), snd (demo_first demo_201))"
    by (simp add: demo_first_def prod_eq_iff)
  have m: "ac_merchant_id demo_ctx = 7" by (simp add: demo_ctx_def)
  have k: "keyed demo_config ''key-00000001'' (demo_post ''{}'')" by (rule demo_keyed) simp
  have h: "\<forall>s. key_row 7 ''key-00000001'' (snd (demo_201 (demo_post ''{}'') s)) = key_row 7 ''key-00000001'' s"
    by (simp add: demo_201_def)
  have r: "rp_status (json_reply demo_ext 201 (JStr ''x'')) = 201" "json_text demo_ext (JStr ''x'') = ''{}''"
    "rp_body (json_reply demo_ext 201 (JStr ''x'')) = ''{}''"
    by (simp_all add: json_reply_def demo_ext_def)
  show ?thesis
    using f r retry_replays_response [OF k m demo_merchant_known demo_fresh_key h e _ _ _ _ _ k m,
        where v = "JStr ''x''" and later = "snd (demo_first demo_201)" and parse' = "\<lambda>_. None"
          and env' = demo_env and next' = "\<lambda>req st. (Panicked, st)" and links' = links_up]
    by (simp add: links_up_def)
qed

text \<open>
  C14. A 5xx is not remembered, if the key store can be told so. When a request of a known merchant with a fresh key is
  answered with a server error, its handler having left the key table alone, the table is afterwards what it was
  before, and the next request under the key claims it again and runs its handler, whatever that request is. The
  exception is the failure that goes with a lost database: when releasing the key fails, its row stays in the table
  in progress, and the next request is told with a 409 that one is in progress, at whatever time it comes.
\<close>
theorem server_error_frees_key:
  assumes "keyed cfg key req" and "ac_merchant_id ctx = m" and "m \<in> m_id ` set (db_merchants (as_db st))"
    and "key_row m key st = None"
    and "\<forall>s. db_idem (as_db (snd (next_layer req s))) = db_idem (as_db s)"
    and "idempotency_enforce X parse links cfg env (Some ctx) next_layer req st = (Done r, st1)"
    and "500 \<le> rp_status r" and "rp_status r < 600"
    and "keyed cfg key req'" and "ac_merchant_id ctx' = m" and "key_row m key later = key_row m key st1"
    and "m \<in> m_id ` set (db_merchants (as_db later))" and "sl_acquire links' = None"
  shows "let stuck = (sl_acquire links = None \<and> sl_release links \<noteq> None) in
    db_idem (as_db st1) = db_idem (as_db st) @ (if stuck then [new_idem_row m key (aq_method req @ '' '' @ aq_path req)
      (request_hash X req) (en_now env + cf_idempotency_ttl cfg) (en_now env)] else []) \<and>
    idempotency_enforce X parse' links' cfg env' (Some ctx') next' req' later =
      (if stuck then (Done (into_response X (en_request_id env') key_in_flight), later)
       else (case next' req' (claimed X cfg (en_now env') m key req' later) of
          (Done r', s) \<Rightarrow> (case record_response parse' links' cfg ctx' key r' s of (r', s') \<Rightarrow> (Done r', s'))
        | (other, s) \<Rightarrow> (other, s)))"
proof -
  let ?row = "new_idem_row m key (aq_method req @ '' '' @ aq_path req) (request_hash X req)
       (en_now env + cf_idempotency_ttl cfg) (en_now env)"
  let ?claimed = "claimed X cfg (en_now env) m key req st"
  note retry = enforce_fresh [OF assms(9), of ctx' later links' X parse' env' next']
  have free: ?thesis if "db_idem (as_db st1) = db_idem (as_db st)" "\<not> (sl_acquire links = None \<and> sl_release links \<noteq> None)"
    using that assms(4,10-13) retry by (auto simp: Let_def key_row_def idem_lookup_def)
  show ?thesis
  proof (cases "sl_acquire links")
    case (Some e)
    then show ?thesis using enforce_unreachable [OF assms(1) Some] assms(6) by (intro free) simp_all
  next
    case None
    obtain r0 stm where n: "next_layer req ?claimed = (Done r0, stm)"
      and rec: "record_response parse links cfg ctx key r0 stm = (r, st1)"
      using assms(6) enforce_fresh [of cfg key req ctx st links X parse env next_layer] assms(1-4) None
      by (auto split: prod.splits fate.splits)
    have stm: "db_idem (as_db stm) = db_idem (as_db st) @ [?row]"
      using assms(5) [rule_format, of ?claimed] n by (simp add: claimed_def)
    have st1: "st1 = release_key links ctx key stm"
      using rec assms(7,8) by (auto simp: record_response_def split: option.splits if_splits)
    have old: "filter (\<lambda>r. \<not> (same_key m key r \<and> ir_state r = Idem_InProgress)) (db_idem (as_db st)) = db_idem (as_db st)"
      using assms(4) by (auto simp: key_row_def idem_lookup_def find_None_iff filter_id_conv)
    show ?thesis
    proof (cases "sl_release links")
      case None
      have "db_idem (as_db st1) = db_idem (as_db st)"
        using assms(2) old by (simp add: st1 stm release_key_def over_link_def None idem_release_def modify_def
            new_idem_row_def same_key_def)
      with None show ?thesis by (intro free) simp_all
    next
      case (Some e)
      then have left: "st1 = stm" by (simp add: st1 release_key_def over_link_def)
      then have "key_row m key later = Some ?row"
        using assms(4,11) find_new_row by (simp add: key_row_def idem_lookup_def stm)
      then show ?thesis
        using enforce_known [OF assms(9), of ctx' later _ links' X parse' env' next'] assms(10,13) None Some
        by (simp add: stm left new_idem_row_def)
    qed
  qed
qed

text \<open>Twice the same 500: with the key released the retry is made, with the connection lost it is not.\<close>

definition demo_failing :: "api_request \<Rightarrow> reply fate api_step" where
  "demo_failing req st = (Done (into_response demo_ext None internal_error), st)"

definition demo_lost :: store_links where
  "demo_lost = links_up\<lparr>sl_release := Some (DatabaseError None None ''gone'')\<rparr>"

definition demo_lost_run :: "reply fate \<times> api_state" where
  "demo_lost_run = idempotency_enforce demo_ext (\<lambda>_. Some (JStr ''x'')) demo_lost demo_config demo_env
     (Some demo_ctx) demo_failing (demo_post ''{}'') (demo_state demo_db)"

definition demo_again :: "api_state \<Rightarrow> reply fate \<times> api_state" where
  "demo_again st = idempotency_enforce demo_ext (\<lambda>_. Some (JStr ''x'')) links_up demo_config demo_env
     (Some demo_ctx) demo_201 (demo_post ''{}'') st"

theorem server_error_frees_key_witness:
  "db_idem (as_db (snd (demo_first demo_failing))) = [] \<and>
   fst (demo_again (snd (demo_first demo_failing))) = Done (json_reply demo_ext 201 (JStr ''x'')) \<and>
   demo_again (snd demo_lost_run) = (Done (into_response demo_ext None key_in_flight), snd demo_lost_run)"
proof -
  have "fst (demo_first demo_failing) = Done (into_response demo_ext None internal_error)"
    "fst demo_lost_run = Done (into_response demo_ext None internal_error)" by code_simp+
  then have e: "idempotency_enforce demo_ext (\<lambda>_. Some (JStr ''x'')) links_up demo_config demo_env
      (Some demo_ctx) demo_failing (demo_post ''{}'') (demo_state demo_db) =
      (Done (into_response demo_ext None internal_error), snd (demo_first demo_failing))"
    and e': "idempotency_enforce demo_ext (\<lambda>_. Some (JStr ''x'')) demo_lost demo_config demo_env
      (Some demo_ctx) demo_failing (demo_post ''{}'') (demo_state demo_db) =
      (Done (into_response demo_ext None internal_error), snd demo_lost_run)"
    by (simp_all add: demo_first_def demo_lost_run_def prod_eq_iff)
  have m: "ac_merchant_id demo_ctx = 7" by (simp add: demo_ctx_def)
  have k: "keyed demo_config ''key-00000001'' (demo_post ''{}'')" by (rule demo_keyed) simp
  have h: "\<forall>s. db_idem (as_db (snd (demo_failing (demo_post ''{}'') s))) = db_idem (as_db s)"
    by (simp add: demo_failing_def)
  have s: "rp_status (into_response demo_ext None internal_error) = 500"
    by (simp add: internal_error_def api_error_new_def)
  have l: "sl_acquire links_up = None" "sl_release links_up = None" "sl_acquire demo_lost = None" "sl_release demo_lost \<noteq> None"
    by (simp_all add: links_up_def demo_lost_def)
  have known: "7 \<in> m_id ` set (db_merchants (as_db (snd (demo_first demo_failing))))"
    "7 \<in> m_id ` set (db_merchants (as_db (snd demo_lost_run)))" by code_simp+
  have r: "en_request_id demo_env = None" by (simp add: demo_env_def)
  note use = server_error_frees_key [where next_layer = demo_failing and req = "demo_post ''{}''" and req' = "demo_post ''{}''"
      and ctx = demo_ctx and ctx' = demo_ctx and next' = demo_201 and links' = links_up, OF k m demo_merchant_known demo_fresh_key h]
  have "db_idem (as_db (snd (demo_first demo_failing))) = db_idem (as_db (demo_state demo_db))"
    using use [OF e _ _ k m refl known(1) l(1)] s l by (simp add: Let_def)
  moreover have "db_idem (as_db (demo_state demo_db)) = []" by (simp add: demo_state_def demo_db_def)
  moreover have "fst (demo_again (snd (demo_first demo_failing))) = Done (json_reply demo_ext 201 (JStr ''x''))" by code_simp
  moreover have "demo_again (snd demo_lost_run) = (Done (into_response demo_ext None key_in_flight), snd demo_lost_run)"
    using use [OF e' _ _ k m refl known(2) l(1), of "\<lambda>_. Some (JStr ''x'')" demo_env] s l r
    by (simp add: demo_again_def Let_def)
  ultimately show ?thesis by simp
qed

text \<open>
  C15. A request that does not finish takes its key with it. When the handler of a request with a fresh key is
  dropped by the timeout or panics, or its answer cannot be recorded, the row of the key stays in progress:
  every later request under it, whatever its body and however late, is told that a request is still in
  progress and to retry shortly, and no handler runs. The 504, which asks for a retry with the same key to
  find out, the documentation of the layer, which promises an end after 24 hours, and the comment on the failed
  recording, which says a retry executes again, all say otherwise.
\<close>
theorem unfinished_request_blocks_key:
  assumes "keyed cfg key req" and "ac_merchant_id ctx = m" and "m \<in> m_id ` set (db_merchants (as_db st))"
    and "key_row m key st = None" and "sl_acquire links = None"
    and "\<forall>s. key_row m key (snd (next_layer req s)) = key_row m key s"
    and "idempotency_enforce X parse links cfg env (Some ctx) next_layer req st = (fr, st1)"
    and "fr = Dropped \<or> fr = Panicked \<or>
      (\<exists>r e. fr = Done r \<and> sl_complete links = Some e \<and> rp_status r < 500 \<and> rp_body r \<noteq> '''')"
    and "keyed cfg key req'" and "ac_merchant_id ctx' = m" and "key_row m key later = key_row m key st1"
    and "sl_acquire links' = None"
  shows "idempotency_enforce X parse' links' cfg env' (Some ctx') next' req' later =
    (Done (into_response X (en_request_id env') key_in_flight), later)"
proof -
  obtain claimed where c:
    "key_row m key claimed = Some (new_idem_row m key (aq_method req @ '' '' @ aq_path req) (request_hash X req)
       (en_now env + cf_idempotency_ttl cfg) (en_now env))"
    "idempotency_enforce X parse links cfg env (Some ctx) next_layer req st =
       (case next_layer req claimed of
          (Done r, st1) \<Rightarrow> (case record_response parse links cfg ctx key r st1 of (r, st2) \<Rightarrow> (Done r, st2))
        | (other, st1) \<Rightarrow> (other, st1))"
    by (rule enforce_first [OF assms(1), where ctx = ctx and st = st and links = links and X = X and
        env = env and parse = parse and next_layer = next_layer])
      (use assms(2-5) in simp_all)
  obtain fr0 stm where n: "next_layer req claimed = (fr0, stm)" by fastforce
  have "st1 = stm"
  proof (cases fr0)
    case (Done r0)
    then obtain r where r: "record_response parse links cfg ctx key r0 stm = (r, st1)" "fr = Done r"
      using c(2) n assms(7) by (auto split: prod.splits)
    then obtain e where "sl_complete links = Some e" "rp_status r < 500" "rp_body r \<noteq> ''''"
      using assms(8) by auto
    then show ?thesis using r(1)
      by (auto simp: record_response_def over_link_def split: option.splits if_splits)
  qed (use c(2) n assms(7) in auto)
  then have "key_row m key later = key_row m key claimed" using assms(6,11) n by (metis snd_conv)
  then show ?thesis
    using enforce_known [OF assms(9), of ctx' later _ links' X parse' env' next'] assms(10,12) c(1)
    by (simp add: new_idem_row_def)
qed

text \<open>The first request is dropped after its handler wrote an order; the retry a week later is told to wait.\<close>

theorem unfinished_request_blocks_key_witness:
  "timeout_enforce demo_ext None (fst (demo_first (\<lambda>req st. (Dropped, st)))) = Done (into_response demo_ext None timeout_error) \<and>
   idempotency_enforce demo_ext (\<lambda>_. None) links_up demo_config (demo_env\<lparr>en_now := seconds (7 * 86400)\<rparr>) (Some demo_ctx)
     demo_201 (demo_post ''{}'') (snd (demo_first (\<lambda>req st. (Dropped, st)))) =
   (Done (into_response demo_ext None key_in_flight), snd (demo_first (\<lambda>req st. (Dropped, st))))"
proof -
  let ?h = "\<lambda>(req::api_request) (st::api_state). (Dropped :: reply fate, st)"
  have f: "fst (demo_first ?h) = Dropped" by code_simp
  then have e: "idempotency_enforce demo_ext (\<lambda>_. Some (JStr ''x'')) links_up demo_config demo_env
     (Some demo_ctx) ?h (demo_post ''{}'') (demo_state demo_db) = (Dropped, snd (demo_first ?h))"
    by (simp add: demo_first_def prod_eq_iff)
  have m: "ac_merchant_id demo_ctx = 7" by (simp add: demo_ctx_def)
  have k: "keyed demo_config ''key-00000001'' (demo_post ''{}'')" by (rule demo_keyed) simp
  have l: "sl_acquire links_up = None" by (simp add: links_up_def)
  have i: "en_request_id (demo_env\<lparr>en_now := t\<rparr>) = None" for t by (simp add: demo_env_def)
  show ?thesis
    using f i unfinished_request_blocks_key [OF k m demo_merchant_known demo_fresh_key l _ e _ k m _ l,
        where later = "snd (demo_first ?h)" and parse' = "\<lambda>_. None" and next' = demo_201]
    by (simp add: timeout_enforce_def)
qed

end
