(* ===== verification/Api_Extract.thy ===== *)
theory Api_Extract
  imports Api_Error "HOL-Library.Code_Target_Nat"
begin

text \<open>
  \<open>crates/api/extract.rs\<close>: what the extractors answer when axum rejects a body, a query or a path segment, and
  \<open>crates/api/routes/health.rs\<close>, the probes. Axum and serde are not modelled: a rejection is the value they give.
  A text is UTF-8; its characters are a start byte with what continues it.
\<close>

section \<open>Characters\<close>

function utf8_chars :: "string \<Rightarrow> string list" where
  "utf8_chars [] = []"
| "utf8_chars (c # s) = (c # takeWhile (\<lambda>b. \<not> char_start b) s) # utf8_chars (dropWhile (\<lambda>b. \<not> char_start b) s)"
  by pat_completeness auto
termination
  by (relation "measure length") (auto simp: le_imp_less_Suc length_dropWhile_le)

definition byte :: "char \<Rightarrow> nat" where
  "byte c = of_char c"

text \<open>\<open>char::is_control\<close> and \<open>char::is_whitespace\<close>, on the bytes of a character.\<close>

definition is_control :: "string \<Rightarrow> bool" where
  "is_control ch \<longleftrightarrow>
     (case map byte ch of
        [b] \<Rightarrow> b < 32 \<or> b = 127
      | [a, b] \<Rightarrow> a = 0xC2 \<and> 0x80 \<le> b \<and> b \<le> 0x9F
      | _ \<Rightarrow> False)"

definition is_whitespace :: "string \<Rightarrow> bool" where
  "is_whitespace ch \<longleftrightarrow>
     (case map byte ch of
        [b] \<Rightarrow> (9 \<le> b \<and> b \<le> 13) \<or> b = 32
      | [a, b] \<Rightarrow> a = 0xC2 \<and> (b = 0x85 \<or> b = 0xA0)
      | [a, b, c] \<Rightarrow> (a, b, c) = (0xE1, 0x9A, 0x80) \<or>
          (a = 0xE2 \<and> b = 0x80 \<and> ((0x80 \<le> c \<and> c \<le> 0x8A) \<or> c \<in> {0xA8, 0xA9, 0xAF})) \<or>
          (a, b, c) = (0xE2, 0x81, 0x9F) \<or> (a, b, c) = (0xE3, 0x80, 0x80)
      | _ \<Rightarrow> False)"

definition trim_end_chars :: "string list \<Rightarrow> string list" where
  "trim_end_chars chs = rev (dropWhile is_whitespace (rev chs))"

definition trim_chars :: "string list \<Rightarrow> string list" where
  "trim_chars chs = trim_end_chars (dropWhile is_whitespace chs)"

section \<open>Rejections\<close>

definition max_echo :: nat where
  "max_echo = 200"

definition ellipsis :: string where
  "ellipsis = [char_of (226::nat), char_of (128::nat), char_of (166::nat)]"

definition sanitize :: "string \<Rightarrow> string" where
  "sanitize raw =
     (let out = take max_echo (map (\<lambda>ch. if is_control ch then '' '' else ch) (utf8_chars raw))
      in concat (trim_end_chars out) @ (if max_echo < length (utf8_chars raw) then ellipsis else []))"

definition strip_framing :: "string \<Rightarrow> string" where
  "strip_framing body_text =
     sanitize (unwrap_or body_text (strip_prefix ''Failed to deserialize the JSON body into the target type: '' body_text))"

definition path_byte :: "char \<Rightarrow> bool" where
  "path_byte c \<longleftrightarrow> is_digit c \<or> is_lower c \<or> (65 \<le> byte c \<and> byte c \<le> 90) \<or> c \<in> set ''._[]''"

definition serde_param :: "string \<Rightarrow> string option" where
  "serde_param detail =
     (let candidate = concat (trim_chars (utf8_chars (takeWhile (\<lambda>c. c \<noteq> CHR '':'') detail)))
      in if candidate \<noteq> [] \<and> length candidate \<le> 64 \<and> list_all path_byte candidate then Some candidate else None)"

definition with_serde_param :: "string \<Rightarrow> api_error \<Rightarrow> api_error" where
  "with_serde_param detail e = (case serde_param detail of None \<Rightarrow> e | Some p \<Rightarrow> with_param p e)"

text \<open>\<open>JsonRejection\<close>: the text of a data error, and the status of a body that could not be read.\<close>

datatype json_rejection = JsonDataError string | JsonSyntaxError | MissingJsonContentType | BodyRejection nat

definition from_json_rejection :: "json_rejection \<Rightarrow> api_error" where
  "from_json_rejection rejection =
     (case rejection of
        JsonDataError body_text \<Rightarrow>
          (let detail = strip_framing body_text
           in with_serde_param detail (invalid_request ''parameter_invalid'' detail None))
      | JsonSyntaxError \<Rightarrow> invalid_request ''json_invalid'' ''Request body is not valid JSON.'' None
      | MissingJsonContentType \<Rightarrow> unsupported_media_type
      | BodyRejection status \<Rightarrow>
          if status = 413 then payload_too_large None
          else invalid_request ''body_unreadable'' ''Request body could not be read.'' None)"

definition from_query_rejection :: "string \<Rightarrow> api_error" where
  "from_query_rejection body_text =
     (let detail = sanitize body_text
      in with_serde_param detail
           (invalid_request ''parameter_invalid'' (''Invalid query string. '' @ detail) None))"

definition from_path_rejection :: api_error where
  "from_path_rejection = not_found ''resource''"

section \<open>Probes\<close>

definition no_store :: "reply \<Rightarrow> reply" where
  "no_store r = r\<lparr>rp_headers := filter (\<lambda>(n, _). n \<noteq> ''cache-control'') (rp_headers r) @ [(''cache-control'', ''no-store'')]\<rparr>"

definition health_live :: "ext \<Rightarrow> reply" where
  "health_live X = no_store (json_reply X 200 (jobject [(''status'', JStr ''ok'')]))"

text \<open>The probe of the database is given what its one query ends with.\<close>

definition health_deep :: "ext \<Rightarrow> sqlx_error option \<Rightarrow> reply" where
  "health_deep X broken = no_store
     (case broken of
        None \<Rightarrow> json_reply X 200 (jobject [(''status'', JStr ''ok'')])
      | Some _ \<Rightarrow> json_reply X 503 (jobject [(''status'', JStr ''database_unreachable'')]))"

section \<open>What is echoed\<close>

lemma utf8_chars_concat [simp]: "concat (utf8_chars s) = s"
  by (induction s rule: utf8_chars.induct) simp_all

text \<open>The characters of a text: each is not empty and ends where the next start byte is.\<close>

definition chunks :: "string list \<Rightarrow> bool" where
  "chunks chs \<longleftrightarrow> list_all (\<lambda>ch. ch \<noteq> [] \<and> list_all (\<lambda>b. \<not> char_start b) (tl ch)) chs \<and>
     list_all (\<lambda>ch. char_start (hd ch)) (tl chs)"

lemma chunks_Cons: "chunks (ch # chs) \<longleftrightarrow> ch \<noteq> [] \<and> list_all (\<lambda>b. \<not> char_start b) (tl ch) \<and> chunks chs \<and>
    (case chs of [] \<Rightarrow> True | d # ds \<Rightarrow> char_start (hd d))"
  by (cases chs) (auto simp: chunks_def)

lemma utf8_chars_chunks: "chunks (utf8_chars s)"
proof (induction s rule: utf8_chars.induct)
  case (2 c s)
  have "list_all (\<lambda>b. \<not> char_start b) (takeWhile (\<lambda>b. \<not> char_start b) s)"
    by (auto simp: list_all_iff dest: set_takeWhileD)
  moreover have "case utf8_chars (dropWhile (\<lambda>b. \<not> char_start b) s) of [] \<Rightarrow> True | d # ds \<Rightarrow> char_start (hd d)"
  proof (cases "dropWhile (\<lambda>b. \<not> char_start b) s")
    case (Cons d ds)
    then have "char_start d" by (simp add: dropWhile_eq_Cons_conv)
    then show ?thesis by (simp add: Cons)
  qed (simp only: utf8_chars.simps list.case)
  ultimately show ?case using 2 by (simp add: chunks_Cons)
qed (simp add: chunks_def)

lemma chars_of_chunks: "chunks chs \<Longrightarrow> utf8_chars (concat chs) = chs"
proof (induction chs)
  case (Cons ch chs)
  then obtain c rest where ch: "ch = c # rest" "\<forall>b \<in> set rest. \<not> char_start b"
    by (cases ch) (auto simp: chunks_Cons list_all_iff)
  have "concat chs = [] \<or> (\<exists>d ds. concat chs = d # ds \<and> char_start d)"
    using Cons.prems by (cases chs; cases "hd chs") (auto simp: chunks_Cons)
  then have "takeWhile (\<lambda>b. \<not> char_start b) (rest @ concat chs) = rest \<and>
      dropWhile (\<lambda>b. \<not> char_start b) (rest @ concat chs) = concat chs"
    using ch(2) by (cases "concat chs") (auto simp del: concat_eq_Nil_conv)
  then show ?case using Cons ch(1) by (simp add: chunks_Cons)
qed simp

lemma chunks_take: "chunks chs \<Longrightarrow> chunks (take n chs)"
  by (auto simp: chunks_def list_all_iff tl_take dest: in_set_takeD)

lemma chunks_blank: "chunks chs \<Longrightarrow> chunks (map (\<lambda>ch. if P ch then '' '' else ch) chs)"
proof (induction chs)
  case (Cons ch chs)
  have "char_start (CHR '' '')" by code_simp
  then show ?case using Cons by (cases chs) (auto simp: chunks_Cons)
qed simp

lemma trim_end_take: "\<exists>k. trim_end_chars chs = take k chs"
proof -
  obtain k where "dropWhile is_whitespace (rev chs) = drop k (rev chs)" by (metis dropWhile_eq_drop)
  then show ?thesis by (auto simp: trim_end_chars_def rev_drop)
qed

lemma chunks_end: "chunks chs \<Longrightarrow> chs \<noteq> [] \<Longrightarrow> chunks (chs @ [ellipsis])"
proof (induction chs)
  case (Cons ch chs)
  have "chunks [ellipsis]" "char_start (hd ellipsis)" by code_simp+
  then show ?case using Cons by (cases chs) (auto simp: chunks_Cons)
qed simp

text \<open>A text of at most so many characters, none of them a control character.\<close>

definition one_line :: "nat \<Rightarrow> string \<Rightarrow> bool" where
  "one_line n s \<longleftrightarrow> length (utf8_chars s) \<le> n \<and> list_all (\<lambda>ch. \<not> is_control ch) (utf8_chars s)"

lemma sanitize_line: "one_line 201 (sanitize raw)"
proof -
  let ?out = "take max_echo (map (\<lambda>ch. if is_control ch then '' '' else ch) (utf8_chars raw))"
  obtain k where k: "trim_end_chars ?out = take k ?out" using trim_end_take by blast
  define chs where "chs = take k ?out"
  have c: "chunks chs" unfolding chs_def by (intro chunks_take chunks_blank utf8_chars_chunks)
  have sp: "\<not> is_control '' ''" "\<not> is_control ellipsis" "utf8_chars ellipsis = [ellipsis]" by code_simp+
  have n: "\<forall>ch \<in> set chs. \<not> is_control ch"
    unfolding chs_def by (auto dest!: in_set_takeD simp: sp)
  have l: "length chs \<le> 200" unfolding chs_def by (simp add: max_echo_def)
  have s: "sanitize raw = concat chs @ (if max_echo < length (utf8_chars raw) then ellipsis else [])"
    by (simp add: sanitize_def Let_def k chs_def)
  show ?thesis
  proof (cases "chs = []")
    case True
    then show ?thesis unfolding s one_line_def by (simp add: sp)
  next
    case False
    have "utf8_chars (concat (chs @ [ellipsis])) = chs @ [ellipsis]"
      by (rule chars_of_chunks [OF chunks_end [OF c False]])
    then show ?thesis
      using n l chars_of_chunks [OF c] unfolding s one_line_def by (simp add: list_all_iff sp)
  qed
qed

lemma one_line_Cons:
  assumes "32 \<le> byte c" and "byte c < 127" and "one_line n s"
  shows "one_line (Suc n) (c # s)"
proof -
  have "\<not> is_control (c # rest)" for rest
    using assms(1,2) by (auto simp: is_control_def split: list.split)
  moreover have "\<exists>k. utf8_chars (dropWhile (\<lambda>b. \<not> char_start b) s) = drop k (utf8_chars s)"
  proof (cases s)
    case (Cons d t)
    then show ?thesis
      by (cases "char_start d") (auto intro: exI [of _ "0::nat"] exI [of _ "1::nat"])
  qed (auto intro: exI [of _ "0::nat"])
  then obtain k where "utf8_chars (dropWhile (\<lambda>b. \<not> char_start b) s) = drop k (utf8_chars s)" by blast
  ultimately show ?thesis
    using assms(3) by (auto simp: one_line_def list_all_iff dest: in_set_dropD)
qed

lemma one_line_prefix:
  "list_all (\<lambda>c. 32 \<le> byte c \<and> byte c < 127) p \<Longrightarrow> one_line n s \<Longrightarrow> one_line (length p + n) (p @ s)"
  by (induction p) (simp_all add: one_line_Cons)

lemma one_line_mono: "one_line n s \<Longrightarrow> n \<le> m \<Longrightarrow> one_line m s"
  by (simp add: one_line_def)

definition param_ok :: "string option \<Rightarrow> bool" where
  "param_ok p = (case p of None \<Rightarrow> True | Some s \<Rightarrow> s \<noteq> [] \<and> length s \<le> 64 \<and> list_all path_byte s)"

lemma with_serde_param_sel [simp]:
  "ae_status (with_serde_param d e) = ae_status e" "ae_message (with_serde_param d e) = ae_message e"
  by (simp_all add: with_serde_param_def with_param_def split: option.split)

lemma with_serde_param_ok: "ae_param e = None \<Longrightarrow> param_ok (ae_param (with_serde_param d e))"
  by (auto simp: with_serde_param_def with_param_def param_ok_def serde_param_def Let_def split: option.splits if_splits)

lemmas api_error_fields = invalid_request_def payload_too_large_def unsupported_media_type_def api_error_new_def

text \<open>
  C35. What a rejected body or query echoes of the request is harmless: the answer is a 4xx whose message is one
  line of a bounded number of characters without a control character, and the parameter it names, if any, looks like
  the path of a field.
\<close>
theorem rejections_echo_one_line:
  "one_line 223 (ae_message (from_json_rejection r)) \<and> one_line 223 (ae_message (from_query_rejection text)) \<and>
   param_ok (ae_param (from_json_rejection r)) \<and> param_ok (ae_param (from_query_rejection text)) \<and>
   ae_status (from_json_rejection r) \<in> {400, 413, 415} \<and> ae_status (from_query_rejection text) = 400"
proof -
  have fixed: "one_line 223 ''Request body is not valid JSON.''" "one_line 223 ''Request body could not be read.''"
    "one_line 223 (ae_message unsupported_media_type)" "one_line 223 (ae_message (payload_too_large None))"
    by code_simp+
  have prefix: "one_line 223 (''Invalid query string. '' @ sanitize raw)" for raw
  proof -
    have "list_all (\<lambda>c. 32 \<le> byte c \<and> byte c < 127) ''Invalid query string. ''" by code_simp
    from one_line_prefix [OF this sanitize_line] show ?thesis by simp
  qed
  have line: "one_line 223 (sanitize raw)" for raw by (rule one_line_mono [OF sanitize_line]) simp
  have json: "one_line 223 (ae_message (from_json_rejection r)) \<and> param_ok (ae_param (from_json_rejection r)) \<and>
      ae_status (from_json_rejection r) \<in> {400, 413, 415}"
  proof (cases r)
    case (JsonDataError body)
    then show ?thesis
      using line by (simp add: from_json_rejection_def Let_def strip_framing_def api_error_fields with_serde_param_ok)
  qed (use fixed in \<open>simp_all add: from_json_rejection_def api_error_fields param_ok_def\<close>)
  show ?thesis
    using json prefix by (simp add: from_query_rejection_def Let_def api_error_fields with_serde_param_ok)
qed

end
