(* ===== verification/Api_Routes.thy ===== *)
theory Api_Routes
  imports Api_Idempotency Api_Extract Engine_Properties
begin

text \<open>
  \<open>crates/api/routes\<close>: the table of routes and the handlers behind it, each a transaction on the state of the
  server that ends in a status with a JSON value or in an error. A handler takes its path segment and the
  result of its extractor, a request body or a query that serde has read (\<open>extract.rs\<close>); what serde makes of a
  request is a parameter.
\<close>

section \<open>Requests\<close>

record create_order_request =
  oq_amount :: int
  oq_currency :: string
  oq_receipt :: "string option"
  oq_notes :: note_map

record create_payment_request =
  yq_order_id :: string
  yq_number :: string
  yq_exp_month :: nat
  yq_exp_year :: nat
  yq_cvc :: "string option"
  yq_notes :: note_map

record create_refund_request =
  fq_payment_id :: string
  fq_amount :: "int option"
  fq_reason :: "string option"

record create_endpoint_request =
  wq_url :: string
  wq_enabled_events :: "string list"

text \<open>What axum and serde make of a request: a value or a rejection, a query's by its text, a path segment's by nothing.\<close>

record extractors =
  ex_order :: "api_request \<Rightarrow> json_rejection + create_order_request"
  ex_payment :: "api_request \<Rightarrow> json_rejection + create_payment_request"
  ex_refund :: "api_request \<Rightarrow> json_rejection + create_refund_request"
  ex_endpoint :: "api_request \<Rightarrow> json_rejection + create_endpoint_request"
  ex_list :: "api_request \<Rightarrow> string + list_params"
  ex_refund_list :: "api_request \<Rightarrow> string + string"
  ex_path :: "string \<Rightarrow> string option"

definition from_json :: "json_rejection + 'a \<Rightarrow> 'a api_result" where
  "from_json r = map_err from_json_rejection r"

definition from_query :: "string + 'a \<Rightarrow> 'a api_result" where
  "from_query r = map_err from_query_rejection r"

definition from_path :: "string option \<Rightarrow> string api_result" where
  "from_path r = ok_or r from_path_rejection"

text \<open>
  What a handler meets besides the state and the caller: the environment of the request, the configuration, the
  pepper of the card fingerprints, the URL parser and the random bytes of a new secret.
\<close>

record handler_env =
  he_ext :: ext
  he_env :: request_env
  he_config :: api_config
  he_pepper :: string
  he_parse_url :: "string \<Rightarrow> url option"
  he_random :: string

type_synonym 'a handler_tx = "(api_state, api_error, 'a) tx"

definition on_engine :: "'a engine \<Rightarrow> 'a handler_tx" where
  "on_engine m = (\<lambda>st. case m (as_db st) of (r, w) \<Rightarrow> (map_err from_engine r, st\<lparr>as_db := w\<rparr>))"

definition on_store :: "(db, store_error, 'a) tx \<Rightarrow> 'a handler_tx" where
  "on_store m = (\<lambda>st. case m (as_db st) of (r, w) \<Rightarrow> (map_err from_store r, st\<lparr>as_db := w\<rparr>))"

definition parse_id :: "ext \<Rightarrow> marker \<Rightarrow> string \<Rightarrow> string \<Rightarrow> uuid api_result" where
  "parse_id X k what s = map_err (\<lambda>_. not_found what) (id_from_str X k s)"

section \<open>Orders\<close>

definition parse_currency :: "string \<Rightarrow> currency api_result" where
  "parse_currency s = map_err (\<lambda>_. invalid_request ''currency_invalid''
     (quoted s @ '' is not a supported currency.'') (Some ''currency'')) (currency_from_str s)"

definition orders_create :: "handler_env \<Rightarrow> auth_ctx \<Rightarrow> create_order_request \<Rightarrow> (nat \<times> json) handler_tx" where
  "orders_create H auth req =
     tbind (tlift (require_scope auth OrdersWrite)) (\<lambda>_.
     tbind (tlift (parse_currency (oq_currency req))) (\<lambda>currency.
     tbind (on_engine (order_create (he_ext H) (ac_merchant_id auth)
        \<lparr>co_amount_minor = oq_amount req, co_currency = currency, co_receipt = oq_receipt req,
         co_notes = oq_notes req\<rparr> (en_now (he_env H)))) (\<lambda>order.
     treturn (201, order_json (he_ext H) order))))"

definition orders_retrieve :: "handler_env \<Rightarrow> auth_ctx \<Rightarrow> string \<Rightarrow> (nat \<times> json) handler_tx" where
  "orders_retrieve H auth i =
     tbind (tlift (require_scope auth OrdersRead)) (\<lambda>_.
     tbind (tlift (parse_id (he_ext H) OrderMarker ''order'' i)) (\<lambda>i.
     tbind (on_engine (order_get (he_ext H) (ac_merchant_id auth) i)) (\<lambda>order.
     treturn (200, order_json (he_ext H) order))))"

definition orders_list :: "handler_env \<Rightarrow> auth_ctx \<Rightarrow> list_params \<Rightarrow> (nat \<times> json) handler_tx" where
  "orders_list H auth params =
     tbind (tlift (require_scope auth OrdersRead)) (\<lambda>_.
     tbind (tlift (resolve_params (he_ext H) (he_config H) params)) (\<lambda>page.
     tbind (on_engine (order_list (he_ext H) (ac_merchant_id auth) (pq_before page) (fetch_limit page))) (\<lambda>orders.
     treturn (200, page_into_json
       (page_finish (he_ext H) page (order_json (he_ext H)) o_created_at orders)))))"

section \<open>Payments\<close>

fun map_outcome :: "outcome \<Rightarrow> attempt_outcome" where
  "map_outcome Success = Out_Capture"
| "map_outcome SuccessThenDispute = Out_CaptureThenDispute"
| "map_outcome Authorize = Out_Authorize"
| "map_outcome (Declined c) = Out_Decline (decline_code_str c) (decline_description c)"
| "map_outcome RequiresAction = Out_RequireAction"
| "map_outcome RiskHold = Out_RiskHold"

definition map_decision :: "decision \<Rightarrow> attempt_decision" where
  "map_decision d = \<lparr>attempt_decision.dec_outcome = map_outcome (decision.dec_outcome d),
     dec_latency_ms = decision.dec_latency_ms d\<rparr>"

text \<open>The artificial delay before the payment, in nanoseconds.\<close>

definition payment_delay :: "api_config \<Rightarrow> decision \<Rightarrow> int" where
  "payment_delay cfg d = (if cf_simulate_latency cfg
     then min (int (decision.dec_latency_ms d) * 1000000) (cf_max_simulated_latency cfg) else 0)"

definition not_in_test_set :: api_error where
  "not_in_test_set = card_error ''card_not_in_test_set''
     (''This card number is not in the published test set. Only documented test cards are accepted '' @ em_dash @
      '' see /docs/testing/test-cards.'') None"

definition check_cvc :: "string option \<Rightarrow> unit api_result" where
  "check_cvc c = (case c of None \<Rightarrow> Inr () | Some raw \<Rightarrow> cvc raw)"

definition declined :: "ext \<Rightarrow> payment \<Rightarrow> api_error" where
  "declined X p = card_error (unwrap_or ''card_declined'' (p_error_code p))
     (unwrap_or ''The card was declined.'' (p_error_description p)) (Some (id_to_string X PaymentMarker (p_id p)))"

definition payments_create :: "handler_env \<Rightarrow> auth_ctx \<Rightarrow> create_payment_request \<Rightarrow> (nat \<times> json) handler_tx" where
  "payments_create H auth req =
     tbind (tlift (require_scope auth PaymentsWrite)) (\<lambda>_.
     tbind (tlift (check_cvc (yq_cvc req))) (\<lambda>_.
     tbind (tlift (parse_id (he_ext H) OrderMarker ''order'' (yq_order_id req))) (\<lambda>order_id.
     tbind (on_engine (order_get (he_ext H) (ac_merchant_id auth) order_id)) (\<lambda>order.
     tbind (tlift (map_err (\<lambda>_. not_in_test_set) (decide (yq_number req) (o_amount order)))) (\<lambda>decision.
     tbind (on_engine (payment_create (he_ext H) (he_pepper H) (ac_merchant_id auth)
        \<lparr>cp_order_id = order_id, cp_card_number = yq_number req, cp_exp_month = yq_exp_month req,
         cp_exp_year = yq_exp_year req, cp_notes = yq_notes req\<rparr>
        (map_decision decision) (en_now (he_env H)))) (\<lambda>payment.
     if p_status payment = Pay_Failed then tthrow (declined (he_ext H) payment)
     else treturn (201, payment_json (he_ext H) payment)))))))"

definition payments_retrieve :: "handler_env \<Rightarrow> auth_ctx \<Rightarrow> string \<Rightarrow> (nat \<times> json) handler_tx" where
  "payments_retrieve H auth i =
     tbind (tlift (require_scope auth PaymentsRead)) (\<lambda>_.
     tbind (tlift (parse_id (he_ext H) PaymentMarker ''payment'' i)) (\<lambda>i.
     tbind (on_engine (payment_get (he_ext H) (ac_merchant_id auth) i)) (\<lambda>payment.
     treturn (200, payment_json (he_ext H) payment))))"

definition payments_capture :: "handler_env \<Rightarrow> auth_ctx \<Rightarrow> string \<Rightarrow> (nat \<times> json) handler_tx" where
  "payments_capture H auth i =
     tbind (tlift (require_scope auth PaymentsWrite)) (\<lambda>_.
     tbind (tlift (parse_id (he_ext H) PaymentMarker ''payment'' i)) (\<lambda>i.
     tbind (on_engine (payment_capture (he_ext H) (ac_merchant_id auth) i (en_now (he_env H)))) (\<lambda>payment.
     treturn (200, payment_json (he_ext H) payment))))"

section \<open>Refunds\<close>

definition refunds_create :: "handler_env \<Rightarrow> auth_ctx \<Rightarrow> create_refund_request \<Rightarrow> (nat \<times> json) handler_tx" where
  "refunds_create H auth req =
     tbind (tlift (require_scope auth RefundsWrite)) (\<lambda>_.
     tbind (tlift (parse_id (he_ext H) PaymentMarker ''payment'' (fq_payment_id req))) (\<lambda>payment_id.
     tbind (on_engine (refund_create (he_ext H) (ac_merchant_id auth)
        \<lparr>cr_payment_id = payment_id, cr_amount_minor = fq_amount req, cr_reason = fq_reason req\<rparr>
        (en_now (he_env H)))) (\<lambda>refund.
     treturn (201, refund_json (he_ext H) refund))))"

definition refunds_retrieve :: "handler_env \<Rightarrow> auth_ctx \<Rightarrow> string \<Rightarrow> (nat \<times> json) handler_tx" where
  "refunds_retrieve H auth i =
     tbind (tlift (require_scope auth PaymentsRead)) (\<lambda>_.
     tbind (tlift (parse_id (he_ext H) RefundMarker ''refund'' i)) (\<lambda>i.
     tbind (on_engine (refund_get (he_ext H) (ac_merchant_id auth) i)) (\<lambda>refund.
     treturn (200, refund_json (he_ext H) refund))))"

definition refunds_list :: "handler_env \<Rightarrow> auth_ctx \<Rightarrow> string \<Rightarrow> (nat \<times> json) handler_tx" where
  "refunds_list H auth payment_id =
     tbind (tlift (require_scope auth PaymentsRead)) (\<lambda>_.
     tbind (tlift (parse_id (he_ext H) PaymentMarker ''payment'' payment_id)) (\<lambda>i.
     tbind (on_engine (refund_list (he_ext H) (ac_merchant_id auth) i)) (\<lambda>refunds.
     treturn (200, jobject [(''object'', JStr ''list''), (''data'', JArr (map (refund_json (he_ext H)) refunds)),
       (''has_more'', JBool False), (''next_before'', JNull)]))))"

section \<open>Webhook endpoints and events\<close>

definition endpoint_fields :: "ext \<Rightarrow> endpoint_row \<Rightarrow> (string \<times> json) list" where
  "endpoint_fields X e = [(''id'', JStr (id_to_string X WebhookEndpointMarker (ep_id e))),
     (''object'', JStr ''webhook_endpoint''), (''url'', JStr (ep_url e)),
     (''enabled_events'', JArr (map JStr (ep_enabled_events e))),
     (''created_at'', JStr (rfc3339 X (ep_created_at e)))]"

definition render_endpoint :: "ext \<Rightarrow> endpoint_row \<Rightarrow> json" where
  "render_endpoint X e = jobject (endpoint_fields X e)"

definition endpoint_limit_reached :: api_error where
  "endpoint_limit_reached = invalid_request ''endpoint_limit_reached''
     (''At most 16 active webhook endpoints are allowed. '' @ ''Delete one before adding another.'') None"

text \<open>The creation in its two halves: the checks, which only read, and the statement that inserts.\<close>

definition endpoints_check :: "handler_env \<Rightarrow> auth_ctx \<Rightarrow> create_endpoint_request \<Rightarrow> string handler_tx" where
  "endpoints_check H auth req =
     tbind (tlift (require_scope auth WebhooksManage)) (\<lambda>_.
     tbind (tlift (webhook_url (he_parse_url H) (wq_url req))) (\<lambda>url.
     tbind (tlift (enabled_events (wq_enabled_events req))) (\<lambda>_.
     tbind (on_store (list_active_for_merchant (ac_merchant_id auth))) (\<lambda>existing.
     if 16 \<le> length existing then tthrow endpoint_limit_reached else treturn url))))"

definition endpoints_store ::
  "handler_env \<Rightarrow> auth_ctx \<Rightarrow> create_endpoint_request \<Rightarrow> string \<Rightarrow> (nat \<times> json) handler_tx" where
  "endpoints_store H auth req url =
     tbind (on_store (fresh_id (he_ext H))) (\<lambda>i.
     let endpoint = \<lparr>ep_id = i, ep_merchant_id = ac_merchant_id auth, ep_url = url,
           ep_signing_secret = generate_webhook_secret (he_ext H) (he_random H),
           ep_enabled_events = wq_enabled_events req, ep_disabled_at = None,
           ep_created_at = en_now (he_env H)\<rparr>
     in tbind (on_store (endpoint_insert (he_ext H) endpoint)) (\<lambda>_.
        treturn (201, jobject (endpoint_fields (he_ext H) endpoint @
          [(''signing_secret'', JStr (ep_signing_secret endpoint))]))))"

definition endpoints_create :: "handler_env \<Rightarrow> auth_ctx \<Rightarrow> create_endpoint_request \<Rightarrow> (nat \<times> json) handler_tx" where
  "endpoints_create H auth req = tbind (endpoints_check H auth req) (endpoints_store H auth req)"

definition endpoints_list :: "handler_env \<Rightarrow> auth_ctx \<Rightarrow> (nat \<times> json) handler_tx" where
  "endpoints_list H auth =
     tbind (tlift (require_scope auth WebhooksManage)) (\<lambda>_.
     tbind (on_store (list_active_for_merchant (ac_merchant_id auth))) (\<lambda>endpoints.
     treturn (200, jobject [(''object'', JStr ''list''),
       (''data'', JArr (map (render_endpoint (he_ext H)) endpoints)), (''has_more'', JBool False)])))"

definition endpoints_disable :: "handler_env \<Rightarrow> auth_ctx \<Rightarrow> string \<Rightarrow> (nat \<times> json) handler_tx" where
  "endpoints_disable H auth i =
     tbind (tlift (require_scope auth WebhooksManage)) (\<lambda>_.
     tbind (tlift (parse_id (he_ext H) WebhookEndpointMarker ''webhook endpoint'' i)) (\<lambda>i.
     tbind (on_store (endpoint_find_by_id i)) (\<lambda>endpoint.
     if ep_merchant_id endpoint \<noteq> ac_merchant_id auth then tthrow (not_found ''webhook endpoint'')
     else
       tbind (if endpoint_is_active endpoint
           then on_store (endpoint_set_disabled i (Some (en_now (he_env H)))) else treturn ()) (\<lambda>_.
       treturn (200, jobject [(''id'', JStr (id_to_string (he_ext H) WebhookEndpointMarker (ep_id endpoint))),
         (''object'', JStr ''webhook_endpoint''), (''deleted'', JBool True)])))))"

definition render_event :: "ext \<Rightarrow> event_row \<Rightarrow> json" where
  "render_event X e = jobject [(''id'', JStr (id_to_string X EventMarker (ev_id e))), (''object'', JStr ''event''),
     (''type'', JStr (ev_type e)), (''api_version'', JStr (ev_api_version e)),
     (''created_at'', JStr (rfc3339 X (ev_created_at e))), (''data'', ev_payload e)]"

definition events_list :: "handler_env \<Rightarrow> auth_ctx \<Rightarrow> list_params \<Rightarrow> (nat \<times> json) handler_tx" where
  "events_list H auth params =
     tbind (tlift (require_scope auth PaymentsRead)) (\<lambda>_.
     tbind (tlift (resolve_params (he_ext H) (he_config H) params)) (\<lambda>page.
     tbind (on_store (event_list_for_merchant (he_ext H) (ac_merchant_id auth) (pq_before page) (fetch_limit page)))
       (\<lambda>events.
     treturn (200, page_into_json (page_finish (he_ext H) page (render_event (he_ext H)) ev_created_at events)))))"

section \<open>The table of routes\<close>

datatype call =
    Orders_Create | Orders_List | Orders_Retrieve string
  | Payments_Create | Payments_Retrieve string | Payments_Capture string
  | Refunds_Create | Refunds_List | Refunds_Retrieve string
  | Endpoints_Create | Endpoints_List | Endpoints_Disable string
  | Events_List

text \<open>The methods of the path, each with what it calls; a path that is not in the table has none.\<close>

definition path_table :: "string list \<Rightarrow> (string \<times> call) list" where
  "path_table segments =
     (case segments of
        [a] \<Rightarrow>
          if a = ''orders'' then [(''POST'', Orders_Create), (''GET'', Orders_List)]
          else if a = ''payments'' then [(''POST'', Payments_Create)]
          else if a = ''refunds'' then [(''POST'', Refunds_Create), (''GET'', Refunds_List)]
          else if a = ''webhook_endpoints'' then [(''POST'', Endpoints_Create), (''GET'', Endpoints_List)]
          else if a = ''events'' then [(''GET'', Events_List)]
          else []
      | [a, i] \<Rightarrow>
          if i = '''' then []
          else if a = ''orders'' then [(''GET'', Orders_Retrieve i)]
          else if a = ''payments'' then [(''GET'', Payments_Retrieve i)]
          else if a = ''refunds'' then [(''GET'', Refunds_Retrieve i)]
          else if a = ''webhook_endpoints'' then [(''DELETE'', Endpoints_Disable i)]
          else []
      | [a, i, b] \<Rightarrow>
          if i \<noteq> '''' \<and> a = ''payments'' \<and> b = ''capture'' then [(''POST'', Payments_Capture i)] else []
      | _ \<Rightarrow> [])"

definition run_call_of :: "extractors \<Rightarrow> handler_env \<Rightarrow> auth_ctx \<Rightarrow> api_request \<Rightarrow> call \<Rightarrow> (nat \<times> json) handler_tx" where
  "run_call_of E H auth req c =
     (case c of
        Orders_Create \<Rightarrow> tbind (tlift (from_json (ex_order E req))) (orders_create H auth)
      | Orders_List \<Rightarrow> tbind (tlift (from_query (ex_list E req))) (orders_list H auth)
      | Orders_Retrieve i \<Rightarrow> tbind (tlift (from_path (ex_path E i))) (orders_retrieve H auth)
      | Payments_Create \<Rightarrow> tbind (tlift (from_json (ex_payment E req))) (payments_create H auth)
      | Payments_Retrieve i \<Rightarrow> tbind (tlift (from_path (ex_path E i))) (payments_retrieve H auth)
      | Payments_Capture i \<Rightarrow> tbind (tlift (from_path (ex_path E i))) (payments_capture H auth)
      | Refunds_Create \<Rightarrow> tbind (tlift (from_json (ex_refund E req))) (refunds_create H auth)
      | Refunds_List \<Rightarrow> tbind (tlift (from_query (ex_refund_list E req))) (refunds_list H auth)
      | Refunds_Retrieve i \<Rightarrow> tbind (tlift (from_path (ex_path E i))) (refunds_retrieve H auth)
      | Endpoints_Create \<Rightarrow> tbind (tlift (from_json (ex_endpoint E req))) (endpoints_create H auth)
      | Endpoints_List \<Rightarrow> endpoints_list H auth
      | Endpoints_Disable i \<Rightarrow> tbind (tlift (from_path (ex_path E i))) (endpoints_disable H auth)
      | Events_List \<Rightarrow> tbind (tlift (from_query (ex_list E req))) (events_list H auth))"

definition segments_of :: "string \<Rightarrow> string list" where
  "segments_of path = (case path of [] \<Rightarrow> [] | c # rest \<Rightarrow> if c = CHR ''/'' then split_on (CHR ''/'') rest else [])"

text \<open>A GET route also answers HEAD. The fallbacks of the router answer for what the table does not have.\<close>

definition call_of :: "api_request \<Rightarrow> call api_result" where
  "call_of req =
     (let table = path_table (segments_of (aq_path req)); verb = aq_method req in
      if table = [] then Inl (unknown_endpoint verb (aq_path req))
      else ok_or (map_of table (if verb = ''HEAD'' then ''GET'' else verb)) (method_not_allowed verb (aq_path req)))"

definition route :: "extractors \<Rightarrow> handler_env \<Rightarrow> request_env \<Rightarrow> auth_ctx \<Rightarrow> api_request \<Rightarrow> reply fate api_step" where
  "route E H env auth req st =
     (case tbind (tlift (call_of req)) (run_call_of E (H\<lparr>he_env := env\<rparr>) auth req) st of
        (Inl e, st) \<Rightarrow> (Done (into_response (he_ext H) (en_request_id env) e), st)
      | (Inr (status, v), st) \<Rightarrow> (Done (json_reply (he_ext H) status v), st))"

end
