(* ===== verification/Engine_Frames.thy ===== *)
theory Engine_Frames
  imports Engine_Refund Engine_Order Engine_Payment Store_Idempotency
begin

text \<open>
  What the calls of the engine leave alone, however they end: the tables of merchants, API keys, webhook
  endpoints and idempotency keys (\<open>keeps\<close> of \<open>Sandbox_Prelude\<close>).
\<close>

definition side_tables :: "db \<Rightarrow> merchant list \<times> api_key_row list \<times> endpoint_row list \<times> idem_row list" where
  "side_tables w = (db_merchants w, db_api_keys w, db_endpoints w, db_idem w)"

lemma keeps_query [keeps_intros]: "keeps f (query q)"
  by (simp add: keeps_def query_def)

lemma keeps_store [keeps_intros]: "keeps f m \<Longrightarrow> keeps f (store m)"
  by (simp add: store_def keeps_tmap_err)

lemma keeps_guarded [keeps_intros]: "(\<And>w. f (u w) = f w) \<Longrightarrow> keeps f (guarded g u)"
  by (auto simp: keeps_def guarded_def split: sum.splits)

lemma keeps_update_one [keeps_intros]:
  "(\<And>rows w. f (upd rows w) = f w) \<Longrightarrow> keeps f (update_one X what k get upd checks i g)"
  by (simp add: update_one_def keeps_guarded)

lemma keeps_modify [keeps_intros]: "(\<And>w. f (u w) = f w) \<Longrightarrow> keeps f (modify u)"
  by (simp add: keeps_def modify_def)

lemma keeps_fresh_id [keeps_intros]: "(\<And>w n. f (w\<lparr>uuid_calls := n\<rparr>) = f w) \<Longrightarrow> keeps f (fresh_id X)"
  by (simp add: keeps_def fresh_id_def)

lemma keeps_tattempt [keeps_intros]: "keeps f m \<Longrightarrow> keeps f (tattempt m)"
  by (auto simp: keeps_def tattempt_def split: prod.splits) (metis snd_conv)

lemma keeps_let [keeps_intros]: "(\<And>x. keeps f (m x)) \<Longrightarrow> keeps f (let x = v in m x)"
  by simp

lemma keeps_run_tx [keeps_intros]:
  assumes "keeps f m" and "\<And>w n. f (w\<lparr>uuid_calls := n\<rparr>) = f w"
  shows "keeps f (run_tx X conv m)"
  using assms
  by (auto simp: keeps_def run_tx_def restore_tables_def split: prod.splits sum.splits option.splits) (metis snd_conv)

lemma side_tables_sel [simp]:
  "side_tables (w\<lparr>uuid_calls := n\<rparr>) = side_tables w" "side_tables (w\<lparr>db_orders := x1\<rparr>) = side_tables w"
  "side_tables (w\<lparr>db_payments := x2\<rparr>) = side_tables w" "side_tables (w\<lparr>db_attempts := x3\<rparr>) = side_tables w"
  "side_tables (w\<lparr>db_refunds := x4\<rparr>) = side_tables w" "side_tables (w\<lparr>db_accounts := x5\<rparr>) = side_tables w"
  "side_tables (w\<lparr>db_ltxns := x6\<rparr>) = side_tables w" "side_tables (w\<lparr>db_entries := x7\<rparr>) = side_tables w"
  "side_tables (w\<lparr>db_events := x8\<rparr>) = side_tables w" "side_tables (w\<lparr>db_deliveries := x9\<rparr>) = side_tables w"
  "side_tables (w\<lparr>db_jobs := x10\<rparr>) = side_tables w"
  by (simp_all add: side_tables_def)

section \<open>The repositories the engine writes to\<close>

lemma keeps_statements [keeps_intros]:
  "keeps side_tables (order_insert X q)" "keeps side_tables (order_update_status X i s n)"
  "keeps side_tables (order_find_by_id X i)" "keeps side_tables (order_find_by_id_for_update X i)"
  "keeps side_tables (payment_insert X p)" "keeps side_tables (payment_update_status X i ps c n a b)"
  "keeps side_tables (payment_find_by_id X i)" "keeps side_tables (payment_find_by_id_for_update X i)"
  "keeps side_tables (attempt_insert X i k oc dc ms now)"
  "keeps side_tables (refund_insert X r)" "keeps side_tables (refund_sum_for_payment X i)"
  "keeps side_tables (refund_find_by_id i)" "keeps side_tables (refund_list_for_payment i)"
  "keeps side_tables (event_insert X m ty pl v now)" "keeps side_tables (delivery_insert_pending X ev ep now)"
  "keeps side_tables (job_enqueue X kind payload run_at mx now)"
  "keeps side_tables (find_platform_account t cur)" "keeps side_tables (find_merchant_account m t cur)"
  "keeps side_tables (list_active_for_merchant m)"
  unfolding order_insert_def order_update_status_def order_find_by_id_def order_find_by_id_for_update_def
    payment_insert_def payment_update_status_def payment_find_by_id_def payment_find_by_id_for_update_def
    attempt_insert_def refund_insert_def refund_sum_for_payment_def refund_find_by_id_def
    refund_list_for_payment_def event_insert_def delivery_insert_pending_def job_enqueue_def
    find_platform_account_def find_merchant_account_def list_active_for_merchant_def
  by (intro keeps_intros; simp)+

lemma keeps_find_or_create [keeps_intros]: "keeps side_tables (find_or_create_merchant_account X m t c now)"
proof -
  have "keeps side_tables (insert_account_or_nothing X r)" for r
    by (auto simp: keeps_def insert_account_or_nothing_def split: sum.splits)
  then show ?thesis
    unfolding find_or_create_merchant_account_def by (intro keeps_intros; simp)
qed

lemma keeps_ledger_post [keeps_intros]: "keeps side_tables (ledger_post X t rt ri d now)"
proof -
  have "keeps side_tables (insert_entries X i now es)" for i es
    by (induction es) (simp_all only: insert_entries.simps, (intro keeps_intros; simp)+)
  then show ?thesis unfolding ledger_post_def by (intro keeps_intros; simp)
qed

section \<open>The calls of the engine\<close>

lemma keeps_emit [keeps_intros]: "keeps side_tables (emit X eps m ty pl now)"
  unfolding emit_def by (intro keeps_intros)

lemma keeps_post_capture [keeps_intros]: "keeps side_tables (post_capture X m a fees i now)"
  unfolding post_capture_def post_fee_def by (intro keeps_intros)

lemma keeps_post_refund [keeps_intros]: "keeps side_tables (post_refund X m a fee i now)"
  unfolding post_refund_def post_fee_return_def by (intro keeps_intros)

lemma keeps_settle [keeps_intros]: "keeps side_tables (settle X p q eps now)"
  unfolding settle_def by (intro keeps_intros)

lemma keeps_apply_decision [keeps_intros]: "keeps side_tables (apply_decision X d m p q eps now)"
  unfolding apply_decision_def by (cases "attempt_decision.dec_outcome d") (auto intro!: keeps_intros)

lemma keeps_order_create: "keeps side_tables (order_create X m inp now)"
  unfolding order_create_def by (intro keeps_intros; simp)

lemma keeps_payment_create: "keeps side_tables (payment_create X pepper m inp d now)"
  unfolding payment_create_def payment_create_tx_def by (intro keeps_intros; simp)

lemma keeps_payment_capture: "keeps side_tables (payment_capture X m i now)"
  unfolding payment_capture_def payment_capture_tx_def
  by (intro keeps_intros) (auto intro!: keeps_intros split: capturable.splits)

lemma keeps_refund_create: "keeps side_tables (refund_create X m inp now)"
  unfolding refund_create_def refund_create_tx_def by (intro keeps_intros; simp)

end
