(* ===== verification/Api_Properties.thy ===== *)
theory Api_Properties
  imports Api_Routes Engine_Frames
begin

text \<open>
  What the API guarantees end to end: the handlers of \<open>Api_Routes\<close> behind the layers of \<open>Api_Auth\<close> and
  \<open>Api_Idempotency\<close>, over the engine.
\<close>

section \<open>What requests maintain\<close>

text \<open>\<open>maintains P m\<close>: \<open>m\<close> ends in a state with \<open>P\<close> when it starts in one, however it ends.\<close>

definition maintains :: "('s \<Rightarrow> bool) \<Rightarrow> ('s \<Rightarrow> 'r \<times> 's) \<Rightarrow> bool" where
  "maintains P m \<longleftrightarrow> (\<forall>s. P s \<longrightarrow> P (snd (m s)))"

named_theorems maintains_intros

lemma maintainsD: "maintains P m \<Longrightarrow> P s \<Longrightarrow> P (snd (m s))"
  by (simp add: maintains_def)

lemma maintains_case: "maintains P m \<Longrightarrow> P s \<Longrightarrow> m s = (r, s') \<Longrightarrow> P s'"
  by (metis maintains_def snd_conv)

lemma maintains_tbind [maintains_intros]:
  "maintains P m \<Longrightarrow> (\<And>a. maintains P (k a)) \<Longrightarrow> maintains P (tbind m k)"
  by (auto simp: maintains_def tbind_def split: prod.splits sum.splits)

lemma maintains_basic [maintains_intros]:
  "maintains P (treturn a)" "maintains P (tthrow e)" "maintains P (tlift r)"
  by (simp_all add: maintains_def)

lemma maintains_if [maintains_intros]:
  "maintains P a \<Longrightarrow> maintains P b \<Longrightarrow> maintains P (if c then a else b)"
  by simp

lemma maintains_on [maintains_intros]:
  "maintains Q e \<Longrightarrow> maintains (\<lambda>st. Q (as_db st)) (on_engine e)"
  "maintains Q q \<Longrightarrow> maintains (\<lambda>st. Q (as_db st)) (on_store q)"
  by (auto simp: maintains_def on_engine_def on_store_def split: prod.splits)

lemma keeps_maintains: "keeps f m \<Longrightarrow> (\<And>w w'. f w' = f w \<Longrightarrow> Q w \<Longrightarrow> Q w') \<Longrightarrow> maintains Q m"
  by (auto simp: keeps_def maintains_def)

section \<open>The layers\<close>

text \<open>What one request meets on its way in, beside the state.\<close>

record arrival =
  ar_request :: api_request
  ar_env :: request_env
  ar_links :: store_links
  ar_fresh :: string
  ar_handler :: handler_env

definition answer ::
  "ext \<Rightarrow> (string \<Rightarrow> json option) \<Rightarrow> api_config \<Rightarrow> extractors \<Rightarrow> arrival \<Rightarrow> reply api_step" where
  "answer X parse cfg E a = serve X parse (ar_links a) cfg (ar_env a) (ar_fresh a)
     (route E ((ar_handler a)\<lparr>he_ext := X\<rparr>)) (ar_request a)"

text \<open>Requests one after the other: the replies and the last state.\<close>

fun answer_all ::
  "ext \<Rightarrow> (string \<Rightarrow> json option) \<Rightarrow> api_config \<Rightarrow> extractors \<Rightarrow> arrival list \<Rightarrow> reply list api_step" where
  "answer_all X parse cfg E [] st = ([], st)"
| "answer_all X parse cfg E (a # rest) st =
     (case answer X parse cfg E a st of (r, st) \<Rightarrow>
        case answer_all X parse cfg E rest st of (rs, st) \<Rightarrow> (r # rs, st))"

text \<open>
  A property of the tables that the idempotency table does not touch and that every call maintains is
  maintained by every request.
\<close>

lemma over_link_maintains [maintains_intros]:
  "maintains Q m \<Longrightarrow> maintains (\<lambda>st. Q (as_db st)) (over_link broken m)"
  by (auto simp: maintains_def over_link_def split: option.splits prod.splits)

lemma idem_maintains:
  assumes "\<And>w rows. Q w \<Longrightarrow> Q (w\<lparr>db_idem := rows\<rparr>)"
  shows "maintains Q (acquire X m k ep h ex now)" "maintains Q (idem_complete m k s b)"
    "maintains Q (idem_release m k)"
  using assms
  by (auto simp: maintains_def acquire_def idem_complete_def idem_release_def modify_def
      split: sum.splits option.splits)

lemma record_response_maintains:
  assumes "\<And>w rows. Q w \<Longrightarrow> Q (w\<lparr>db_idem := rows\<rparr>)"
  shows "maintains (\<lambda>st. Q (as_db st)) (record_response parse links cfg auth key r)"
proof -
  note m = over_link_maintains [OF idem_maintains(2) [where Q = Q, OF assms], THEN maintainsD]
    over_link_maintains [OF idem_maintains(3) [where Q = Q, OF assms], THEN maintainsD]
  show ?thesis
    by (auto simp: maintains_def record_response_def release_key_def m split: option.splits)
qed

lemma idempotency_maintains:
  assumes "\<And>w rows. Q w \<Longrightarrow> Q (w\<lparr>db_idem := rows\<rparr>)" and "\<And>req. maintains (\<lambda>st. Q (as_db st)) (next_layer req)"
  shows "maintains (\<lambda>st. Q (as_db st)) (idempotency_enforce X parse links cfg env auth next_layer req)"
proof -
  note n = maintainsD [OF assms(2)]
    maintainsD [OF over_link_maintains [OF idem_maintains(1) [where Q = Q, OF assms(1)]]]
    maintainsD [OF record_response_maintains [where Q = Q, OF assms(1)]]
  have "Q (as_db st) \<Longrightarrow> Q (as_db (snd (idempotency_guarded X parse links cfg (en_now env) auth next_layer req st)))" for st
    unfolding idempotency_guarded_def Let_def case_prod_beta
    by (simp add: n split: option.split sum.split fate.split acquire_outcome.split)
  then show ?thesis
    by (simp add: maintains_def idempotency_enforce_def case_prod_beta split: sum.split)
qed

lemma require_auth_maintains:
  assumes "\<And>ctx. maintains (\<lambda>st. Q (as_db st)) (next_layer ctx)"
  shows "maintains (\<lambda>st. Q (as_db st)) (require_auth X env next_layer req)"
proof (unfold maintains_def, intro allI impI)
  fix st :: api_state assume q: "Q (as_db st)"
  have "Q (as_db (snd (next_layer ctx (st\<lparr>as_cache := c, as_spawned := t\<rparr>))))" for ctx c t
    using maintainsD [OF assms, of "st\<lparr>as_cache := c, as_spawned := t\<rparr>"] q by simp
  then have "Q (as_db (snd (authenticate X env next_layer req st)))"
    using q by (simp add: authenticate_def Let_def split: prod.splits sum.splits) (metis snd_conv)
  then show "Q (as_db (snd (require_auth X env next_layer req st)))"
    by (simp add: require_auth_def case_prod_beta)
qed

lemma answer_maintains:
  assumes "\<And>w rows. Q w \<Longrightarrow> Q (w\<lparr>db_idem := rows\<rparr>)"
    and "\<And>H auth req c. he_ext H = X \<Longrightarrow> maintains (\<lambda>st. Q (as_db st)) (run_call_of E H auth req c)"
  shows "maintains (\<lambda>st. Q (as_db st)) (answer X parse cfg E a)"
proof -
  have r: "maintains (\<lambda>st. Q (as_db st)) (route E ((ar_handler a)\<lparr>he_ext := X\<rparr>) env ctx req)" for env ctx req
  proof -
    let ?m = "tbind (tlift (call_of req)) (run_call_of E ((ar_handler a)\<lparr>he_ext := X, he_env := env\<rparr>) ctx req)"
    have m: "maintains (\<lambda>st. Q (as_db st)) ?m"
      by (intro maintains_tbind maintains_basic assms(2)) simp
    show ?thesis
      by (auto simp: maintains_def route_def split: prod.splits sum.splits intro: maintains_case [OF m])
  qed
  show ?thesis
    unfolding answer_def maintains_def
    by (auto simp: serve_def propagate_def Let_def timeout_enforce_def split: prod.splits fate.splits
        intro: maintains_case [where P = "\<lambda>st. Q (as_db st)",
          OF require_auth_maintains [OF idempotency_maintains [OF assms(1) r]]])
qed

lemma answer_all_maintains:
  assumes "\<And>a. a \<in> set as \<Longrightarrow> maintains P (answer X parse cfg E a)"
  shows "maintains P (answer_all X parse cfg E as)"
  using assms
proof (induction as)
  case (Cons a as)
  then show ?case
    by (auto simp: maintains_def split: prod.splits) (metis snd_conv)
qed (simp add: maintains_def)

section \<open>The books behind the API\<close>

lemma maintains_reads:
  "keeps id m \<Longrightarrow> maintains Q m"
  by (auto simp: keeps_def maintains_def)

lemma maintains_read:
  assumes "\<And>a. r = Inr a \<Longrightarrow> maintains P (k a)"
  shows "maintains P (tbind (tlift r) k)"
  using assms by (cases r) (auto simp: maintains_def tbind_def)

lemma reads_keep:
  "keeps id (order_get X m i)" "keeps id (order_list X m before l)" "keeps id (payment_get X m i)"
  "keeps id (refund_get X m i)" "keeps id (refund_list X m i)" "keeps id (list_active_for_merchant m)"
  "keeps id (endpoint_find_by_id i)" "keeps id (event_list_for_merchant X m before l)"
  unfolding order_get_def order_list_def payment_get_def refund_get_def refund_list_def
    list_active_for_merchant_def endpoint_find_by_id_def event_list_for_merchant_def order_find_by_id_def
    order_list_for_merchant_def payment_find_by_id_def refund_find_by_id_def refund_list_for_payment_def
  by (intro keeps_intros)+

lemmas reads_maintain = reads_keep [THEN maintains_reads]

lemma reachable_call:
  assumes "\<And>w r w'. m w = (r, w') \<Longrightarrow> engine_step X w w'"
  shows "maintains (engine_reachable X w0) m"
  unfolding maintains_def by (metis assms engine_reachable.step prod.collapse)

lemma endpoint_writes_elsewhere:
  "maintains (engine_reachable X w0) (fresh_id X)" "maintains (engine_reachable X w0) (endpoint_insert X e)"
  "maintains (engine_reachable X w0) (endpoint_set_disabled i t)"
  by (rule reachable_call, rule engine_step.elsewhere,
      auto simp: money_tables_def ledger_tables_def fresh_id_def endpoint_insert_def guarded_def
        endpoint_set_disabled_def modify_def split: sum.splits)+

lemma handlers_reach:
  fixes H auth w0
  defines "P \<equiv> \<lambda>st. engine_reachable (he_ext H) w0 (as_db st)"
  shows "in_i64 (oq_amount q) \<Longrightarrow> maintains P (orders_create H auth q)"
    "maintains P (orders_retrieve H auth i)" "maintains P (orders_list H auth l)"
    "maintains P (payments_create H auth y)" "maintains P (payments_retrieve H auth i)"
    "maintains P (payments_capture H auth i)" "maintains P (refunds_create H auth f)"
    "maintains P (refunds_retrieve H auth i)" "maintains P (refunds_list H auth i)"
    "maintains P (endpoints_create H auth e)" "maintains P (endpoints_list H auth)"
    "maintains P (endpoints_disable H auth i)" "maintains P (events_list H auth l)"
  unfolding P_def orders_create_def orders_retrieve_def orders_list_def payments_create_def payments_retrieve_def
    payments_capture_def refunds_create_def refunds_retrieve_def refunds_list_def endpoints_create_def
    endpoints_check_def endpoints_store_def endpoints_list_def endpoints_disable_def events_list_def Let_def
  by (intro maintains_read maintains_if maintains_tbind maintains_basic
      maintains_on [where Q = "engine_reachable (he_ext H) w0"] reads_maintain endpoint_writes_elsewhere
      reachable_call [OF engine_step.create_order] reachable_call [OF engine_step.create_payment]
      reachable_call [OF engine_step.capture] reachable_call [OF engine_step.create_refund]
      | simp only: create_order_input.simps)+

lemma calls_reach:
  assumes "he_ext H = X" and "\<And>req q. ex_order E req = Inr q \<Longrightarrow> in_i64 (oq_amount q)"
  shows "maintains (\<lambda>st. engine_reachable X w0 (as_db st)) (run_call_of E H auth req c)"
  using assms handlers_reach [where H = H and auth = auth and ?w0.0 = w0]
  by (cases c) (auto simp: run_call_of_def from_json_def intro!: maintains_read)

section \<open>A small server\<close>

text \<open>One merchant with a secret key; the requests say which card they pay with.\<close>

definition demo_extractors :: extractors where
  "demo_extractors = \<lparr>
     ex_order = (\<lambda>_. Inr \<lparr>oq_amount = 10000, oq_currency = ''INR'', oq_receipt = None, oq_notes = []\<rparr>),
     ex_payment = (\<lambda>req. Inr \<lparr>yq_order_id = ''order_1000'', yq_number = aq_body req, yq_exp_month = 12,
        yq_exp_year = 2030, yq_cvc = None, yq_notes = []\<rparr>),
     ex_refund = (\<lambda>_. Inr \<lparr>fq_payment_id = ''pay_1001'', fq_amount = Some 4000, fq_reason = None\<rparr>),
     ex_endpoint = (\<lambda>_. Inr \<lparr>wq_url = ''http://a'', wq_enabled_events = []\<rparr>),
     ex_list = (\<lambda>_. Inr \<lparr>lp_limit = Some 1, lp_before = None\<rparr>),
     ex_refund_list = (\<lambda>_. Inr ''pay_1001''), ex_path = Some\<rparr>"

definition demo_handler :: handler_env where
  "demo_handler = \<lparr>he_ext = demo_ext, he_env = demo_env, he_config = demo_config, he_pepper = ''pepper'',
     he_parse_url = (\<lambda>s. Some \<lparr>url_scheme = ''http'', url_host = Some ''a'', url_username = [], url_password = None,
        url_fragment = None, url_text = s\<rparr>), he_random = replicate 32 (CHR ''b'')\<rparr>"

definition demo_api_request :: "string \<Rightarrow> string \<Rightarrow> string \<Rightarrow> api_request" where
  "demo_api_request verb path body = \<lparr>aq_method = verb, aq_path = path,
     aq_headers = [(''authorization'', ''Bearer '' @ gk_plaintext (generate_key demo_ext ''sk_test'' demo_bytes))],
     aq_body = body\<rparr>"

definition demo_arrival :: "api_request \<Rightarrow> arrival" where
  "demo_arrival req = \<lparr>ar_request = req, ar_env = demo_env, ar_links = links_up, ar_fresh = ''f'',
     ar_handler = demo_handler\<rparr>"

definition demo_answers :: "api_request list \<Rightarrow> reply list \<times> api_state" where
  "demo_answers reqs = answer_all demo_ext (\<lambda>_. Some JNull) demo_config demo_extractors (map demo_arrival reqs)
     (demo_state demo_issue)"

text \<open>The invariant of the engine, as the reader of the books sees it.\<close>

lemma engine_books:
  assumes inv: "engine_inv w"
  shows "(\<forall>t \<in> set (db_ltxns w). \<forall>c. sum_in c (entries_of (lt_id t) (db_entries w)) = 0) \<and>
    (\<forall>q \<in> set (db_orders w).
       (\<Sum>r \<leftarrow> db_payments w. if pr_order_id r = or_id q \<and> pr_status r \<in> {Pay_Captured, Pay_Refunded}
          then 1 else 0) = (if or_status q = Order_Paid then 1 else (0::int))) \<and>
    (\<forall>r \<in> set (db_payments w). refunds_against (pr_id r) (db_refunds w) \<le> pr_amount_minor r)"
proof -
  have order: "\<forall>q \<in> set (db_orders w). order_ok (db_payments w) q"
    and payment: "\<forall>r \<in> set (db_payments w). payment_ok (db_orders w) (db_refunds w) r"
    and "\<forall>t \<in> set (db_ltxns w). txn_balanced (lt_id t) (db_entries w)"
    using inv unfolding engine_inv_def books_ok_def by blast+
  then have "\<forall>t \<in> set (db_ltxns w). \<forall>c. sum_in c (entries_of (lt_id t) (db_entries w)) = 0"
    using txn_balanced_zero by blast
  moreover have "\<forall>q \<in> set (db_orders w).
       (\<Sum>r \<leftarrow> db_payments w. if pr_order_id r = or_id q \<and> pr_status r \<in> {Pay_Captured, Pay_Refunded}
          then 1 else 0) = (if or_status q = Order_Paid then 1 else (0::int))"
    using order unfolding order_ok_def captured_for_def captured_row_def by (auto split: if_splits)
  moreover have "refunds_against (pr_id r) (db_refunds w) \<le> pr_amount_minor r" if "r \<in> set (db_payments w)" for r
  proof -
    have ok: "payment_ok (db_orders w) (db_refunds w) r" using payment that by blast
    then have "100 \<le> pr_amount_minor r"
      using order unfolding payment_ok_def order_ok_def same_order_def by auto
    then show ?thesis using ok unfolding payment_ok_def captured_row_def by (cases "pr_status r") auto
  qed
  ultimately show ?thesis by blast
qed

text \<open>
  The books stay in order behind the API. Whatever requests reach the server, in whatever order, with
  whatever keys, headers and bodies, and however the database is reached for the idempotency keys, every state
  in between and at the end is one the engine reaches from the migrated database: every transaction in the
  ledger sums to zero in every currency, an order is paid exactly when one of its payments was captured and
  then by that one alone, and no payment is refunded beyond its amount.
\<close>
theorem api_keeps_books:
  assumes "fresh_books (as_db st)" and "\<forall>req q. ex_order E req = Inr q \<longrightarrow> in_i64 (oq_amount q)"
    and "answer_all X parse cfg E arrivals st = (replies, st')"
  shows "engine_reachable X (as_db st) (as_db st') \<and>
    (\<forall>t \<in> set (db_ltxns (as_db st')). \<forall>c. sum_in c (entries_of (lt_id t) (db_entries (as_db st'))) = 0) \<and>
    (\<forall>q \<in> set (db_orders (as_db st')).
       (\<Sum>r \<leftarrow> db_payments (as_db st'). if pr_order_id r = or_id q \<and> pr_status r \<in> {Pay_Captured, Pay_Refunded}
          then 1 else 0) = (if or_status q = Order_Paid then 1 else (0::int))) \<and>
    (\<forall>r \<in> set (db_payments (as_db st')). refunds_against (pr_id r) (db_refunds (as_db st')) \<le> pr_amount_minor r)"
proof -
  have "maintains (\<lambda>s. engine_reachable X (as_db st) (as_db s)) (answer X parse cfg E a)" for a
  proof (rule answer_maintains [OF _ calls_reach])
    fix w and rows :: "idem_row list" assume "engine_reachable X (as_db st) w"
    then show "engine_reachable X (as_db st) (w\<lparr>db_idem := rows\<rparr>)"
      by (rule engine_reachable.step) (rule engine_step.elsewhere, simp add: money_tables_def ledger_tables_def)
  qed (use assms(2) in simp_all)
  from answer_all_maintains [OF this, where as = arrivals, THEN maintains_case, OF _ assms(3)]
  have reach: "engine_reachable X (as_db st) (as_db st')" by (simp add: engine_reachable.start)
  show ?thesis using reach engine_books [OF engine_reachable_inv [OF reach assms(1)]] by blast
qed

theorem api_keeps_books_witness:
  "rp_status (hd (fst (demo_answers [demo_api_request ''POST'' ''/orders'' '''']))) = 201 \<and>
   length (db_orders (as_db (snd (demo_answers [demo_api_request ''POST'' ''/orders'' ''''])))) = 1 \<and>
   engine_reachable demo_ext demo_issue (as_db (snd (demo_answers [demo_api_request ''POST'' ''/orders'' ''''])))"
proof -
  let ?run = "demo_answers [demo_api_request ''POST'' ''/orders'' '''']"
  have "rp_status (hd (fst ?run)) = 201 \<and> length (db_orders (as_db (snd ?run))) = 1" by code_simp
  moreover have "fresh_books (as_db (demo_state demo_issue))" by code_simp
  moreover have "\<forall>req q. ex_order demo_extractors req = Inr q \<longrightarrow> in_i64 (oq_amount q)"
    by (simp add: demo_extractors_def in_i64_iff)
  ultimately show ?thesis
    using api_keeps_books [OF _ _ prod.collapse [symmetric], of "demo_state demo_issue" demo_extractors demo_ext
        "\<lambda>_. Some JNull" demo_config "map demo_arrival [demo_api_request ''POST'' ''/orders'' '''']"]
    by (simp only: demo_answers_def demo_state_def api_state.simps)
qed

section \<open>Scopes\<close>

fun scope_of :: "call \<Rightarrow> scope" where
  "scope_of Orders_Create = OrdersWrite"
| "scope_of Orders_List = OrdersRead"
| "scope_of (Orders_Retrieve i) = OrdersRead"
| "scope_of Payments_Create = PaymentsWrite"
| "scope_of (Payments_Retrieve i) = PaymentsRead"
| "scope_of (Payments_Capture i) = PaymentsWrite"
| "scope_of Refunds_Create = RefundsWrite"
| "scope_of Refunds_List = PaymentsRead"
| "scope_of (Refunds_Retrieve i) = PaymentsRead"
| "scope_of Endpoints_Create = WebhooksManage"
| "scope_of Endpoints_List = WebhooksManage"
| "scope_of (Endpoints_Disable i) = WebhooksManage"
| "scope_of Events_List = PaymentsRead"

text \<open>What the extractor of a call made of the request.\<close>

definition extracted :: "extractors \<Rightarrow> api_request \<Rightarrow> call \<Rightarrow> unit api_result" where
  "extracted E req c =
     (let path = (\<lambda>i. rbind (from_path (ex_path E i)) (\<lambda>_. Inr ())) in
      case c of
        Orders_Create \<Rightarrow> rbind (from_json (ex_order E req)) (\<lambda>_. Inr ())
      | Payments_Create \<Rightarrow> rbind (from_json (ex_payment E req)) (\<lambda>_. Inr ())
      | Refunds_Create \<Rightarrow> rbind (from_json (ex_refund E req)) (\<lambda>_. Inr ())
      | Endpoints_Create \<Rightarrow> rbind (from_json (ex_endpoint E req)) (\<lambda>_. Inr ())
      | Orders_List \<Rightarrow> rbind (from_query (ex_list E req)) (\<lambda>_. Inr ())
      | Refunds_List \<Rightarrow> rbind (from_query (ex_refund_list E req)) (\<lambda>_. Inr ())
      | Events_List \<Rightarrow> rbind (from_query (ex_list E req)) (\<lambda>_. Inr ())
      | Orders_Retrieve i \<Rightarrow> path i | Payments_Retrieve i \<Rightarrow> path i | Payments_Capture i \<Rightarrow> path i
      | Refunds_Retrieve i \<Rightarrow> path i | Endpoints_Disable i \<Rightarrow> path i
      | Endpoints_List \<Rightarrow> Inr ())"

lemma keeps_on [keeps_intros]:
  "keeps id e \<Longrightarrow> keeps id (on_engine e)" "keeps id q \<Longrightarrow> keeps id (on_store q)"
  by (auto simp: keeps_def on_engine_def on_store_def split: prod.splits) (metis snd_conv api_state.surjective api_state.update_convs(1))+

lemma reads_keep_state:
  "keeps id (orders_retrieve H auth i)" "keeps id (orders_list H auth l)" "keeps id (payments_retrieve H auth i)"
  "keeps id (refunds_retrieve H auth i)" "keeps id (refunds_list H auth i)" "keeps id (endpoints_list H auth)"
  "keeps id (events_list H auth l)"
  unfolding orders_retrieve_def orders_list_def payments_retrieve_def refunds_retrieve_def refunds_list_def
    endpoints_list_def events_list_def
  by (intro keeps_intros reads_keep)+

lemma tlift_Inl_bind: "tbind (tlift (Inl e)) k st = (Inl e, st)"
  by (simp add: tbind_def)

lemma out_of_scope:
  assumes "\<not> scope_contains (ac_scopes auth) (scope_of c)"
  shows "run_call_of E H auth req c st =
    (case extracted E req c of Inl e \<Rightarrow> (Inl e, st)
     | Inr _ \<Rightarrow> (Inl (forbidden (''This API key does not have the '' @ quoted (scope_str (scope_of c)) @ '' scope.'')), st))"
  using assms
  by (cases c)
    (auto simp: run_call_of_def extracted_def Let_def rbind_def tbind_def require_scope_def orders_create_def orders_retrieve_def
      orders_list_def payments_create_def payments_retrieve_def payments_capture_def refunds_create_def
      refunds_retrieve_def refunds_list_def endpoints_create_def endpoints_check_def endpoints_list_def
      endpoints_disable_def events_list_def split: sum.splits)

lemma read_calls_keep:
  "scope_of c \<in> {OrdersRead, PaymentsRead} \<Longrightarrow> keeps id (run_call_of E H auth req c)"
  by (cases c) (auto simp: run_call_of_def intro!: keeps_tbind keeps_basic reads_keep_state)

text \<open>
  C12. A key does what its scopes say and no more. A call outside them is refused before it reads or writes
  anything, with 403 unless its body, query or path could not even be read; and a key that may only read, whatever
  it sends, with whatever method, to whatever path, reaches no handler that changes anything.
\<close>
theorem scopes_gate_every_call:
  "(\<not> scope_contains (ac_scopes auth) (scope_of c) \<longrightarrow>
      (\<exists>e. run_call_of E H auth req c st = (Inl e, st) \<and> (extracted E req c = Inl e \<or> ae_status e = 403))) \<and>
   (\<not> list_ex (scope_contains (ac_scopes auth)) [OrdersWrite, PaymentsWrite, RefundsWrite, WebhooksManage] \<longrightarrow>
      snd (route E H env auth req st) = st)"
proof (intro conjI impI)
  assume "\<not> scope_contains (ac_scopes auth) (scope_of c)"
  then show "\<exists>e. run_call_of E H auth req c st = (Inl e, st) \<and> (extracted E req c = Inl e \<or> ae_status e = 403)"
    by (auto simp: out_of_scope forbidden_def api_error_new_def split: sum.split)
next
  assume reader: "\<not> list_ex (scope_contains (ac_scopes auth)) [OrdersWrite, PaymentsWrite, RefundsWrite, WebhooksManage]"
  have "snd (run_call_of E H' auth req c st) = st" for H' c
  proof (cases "scope_of c \<in> {OrdersRead, PaymentsRead}")
    case True
    then show ?thesis using read_calls_keep by (simp add: keeps_def)
  next
    case False
    then have "\<not> scope_contains (ac_scopes auth) (scope_of c)" using reader by (cases "scope_of c") auto
    then show ?thesis by (simp add: out_of_scope split: sum.split)
  qed
  then show "snd (route E H env auth req st) = st"
    by (auto simp: route_def tbind_def split: prod.splits sum.splits) (metis snd_conv)+
qed

definition demo_reader :: auth_ctx where
  "demo_reader = \<lparr>ac_merchant_id = 7, ac_key_id = 9, ac_scopes = scope_set_of [OrdersRead, PaymentsRead]\<rparr>"

theorem scopes_gate_every_call_witness:
  "snd (route demo_extractors demo_handler demo_env demo_reader (demo_api_request ''POST'' ''/payments'' '''')
     (demo_state demo_issue)) = demo_state demo_issue \<and>
   (\<exists>e. orders_create demo_handler demo_reader
       \<lparr>oq_amount = 10000, oq_currency = ''INR'', oq_receipt = None, oq_notes = []\<rparr> (demo_state demo_issue) =
     (Inl e, demo_state demo_issue) \<and> ae_status e = 403)"
proof -
  let ?req = "demo_api_request ''POST'' ''/orders'' ''''"
  have x: "ex_order demo_extractors ?req = Inr \<lparr>oq_amount = 10000, oq_currency = ''INR'', oq_receipt = None, oq_notes = []\<rparr>"
    by (simp add: demo_extractors_def)
  then have c: "run_call_of demo_extractors demo_handler demo_reader ?req Orders_Create (demo_state demo_issue) =
      orders_create demo_handler demo_reader \<lparr>oq_amount = 10000, oq_currency = ''INR'', oq_receipt = None, oq_notes = []\<rparr>
        (demo_state demo_issue)"
    by (simp add: run_call_of_def from_json_def tbind_def)
  have "extracted demo_extractors ?req Orders_Create = Inr ()" by (simp add: extracted_def from_json_def x)
  then show ?thesis
    using scopes_gate_every_call [of demo_reader Orders_Create demo_extractors demo_handler ?req "demo_state demo_issue"]
      scopes_gate_every_call [of demo_reader Orders_Create demo_extractors demo_handler
        "demo_api_request ''POST'' ''/payments'' ''''" "demo_state demo_issue"]
    unfolding c by (simp add: demo_reader_def)
qed

end
