(* ===== verification/Api_Answers.thy ===== *)
theory Api_Answers
  imports Api_Properties
begin

text \<open>
  What single calls of the API answer and leave behind: resources out of reach, cards outside the test set,
  declined payments, the limit on webhook endpoints, and the pages of a collection.
\<close>

section \<open>Resources out of reach\<close>

text \<open>
  A text names a payment in the reach of a merchant when it parses to the identifier of a stored payment of
  that merchant. A row that cannot be read is an error of its own.
\<close>

definition in_reach :: "ext \<Rightarrow> marker \<Rightarrow> ('r \<Rightarrow> uuid) \<Rightarrow> ('r \<Rightarrow> store_error + 'd) \<Rightarrow> ('d \<Rightarrow> uuid) \<Rightarrow> 'r list \<Rightarrow> uuid \<Rightarrow>
   string \<Rightarrow> bool" where
  "in_reach X k rid decode owner rows m s =
     (case id_from_str X k s of
        Inl _ \<Rightarrow> False
      | Inr i \<Rightarrow> (case find (\<lambda>r. rid r = i) rows of
          None \<Rightarrow> False
        | Some r \<Rightarrow> (case decode r of Inl _ \<Rightarrow> True | Inr d \<Rightarrow> owner d = m)))"

definition order_in_reach where
  "order_in_reach X w = in_reach X OrderMarker or_id (order_into_domain X) o_merchant_id (db_orders w)"

definition payment_in_reach where
  "payment_in_reach X w = in_reach X PaymentMarker pr_id (payment_into_domain X) p_merchant_id (db_payments w)"

definition refund_in_reach where
  "refund_in_reach X w = in_reach X RefundMarker rr_id refund_into_domain re_merchant_id (db_refunds w)"

lemma on_engine_fst: "fst (e (as_db st)) = Inl x \<Longrightarrow> fst (tbind (on_engine e) k st) = Inl (from_engine x)"
  by (auto simp: tbind_def on_engine_def split: prod.splits)

lemma out_of_reach_find:
  assumes "\<not> in_reach X k rid decode owner rows m s" and "id_from_str X k s = Inr i"
  shows "fetch_row what rid decode i rows = Inl (S_NotFound what) \<or>
    (\<exists>d. fetch_row what rid decode i rows = Inr d \<and> owner d \<noteq> m)"
  using assms by (auto simp: in_reach_def fetch_row_def split: option.splits sum.splits)

lemma from_engine_missing [simp]:
  "from_engine (E_NotFound what) = not_found what" "from_engine (E_Store (S_NotFound what)) = not_found what"
  by (simp_all add: from_engine_def from_store_def)

lemma engine_missing:
  assumes "\<And>i. id_from_str X k s = Inr i \<Longrightarrow> \<exists>x. fst (e i (as_db st)) = Inl x \<and> from_engine x = not_found what"
  shows "fst (tbind (tlift (parse_id X k what s)) (\<lambda>i. tbind (on_engine (e i)) (c i)) st) = Inl (not_found what)"
proof (cases "id_from_str X k s")
  case (Inr i)
  then obtain x where "fst (e i (as_db st)) = Inl x" "from_engine x = not_found what" using assms by blast
  then show ?thesis using Inr on_engine_fst [of "e i" st x "c i"] by (simp add: parse_id_def tbind_def)
qed (simp add: parse_id_def tbind_def)

definition gate_error :: "string \<Rightarrow> store_error + 'd \<Rightarrow> engine_error" where
  "gate_error what r = (case r of Inl _ \<Rightarrow> E_Store (S_NotFound what) | Inr _ \<Rightarrow> E_NotFound what)"

lemma from_engine_gate [simp]: "from_engine (gate_error what r) = not_found what"
  by (simp add: gate_error_def split: sum.split)

lemma owner_gate:
  assumes "fetch_row what rid decode i (get w) = Inl (S_NotFound what) \<or>
    (\<exists>d. fetch_row what rid decode i (get w) = Inr d \<and> owner d \<noteq> m)"
  shows "tbind (store (query (\<lambda>w. fetch_row what rid decode i (get w))))
       (\<lambda>d. if owner d \<noteq> m then tthrow (E_NotFound what) else k d) w =
     (Inl (gate_error what (fetch_row what rid decode i (get w))), w)"
  using assms by (auto simp: store_query tbind_def gate_error_def)

lemma payment_calls_missing:
  assumes "\<not> payment_in_reach X w m s" and "id_from_str X PaymentMarker s = Inr i"
  obtains x where "from_engine x = not_found ''payment''" "payment_get X m i w = (Inl x, w)"
    "refund_list X m i w = (Inl x, w)" "\<And>now. fst (payment_capture X m i now w) = Inl x"
    "\<And>inp now. cr_payment_id inp = i \<Longrightarrow> (\<forall>r. cr_reason inp = Some r \<longrightarrow> length r \<le> max_reason_length) \<Longrightarrow>
       fst (refund_create X m inp now w) = Inl x"
proof -
  let ?x = "gate_error ''payment'' (fetch_row ''payment'' pr_id (payment_into_domain X) i (db_payments w))"
  note x = owner_gate [where get = db_payments and w = w and what = "''payment''",
      OF out_of_reach_find [OF assms(1) [unfolded payment_in_reach_def] assms(2)]]
  have "refund_create_tx X m inp eps now w = (Inl ?x, w)" if "cr_payment_id inp = i" for inp eps now
    using that by (simp only: x refund_create_tx_def payment_find_by_id_for_update_def)
  then have "fst (run_tx X E_Store (refund_create_tx X m inp eps now) w) = Inl ?x" if "cr_payment_id inp = i" for inp eps now
    using that by (intro fst_run_tx_Inl)
  then have "fst (refund_create X m inp now w) = Inl ?x"
    if "cr_payment_id inp = i" "\<forall>r. cr_reason inp = Some r \<longrightarrow> length r \<le> max_reason_length" for inp now
    using that by (cases "cr_reason inp") (simp_all add: refund_create_def after_endpoints)
  moreover have "payment_capture_tx X m i eps now w = (Inl ?x, w)" for eps now
    by (simp only: x payment_capture_tx_def payment_find_by_id_for_update_def)
  then have "fst (payment_capture X m i now w) = Inl ?x" for now
    unfolding payment_capture_def after_endpoints by (rule fst_run_tx_Inl)
  moreover have "payment_get X m i w = (Inl ?x, w)"
    by (simp only: x payment_get_def payment_find_by_id_def)
  moreover have "refund_list X m i w = (Inl ?x, w)"
    by (simp only: x refund_list_def payment_find_by_id_def)
  ultimately show thesis using that [of ?x] by simp
qed

lemma order_calls_missing:
  assumes "\<not> order_in_reach X w m s" and "id_from_str X OrderMarker s = Inr i"
  shows "\<exists>x. from_engine x = not_found ''order'' \<and> order_get X m i w = (Inl x, w)"
proof -
  have "order_get X m i w = (Inl (gate_error ''order'' (fetch_row ''order'' or_id (order_into_domain X) i (db_orders w))), w)"
    using owner_gate [where get = db_orders and w = w and what = "''order''",
      OF out_of_reach_find [OF assms(1) [unfolded order_in_reach_def] assms(2)]]
    by (simp only: order_get_def order_find_by_id_def)
  then show ?thesis by simp
qed

lemma refund_calls_missing:
  assumes "\<not> refund_in_reach X w m s" and "id_from_str X RefundMarker s = Inr i"
  shows "\<exists>x. from_engine x = not_found ''refund'' \<and> refund_get X m i w = (Inl x, w)"
proof -
  have "refund_get X m i w = (Inl (gate_error ''refund'' (fetch_row ''refund'' rr_id refund_into_domain i (db_refunds w))), w)"
    using owner_gate [where get = db_refunds and w = w and what = "''refund''",
      OF out_of_reach_find [OF assms(1) [unfolded refund_in_reach_def] assms(2)]]
    by (simp only: refund_get_def refund_find_by_id_def)
  then show ?thesis by simp
qed

text \<open>
  C20. A merchant cannot tell another merchant's resource from one that does not exist, nor from a text that
  is no identifier: retrieving, capturing or refunding a payment out of reach and listing its refunds,
  retrieving or paying an order out of reach, and retrieving a refund out of reach all give the one 404 of
  the kind of the resource.
\<close>
theorem out_of_reach_is_not_found:
  assumes "\<forall>s. scope_contains (ac_scopes auth) s"
  shows "(\<not> payment_in_reach (he_ext H) (as_db st) (ac_merchant_id auth) s \<longrightarrow>
      fst (payments_retrieve H auth s st) = Inl (not_found ''payment'') \<and>
      fst (payments_capture H auth s st) = Inl (not_found ''payment'') \<and>
      fst (refunds_list H auth s st) = Inl (not_found ''payment'') \<and>
      fst (refunds_create H auth \<lparr>fq_payment_id = s, fq_amount = v, fq_reason = None\<rparr> st) =
        Inl (not_found ''payment'')) \<and>
    (\<not> order_in_reach (he_ext H) (as_db st) (ac_merchant_id auth) s \<longrightarrow>
      fst (orders_retrieve H auth s st) = Inl (not_found ''order'') \<and>
      (yq_order_id y = s \<and> check_cvc (yq_cvc y) = Inr () \<longrightarrow>
        fst (payments_create H auth y st) = Inl (not_found ''order''))) \<and>
    (\<not> refund_in_reach (he_ext H) (as_db st) (ac_merchant_id auth) s \<longrightarrow>
      fst (refunds_retrieve H auth s st) = Inl (not_found ''refund''))"
proof -
  let ?X = "he_ext H" and ?m = "ac_merchant_id auth" and ?w = "as_db st" and ?now = "en_now (he_env H)"
  have scope: "require_scope auth s = Inr ()" for s using assms by simp
  note defs = payments_retrieve_def payments_capture_def refunds_list_def refunds_create_def orders_retrieve_def
    payments_create_def refunds_retrieve_def
  have "\<exists>x. fst (payment_get ?X ?m i ?w) = Inl x \<and> from_engine x = not_found ''payment''"
    "\<exists>x. fst (refund_list ?X ?m i ?w) = Inl x \<and> from_engine x = not_found ''payment''"
    "\<exists>x. fst (payment_capture ?X ?m i ?now ?w) = Inl x \<and> from_engine x = not_found ''payment''"
    "\<exists>x. fst (refund_create ?X ?m \<lparr>cr_payment_id = i, cr_amount_minor = v, cr_reason = None\<rparr> ?now ?w) = Inl x \<and>
       from_engine x = not_found ''payment''"
    if "\<not> payment_in_reach ?X ?w ?m s" "id_from_str ?X PaymentMarker s = Inr i" for i
    by (rule payment_calls_missing [OF that], auto)+
  moreover have "\<exists>x. fst (order_get ?X ?m i ?w) = Inl x \<and> from_engine x = not_found ''order''"
    if "\<not> order_in_reach ?X ?w ?m s" "id_from_str ?X OrderMarker s = Inr i" for i
    using order_calls_missing [OF that] by auto
  moreover have "\<exists>x. fst (refund_get ?X ?m i ?w) = Inl x \<and> from_engine x = not_found ''refund''"
    if "\<not> refund_in_reach ?X ?w ?m s" "id_from_str ?X RefundMarker s = Inr i" for i
    using refund_calls_missing [OF that] by auto
  ultimately show ?thesis
    by (simp add: defs scope engine_missing)
qed

definition demo_other :: auth_ctx where
  "demo_other = \<lparr>ac_merchant_id = 8, ac_key_id = 9, ac_scopes = scope_set_of all_scopes\<rparr>"

theorem out_of_reach_is_not_found_witness:
  "fst (orders_retrieve demo_handler demo_other ''order_1000'' (demo_state demo_w1)) =
     fst (orders_retrieve demo_handler demo_other ''order_77'' (demo_state demo_w1)) \<and>
   fst (orders_retrieve demo_handler demo_other ''order_1000'' (demo_state demo_w1)) =
     fst (orders_retrieve demo_handler demo_other ''?'' (demo_state demo_w1)) \<and>
   is_ok (fst (orders_retrieve demo_handler demo_ctx ''order_1000'' (demo_state demo_w1)))"
proof -
  have s: "\<forall>s. scope_contains (ac_scopes demo_other) s" by (simp add: demo_other_def all_scopes_complete)
  have "list_all (\<lambda>i. \<not> order_in_reach (he_ext demo_handler) (as_db (demo_state demo_w1)) (ac_merchant_id demo_other) i)
     [''order_1000'', ''order_77'', ''?'']"
    by code_simp
  moreover have "is_ok (fst (orders_retrieve demo_handler demo_ctx ''order_1000'' (demo_state demo_w1)))" by code_simp
  ultimately show ?thesis using out_of_reach_is_not_found [OF s] by simp
qed

lemma find_unique:
  "e \<in> set rs \<Longrightarrow> distinct (map f rs) \<Longrightarrow> f e = i \<Longrightarrow> find (\<lambda>r. f r = i) rs = Some e"
  by (induction rs) (auto simp: image_iff)

text \<open>
  The identifiers of webhook endpoints can be probed. Disabling an endpoint of another merchant answers
  404 with one message, disabling one that does not exist answers 404 with another: the row that is missing
  is named by the repository, with an underscore, the row that is foreign by the handler, with a space. The
  comment in the handler says that endpoint ids cannot be probed.
\<close>
theorem endpoint_ids_can_be_probed:
  assumes "scope_contains (ac_scopes auth) WebhooksManage" and "id_from_str (he_ext H) WebhookEndpointMarker s = Inr i"
    and "e \<in> set (db_endpoints (as_db st))" and "distinct (map ep_id (db_endpoints (as_db st)))" and "ep_id e = i"
    and "ep_merchant_id e \<noteq> ac_merchant_id auth"
    and "id_from_str (he_ext H) WebhookEndpointMarker t = Inr j" and "j \<notin> ep_id ` set (db_endpoints (as_db st))"
  shows "endpoints_disable H auth s st = (Inl (not_found ''webhook endpoint''), st) \<and>
    endpoints_disable H auth t st = (Inl (not_found ''webhook_endpoint''), st) \<and>
    not_found ''webhook endpoint'' \<noteq> not_found ''webhook_endpoint''"
proof -
  have "find (\<lambda>r. ep_id r = i) (db_endpoints (as_db st)) = Some e"
    by (rule find_unique [OF assms(3-5)])
  then have "endpoint_find_by_id i (as_db st) = (Inr e, as_db st)"
    by (simp add: endpoint_find_by_id_def query_def fetch_row_def)
  moreover have "endpoint_find_by_id j (as_db st) = (Inl (S_NotFound ''webhook_endpoint''), as_db st)"
    using assms(8) by (simp add: endpoint_find_by_id_def query_def endpoint_rows.fetch_missing)
  moreover note scope = require_scope_ok [THEN iffD2, OF assms(1)]
  ultimately show ?thesis
    using assms(2,6,7)
    by (simp add: endpoints_disable_def scope parse_id_def tbind_def on_store_def from_store_def not_found_def api_error_new_def)
qed

definition demo_endpoint :: endpoint_row where
  "demo_endpoint = \<lparr>ep_id = 5, ep_merchant_id = 7, ep_url = ''http://a'', ep_signing_secret = ''s'',
     ep_enabled_events = [], ep_disabled_at = None, ep_created_at = 0\<rparr>"

theorem endpoint_ids_can_be_probed_witness:
  "fst (endpoints_disable demo_handler demo_other ''we_5'' (demo_state (demo_db\<lparr>db_endpoints := [demo_endpoint]\<rparr>))) \<noteq>
   fst (endpoints_disable demo_handler demo_other ''we_6'' (demo_state (demo_db\<lparr>db_endpoints := [demo_endpoint]\<rparr>)))"
proof -
  let ?st = "demo_state (demo_db\<lparr>db_endpoints := [demo_endpoint]\<rparr>)"
  have p: "id_from_str (he_ext demo_handler) WebhookEndpointMarker ''we_5'' = Inr 5"
    "id_from_str (he_ext demo_handler) WebhookEndpointMarker ''we_6'' = Inr 6"
    by code_simp+
  show ?thesis
    using endpoint_ids_can_be_probed [OF _ p(1) _ _ _ _ p(2), of demo_other demo_endpoint ?st]
    by (simp add: demo_state_def demo_endpoint_def demo_other_def all_scopes_complete)
qed

section \<open>Cards\<close>

lemma on_engine_read:
  assumes "keeps id e"
  shows "on_engine e st = (map_err from_engine (fst (e (as_db st))), st)"
proof -
  have "e (as_db st) = (fst (e (as_db st)), as_db st)"
    using assms by (simp add: keeps_def prod_eq_iff)
  then show ?thesis unfolding on_engine_def by (metis (mono_tags, lifting) api_state.surjective api_state.update_convs(1) case_prod_conv)
qed

lemma decide_unknown: "lookup_card n = None \<Longrightarrow> decide n a = Inl NotATestCard"
  by (simp add: decide_def)

text \<open>What a payment with an unknown card is refused with; the number has no part in it.\<close>

definition refusal :: "handler_env \<Rightarrow> auth_ctx \<Rightarrow> create_payment_request \<Rightarrow> api_state \<Rightarrow> api_error" where
  "refusal H auth req st =
     (case rbind (require_scope auth PaymentsWrite) (\<lambda>_. rbind (check_cvc (yq_cvc req)) (\<lambda>_.
       rbind (parse_id (he_ext H) OrderMarker ''order'' (yq_order_id req)) (\<lambda>i.
       map_err from_engine (fst (order_get (he_ext H) (ac_merchant_id auth) i (as_db st)))))) of
        Inl e \<Rightarrow> e
      | Inr _ \<Rightarrow> not_in_test_set)"

lemma unknown_card_refused:
  assumes "lookup_card (yq_number req) = None"
  shows "payments_create H auth req st = (Inl (refusal H auth req st), st)"
proof (cases "require_scope auth PaymentsWrite")
  case scope: (Inr u)
  show ?thesis
  proof (cases "check_cvc (yq_cvc req)")
    case cvc: (Inr v)
    show ?thesis
    proof (cases "parse_id (he_ext H) OrderMarker ''order'' (yq_order_id req)")
      case i: (Inr i)
      show ?thesis
        using scope cvc i
        by (cases "fst (order_get (he_ext H) (ac_merchant_id auth) i (as_db st))")
          (simp_all add: payments_create_def refusal_def tbind_def rbind_def on_engine_read [OF reads_keep(1)]
            decide_unknown [OF assms] del: require_scope_ok)
    qed (use scope cvc in \<open>simp add: payments_create_def refusal_def tbind_def rbind_def del: require_scope_ok\<close>)
  qed (use scope in \<open>simp add: payments_create_def refusal_def tbind_def rbind_def del: require_scope_ok\<close>)
qed (simp add: payments_create_def refusal_def tbind_def rbind_def)

text \<open>
  A card outside the published test set leaves nothing behind in the handler: whatever else is in the
  request, every such number gets the same error, so the answer says nothing of the number, and the state is
  the one before the request.
\<close>
theorem unknown_card_leaves_no_row:
  "\<exists>e. \<forall>n. lookup_card n = None \<longrightarrow> payments_create H auth (req\<lparr>yq_number := n\<rparr>) st = (Inl e, st)"
  by (rule exI [of _ "refusal H auth req st"])
    (simp add: unknown_card_refused refusal_def)

theorem unknown_card_leaves_no_row_witness:
  "\<exists>e. payments_create demo_handler demo_ctx \<lparr>yq_order_id = ''order_1000'', yq_number = ''4539578763621486'',
       yq_exp_month = 12, yq_exp_year = 2030, yq_cvc = None, yq_notes = []\<rparr> (demo_state demo_w1) =
     (Inl e, demo_state demo_w1)"
proof -
  have "lookup_card ''4539578763621486'' = None" by code_simp
  then show ?thesis
    using unknown_card_leaves_no_row [of demo_handler demo_ctx "\<lparr>yq_order_id = ''order_1000'', yq_number = [],
       yq_exp_month = 12, yq_exp_year = 2030, yq_cvc = None, yq_notes = []\<rparr>" "demo_state demo_w1"] by auto
qed

lemma route_unknown_card:
  assumes "call_of req = Inr Payments_Create" and "ex_payment E req = Inr q" and "lookup_card (yq_number q) = None"
  shows "\<exists>r. route E H env auth req st = (Done r, st)"
  using assms by (simp add: route_def run_call_of_def from_json_def unknown_card_refused)

text \<open>
  C32. Under an idempotency key the number does leave something behind. When a request for a payment with a card
  outside the test set comes with a fresh key, no payment is made, but the row of the key stays, and with it the
  plain SHA-256 of the method, the path and the whole body, card number and security code in it: whoever holds the
  table can try numbers against it. The README says that a non-test card never touches the database and that a CVC is
  never stored.
\<close>
theorem unknown_card_leaves_hash:
  assumes "keyed cfg key req" and "ac_merchant_id ctx = m" and "m \<in> m_id ` set (db_merchants (as_db st))"
    and "key_row m key st = None"
    and "call_of req = Inr Payments_Create" and "ex_payment E req = Inr q" and "lookup_card (yq_number q) = None"
    and "idempotency_enforce X parse links_up cfg env (Some ctx) (route E H env ctx) req st = (Done r, st')"
    and "rp_status r < 500" and "rp_body r \<noteq> ''''"
  shows "db_payments (as_db st') = db_payments (as_db st) \<and> db_attempts (as_db st') = db_attempts (as_db st) \<and>
    (\<exists>row. key_row m key st' = Some row \<and>
       ir_request_hash row = sha256_hex X (aq_method req @ '' '' @ aq_path req @ [CHR 0x00] @ aq_body req))"
proof -
  obtain claimed where st: "\<exists>rows. claimed = st\<lparr>as_db := (as_db st)\<lparr>db_idem := rows\<rparr>\<rparr>" and c:
    "key_row m key claimed = Some (new_idem_row m key (aq_method req @ '' '' @ aq_path req) (request_hash X req)
       (en_now env + cf_idempotency_ttl cfg) (en_now env))"
    "idempotency_enforce X parse links_up cfg env (Some ctx) (route E H env ctx) req st =
       (case route E H env ctx req claimed of
          (Done r, st1) \<Rightarrow> (case record_response parse links_up cfg ctx key r st1 of (r, st2) \<Rightarrow> (Done r, st2))
        | (other, st1) \<Rightarrow> (other, st1))"
    by (rule enforce_first [OF assms(1), where ctx = ctx and st = st and links = links_up and X = X and
        env = env and parse = parse and next_layer = "route E H env ctx"])
      (use assms(2-4) in \<open>simp_all add: links_up_def\<close>)
  obtain r0 where "route E H env ctx req claimed = (Done r0, claimed)"
    using route_unknown_card [OF assms(5-7)] by blast
  then have rec: "record_response parse links_up cfg ctx key r0 claimed = (r, st')"
    using c(2) assms(8) by (simp split: prod.splits)
  then have "st' = snd (over_link None (idem_complete m key (int (rp_status r)) (unwrap_or JNull (parse (rp_body r)))) claimed)"
    using assms(2,9,10) by (auto simp: record_response_def buffer_def links_up_def split: if_splits)
  then show ?thesis
    using complete_row [OF c(1)] st
    by (auto simp: new_idem_row_def request_hash_def fingerprint_def over_link_def idem_complete_def modify_def)
qed

definition demo_real_card :: api_request where
  "demo_real_card = (demo_post ''4539578763621486'')\<lparr>aq_path := ''/payments''\<rparr>"

definition demo_refused :: "reply fate \<times> api_state" where
  "demo_refused = idempotency_enforce demo_ext (\<lambda>_. Some JNull) links_up demo_config demo_env (Some demo_ctx)
     (route demo_extractors demo_handler demo_env demo_ctx) demo_real_card (demo_state demo_w1)"

definition refused_with :: "nat \<Rightarrow> reply fate \<Rightarrow> bool" where
  "refused_with status r = (case r of Done r \<Rightarrow> rp_status r = status \<and> rp_body r \<noteq> '''' | _ \<Rightarrow> False)"

theorem unknown_card_leaves_hash_witness:
  "refused_with 402 (fst demo_refused) \<and> db_payments (as_db (snd demo_refused)) = [] \<and>
   (\<exists>row. key_row 7 ''key-00000001'' (snd demo_refused) = Some row \<and>
      ir_request_hash row = sha256_hex demo_ext (''POST /payments'' @ [CHR 0x00] @ ''4539578763621486''))"
proof -
  have f: "refused_with 402 (fst demo_refused)" by code_simp
  then obtain r where r: "fst demo_refused = Done r" "rp_status r = 402" "rp_body r \<noteq> ''''"
    by (auto simp: refused_with_def split: fate.splits)
  have run: "idempotency_enforce demo_ext (\<lambda>_. Some JNull) links_up demo_config demo_env (Some demo_ctx)
     (route demo_extractors demo_handler demo_env demo_ctx) demo_real_card (demo_state demo_w1) = (Done r, snd demo_refused)"
    using r(1) unfolding demo_refused_def [symmetric] by (simp add: prod_eq_iff)
  have k: "keyed demo_config ''key-00000001'' demo_real_card"
    using demo_keyed [of "''4539578763621486''"] by (simp add: keyed_def demo_real_card_def)
  have m: "ac_merchant_id demo_ctx = 7" by (simp add: demo_ctx_def)
  have w: "7 \<in> m_id ` set (db_merchants (as_db (demo_state demo_w1))) \<and>
      key_row 7 ''key-00000001'' (demo_state demo_w1) = None \<and> db_payments (as_db (demo_state demo_w1)) = []" by code_simp
  have c: "call_of demo_real_card = Inr Payments_Create" by code_simp
  have n: "lookup_card ''4539578763621486'' = None" by code_simp
  show ?thesis
    using unknown_card_leaves_hash [OF k m _ _ c _ _ run] w n r f
    by (simp add: demo_extractors_def demo_real_card_def demo_post_def)
qed

section \<open>Declines\<close>

lemma settle_status: "settle X p ord eps now w = (Inr res, w') \<Longrightarrow> p_status (fst res) = Pay_Captured"
  by (auto simp: settle_def tbind_Inr mark_captured_Inr)

lemma apply_decision_failed:
  assumes "apply_decision X d m p ord eps now w = (Inr p', w')" and "p_status p = Pay_Created" and "p_status p' = Pay_Failed"
  obtains c description where
    "p' = p\<lparr>p_status := Pay_Failed, p_error_code := Some c, p_error_description := Some description\<rparr>"
    "db_payments w' = update_row pr_id (p_id p) (set_payment_status Pay_Failed None 0 (Some c) (Some description)) (db_payments w)"
    "ledger_tables w' = ledger_tables w" "db_orders w' = db_orders w"
    "attempt_decision.dec_outcome d = Out_Decline c description"
proof (cases "attempt_decision.dec_outcome d")
  case (Out_Decline c description)
  then obtain w1 ev j where
    st: "payment_update_status X (p_id p) Pay_Failed None 0 (Some c) (Some description) w = (Inr (), w1)"
    and em: "emit X eps m ''payment.failed'' j now w1 = (Inr ev, w')"
    and p': "p' = p\<lparr>p_status := Pay_Failed, p_error_code := Some c, p_error_description := Some description\<rparr>"
    using assms(1,2)
    by (auto simp: apply_decision_def tbind_Inr mark_failed_def rbind_Inr payment_machine.trans_Inr_iff)
  have "w1 = w\<lparr>db_payments := update_row pr_id (p_id p)
      (set_payment_status Pay_Failed None 0 (Some c) (Some description)) (db_payments w)\<rparr>"
    using st by (simp add: payment_update_status_Inr)
  then show thesis using emit_Inr [OF em] Out_Decline by (intro that [OF p']) (simp_all add: ledger_tables_def)
next
  case Out_Authorize
  then show thesis using assms
    by (auto simp: apply_decision_def tbind_Inr mark_authorized_def rbind_Inr payment_machine.trans_Inr_iff)
next
  case Out_RequireAction
  then show thesis using assms
    by (auto simp: apply_decision_def tbind_Inr mark_requires_action_def rbind_Inr payment_machine.trans_Inr_iff)
qed (use assms settle_status in \<open>fastforce simp: apply_decision_def tbind_Inr split: prod.splits\<close>)+

lemma payment_create_failed:
  assumes "payment_create X pepper m inp d now w = (Inr p', w')" and "p_status p' = Pay_Failed"
  obtains r c description q where
    "db_payments w' = db_payments w @ [r]" "pr_status r = Pay_Failed" "pr_merchant_id r = m" "pr_error_code r = Some c"
    "p_id p' = pr_id r" "p_error_code p' = Some c" "p_error_description p' = Some description"
    "q \<in> set (db_orders w')" "or_id q = pr_order_id r" "or_status q = Order_Attempted"
    "ledger_tables w' = ledger_tables w"
proof -
  obtain eps where "payment_create_tx X pepper m inp d eps now w = (Inr p', w')"
    using assms(1) unfolding payment_create_def after_endpoints run_tx_Inr by blast
  then show thesis
  proof (rule payment_create_tx_steps)
    fix ord :: order and details and p :: payment and w1 w2 w3
    assume p: "p = new_card_attempt (now_v7 X (uuid_calls w)) (o_id ord) m (o_amount ord) details (cp_notes inp) now"
      and s1: "order_update_status X (o_id ord) Order_Attempted (o_amount_paid ord) (w\<lparr>uuid_calls := Suc (uuid_calls w)\<rparr>)
        = (Inr (), w1)"
      and s2: "payment_insert X p w1 = (Inr (), w2)"
      and s3: "attempt_insert X (p_id p) 1 (attempt_outcome_str d) (attempt_decline_code d)
        (wrap32 (int (attempt_decision.dec_latency_ms d))) now w2 = (Inr (), w3)"
      and dec: "apply_decision X d m p (ord\<lparr>o_status := Order_Attempted\<rparr>) eps now w3 = (Inr p', w')"
    obtain o1 where o1: "find (\<lambda>r. or_id r = o_id ord) (db_orders w) = Some o1"
      and w1: "w1 = w\<lparr>uuid_calls := Suc (uuid_calls w), db_orders := update_row or_id (o_id ord)
        (\<lambda>r. r\<lparr>or_status := Order_Attempted, or_amount_paid := o_amount_paid ord\<rparr>) (db_orders w)\<rparr>"
      using s1 unfolding order_update_status_Inr by auto
    note ins = payment_insert_Inr [OF s2] and att = attempt_insert_Inr [OF s3]
    have created: "p_status p = Pay_Created" by (simp add: p)
    obtain c description where p': "p' = p\<lparr>p_status := Pay_Failed, p_error_code := Some c, p_error_description := Some description\<rparr>"
      and pay: "db_payments w' = update_row pr_id (p_id p) (set_payment_status Pay_Failed None 0 (Some c) (Some description)) (db_payments w3)"
      and led: "ledger_tables w' = ledger_tables w3" and ords: "db_orders w' = db_orders w3"
      and "attempt_decision.dec_outcome d = Out_Decline c description"
      by (rule apply_decision_failed [OF dec created assms(2)])
    have new: "p_id p \<notin> pr_id ` set (db_payments w)" using ins w1 by simp
    have old: "update_row pr_id (p_id p) f (db_payments w) = db_payments w" for f
      unfolding update_row_def by (rule map_idI) (use new in \<open>force simp: image_iff\<close>)
    have o2: "o1\<lparr>or_status := Order_Attempted, or_amount_paid := o_amount_paid ord\<rparr> \<in> set (db_orders w')"
      using find_mem [OF o1] o1 ords att ins w1 by (auto simp: update_row_def find_Some_iff)
    show thesis
    proof (rule that [OF _ _ _ _ _ _ _ o2])
      show "db_payments w' = db_payments w @ [set_payment_status Pay_Failed None 0 (Some c) (Some description) (payment_to_row p)]"
        using pay ins att by (simp add: update_row_append old w1) (simp add: payment_to_row_def)
    qed (use p p' led ins att w1 o1 in \<open>auto simp: set_payment_status_def payment_to_row_def ledger_tables_def find_Some_iff\<close>)
  qed
qed

lemma on_engine_Inl:
  "on_engine m st = (Inl e, st') \<longleftrightarrow> (\<exists>x w. m (as_db st) = (Inl x, w) \<and> e = from_engine x \<and> st' = st\<lparr>as_db := w\<rparr>)"
  by (cases "m (as_db st)"; cases "fst (m (as_db st))") (auto simp: on_engine_def)

lemma on_engine_Inr:
  "on_engine m st = (Inr a, st') \<longleftrightarrow> (\<exists>w. m (as_db st) = (Inr a, w) \<and> st' = st\<lparr>as_db := w\<rparr>)"
  by (auto simp: on_engine_def split: prod.splits sum.splits)


definition demo_decline :: "(api_error + nat \<times> json) \<times> api_state" where
  "demo_decline = payments_create demo_handler demo_ctx \<lparr>yq_order_id = ''order_1000'', yq_number = ''4000000000000002'',
     yq_exp_month = 12, yq_exp_year = 2030, yq_cvc = None, yq_notes = []\<rparr> (demo_state demo_w1)"


section \<open>The limit on webhook endpoints\<close>

definition active_endpoints :: "uuid \<Rightarrow> db \<Rightarrow> nat" where
  "active_endpoints m w = length (filter (\<lambda>e. ep_merchant_id e = m \<and> ep_disabled_at e = None) (db_endpoints w))"

definition within_cap :: "db \<Rightarrow> bool" where
  "within_cap w \<longleftrightarrow> (\<forall>m. active_endpoints m w \<le> 16)"

lemma side_tables_cap: "keeps side_tables m \<Longrightarrow> maintains within_cap m"
  by (erule keeps_maintains) (simp add: within_cap_def active_endpoints_def side_tables_def)

lemma reads_cap: "keeps id m \<Longrightarrow> maintains within_cap m"
  by (rule maintains_reads)

lemma active_after_disable: "active_endpoints m (snd (endpoint_set_disabled i (Some t) w)) \<le> active_endpoints m w"
proof -
  have "length (filter P (map (\<lambda>r. if ep_id r = i then r\<lparr>ep_disabled_at := Some t\<rparr> else r) rs)) \<le> length (filter P rs)"
    if "P = (\<lambda>e. ep_merchant_id e = m \<and> ep_disabled_at e = None)" for P and rs :: "endpoint_row list"
    using that by (induction rs) auto
  then show ?thesis
    by (simp add: active_endpoints_def endpoint_set_disabled_def modify_def update_row_def)
qed

lemma disable_cap: "maintains within_cap (endpoint_set_disabled i (Some t))"
  unfolding maintains_def within_cap_def by (meson active_after_disable le_trans)

lemma endpoints_check_Inr:
  assumes "endpoints_check H auth req st = (r, st')"
  shows "st' = st \<and> (\<forall>url. r = Inr url \<longrightarrow> active_endpoints (ac_merchant_id auth) (as_db st) < 16 \<and>
    webhook_url (he_parse_url H) (wq_url req) = Inr url \<and> enabled_events (wq_enabled_events req) = Inr ())"
proof -
  have "keeps id (endpoints_check H auth req)"
    unfolding endpoints_check_def by (intro keeps_intros reads_keep)
  then have "st' = st" using assms by (metis keeps_def id_apply snd_conv)
  moreover have "active_endpoints (ac_merchant_id auth) (as_db st) < 16 \<and>
    webhook_url (he_parse_url H) (wq_url req) = Inr url \<and> enabled_events (wq_enabled_events req) = Inr ()"
    if "r = Inr url" for url
    using assms that
    by (auto simp: endpoints_check_def tbind_Inr on_store_def list_active_for_merchant_def query_def
        active_endpoints_def split: if_splits)
  ultimately show ?thesis by blast
qed

lemma endpoints_store_active:
  assumes "endpoints_store H auth req url st = (r, st')"
  shows "active_endpoints m (as_db st') = active_endpoints m (as_db st) +
    (if is_ok r \<and> m = ac_merchant_id auth then 1 else 0)"
  using assms
  by (auto simp: endpoints_store_def Let_def tbind_def on_store_def fresh_id_def endpoint_insert_def guarded_def
      active_endpoints_def split: sum.splits)

lemma endpoints_create_cap: "maintains (\<lambda>st. within_cap (as_db st)) (endpoints_create H auth req)"
proof (unfold maintains_def, intro allI impI)
  fix st :: api_state assume cap: "within_cap (as_db st)"
  obtain r st1 where c: "endpoints_check H auth req st = (r, st1)" by fastforce
  obtain r2 st2 where s: "endpoints_store H auth req url st1 = (r2, st2)" if "r = Inr url" for url
    by (cases "r"; cases "endpoints_store H auth req (projr r) st1") auto
  show "within_cap (as_db (snd (endpoints_create H auth req st)))"
  proof (cases r)
    case (Inl e)
    then show ?thesis using c cap endpoints_check_Inr [OF c] by (simp add: endpoints_create_def tbind_def)
  next
    case (Inr url)
    have "active_endpoints m (as_db st2) \<le> 16" for m
      using endpoints_store_active [OF s [OF Inr], of m] endpoints_check_Inr [OF c] Inr cap
      by (auto simp: within_cap_def split: if_splits)
    then show ?thesis using c s [OF Inr] Inr by (simp add: endpoints_create_def tbind_def within_cap_def)
  qed
qed

lemmas engine_calls_cap = keeps_order_create [THEN side_tables_cap] keeps_payment_create [THEN side_tables_cap]
  keeps_payment_capture [THEN side_tables_cap] keeps_refund_create [THEN side_tables_cap]

lemma handlers_cap:
  fixes H auth
  defines "P \<equiv> \<lambda>st. within_cap (as_db st)"
  shows "maintains P (orders_create H auth q)"
    "maintains P (orders_retrieve H auth i)" "maintains P (orders_list H auth l)"
    "maintains P (payments_create H auth y)" "maintains P (payments_retrieve H auth i)"
    "maintains P (payments_capture H auth i)" "maintains P (refunds_create H auth f)"
    "maintains P (refunds_retrieve H auth i)" "maintains P (refunds_list H auth i)"
    "maintains P (endpoints_list H auth)" "maintains P (endpoints_disable H auth i)"
    "maintains P (events_list H auth l)"
  unfolding P_def orders_create_def orders_retrieve_def orders_list_def payments_create_def payments_retrieve_def
    payments_capture_def refunds_create_def refunds_retrieve_def refunds_list_def endpoints_list_def
    endpoints_disable_def events_list_def
  by (intro maintains_if maintains_tbind maintains_basic maintains_on [where Q = within_cap] engine_calls_cap
      disable_cap reads_maintain)+

lemma calls_cap: "maintains (\<lambda>st. within_cap (as_db st)) (run_call_of E H auth req c)"
  by (cases c) (simp_all add: run_call_of_def maintains_tbind maintains_basic handlers_cap endpoints_create_cap)

text \<open>
  C27. At most sixteen webhook endpoints of a merchant are active, as long as requests come one after the other: any
  sequence of requests through the whole stack, of any merchants, keys and bodies, whether or not the key tables
  can be reached, from a state in which no merchant has more, ends in one in which none has. The check and the insertion
  are two statements, and for requests that overlap the limit is none (\<open>endpoint_cap_can_be_raced\<close>).
\<close>
theorem endpoint_cap_holds:
  assumes "\<forall>m. active_endpoints m (as_db st) \<le> 16" and "answer_all X parse cfg E arrivals st = (replies, st')"
  shows "active_endpoints m (as_db st') \<le> 16"
proof -
  have "maintains (\<lambda>s. within_cap (as_db s)) (answer X parse cfg E a)" for a
    by (rule answer_maintains [OF _ calls_cap]) (simp add: within_cap_def active_endpoints_def)
  from answer_all_maintains [OF this, where as = arrivals, THEN maintains_case, OF _ assms(2)]
  show ?thesis using assms(1) by (simp add: within_cap_def)
qed

definition demo_endpoints :: "nat \<Rightarrow> endpoint_row list" where
  "demo_endpoints n = map (\<lambda>i. demo_endpoint\<lparr>ep_id := i\<rparr>) [0..<n]"

text \<open>The sixteenth is made, the seventeenth refused.\<close>

definition demo_endpoint_run :: "nat \<Rightarrow> reply list \<times> api_state" where
  "demo_endpoint_run n = answer_all demo_ext (\<lambda>_. Some JNull) demo_config demo_extractors
     [demo_arrival (demo_api_request ''POST'' ''/webhook_endpoints'' '''')]
     (demo_state (demo_issue\<lparr>db_endpoints := demo_endpoints n\<rparr>))"

theorem endpoint_cap_holds_witness:
  "map rp_status (fst (demo_endpoint_run 16)) = [400] \<and> active_endpoints 7 (as_db (snd (demo_endpoint_run 16))) \<le> 16"
proof -
  have "map rp_status (fst (demo_endpoint_run 16)) = [400]" by code_simp
  moreover have "\<forall>m. active_endpoints m (as_db (demo_state (demo_issue\<lparr>db_endpoints := demo_endpoints 16\<rparr>))) \<le> 16"
    by (auto simp: active_endpoints_def demo_state_def demo_endpoints_def intro: order_trans [OF length_filter_le])
  ultimately show ?thesis
    using endpoint_cap_holds [OF _ prod.collapse [symmetric], where X = demo_ext and m = 7]
    unfolding demo_endpoint_run_def by blast
qed

text \<open>
  Creations that race: each has made its checks before any of them inserts.
\<close>

fun race :: "handler_env \<Rightarrow> auth_ctx \<Rightarrow> create_endpoint_request \<Rightarrow> string \<Rightarrow> nat \<Rightarrow> api_state \<Rightarrow> api_state" where
  "race H auth req url 0 st = st"
| "race H auth req url (Suc n) st = snd (endpoints_store H auth req url (race H auth req url n st))"

text \<open>
  When creations race the limit is no limit: however many have passed their checks in one state, every one of them
  that inserts adds an endpoint, so that as many as there are requests in flight can be over sixteen, not one as
  the comment says, and the listing, which is not paginated because it cannot exceed sixteen rows, is as long.
\<close>
theorem endpoint_cap_can_be_raced:
  assumes "endpoints_check H auth req st = (Inr url, st)"
    and "\<forall>k < n. is_ok (fst (endpoints_store H auth req url (race H auth req url k st)))"
  shows "active_endpoints (ac_merchant_id auth) (as_db (race H auth req url n st)) =
    active_endpoints (ac_merchant_id auth) (as_db st) + n"
  using assms(2)
proof (induction n)
  case (Suc n)
  obtain r st' where s: "endpoints_store H auth req url (race H auth req url n st) = (r, st')" by fastforce
  then have "is_ok r" using Suc.prems by (metis fst_conv lessI)
  then show ?case using endpoints_store_active [OF s, of "ac_merchant_id auth"] s Suc by simp
qed simp

definition demo_new_endpoint :: create_endpoint_request where
  "demo_new_endpoint = \<lparr>wq_url = ''http://a'', wq_enabled_events = []\<rparr>"

definition demo_race :: "nat \<Rightarrow> api_state" where
  "demo_race n = race demo_handler demo_ctx demo_new_endpoint ''http://a'' n
     (demo_state (demo_db\<lparr>db_endpoints := demo_endpoints 15\<rparr>))"

theorem endpoint_cap_can_be_raced_witness:
  "active_endpoints 7 (as_db (demo_race 2)) = 17"
proof -
  let ?st = "demo_state (demo_db\<lparr>db_endpoints := demo_endpoints 15\<rparr>)"
  have "fst (endpoints_check demo_handler demo_ctx demo_new_endpoint ?st) = Inr ''http://a''" by code_simp
  then have c: "endpoints_check demo_handler demo_ctx demo_new_endpoint ?st = (Inr ''http://a'', ?st)"
    using endpoints_check_Inr [OF prod.collapse [symmetric]] by (simp add: prod_eq_iff)
  have "list_all (\<lambda>k. is_ok (fst (endpoints_store demo_handler demo_ctx demo_new_endpoint ''http://a'' (demo_race k)))) [0, 1]"
    by code_simp
  then have "\<forall>k < 2. is_ok (fst (endpoints_store demo_handler demo_ctx demo_new_endpoint ''http://a'' (demo_race k)))"
    by (simp add: less_2_cases_iff)
  moreover have "active_endpoints 7 (as_db ?st) = 15" by code_simp
  moreover have "ac_merchant_id demo_ctx = 7" by (simp add: demo_ctx_def)
  ultimately show ?thesis
    using endpoint_cap_can_be_raced [OF c, of 2] by (simp add: demo_race_def)
qed

section \<open>The pages of a collection\<close>

lemma orders_list_is_page:
  assumes "scope_contains (ac_scopes auth) OrdersRead"
  shows "orders_list H auth p st = (map_err id (case list_page (he_ext H) (he_config H)
      (\<lambda>before limit. run_engine_query (order_list (he_ext H) (ac_merchant_id auth) before limit) (as_db st))
      (order_json (he_ext H)) o_created_at p of Inl e \<Rightarrow> Inl e | Inr pg \<Rightarrow> Inr (200, page_into_json pg)), st)"
proof -
  note scope = require_scope_ok [THEN iffD2, OF assms]
  show ?thesis
  proof (cases "resolve_params (he_ext H) (he_config H) p")
    case (Inr pq)
    then show ?thesis
      by (cases "fst (order_list (he_ext H) (ac_merchant_id auth) (pq_before pq) (fetch_limit pq) (as_db st))")
        (simp_all add: orders_list_def scope tbind_def list_page_def rbind_def run_engine_query_def
          on_engine_read [OF reads_keep(2)])
  qed (simp add: orders_list_def scope tbind_def list_page_def rbind_def)
qed

text \<open>
  C31. Following the pages ends and shows every order once. A client that asks for the orders of a merchant, then
  again from \<open>next_before\<close> until it is null, gets after at most one request more than there are orders all of them,
  the newest first, none twice, whatever valid page size it asks for; provided no two were created in the same
  instant, the stored orders can be read and a time is read back as it was printed. Each page is the 200 of the handler.
\<close>
theorem pages_visit_every_order:
  assumes "scope_contains (ac_scopes auth) OrdersRead" and "orders_readable (he_ext H) (ac_merchant_id auth) (as_db st)"
    and "page_size (he_config H) limit = Inr n" and "1 \<le> n" and "n < 200"
    and "merchant_orders (he_ext H) (ac_merchant_id auth) (as_db st) = orders"
    and "distinct (map o_created_at orders)"
    and "\<forall>q \<in> set orders. \<exists>s. rfc3339_format (he_ext H) (o_created_at q) = Some s \<and>
       rfc3339_parse (he_ext H) s = Some (o_created_at q)"
  shows "\<exists>get. (\<forall>b pg. get b = Inr pg \<longrightarrow>
        orders_list H auth \<lparr>lp_limit = limit, lp_before = b\<rparr> st = (Inr (200, page_into_json pg), st)) \<and>
      follow (Suc (length orders)) get None = Some (map (order_json (he_ext H)) (newest_first o_created_at orders)) \<and>
      distinct (newest_first o_created_at orders) \<and> set (newest_first o_created_at orders) = set orders"
proof -
  let ?get = "\<lambda>b. list_page (he_ext H) (he_config H)
      (\<lambda>before limit. run_engine_query (order_list (he_ext H) (ac_merchant_id auth) before limit) (as_db st))
      (order_json (he_ext H)) o_created_at \<lparr>lp_limit = limit, lp_before = b\<rparr>"
  have "follow (Suc (length orders)) ?get None =
      Some (map (order_json (he_ext H)) (newest_first o_created_at orders))"
    using order_pages.follow_all [OF assms(2-5)] assms(6-8) by simp
  moreover have "distinct (newest_first o_created_at orders)"
    using assms(7) by (simp add: newest_first_def distinct_map)
  ultimately show ?thesis
    by (intro exI [of _ ?get]) (simp add: orders_list_is_page [OF assms(1)])
qed

text \<open>Three orders, in pages of one.\<close>

definition demo_at :: "instant \<Rightarrow> db \<Rightarrow> db" where
  "demo_at t w = snd (order_create demo_ext 7 demo_order_input t w)"

definition demo_three :: db where
  "demo_three = demo_at 30 (demo_at 20 (demo_at 10 demo_db))"

theorem pages_visit_every_order_witness:
  "\<exists>get. follow 4 get None = Some (map (order_json demo_ext)
      (newest_first o_created_at (merchant_orders demo_ext 7 demo_three))) \<and>
    length (merchant_orders demo_ext 7 demo_three) = 3 \<and>
    (\<forall>b pg. get b = Inr pg \<longrightarrow>
       orders_list demo_handler demo_ctx \<lparr>lp_limit = Some 1, lp_before = b\<rparr> (demo_state demo_three) =
         (Inr (200, page_into_json pg), demo_state demo_three))"
proof -
  let ?os = "merchant_orders demo_ext 7 demo_three"
  have "orders_readable demo_ext 7 demo_three \<and> map o_created_at ?os = [10, 20, 30] \<and>
      page_size demo_config (Some 1) = Inr 1 \<and>
      map (\<lambda>t. Option.bind (rfc3339_format demo_ext t) (rfc3339_parse demo_ext)) [10, 20, 30] = [Some 10, Some 20, Some 30]"
    by code_simp
  then have f: "orders_readable demo_ext 7 demo_three" "map o_created_at ?os = [10, 20, 30]"
    "page_size demo_config (Some 1) = Inr 1"
    "\<forall>t \<in> {10, 20, 30}. \<exists>s. rfc3339_format demo_ext t = Some s \<and> rfc3339_parse demo_ext s = Some t"
    by (auto simp: bind_eq_Some_conv)
  have l: "length ?os = 3" using arg_cong [OF f(2), of length] by simp
  have d: "distinct (map o_created_at ?os)" unfolding f(2) by simp
  have t: "\<forall>q \<in> set ?os. \<exists>s. rfc3339_format demo_ext (o_created_at q) = Some s \<and>
      rfc3339_parse demo_ext s = Some (o_created_at q)"
  proof
    fix q assume "q \<in> set ?os"
    then have "o_created_at q \<in> set (map o_created_at ?os)" by simp
    then show "\<exists>s. rfc3339_format demo_ext (o_created_at q) = Some s \<and> rfc3339_parse demo_ext s = Some (o_created_at q)"
      unfolding f(2) using f(4) by fastforce
  qed
  have h: "he_ext demo_handler = demo_ext" "he_config demo_handler = demo_config" "ac_merchant_id demo_ctx = 7"
    "as_db (demo_state demo_three) = demo_three" "scope_contains (ac_scopes demo_ctx) OrdersRead"
    by (simp_all add: demo_handler_def demo_ctx_def demo_state_def all_scopes_complete)
  note pages = pages_visit_every_order [where H = demo_handler and auth = demo_ctx and st = "demo_state demo_three",
      unfolded h(1-4), OF h(5) f(1,3) _ _ refl d t]
  have "Suc (length ?os) = 4" using l by simp
  then show ?thesis using pages l by auto
qed

end
