(* ===== verification/Api_Envelope.thy ===== *)
theory Api_Envelope
  imports Api_Answers
begin

text \<open>
  What a route may tell its caller (\<open>crates/api/error.rs\<close>): the errors that follow from the request alone, the
  errors the state may cause, each with a text of the program, and the proof that a route answers with no other.
  \<open>ends P Q m\<close> is followed through the statements of the store, the calls of the engine and the handlers.
\<close>

section \<open>What ends a step\<close>

text \<open>\<open>fails P r\<close>: an error of the result \<open>r\<close> has \<open>P\<close>; \<open>ends P Q m\<close>: an error that ends \<open>m\<close> has \<open>P\<close>, its value \<open>Q\<close>.\<close>

named_theorems fails_intros and ends_intros

definition fails :: "('e \<Rightarrow> bool) \<Rightarrow> 'e + 'a \<Rightarrow> bool" where
  "fails P r \<longleftrightarrow> (\<forall>e. r = Inl e \<longrightarrow> P e)"

lemma failsD: "fails P r \<Longrightarrow> r = Inl e \<Longrightarrow> P e"
  by (simp add: fails_def)

lemma fails_basic [fails_intros]: "fails P (Inr a)" "P e \<Longrightarrow> fails P (Inl e)" "P e \<Longrightarrow> fails P (ok_or v e)"
  by (auto simp: fails_def ok_or_def split: option.splits)

lemma fails_rbind [fails_intros]: "fails P r \<Longrightarrow> (\<And>a. fails P (f a)) \<Longrightarrow> fails P (rbind r f)"
  by (cases r) (auto simp: fails_def)

lemma map_err_Inl: "map_err f r = Inl e \<longleftrightarrow> (\<exists>x. r = Inl x \<and> e = f x)"
  by (cases r) auto

lemma fails_map_err [fails_intros]: "fails (\<lambda>e. P (f e)) r \<Longrightarrow> fails P (map_err f r)"
  by (auto simp: fails_def map_err_Inl)

lemma fails_if [fails_intros]: "fails P a \<Longrightarrow> fails P b \<Longrightarrow> fails P (if c then a else b)"
  by simp

lemma fails_traverse [fails_intros]: "(\<And>x. fails P (f x)) \<Longrightarrow> fails P (traverse f xs)"
  by (induction xs) (auto intro!: fails_intros)

definition ends :: "('e \<Rightarrow> bool) \<Rightarrow> ('a \<Rightarrow> bool) \<Rightarrow> ('s, 'e, 'a) tx \<Rightarrow> bool" where
  "ends P Q m \<longleftrightarrow> (\<forall>s. case fst (m s) of Inl e \<Rightarrow> P e | Inr a \<Rightarrow> Q a)"

lemma ends_Inl: "ends P Q m \<Longrightarrow> m s = (Inl e, s') \<Longrightarrow> P e"
  by (auto simp: ends_def dest: spec [of _ s])

lemma ends_tbind_value: "ends P R m \<Longrightarrow> (\<And>a. R a \<Longrightarrow> ends P Q (k a)) \<Longrightarrow> ends P Q (tbind m k)"
  unfolding ends_def by (auto simp: tbind_def split: prod.split sum.split) (metis fst_conv sum.case)+

lemma ends_tbind: "ends P (\<lambda>_. True) m \<Longrightarrow> (\<And>a. ends P Q (k a)) \<Longrightarrow> ends P Q (tbind m k)"
  by (rule ends_tbind_value [where R = "\<lambda>_. True"])

lemma ends_basic: "Q a \<Longrightarrow> ends P Q (treturn a)" "P e \<Longrightarrow> ends P Q (tthrow e)"
  by (simp_all add: ends_def)

lemma ends_tlift: "fails P r \<Longrightarrow> ends P (\<lambda>_. True) (tlift r)"
  by (cases r) (simp_all add: ends_def fails_def)

lemma ends_tlift_value: "fails P r \<Longrightarrow> (\<And>a. r = Inr a \<Longrightarrow> ends P Q (k a)) \<Longrightarrow> ends P Q (tbind (tlift r) k)"
  by (cases r) (auto simp: ends_def fails_def tbind_def)

lemma ends_if: "(c \<Longrightarrow> ends P Q a) \<Longrightarrow> (\<not> c \<Longrightarrow> ends P Q b) \<Longrightarrow> ends P Q (if c then a else b)"
  by simp

abbreviation fails_as :: "('e \<Rightarrow> bool) \<Rightarrow> ('s, 'e, 'a) tx \<Rightarrow> bool" where
  "fails_as P \<equiv> ends P (\<lambda>_. True)"

lemma fails_as_treturn: "fails_as P (treturn a)"
  by (simp add: ends_basic)

lemmas [ends_intros] = ends_tbind fails_as_treturn ends_basic(2) ends_tlift ends_if

lemma fails_as_iff: "fails_as P m \<longleftrightarrow> (\<forall>s e s'. m s = (Inl e, s') \<longrightarrow> P e)"
  unfolding ends_def by (auto split: sum.split) (metis fst_conv prod.collapse)+

lemma fails_as_query [ends_intros]: "(\<And>w. fails P (f w)) \<Longrightarrow> fails_as P (query f)"
  by (auto simp: fails_as_iff fails_def)

lemma fails_as_guarded [ends_intros]: "(\<And>w. fails P (g w)) \<Longrightarrow> fails_as P (guarded g f)"
  by (auto simp: fails_as_iff fails_def guarded_Inl)

lemma fails_as_changes [ends_intros]: "fails_as P (fresh_id X)" "fails_as P (modify f)" "fails_as P (tattempt m)"
  by (auto simp: fails_as_iff modify_def)

lemma fails_as_tfor [ends_intros]: "(\<And>x. fails_as P (k x)) \<Longrightarrow> fails_as P (tfor xs k)"
  by (induction xs) (auto intro!: ends_intros)

lemma fails_as_split [ends_intros]: "(\<And>a b. fails_as P (k a b)) \<Longrightarrow> fails_as P (case x of (a, b) \<Rightarrow> k a b)"
  by (cases x) simp

lemma fails_as_run_tx [ends_intros]:
  "fails_as P m \<Longrightarrow> (\<And>e. P (conv (from_sqlx e))) \<Longrightarrow> fails_as P (run_tx X conv m)"
  unfolding fails_as_iff run_tx_def by (auto split: prod.splits sum.splits option.splits)

section \<open>What ends a statement of the store\<close>

text \<open>The kinds of a missing row, which are the only texts of a store error that are shown.\<close>

definition resource_names :: "string list" where
  "resource_names = [''order'', ''payment'', ''refund'', ''webhook_endpoint'', ''webhook endpoint'', ''resource'',
     ''platform ledger account'', ''merchant ledger account'']"

definition plain_store :: "store_error \<Rightarrow> bool" where
  "plain_store e \<longleftrightarrow> (\<forall>r. e = S_NotFound r \<longrightarrow> r \<in> set resource_names)"

lemma plain_store_intros [fails_intros]:
  "plain_store (S_Decode what detail)" "plain_store (S_Database err)" "plain_store (from_sqlx err)"
  "plain_store (S_NotFound ''order'')" "plain_store (S_NotFound ''payment'')" "plain_store (S_NotFound ''refund'')"
  "plain_store (S_NotFound ''webhook_endpoint'')" "plain_store (S_NotFound ''platform ledger account'')"
  "plain_store (S_NotFound ''merchant ledger account'')"
  by (auto simp: plain_store_def resource_names_def from_sqlx_def Let_def split: sqlx_error.splits if_splits)

lemma decode_plain [fails_intros]: "fails (\<lambda>e. plain_store (S_Decode (what e) (detail e))) r"
  by (simp add: fails_def plain_store_intros)

lemma guard_row_plain [fails_intros]: "fails plain_store (guard_row X cs us fs)"
  by (auto simp: fails_def guard_row_def plain_store_intros split: option.splits)

lemma fetch_row_plain [fails_intros]:
  "plain_store (S_NotFound what) \<Longrightarrow> (\<And>r. fails plain_store (f r)) \<Longrightarrow> fails plain_store (fetch_row what k f i rows)"
  unfolding fetch_row_def by (intro fails_intros)

lemma update_one_plain [ends_intros]:
  "plain_store (S_NotFound what) \<Longrightarrow> fails_as plain_store (update_one X what k get upd checks i f)"
  unfolding update_one_def
  by (rule fails_as_guarded) (auto intro: fails_intros split: option.split)

lemma rows_plain [fails_intros]:
  "fails plain_store (money_from_columns m c)" "fails plain_store (currency_from_column c)"
  "fails plain_store (limit_rows X n rows)" "fails plain_store (to_bigint X n)"
  unfolding money_from_columns_def currency_from_column_def limit_rows_def to_bigint_def
  by (auto intro!: fails_intros)

lemma decoders_plain [fails_intros]:
  "fails plain_store (order_into_domain X q)" "fails plain_store (payment_into_domain X p)"
  "fails plain_store (refund_into_domain r)" "fails plain_store (account_into_domain a)"
proof -
  have "fails plain_store (card_into_domain p)"
    unfolding card_into_domain_def by (auto intro!: fails_intros split: option.split)
  then show "fails plain_store (payment_into_domain X p)"
    unfolding payment_into_domain_def by (intro fails_intros)
qed (auto simp: order_into_domain_def refund_into_domain_def account_into_domain_def intro!: fails_intros)

lemma statements_plain [ends_intros]:
  "fails_as plain_store (order_insert X q)" "fails_as plain_store (order_find_by_id X i)"
  "fails_as plain_store (order_find_by_id_for_update X i)" "fails_as plain_store (order_update_status X i os n)"
  "fails_as plain_store (order_list_for_merchant X m before limit)"
  "fails_as plain_store (payment_insert X p)" "fails_as plain_store (payment_find_by_id X i)"
  "fails_as plain_store (payment_find_by_id_for_update X i)"
  "fails_as plain_store (payment_update_status X i ps captured refunded c d)"
  "fails_as plain_store (attempt_insert X i number out decline latency now)"
  "fails_as plain_store (refund_insert X f)" "fails_as plain_store (refund_find_by_id i)"
  "fails_as plain_store (refund_sum_for_payment X i)" "fails_as plain_store (refund_list_for_payment i)"
  unfolding order_insert_def order_find_by_id_def order_find_by_id_for_update_def order_update_status_def
    order_list_for_merchant_def payment_insert_def payment_find_by_id_def payment_find_by_id_for_update_def
    payment_update_status_def attempt_insert_def refund_insert_def refund_find_by_id_def refund_sum_for_payment_def
    refund_list_for_payment_def Let_def
  by (intro ends_intros fails_intros)+

lemma outbox_statements_plain [ends_intros]:
  "fails_as plain_store (event_insert X m ty payload v now)" "fails_as plain_store (delivery_insert_pending X ev ep now)"
  "fails_as plain_store (job_enqueue X kind payload run_at n now)"
  "fails_as plain_store (event_list_for_merchant X m before limit)"
  "fails_as plain_store (endpoint_insert X r)" "fails_as plain_store (endpoint_find_by_id i)"
  "fails_as plain_store (list_active_for_merchant m)" "fails_as plain_store (endpoint_set_disabled i t)"
  unfolding event_insert_def delivery_insert_pending_def job_enqueue_def event_list_for_merchant_def endpoint_insert_def
    endpoint_find_by_id_def list_active_for_merchant_def endpoint_set_disabled_def Let_def
  by (intro ends_intros fails_intros)+

lemma insert_entries_plain [ends_intros]: "fails_as plain_store (insert_entries X t now es)"
proof (induction es)
  case Nil
  then show ?case by (simp add: fails_as_iff)
next
  case (Cons e es)
  then show ?case unfolding insert_entries.simps by (intro ends_intros fails_intros)
qed

lemma ledger_statements_plain [ends_intros]:
  "fails_as plain_store (find_platform_account t c)" "fails_as plain_store (find_merchant_account m t c)"
  "fails_as plain_store (ledger_post X txn rt ri d now)"
  unfolding find_platform_account_def find_merchant_account_def ledger_post_def
  by (intro ends_intros fails_intros)+

lemma find_or_create_plain [ends_intros]: "fails_as plain_store (find_or_create_merchant_account X m t c now)"
proof -
  have "fails_as plain_store (insert_account_or_nothing X r)" for r
    by (auto simp: fails_as_iff insert_account_or_nothing_def split: sum.splits if_splits
        intro: failsD [OF guard_row_plain])
  then show ?thesis
    unfolding find_or_create_merchant_account_def
    by (auto intro!: ends_intros fails_intros split: sum.split)
qed

section \<open>What ends a call of the engine\<close>

text \<open>The refusals of the engine, a field with its reason, which says nothing of a state but a status and what is left of a payment.\<close>

inductive refusal :: "string \<Rightarrow> string \<Rightarrow> bool" where
  "refusal ''amount'' (''amount must be at least '' @ show_int min_amount_minor @ '' minor units'')"
| "refusal ''notes'' ''at most 15 notes allowed''"
| "refusal ''receipt'' ''at most 40 characters''"
| "refusal ''order'' ''order is already paid or expired''"
| "refusal ''payment'' (''only a captured payment can be refunded (payment is '' @ [CHR 0x27] @
     payment_status_str status @ [CHR 0x27] @ '')'')"
| "refusal ''payment'' ''payment is already fully refunded''"
| "refusal ''amount'' ''refund amount must be greater than zero''"
| "refusal ''amount'' (''refund amount exceeds the refundable balance of '' @ show_int remaining)"
| "refusal ''reason'' (''reason must be at most '' @ show_nat max_reason_length @ '' characters'')"

text \<open>An unknown currency carries a text; no calculation reports one.\<close>

definition plain_money :: "money_error \<Rightarrow> bool" where
  "plain_money e \<longleftrightarrow> (case e of UnknownCurrency _ \<Rightarrow> False | _ \<Rightarrow> True)"

definition plain_engine :: "engine_error \<Rightarrow> bool" where
  "plain_engine e \<longleftrightarrow> (case e of
     E_Store s \<Rightarrow> plain_store s
   | E_Money m \<Rightarrow> plain_money m
   | E_Validation field reason \<Rightarrow> refusal field reason
   | E_NotFound resource \<Rightarrow> resource \<in> set resource_names
   | _ \<Rightarrow> True)"

lemma plain_engine_intros [fails_intros]:
  "refusal f r \<Longrightarrow> plain_engine (E_Validation f r)" "plain_engine (E_NotFound ''order'')"
  "plain_engine (E_NotFound ''payment'')" "plain_engine (E_NotFound ''refund'')"
  by (simp_all add: plain_engine_def resource_names_def)

lemma domain_errors_plain [fails_intros]:
  "fails (\<lambda>e. plain_engine (E_Ledger e)) l" "fails (\<lambda>e. plain_engine (E_Card e)) c"
  "fails (\<lambda>e. plain_engine (E_OrderTransition e)) ot" "fails (\<lambda>e. plain_engine (E_PaymentTransition e)) pt"
  by (simp_all add: fails_def plain_engine_def)

lemma store_error_plain [fails_intros]: "plain_store e \<Longrightarrow> plain_engine (E_Store e)"
  by (simp add: plain_engine_def)

lemma store_plain [ends_intros]: "fails_as plain_store m \<Longrightarrow> fails_as plain_engine (store m)"
  unfolding fails_as_iff store_def tmap_err_def
  by (auto simp: map_err_Inl split: prod.splits intro: store_error_plain)

lemma amounts_plain [fails_intros]:
  "fails (\<lambda>e. plain_engine (E_Money e)) (new_non_negative m c)"
  "fails (\<lambda>e. plain_engine (E_Money e)) (percent a n d)"
  "fails (\<lambda>e. plain_engine (E_Money e)) (compute_fees sch a)"
proof -
  have o: "plain_engine (E_Money MoneyOverflow)" by (simp add: plain_engine_def plain_money_def)
  show p: "fails (\<lambda>e. plain_engine (E_Money e)) (percent a n d)" for a n d
    unfolding percent_def by (intro fails_intros o)
  show "fails (\<lambda>e. plain_engine (E_Money e)) (compute_fees sch a)"
    unfolding compute_fees_def by (intro fails_intros o p)
  show "fails (\<lambda>e. plain_engine (E_Money e)) (new_non_negative m c)"
    by (auto simp: fails_def new_non_negative_def plain_engine_def plain_money_def split: if_splits)
qed

lemma postings_plain [ends_intros]:
  "fails_as plain_engine (post_capture X m amount fees i now)" "fails_as plain_engine (post_refund X m amount fee i now)"
  unfolding post_capture_def post_fee_def post_refund_def post_fee_return_def Let_def
  by (intro ends_intros fails_intros)+

lemma emit_plain [ends_intros]: "fails_as plain_engine (emit X eps m ty payload now)"
  unfolding emit_def by (intro ends_intros)

lemma settle_plain [ends_intros]: "fails_as plain_engine (settle X p q eps now)"
  unfolding settle_def by (intro ends_intros fails_intros)

lemma order_calls_plain:
  "fails_as plain_engine (order_create X m inp now)" "fails_as plain_engine (order_get X m i)"
  "fails_as plain_engine (order_list X m before limit)"
  unfolding order_create_def order_get_def order_list_def Let_def
  by (intro ends_intros fails_intros refusal.intros)+

lemma apply_decision_plain [ends_intros]: "fails_as plain_engine (apply_decision X d m p q eps now)"
  unfolding apply_decision_def by (cases "attempt_decision.dec_outcome d") (auto intro!: ends_intros fails_intros)

lemma payment_calls_plain:
  "fails_as plain_engine (payment_create X pepper m inp d now)" "fails_as plain_engine (payment_capture X m i now)"
  "fails_as plain_engine (payment_get X m i)"
proof -
  show "fails_as plain_engine (payment_create X pepper m inp d now)"
    unfolding payment_create_def payment_create_tx_def Let_def by (intro ends_intros fails_intros refusal.intros)
  have "fails_as plain_engine (payment_capture_tx X m i eps now)" for eps
    unfolding payment_capture_tx_def by (auto intro!: ends_intros fails_intros split: capturable.split)
  then show "fails_as plain_engine (payment_capture X m i now)"
    unfolding payment_capture_def by (intro ends_intros fails_intros)
  show "fails_as plain_engine (payment_get X m i)"
    unfolding payment_get_def by (intro ends_intros fails_intros)
qed

lemma proportional_plain [fails_intros]: "fails plain_engine (proportional_fee_refund a old new)"
  unfolding proportional_fee_refund_def owed_fee_def Let_def by (intro fails_intros)

lemma refund_calls_plain:
  "fails_as plain_engine (refund_create X m inp now)" "fails_as plain_engine (refund_get X m i)"
  "fails_as plain_engine (refund_list X m i)"
  unfolding refund_create_def refund_create_tx_def refund_get_def refund_list_def Let_def
  by (intro ends_intros fails_intros refusal.intros)+

section \<open>What a route may answer\<close>

text \<open>The errors that follow from the request, whatever is stored.\<close>

inductive of_request :: "extractors \<Rightarrow> handler_env \<Rightarrow> auth_ctx \<Rightarrow> api_request \<Rightarrow> api_error \<Rightarrow> bool"
  for E :: extractors and H :: handler_env and auth :: auth_ctx and req :: api_request where
  no_route: "call_of req = Inl e \<Longrightarrow> of_request E H auth req e"
| scope: "require_scope auth needed = Inl e \<Longrightarrow> of_request E H auth req e"
| order_body: "from_json (ex_order E req) = Inl e \<Longrightarrow> of_request E H auth req e"
| payment_body: "from_json (ex_payment E req) = Inl e \<Longrightarrow> of_request E H auth req e"
| refund_body: "from_json (ex_refund E req) = Inl e \<Longrightarrow> of_request E H auth req e"
| endpoint_body: "from_json (ex_endpoint E req) = Inl e \<Longrightarrow> of_request E H auth req e"
| list_query: "from_query (ex_list E req) = Inl e \<Longrightarrow> of_request E H auth req e"
| refund_query: "from_query (ex_refund_list E req) = Inl e \<Longrightarrow> of_request E H auth req e"
| segment: "from_path (ex_path E i) = Inl e \<Longrightarrow> of_request E H auth req e"
| currency: "ex_order E req = Inr q \<Longrightarrow> parse_currency (oq_currency q) = Inl e \<Longrightarrow> of_request E H auth req e"
| security_code: "ex_payment E req = Inr y \<Longrightarrow> check_cvc (yq_cvc y) = Inl e \<Longrightarrow> of_request E H auth req e"
| page: "ex_list E req = Inr l \<Longrightarrow> resolve_params (he_ext H) (he_config H) l = Inl e \<Longrightarrow> of_request E H auth req e"
| endpoint_url: "ex_endpoint E req = Inr n \<Longrightarrow> webhook_url (he_parse_url H) (wq_url n) = Inl e \<Longrightarrow> of_request E H auth req e"
| endpoint_events: "ex_endpoint E req = Inr n \<Longrightarrow> enabled_events (wq_enabled_events n) = Inl e \<Longrightarrow> of_request E H auth req e"

text \<open>The errors that what is stored, the database or the engine may cause.\<close>

inductive reported :: "ext \<Rightarrow> api_error \<Rightarrow> bool" for X :: ext where
  internal: "reported X internal_error"
| missing: "resource \<in> set resource_names \<Longrightarrow> reported X (not_found resource)"
| taken: "reported X (conflict ''resource_already_exists'' ''That resource already exists.'')"
| refused: "refusal field reason \<Longrightarrow>
    reported X (invalid_request ''parameter_invalid'' (field @ '': '' @ reason) (Some field))"
| card: "reported X (card_error ''card_invalid'' (card_error_text c) None)"
| order_state: "reported X (invalid_request ''invalid_state'' (order_transition_text ot) None)"
| payment_state: "reported X (invalid_request ''invalid_state'' (payment_transition_text pt) None)"
| amount: "plain_money m \<Longrightarrow> reported X (invalid_request ''amount_invalid'' (money_error_text m) (Some ''amount''))"
| not_test_card: "reported X not_in_test_set"
| decline: "reported X (card_error (decline_code_str c) (decline_description c) (Some (id_to_string X PaymentMarker i)))"
| endpoint_limit: "reported X endpoint_limit_reached"

definition told :: "extractors \<Rightarrow> handler_env \<Rightarrow> auth_ctx \<Rightarrow> api_request \<Rightarrow> api_error \<Rightarrow> bool" where
  "told E H auth req e \<longleftrightarrow> of_request E H auth req e \<or> reported (he_ext H) e"

lemma told_intros:
  "reported (he_ext H) e \<Longrightarrow> told E H auth req e" "of_request E H auth req e \<Longrightarrow> told E H auth req e"
  by (simp_all add: told_def)

lemma from_engine_reported: "plain_engine x \<Longrightarrow> reported X (from_engine x)"
  by (cases x) (auto simp: plain_engine_def plain_store_def from_engine_def from_store_def
      intro: reported.intros reported.refused [simplified] split: store_error.split)

lemma on_engine_reported [ends_intros]:
  assumes "fails_as plain_engine m" shows "fails_as (told E H auth req) (on_engine m)"
  unfolding fails_as_iff on_engine_def
  by (auto simp: map_err_Inl split: prod.splits dest: ends_Inl [OF assms] intro!: told_intros(1) from_engine_reported)

lemma on_store_reported [ends_intros]:
  assumes "fails_as plain_store m" shows "fails_as (told E H auth req) (on_store m)"
proof -
  have "reported X (from_store e)" if "plain_store e" for X e
    using from_engine_reported [of "E_Store e"] that by (simp add: plain_engine_def from_engine_def)
  then show ?thesis
    unfolding fails_as_iff on_store_def
    by (auto simp: map_err_Inl split: prod.splits dest: ends_Inl [OF assms] intro!: told_intros(1))
qed

lemma identifiers_told [fails_intros]:
  "what \<in> set resource_names \<Longrightarrow> fails (told E H auth req) (parse_id X k what t)"
  by (auto simp: fails_def parse_id_def map_err_Inl intro: told_intros reported.intros)

lemma scope_told [fails_intros]: "fails (told E H auth req) (require_scope auth s)"
  by (auto simp: fails_def intro: told_intros of_request.intros)

lemma test_set_told [fails_intros]: "fails (told E H auth req) (map_err (\<lambda>_. not_in_test_set) r)"
  by (auto simp: fails_def map_err_Inl intro: told_intros reported.intros)

lemma bodies_told:
  "ex_order E req = Inr q \<Longrightarrow> fails (told E H auth req) (parse_currency (oq_currency q))"
  "ex_payment E req = Inr y \<Longrightarrow> fails (told E H auth req) (check_cvc (yq_cvc y))"
  "ex_list E req = Inr l \<Longrightarrow> fails (told E H auth req) (resolve_params (he_ext H) (he_config H) l)"
  "ex_endpoint E req = Inr n \<Longrightarrow> fails (told E H auth req) (webhook_url (he_parse_url H) (wq_url n))"
  "ex_endpoint E req = Inr n \<Longrightarrow> fails (told E H auth req) (enabled_events (wq_enabled_events n))"
  by (auto simp: fails_def intro: told_intros of_request.intros)

lemma extractors_told:
  "fails (told E H auth req) (from_json (ex_order E req))" "fails (told E H auth req) (from_json (ex_payment E req))"
  "fails (told E H auth req) (from_json (ex_refund E req))" "fails (told E H auth req) (from_json (ex_endpoint E req))"
  "fails (told E H auth req) (from_query (ex_list E req))" "fails (told E H auth req) (from_query (ex_refund_list E req))"
  "fails (told E H auth req) (from_path (ex_path E i))"
  by (auto simp: fails_def intro: told_intros of_request.intros)

section \<open>The shape of every answer\<close>

definition made :: "nat \<times> json \<Rightarrow> bool" where
  "made v \<longleftrightarrow> fst v \<in> {200, 201} \<and> (\<exists>fields. snd v = jobject fields)"

lemma made_intros:
  "made (200, jobject kvs)" "made (201, jobject kvs)" "made (200, page_into_json pg)"
  "made (200, order_json X o')" "made (201, order_json X o')" "made (200, payment_json X p)"
  "made (201, payment_json X p)" "made (200, refund_json X r)" "made (201, refund_json X r)"
  unfolding made_def page_into_json_def order_json_def payment_json_def refund_json_def by auto

lemma handlers_end:
  "ex_order E req = Inr q \<Longrightarrow> ends (told E H auth req) made (orders_create H auth q)"
  "ends (told E H auth req) made (orders_retrieve H auth i)"
  "ex_list E req = Inr l \<Longrightarrow> ends (told E H auth req) made (orders_list H auth l)"
  "ends (told E H auth req) made (payments_retrieve H auth i)"
  "ends (told E H auth req) made (payments_capture H auth i)" "ends (told E H auth req) made (refunds_create H auth f)"
  "ends (told E H auth req) made (refunds_retrieve H auth i)" "ends (told E H auth req) made (refunds_list H auth i)"
  "ex_endpoint E req = Inr n \<Longrightarrow> ends (told E H auth req) made (endpoints_create H auth n)"
  "ends (told E H auth req) made (endpoints_list H auth)"
  "ends (told E H auth req) made (endpoints_disable H auth i)"
  "ex_list E req = Inr l \<Longrightarrow> ends (told E H auth req) made (events_list H auth l)"
  unfolding orders_create_def orders_retrieve_def orders_list_def payments_retrieve_def
    payments_capture_def refunds_create_def refunds_retrieve_def refunds_list_def endpoints_create_def
    endpoints_check_def endpoints_store_def endpoints_list_def endpoints_disable_def events_list_def Let_def tbind_assoc
  by (intro ends_intros fails_intros order_calls_plain payment_calls_plain refund_calls_plain ends_basic made_intros
      bodies_told told_intros(1) reported.intros; simp add: resource_names_def)+

text \<open>A payment that fails carries the code and the text of its card.\<close>

lemma failed_by_card:
  assumes "payment_create X pepper m inp (map_decision d) now w = (Inr p', w')" and "p_status p' = Pay_Failed"
  obtains c where "p_error_code p' = Some (decline_code_str c)" "p_error_description p' = Some (decline_description c)"
proof -
  obtain eps where "payment_create_tx X pepper m inp (map_decision d) eps now w = (Inr p', w')"
    using assms(1) unfolding payment_create_def after_endpoints run_tx_Inr by blast
  then show thesis
  proof (rule payment_create_tx_steps)
    fix ord :: order and details and p :: payment and w3
    assume "p = new_card_attempt (now_v7 X (uuid_calls w)) (o_id ord) m (o_amount ord) details (cp_notes inp) now"
      and dec: "apply_decision X (map_decision d) m p (ord\<lparr>o_status := Order_Attempted\<rparr>) eps now w3 = (Inr p', w')"
    then have "p_status p = Pay_Created" by simp
    from apply_decision_failed [OF dec this assms(2)] obtain c t
      where p': "p' = p\<lparr>p_status := Pay_Failed, p_error_code := Some c, p_error_description := Some t\<rparr>"
        and "attempt_decision.dec_outcome (map_decision d) = Out_Decline c t" by blast
    then have "map_outcome (decision.dec_outcome d) = Out_Decline c t" by (simp add: map_decision_def)
    then obtain k where "c = decline_code_str k" "t = decline_description k"
      by (cases "decision.dec_outcome d") auto
    then show thesis using that p' by simp
  qed
qed

lemma on_engine_value:
  assumes "fails_as plain_engine m" and "\<And>w p w'. m w = (Inr p, w') \<Longrightarrow> R p"
  shows "ends (told E H auth req) R (on_engine m)"
proof -
  have "R p" if "on_engine m st = (Inr p, st')" for st st' p
    using that assms(2) by (auto simp: on_engine_Inr)
  then show ?thesis
    using on_engine_reported [OF assms(1)] unfolding fails_as_iff ends_def
    by (auto split: sum.split) (metis prod.collapse)+
qed

lemma payment_handler_ends:
  assumes "ex_payment E req = Inr y"
  shows "ends (told E H auth req) made (payments_create H auth y)"
proof -
  have last: "ends (told E H auth req) made (tbind (on_engine (payment_create X pepper m inp (map_decision d) now))
    (\<lambda>p. if p_status p = Pay_Failed then tthrow (declined (he_ext H) p) else treturn (201, payment_json (he_ext H) p)))"
    for X pepper m inp d now
  proof (rule ends_tbind_value)
    show "ends (told E H auth req) (\<lambda>p. p_status p = Pay_Failed \<longrightarrow> (\<exists>c. p_error_code p = Some (decline_code_str c) \<and>
        p_error_description p = Some (decline_description c)))
      (on_engine (payment_create X pepper m inp (map_decision d) now))"
      by (rule on_engine_value [OF payment_calls_plain(1)]) (blast elim: failed_by_card)
  qed (auto simp: declined_def unwrap_or_def intro!: ends_if ends_basic made_intros told_intros(1) reported.decline)
  show ?thesis
    unfolding payments_create_def
    by (rule last assms bodies_told(2) ends_tbind ends_tlift on_engine_reported order_calls_plain fails_intros
      | simp add: resource_names_def)+
qed

text \<open>An error of the API: a 4xx, or the internal error with its fixed text.\<close>

definition presentable :: "api_error \<Rightarrow> bool" where
  "presentable e \<longleftrightarrow> (400 \<le> ae_status e \<and> ae_status e < 500) \<or> e = internal_error"

lemma presentable_intros [intro]:
  "presentable (invalid_request c msg param)" "presentable (not_found r)" "presentable (unauthorized msg)"
  "presentable (forbidden msg)" "presentable (unknown_endpoint v p)" "presentable (method_not_allowed v p)"
  "presentable (conflict c msg)" "presentable (payload_too_large b)" "presentable unsupported_media_type"
  "presentable (card_error c msg pid)" "presentable internal_error"
  by (simp_all add: presentable_def invalid_request_def not_found_def unauthorized_def forbidden_def unknown_endpoint_def
      method_not_allowed_def conflict_def payload_too_large_def unsupported_media_type_def card_error_def api_error_new_def)

lemma checks_presentable:
  "require_scope auth s = Inl e \<Longrightarrow> presentable e" "call_of req = Inl e \<Longrightarrow> presentable e"
  "parse_currency c = Inl e \<Longrightarrow> presentable e" "resolve_params X cfg p = Inl e \<Longrightarrow> presentable e"
  "check_cvc v = Inl e \<Longrightarrow> presentable e" "webhook_url f raw = Inl e \<Longrightarrow> presentable e"
  "enabled_events evs = Inl e \<Longrightarrow> presentable e"
proof -
  have "check_events seen evs = Inl e \<Longrightarrow> presentable e" for seen evs
    by (induction seen evs rule: check_events.induct) (auto simp: events_invalid_def split: if_splits)
  then show "enabled_events evs = Inl e \<Longrightarrow> presentable e"
    by (auto simp: enabled_events_def events_invalid_def split: if_splits)
  show "webhook_url f raw = Inl e \<Longrightarrow> presentable e"
    by (drule webhook_url_err) (auto simp: url_invalid_def)
  show "resolve_params X cfg p = Inl e \<Longrightarrow> presentable e"
    by (auto simp: resolve_params_def rbind_def page_size_def page_cursor_def split: option.splits sum.splits if_splits)
  show "parse_currency c = Inl e \<Longrightarrow> presentable e"
    unfolding parse_currency_def map_err_Inl by blast
  show "call_of req = Inl e \<Longrightarrow> presentable e"
    by (auto simp: call_of_def Let_def ok_or_def split: if_splits option.splits)
qed (auto simp: require_scope_def check_cvc_def cvc_def split: if_splits option.splits)

lemma extractors_presentable:
  "from_json r = Inl e \<Longrightarrow> presentable e" "from_query t = Inl e \<Longrightarrow> presentable e" "from_path o' = Inl e \<Longrightarrow> presentable e"
proof -
  have w: "presentable (with_serde_param d (invalid_request c msg param))" for d c msg param
    by (simp add: presentable_def invalid_request_def api_error_new_def)
  have "presentable (from_json_rejection x)" for x
    by (cases x) (auto simp: from_json_rejection_def Let_def w)
  then show "from_json r = Inl e \<Longrightarrow> presentable e"
    by (auto simp: from_json_def map_err_Inl)
  show "from_query t = Inl e \<Longrightarrow> presentable e"
    by (auto simp: from_query_def map_err_Inl from_query_rejection_def Let_def w)
  show "from_path o' = Inl e \<Longrightarrow> presentable e"
    by (auto simp: from_path_def from_path_rejection_def ok_or_def split: option.splits)
qed

lemma told_presentable: "told E H auth req e \<Longrightarrow> presentable e"
proof -
  have "of_request E H auth req e \<Longrightarrow> presentable e"
    by (erule of_request.cases) (auto dest: checks_presentable extractors_presentable)
  moreover have "reported X e \<Longrightarrow> presentable e" for X
    by (erule reported.cases) (auto simp: not_in_test_set_def endpoint_limit_reached_def)
  ultimately show "told E H auth req e \<Longrightarrow> presentable e" by (auto simp: told_def)
qed

lemma extracted:
  "from_json r = Inr a \<longleftrightarrow> r = Inr a" "from_query q = Inr b \<longleftrightarrow> q = Inr b" "from_path i = Inr c \<longleftrightarrow> i = Some c"
  by (auto simp: from_json_def from_query_def from_path_def map_err_def ok_or_def split: sum.splits option.splits)

lemma call_ends: "ends (told E H auth req) made (tbind (tlift (call_of req)) (run_call_of E H auth req))"
proof (intro ends_tbind ends_tlift)
  show "fails (told E H auth req) (call_of req)"
    by (auto simp: fails_def intro: told_intros of_request.intros)
  show "ends (told E H auth req) made (run_call_of E H auth req c)" for c
    by (cases c) (auto simp: run_call_of_def extracted
        intro!: ends_tlift_value extractors_told handlers_end payment_handler_ends)
qed

text \<open>The environment of the request plays no part in what may be told.\<close>

lemma told_env: "told E (H\<lparr>he_env := env\<rparr>) auth req e \<Longrightarrow> told E H auth req e"
  unfolding told_def by (elim disjE of_request.cases) (auto intro: of_request.intros)

text \<open>
  C22. Every answer of a route is a JSON object, and no error shows what went wrong inside. Whatever the request and
  whatever is stored, the route answers with 200 or 201 and an object, or with the error envelope, whose status is a
  4xx, or 500 with the fixed text of the internal error. Its error is either one that follows from the request
  alone, by the router, the scopes, the extractor and the checks of the edge, or one of the short list the state may
  cause, each with a text of the program: the internal error, a missing resource of a fixed kind, the conflict, the
  refusals of the engine, a bad card, a forbidden transition of a status, an amount, a card outside the test set, a
  decline, the limit on endpoints. So no message, constraint or column of the database, no detail of a row that
  cannot be decoded and no text of the ledger reaches a caller.
\<close>
theorem routes_answer_in_the_envelope:
  "(\<exists>status fields. fst (route E H env auth req st) = Done (json_reply (he_ext H) status (JObj fields)) \<and>
      status \<in> {200, 201}) \<or>
    (\<exists>e. fst (route E H env auth req st) = Done (into_response (he_ext H) (en_request_id env) e) \<and>
      ((400 \<le> ae_status e \<and> ae_status e < 500) \<or> e = internal_error) \<and>
      (of_request E H auth req e \<or> reported (he_ext H) e))"
proof -
  let ?H = "H\<lparr>he_env := env\<rparr>"
  let ?m = "tbind (tlift (call_of req)) (run_call_of E ?H auth req)"
  have e: "ends (told E ?H auth req) made ?m" by (rule call_ends)
  show ?thesis
  proof (cases "fst (?m st)")
    case (Inl x)
    then have "told E ?H auth req x" using e [unfolded ends_def, THEN spec, of st] by simp
    then have "presentable x \<and> told E H auth req x" by (blast intro: told_presentable told_env)
    moreover have "fst (route E H env auth req st) = Done (into_response (he_ext H) (en_request_id env) x)"
      using Inl by (auto simp: route_def split: prod.splits sum.splits)
    ultimately show ?thesis unfolding presentable_def told_def by blast
  next
    case (Inr v)
    then have "made v" using e [unfolded ends_def, THEN spec, of st] by simp
    moreover have "fst (route E H env auth req st) = Done (json_reply (he_ext H) (fst v) (snd v))"
      using Inr by (auto simp: route_def split: prod.splits sum.splits)
    ultimately show ?thesis unfolding made_def jobject_def by (metis (no_types, lifting))
  qed
qed

theorem routes_answer_in_the_envelope_witness:
  "\<exists>e. fst (route demo_extractors demo_handler demo_env demo_ctx (demo_api_request ''GET'' ''/orders/?'' '''')
       (demo_state demo_issue)) = Done (into_response demo_ext None e) \<and> ae_status e < 500"
proof -
  let ?r = "fst (route demo_extractors demo_handler demo_env demo_ctx (demo_api_request ''GET'' ''/orders/?'' '''')
       (demo_state demo_issue))"
  have f: "case ?r of Done r \<Rightarrow> rp_status r = 404 | _ \<Rightarrow> False" by code_simp
  have x: "he_ext demo_handler = demo_ext" "en_request_id demo_env = None" by (simp_all add: demo_handler_def demo_env_def)
  have s: "500 \<le> ae_status internal_error"
    by (simp add: internal_error_def api_error_new_def)
  have a: "rp_status (into_response demo_ext None e) = ae_status e" for e
    by (simp add: into_response_def json_reply_def Let_def split: option.split)
  show ?thesis
    using routes_answer_in_the_envelope [of demo_extractors demo_handler demo_env demo_ctx
        "demo_api_request ''GET'' ''/orders/?'' ''''" "demo_state demo_issue"] f s
    by (auto simp: x a demo_extractors_def json_reply_def)
qed

end
