(* ===== verification/Store_Late.thy ===== *)
theory Store_Late
  imports Db "HOL-Library.Sublist"
begin

text \<open>
  \<open>crates/store/src/dispute.rs\<close>, \<open>settlement.rs\<close> and \<open>audit_log.rs\<close>: the repositories of the three tables that no
  other part of the program writes yet. Their tables stand beside the database of the rest, which their foreign keys
  refer to.
\<close>

section \<open>Rows\<close>

datatype dispute_reason =
    Fraudulent | Duplicate | ProductNotReceived | ProductUnacceptable | SubscriptionCancelled | Unrecognized
  | CreditNotProcessed | General

datatype dispute_status = Dispute_Open | Dispute_UnderReview | Dispute_Won | Dispute_Lost

record dispute =
  di_id :: uuid
  di_payment_id :: uuid
  di_merchant_id :: uuid
  di_amount :: money
  di_reason :: dispute_reason
  di_status :: dispute_status
  di_evidence :: json
  di_respond_by :: instant
  di_created_at :: instant
  di_resolved_at :: "instant option"

record dispute_row =
  ds_id :: uuid
  ds_payment_id :: uuid
  ds_merchant_id :: uuid
  ds_amount_minor :: int
  ds_currency :: string
  ds_reason :: dispute_reason
  ds_status :: dispute_status
  ds_evidence :: json
  ds_respond_by :: instant
  ds_created_at :: instant
  ds_resolved_at :: "instant option"

datatype settlement_status = Settlement_Pending | Settlement_Processed

record settlement =
  se_id :: uuid
  se_merchant_id :: uuid
  se_currency :: currency
  se_period_start :: instant
  se_period_end :: instant
  se_gross_minor :: int
  se_fees_minor :: int
  se_tax_minor :: int
  se_refunds_minor :: int
  se_net_minor :: int
  se_status :: settlement_status
  se_created_at :: instant
  se_processed_at :: "instant option"

record settlement_row =
  sr_id :: uuid
  sr_merchant_id :: uuid
  sr_currency :: string
  sr_period_start :: instant
  sr_period_end :: instant
  sr_gross_minor :: int
  sr_fees_minor :: int
  sr_tax_minor :: int
  sr_refunds_minor :: int
  sr_net_minor :: int
  sr_status :: settlement_status
  sr_created_at :: instant
  sr_processed_at :: "instant option"

record audit_entry =
  ae_merchant_id :: "uuid option"
  ae_actor_type :: string
  ae_actor_id :: "string option"
  ae_action :: string
  ae_resource_type :: "string option"
  ae_resource_id :: "string option"
  ae_before_state :: "json option"
  ae_after_state :: "json option"
  ae_ip_address :: "string option"

record audit_row =
  au_id :: uuid
  au_entry :: audit_entry
  au_created_at :: instant

record audit_record =
  rc_action :: string
  rc_actor_type :: string
  rc_actor_id :: "string option"
  rc_resource_type :: "string option"
  rc_resource_id :: "string option"
  rc_ip_address :: "string option"
  rc_created_at :: instant

record late_db =
  ld_db :: db
  ld_disputes :: "dispute_row list"
  ld_settlements :: "settlement_row list"
  ld_audit :: "audit_row list"

type_synonym 'a late_tx = "(late_db, store_error, 'a) tx"

text \<open>A query, and a statement that the constraints let through or not.\<close>

definition late_query :: "(late_db \<Rightarrow> store_error + 'a) \<Rightarrow> 'a late_tx" where
  "late_query f = (\<lambda>w. (f w, w))"

definition late_guarded :: "(late_db \<Rightarrow> store_error + unit) \<Rightarrow> (late_db \<Rightarrow> late_db) \<Rightarrow> unit late_tx" where
  "late_guarded g f = (\<lambda>w. case g w of Inl e \<Rightarrow> (Inl e, w) | Inr _ \<Rightarrow> (Inr (), f w))"

section \<open>Disputes\<close>

definition dispute_into_domain :: "dispute_row \<Rightarrow> store_error + dispute" where
  "dispute_into_domain r =
     rbind (money_from_columns (ds_amount_minor r) (ds_currency r)) (\<lambda>amount.
     Inr \<lparr>di_id = ds_id r, di_payment_id = ds_payment_id r, di_merchant_id = ds_merchant_id r, di_amount = amount,
          di_reason = ds_reason r, di_status = ds_status r, di_evidence = ds_evidence r,
          di_respond_by = ds_respond_by r, di_created_at = ds_created_at r, di_resolved_at = ds_resolved_at r\<rparr>)"

definition dispute_to_row :: "dispute \<Rightarrow> dispute_row" where
  "dispute_to_row d =
     \<lparr>ds_id = di_id d, ds_payment_id = di_payment_id d, ds_merchant_id = di_merchant_id d,
      ds_amount_minor = minor (di_amount d), ds_currency = code (curr (di_amount d)), ds_reason = di_reason d,
      ds_status = di_status d, ds_evidence = di_evidence d, ds_respond_by = di_respond_by d,
      ds_created_at = di_created_at d, ds_resolved_at = di_resolved_at d\<rparr>"

text \<open>The CHECKs of the table.\<close>

definition dispute_checks :: "dispute_row \<Rightarrow> (string \<times> bool) list" where
  "dispute_checks r =
     [(''dispute_amount_positive'', 0 < ds_amount_minor r),
      (''dispute_currency_shape'', currency_shape (ds_currency r)),
      (''dispute_resolved_at_consistency'',
        (ds_status r \<in> {Dispute_Won, Dispute_Lost} \<and> ds_resolved_at r \<noteq> None) \<or>
        (ds_status r \<in> {Dispute_Open, Dispute_UnderReview} \<and> ds_resolved_at r = None))]"

definition dispute_insert :: "ext \<Rightarrow> dispute \<Rightarrow> unit late_tx" where
  "dispute_insert X d =
     (let r = dispute_to_row d in
      late_guarded (\<lambda>w. guard_row X (dispute_checks r)
          [(''disputes_pkey'', \<not> has_row ds_id (ds_id r) (ld_disputes w))]
          [(''disputes_payment_id_fkey'', has_row pr_id (ds_payment_id r) (db_payments (ld_db w))),
           (''disputes_merchant_id_fkey'', has_row m_id (ds_merchant_id r) (db_merchants (ld_db w)))])
        (\<lambda>w. w\<lparr>ld_disputes := ld_disputes w @ [r]\<rparr>))"

definition dispute_find_by_id :: "uuid \<Rightarrow> dispute late_tx" where
  "dispute_find_by_id i = late_query (\<lambda>w. fetch_row ''dispute'' ds_id dispute_into_domain i (ld_disputes w))"

definition dispute_find_by_id_for_update :: "uuid \<Rightarrow> dispute late_tx" where
  "dispute_find_by_id_for_update i =
     late_query (\<lambda>w. fetch_row ''dispute'' ds_id dispute_into_domain i (ld_disputes w))"

text \<open>An UPDATE that matches no row is no error.\<close>

definition set_dispute :: "dispute_status \<Rightarrow> json option \<Rightarrow> instant option \<Rightarrow> dispute_row \<Rightarrow> dispute_row" where
  "set_dispute status evidence resolved_at r =
     r\<lparr>ds_status := status, ds_evidence := unwrap_or (ds_evidence r) evidence, ds_resolved_at := resolved_at\<rparr>"

definition dispute_update_status ::
  "ext \<Rightarrow> uuid \<Rightarrow> dispute_status \<Rightarrow> json option \<Rightarrow> instant option \<Rightarrow> unit late_tx" where
  "dispute_update_status X i status evidence resolved_at =
     late_guarded (\<lambda>w. case find (\<lambda>r. ds_id r = i) (ld_disputes w) of
         None \<Rightarrow> Inr ()
       | Some r \<Rightarrow> guard_row X (dispute_checks (set_dispute status evidence resolved_at r)) [] [])
       (\<lambda>w. w\<lparr>ld_disputes := update_row ds_id i (set_dispute status evidence resolved_at) (ld_disputes w)\<rparr>)"

definition dispute_list_for_merchant :: "ext \<Rightarrow> uuid \<Rightarrow> int \<Rightarrow> dispute list late_tx" where
  "dispute_list_for_merchant X merchant_id limit =
     late_query (\<lambda>w. rbind (limit_rows X limit (newest_first ds_created_at
         (filter (\<lambda>r. ds_merchant_id r = merchant_id) (ld_disputes w)))) (traverse dispute_into_domain))"

section \<open>Settlements\<close>

definition settlement_into_domain :: "settlement_row \<Rightarrow> store_error + settlement" where
  "settlement_into_domain r =
     rbind (currency_from_column (sr_currency r)) (\<lambda>cur.
     Inr \<lparr>se_id = sr_id r, se_merchant_id = sr_merchant_id r, se_currency = cur,
          se_period_start = sr_period_start r, se_period_end = sr_period_end r, se_gross_minor = sr_gross_minor r,
          se_fees_minor = sr_fees_minor r, se_tax_minor = sr_tax_minor r, se_refunds_minor = sr_refunds_minor r,
          se_net_minor = sr_net_minor r, se_status = sr_status r, se_created_at = sr_created_at r,
          se_processed_at = sr_processed_at r\<rparr>)"

definition settlement_to_row :: "settlement \<Rightarrow> settlement_row" where
  "settlement_to_row s =
     \<lparr>sr_id = se_id s, sr_merchant_id = se_merchant_id s, sr_currency = code (se_currency s),
      sr_period_start = se_period_start s, sr_period_end = se_period_end s, sr_gross_minor = se_gross_minor s,
      sr_fees_minor = se_fees_minor s, sr_tax_minor = se_tax_minor s, sr_refunds_minor = se_refunds_minor s,
      sr_net_minor = se_net_minor s, sr_status = se_status s, sr_created_at = se_created_at s,
      sr_processed_at = se_processed_at s\<rparr>"

definition settlement_insert :: "ext \<Rightarrow> settlement \<Rightarrow> unit late_tx" where
  "settlement_insert X s =
     (let r = settlement_to_row s in
      late_guarded (\<lambda>w. guard_row X
          [(''settlement_currency_shape'', currency_shape (sr_currency r)),
           (''settlement_period_valid'', sr_period_start r < sr_period_end r)]
          [(''settlements_pkey'', \<not> has_row sr_id (sr_id r) (ld_settlements w))]
          [(''settlements_merchant_id_fkey'', has_row m_id (sr_merchant_id r) (db_merchants (ld_db w)))])
        (\<lambda>w. w\<lparr>ld_settlements := ld_settlements w @ [r]\<rparr>))"

definition settlement_find_by_id :: "uuid \<Rightarrow> settlement late_tx" where
  "settlement_find_by_id i =
     late_query (\<lambda>w. fetch_row ''settlement'' sr_id settlement_into_domain i (ld_settlements w))"

definition settlement_list_for_merchant :: "ext \<Rightarrow> uuid \<Rightarrow> int \<Rightarrow> settlement list late_tx" where
  "settlement_list_for_merchant X merchant_id limit =
     late_query (\<lambda>w. rbind (limit_rows X limit (newest_first sr_period_end
         (filter (\<lambda>r. sr_merchant_id r = merchant_id) (ld_settlements w)))) (traverse settlement_into_domain))"

definition settlement_mark_processed :: "uuid \<Rightarrow> instant \<Rightarrow> unit late_tx" where
  "settlement_mark_processed i processed_at =
     late_guarded (\<lambda>_. Inr ()) (\<lambda>w. w\<lparr>ld_settlements := update_row sr_id i
       (\<lambda>r. r\<lparr>sr_status := Settlement_Processed, sr_processed_at := Some processed_at\<rparr>) (ld_settlements w)\<rparr>)"

section \<open>The audit log\<close>

definition audit_record_entry :: "ext \<Rightarrow> audit_entry \<Rightarrow> instant \<Rightarrow> unit late_tx" where
  "audit_record_entry X e now = (\<lambda>w.
     let i = now_v7 X (uuid_calls (ld_db w));
         w = w\<lparr>ld_db := (ld_db w)\<lparr>uuid_calls := Suc (uuid_calls (ld_db w))\<rparr>\<rparr>
     in late_guarded (\<lambda>w. guard_row X []
          [(''audit_logs_pkey'', \<not> has_row au_id i (ld_audit w))]
          [(''audit_logs_merchant_id_fkey'',
             (case ae_merchant_id e of None \<Rightarrow> True | Some m \<Rightarrow> has_row m_id m (db_merchants (ld_db w))))])
        (\<lambda>w. w\<lparr>ld_audit := ld_audit w @ [\<lparr>au_id = i, au_entry = e, au_created_at = now\<rparr>]\<rparr>) w)"

definition audit_read :: "audit_row \<Rightarrow> audit_record" where
  "audit_read r = (let e = au_entry r in
     \<lparr>rc_action = ae_action e, rc_actor_type = ae_actor_type e, rc_actor_id = ae_actor_id e,
      rc_resource_type = ae_resource_type e, rc_resource_id = ae_resource_id e, rc_ip_address = ae_ip_address e,
      rc_created_at = au_created_at r\<rparr>)"

definition audit_list_for_merchant :: "ext \<Rightarrow> uuid \<Rightarrow> int \<Rightarrow> audit_record list late_tx" where
  "audit_list_for_merchant X merchant_id limit =
     late_query (\<lambda>w. rbind (limit_rows X limit (newest_first au_created_at
         (filter (\<lambda>r. ae_merchant_id (au_entry r) = Some merchant_id) (ld_audit w))))
       (\<lambda>rows. Inr (map audit_read rows)))"

section \<open>What the tables keep\<close>

interpretation dispute_rows: row_codec "''dispute''" dispute_to_row dispute_into_domain di_id ds_id "\<lambda>_. True"
  by unfold_locales (auto simp: dispute_into_domain_def dispute_to_row_def rbind_Inr)

interpretation settlement_rows:
  row_codec "''settlement''" settlement_to_row settlement_into_domain se_id sr_id "\<lambda>_. True"
  by unfold_locales (auto simp: settlement_into_domain_def settlement_to_row_def rbind_Inr currency_from_column_Inr)

lemma late_guarded_Inr: "late_guarded g f w = (Inr u, w') \<longleftrightarrow> g w = Inr () \<and> w' = f w"
  by (auto simp: late_guarded_def split: sum.splits)

lemma late_guarded_Inl: "late_guarded g f w = (Inl e, w') \<longleftrightarrow> g w = Inl e \<and> w' = w"
  by (auto simp: late_guarded_def split: sum.splits)

lemma late_guarded_cases:
  assumes "late_guarded g f w = (r, w')"
  obtains "w' = w" | "g w = Inr ()" "w' = f w"
  using assms by (auto simp: late_guarded_def split: sum.splits)

text \<open>The part of a dispute that no operation changes.\<close>

definition dispute_terms :: "dispute_row \<Rightarrow> uuid \<times> uuid \<times> uuid \<times> int \<times> string \<times> dispute_reason \<times> instant \<times> instant" where
  "dispute_terms r = (ds_id r, ds_payment_id r, ds_merchant_id r, ds_amount_minor r, ds_currency r, ds_reason r,
     ds_respond_by r, ds_created_at r)"

definition dispute_row_ok :: "dispute_row \<Rightarrow> bool" where
  "dispute_row_ok r \<longleftrightarrow> list_all snd (dispute_checks r) \<and> is_ok (dispute_into_domain r)"

definition settlement_row_ok :: "settlement_row \<Rightarrow> bool" where
  "settlement_row_ok r \<longleftrightarrow> sr_period_start r < sr_period_end r \<and> is_ok (settlement_into_domain r)"

definition late_ok :: "late_db \<Rightarrow> bool" where
  "late_ok w \<longleftrightarrow>
     distinct (map ds_id (ld_disputes w)) \<and> list_all dispute_row_ok (ld_disputes w) \<and>
     distinct (map sr_id (ld_settlements w)) \<and> list_all settlement_row_ok (ld_settlements w)"

text \<open>One call of an operation that writes, whatever it answers, or a step of the rest of the program.\<close>

inductive late_step :: "ext \<Rightarrow> late_db \<Rightarrow> late_db \<Rightarrow> bool" for X where
  Dispute_Insert: "dispute_insert X d w = (r, w') \<Longrightarrow> late_step X w w'"
| Dispute_Update: "dispute_update_status X i s e t w = (r, w') \<Longrightarrow> late_step X w w'"
| Settlement_Insert: "settlement_insert X s' w = (r, w') \<Longrightarrow> late_step X w w'"
| Settlement_Mark: "settlement_mark_processed i t w = (r, w') \<Longrightarrow> late_step X w w'"
| Audit_Record: "audit_record_entry X a t w = (r, w') \<Longrightarrow> late_step X w w'"
| Rest: "late_step X w (w\<lparr>ld_db := b\<rparr>)"

definition late_frame :: "late_db \<Rightarrow> late_db \<Rightarrow> bool" where
  "late_frame w w' \<longleftrightarrow>
     prefix (map dispute_terms (ld_disputes w)) (map dispute_terms (ld_disputes w')) \<and>
     prefix (map sr_id (ld_settlements w)) (map sr_id (ld_settlements w')) \<and> prefix (ld_audit w) (ld_audit w')"

lemma late_frame_refl [simp]: "late_frame w w"
  by (simp add: late_frame_def)

lemma set_dispute_terms [simp]: "dispute_terms (set_dispute s e t r) = dispute_terms r" "ds_id (set_dispute s e t r) = ds_id r"
  by (simp_all add: set_dispute_def dispute_terms_def)

lemma set_dispute_reads [simp]:
  "is_ok (dispute_into_domain (set_dispute s e t r)) = is_ok (dispute_into_domain r)"
  by (auto simp: set_dispute_def dispute_into_domain_def rbind_def split: sum.splits)

lemma update_row_map: "(\<And>r. g (f r) = g r) \<Longrightarrow> map g (update_row k i f rs) = map g rs"
  by (simp add: update_row_def)

lemma list_all_update_row:
  assumes "list_all P rs" and "distinct (map k rs)" and "\<And>r. find (\<lambda>r. k r = i) rs = Some r \<Longrightarrow> P r \<Longrightarrow> P (f r)"
  shows "list_all P (update_row k i f rs)"
  using assms find_key_Some [OF assms(2)] by (auto simp: list_all_iff set_update_row)

lemma dispute_insert_keeps:
  "dispute_insert X d w = (r, w') \<Longrightarrow> late_ok w \<Longrightarrow> late_ok w' \<and> late_frame w w'"
  unfolding dispute_insert_def Let_def
  by (erule late_guarded_cases)
    (auto simp: late_ok_def late_frame_def dispute_row_ok_def has_row_iff dispute_rows.read_written)

lemma settlement_insert_keeps:
  "settlement_insert X s w = (r, w') \<Longrightarrow> late_ok w \<Longrightarrow> late_ok w' \<and> late_frame w w'"
  unfolding settlement_insert_def Let_def
  by (erule late_guarded_cases)
    (auto simp: late_ok_def late_frame_def settlement_row_ok_def has_row_iff settlement_rows.read_written)

lemma audit_record_keeps:
  "audit_record_entry X a t w = (r, w') \<Longrightarrow> late_ok w \<Longrightarrow> late_ok w' \<and> late_frame w w'"
  unfolding audit_record_entry_def Let_def
  by (erule late_guarded_cases) (auto simp: late_ok_def late_frame_def)

lemma settlement_mark_keeps:
  "settlement_mark_processed i t w = (r, w') \<Longrightarrow> late_ok w \<Longrightarrow> late_ok w' \<and> late_frame w w'"
  unfolding settlement_mark_processed_def
  by (erule late_guarded_cases)
    (auto simp: late_ok_def late_frame_def update_row_map settlement_row_ok_def settlement_into_domain_def rbind_def
      intro!: list_all_update_row split: sum.splits)

lemma dispute_update_keeps:
  assumes "dispute_update_status X i s e t w = (r, w')" and ok: "late_ok w"
  shows "late_ok w' \<and> late_frame w w'"
  using assms(1) unfolding dispute_update_status_def
proof (cases rule: late_guarded_cases)
  case 1
  then show ?thesis using ok by simp
next
  case 2
  have "list_all dispute_row_ok (update_row ds_id i (set_dispute s e t) (ld_disputes w))"
    using ok 2(1) by (intro list_all_update_row) (auto simp: late_ok_def dispute_row_ok_def split: option.splits)
  then show ?thesis
    using ok by (simp add: 2(2) late_ok_def late_frame_def update_row_map)
qed

lemma late_step_keeps: "late_step X w w' \<Longrightarrow> late_ok w \<Longrightarrow> late_ok w' \<and> late_frame w w'"
  by (induction rule: late_step.induct)
    (simp_all add: dispute_insert_keeps dispute_update_keeps settlement_insert_keeps settlement_mark_keeps
      audit_record_keeps, simp add: late_ok_def late_frame_def)

lemma late_frame_trans: "late_frame u v \<Longrightarrow> late_frame v w \<Longrightarrow> late_frame u w"
  by (auto simp: late_frame_def intro: prefix_order.trans)

definition late_run :: "ext \<Rightarrow> late_db \<Rightarrow> late_db \<Rightarrow> bool" where
  "late_run X = (late_step X)\<^sup>*\<^sup>*"

lemma late_run_keeps: "late_run X w w' \<Longrightarrow> late_ok w \<Longrightarrow> late_ok w' \<and> late_frame w w'"
  unfolding late_run_def
  by (induction rule: rtranclp_induct) (auto dest: late_step_keeps intro: late_frame_trans)

lemma is_ok_iff: "is_ok r \<longleftrightarrow> (\<exists>a. r = Inr a)"
  by (cases r) auto

lemma dispute_row_ok_read:
  "dispute_row_ok r \<Longrightarrow> dispute_into_domain r = Inr d \<Longrightarrow>
     0 < minor (di_amount d) \<and> (di_resolved_at d \<noteq> None \<longleftrightarrow> di_status d \<in> {Dispute_Won, Dispute_Lost})"
  by (auto simp: dispute_row_ok_def dispute_checks_def dispute_into_domain_def rbind_Inr money_from_columns_Inr)

lemma dispute_found:
  assumes "late_ok w" and "r \<in> set (ld_disputes w)"
  shows "\<exists>d. dispute_find_by_id (ds_id r) w = (Inr d, w) \<and> dispute_into_domain r = Inr d"
proof -
  have "dispute_row_ok r" "distinct (map ds_id (ld_disputes w))" using assms by (auto simp: late_ok_def list_all_iff)
  then show ?thesis
    using assms(2) by (auto simp: dispute_find_by_id_def late_query_def dispute_rows.fetch_Inr dispute_row_ok_def is_ok_iff)
qed

lemma settlement_found:
  assumes "late_ok w" and "r \<in> set (ld_settlements w)"
  shows "\<exists>s. settlement_find_by_id (sr_id r) w = (Inr s, w) \<and> se_period_start s < se_period_end s"
proof -
  have "settlement_row_ok r" "distinct (map sr_id (ld_settlements w))"
    using assms by (auto simp: late_ok_def list_all_iff)
  moreover from this(1) obtain s where "settlement_into_domain r = Inr s" "se_period_start s < se_period_end s"
    by (auto simp: settlement_row_ok_def settlement_into_domain_def rbind_def split: sum.splits)
  ultimately show ?thesis
    using assms(2) by (auto simp: settlement_find_by_id_def late_query_def settlement_rows.fetch_Inr)
qed

lemma traverse_ok: "list_all (\<lambda>x. is_ok (f x)) xs \<Longrightarrow> is_ok (traverse f xs)"
  by (induction xs) (auto simp: is_ok_iff rbind_def split: sum.splits)

lemma dispute_list_ok:
  assumes "late_ok w" and "0 \<le> limit"
  shows "is_ok (fst (dispute_list_for_merchant X m limit w))"
proof -
  have "list_all (\<lambda>r. is_ok (dispute_into_domain r)) (take (nat limit) (newest_first ds_created_at
      (filter (\<lambda>r. ds_merchant_id r = m) (ld_disputes w))))"
    using assms(1) by (auto simp: list_all_iff late_ok_def dispute_row_ok_def newest_first_def dest!: in_set_takeD)
  then show ?thesis
    using assms(2) by (simp add: dispute_list_for_merchant_def late_query_def limit_rows_def traverse_ok)
qed

text \<open>
  The three tables stay consistent whatever is called: after any sequence of the operations that write them, each
  answering or failing as it may, every dispute can be read by its id, has a positive amount, and carries the time of
  its resolution exactly when it is won or lost; the list of a merchant's disputes never fails; every settlement
  can be read and has a period of positive length; the disputes keep their order and, save status, evidence and
  resolution, their contents; and the audit log has only grown at its end.
\<close>
theorem late_tables_stay_consistent:
  assumes "late_ok w" and "late_run X w w'"
  shows "(\<forall>r \<in> set (ld_disputes w'). \<exists>d. dispute_find_by_id (ds_id r) w' = (Inr d, w') \<and> 0 < minor (di_amount d) \<and>
        (di_resolved_at d \<noteq> None \<longleftrightarrow> di_status d \<in> {Dispute_Won, Dispute_Lost})) \<and>
      (0 \<le> limit \<longrightarrow> is_ok (fst (dispute_list_for_merchant X m limit w'))) \<and>
      (\<forall>r \<in> set (ld_settlements w'). \<exists>s. settlement_find_by_id (sr_id r) w' = (Inr s, w') \<and>
        se_period_start s < se_period_end s) \<and>
      prefix (map dispute_terms (ld_disputes w)) (map dispute_terms (ld_disputes w')) \<and>
      prefix (ld_audit w) (ld_audit w')"
proof -
  note kept = late_run_keeps [OF assms(2,1)]
  then have "\<exists>d. dispute_find_by_id (ds_id r) w' = (Inr d, w') \<and> 0 < minor (di_amount d) \<and>
      (di_resolved_at d \<noteq> None \<longleftrightarrow> di_status d \<in> {Dispute_Won, Dispute_Lost})" if "r \<in> set (ld_disputes w')" for r
    using that dispute_found dispute_row_ok_read by (fastforce simp: late_ok_def list_all_iff)
  then show ?thesis
    using kept settlement_found dispute_list_ok by (simp add: late_frame_def)
qed

definition demo_dispute :: dispute where
  "demo_dispute =
     \<lparr>di_id = 5, di_payment_id = 6, di_merchant_id = 7, di_amount = \<lparr>minor = 900, curr = INR\<rparr>, di_reason = Duplicate,
      di_status = Dispute_Open, di_evidence = JNull, di_respond_by = 9, di_created_at = 1, di_resolved_at = None\<rparr>"

definition demo_late :: late_db where
  "demo_late = \<lparr>ld_db = demo_db\<lparr>db_payments := [\<lparr>pr_id = 6, pr_order_id = 2, pr_merchant_id = 7, pr_amount_minor = 900,
      pr_currency = ''INR'', pr_amount_refunded = 0, pr_method = Card_Method, pr_card_last4 = None, pr_card_brand = None,
      pr_card_exp_month = None, pr_card_exp_year = None, pr_card_fingerprint = None, pr_status = Pay_Captured,
      pr_error_code = None, pr_error_description = None, pr_notes = JNull, pr_created_at = 0,
      pr_captured_at = Some 0\<rparr>]\<rparr>, ld_disputes = [], ld_settlements = [], ld_audit = []\<rparr>"

theorem late_tables_stay_consistent_witness:
  "let w = snd (dispute_insert demo_ext demo_dispute demo_late);
       w' = snd (dispute_update_status demo_ext 5 Dispute_Won None (Some 4) w)
   in dispute_find_by_id 5 w' = (Inr (demo_dispute\<lparr>di_status := Dispute_Won, di_resolved_at := Some 4\<rparr>), w') \<and>
      \<not> is_ok (fst (dispute_update_status demo_ext 5 Dispute_Lost None None w)) \<and>
      is_ok (fst (dispute_update_status demo_ext 6 Dispute_Lost None None w)) \<and>
      is_ok (fst (dispute_list_for_merchant demo_ext 7 3 w'))"
proof -
  let ?w = "snd (dispute_insert demo_ext demo_dispute demo_late)"
  let ?w' = "snd (dispute_update_status demo_ext 5 Dispute_Won None (Some 4) ?w)"
  have "late_step demo_ext demo_late ?w" "late_step demo_ext ?w ?w'"
    by (rule late_step.Dispute_Insert [OF prod.collapse [symmetric]],
      rule late_step.Dispute_Update [OF prod.collapse [symmetric]])
  then have run: "late_run demo_ext demo_late ?w'" by (simp add: late_run_def)
  have ok: "late_ok demo_late" by code_simp
  have "fst (dispute_find_by_id 5 ?w') = Inr (demo_dispute\<lparr>di_status := Dispute_Won, di_resolved_at := Some 4\<rparr>)"
    and "\<not> is_ok (fst (dispute_update_status demo_ext 5 Dispute_Lost None None ?w))"
    and "is_ok (fst (dispute_update_status demo_ext 6 Dispute_Lost None None ?w))"
    by code_simp+
  moreover have "snd (dispute_find_by_id 5 ?w') = ?w'" by (simp add: dispute_find_by_id_def late_query_def)
  ultimately show ?thesis
    using late_tables_stay_consistent [OF ok run, of 3 7] by (simp add: Let_def prod_eq_iff)
qed

end
