(* ===== verification/Server.thy ===== *)
theory Server
  imports Api_Auth "HOL-Library.Sublist"
begin

text \<open>
  \<open>crates/sandbox-server/src\<close>: the command line (\<open>main.rs\<close>), the configuration once it has been read from the
  environment (\<open>config.rs\<close>) and the command \<open>seed\<close>, which mints the first keys of the demo merchant
  (\<open>seed.rs\<close>). The process itself, logging and the reading of the environment are not modelled; the bytes of the
  operating system's generator are arguments, and what \<open>seed\<close> prints is its result.
\<close>

section \<open>Command line and configuration\<close>

datatype command = Run_Server | Run_Seed | Exit_Unknown string

definition command_of :: "string list \<Rightarrow> command" where
  "command_of args =
     (if length args \<le> 1 then Run_Server
      else if args ! 1 = ''seed'' then Run_Seed else Exit_Unknown (args ! 1))"

record server_config =
  sc_database_url :: string
  sc_host :: string
  sc_port :: nat
  sc_fingerprint_pepper :: string
  sc_master_key :: string
  sc_simulate_latency :: bool

text \<open>The warnings logged, with the result.\<close>

definition config_validate :: "server_config \<Rightarrow> string list \<times> (unit + unit)" where
  "config_validate c =
     ((if sublist ''change_me'' (sc_fingerprint_pepper c) then [''CRYPTO_CARD_FINGERPRINT_PEPPER''] else []) @
      (if sublist ''change_me'' (sc_master_key c) then [''CRYPTO_MASTER_KEY''] else []), Inr ())"

definition bind_addr :: "server_config \<Rightarrow> string" where
  "bind_addr c = sc_host c @ '':'' @ show_nat (sc_port c)"

section \<open>Seeding\<close>

datatype seed_error = Seed_Merchant merchant_error | Seed_Store store_error

definition demo_email :: string where
  "demo_email = ''demo@sandbox.local''"

definition seed_merchant :: "ext \<Rightarrow> instant \<Rightarrow> (db, seed_error, merchant) tx" where
  "seed_merchant X now =
     tbind (tattempt (merchant_find_by_email X demo_email)) (\<lambda>found.
     case found of
       Inr existing \<Rightarrow> treturn existing
     | Inl _ \<Rightarrow>
         tbind (fresh_id X) (\<lambda>i.
         tbind (tlift (map_err Seed_Merchant (merchant_new i ''Demo Merchant'' demo_email now))) (\<lambda>m.
         tbind (tmap_err Seed_Store (merchant_insert X m)) (\<lambda>_. treturn m))))"

definition seed_key ::
  "ext \<Rightarrow> uuid \<Rightarrow> api_key_kind \<Rightarrow> generated_key \<Rightarrow> instant \<Rightarrow> (db, seed_error, unit) tx" where
  "seed_key X merchant kind k now =
     tbind (fresh_id X) (\<lambda>i.
     tmap_err Seed_Store (key_insert X (api_key_new i merchant kind ''seeded'' (gk_hash k) now)))"

definition seed_run ::
  "ext \<Rightarrow> string \<Rightarrow> string \<Rightarrow> instant \<Rightarrow> (db, seed_error, merchant \<times> generated_key \<times> generated_key) tx" where
  "seed_run X sk_bytes pk_bytes now =
     tbind (seed_merchant X now) (\<lambda>merchant.
       let sk = generate_key X ''sk_test'' sk_bytes;
           pk = generate_key X ''pk_test'' pk_bytes in
       tbind (seed_key X (m_id merchant) Secret sk now) (\<lambda>_.
       tbind (seed_key X (m_id merchant) Publishable pk now) (\<lambda>_.
       treturn (merchant, sk, pk))))"

text \<open>No identifier still to be drawn is one of a merchant or a key.\<close>

definition ids_unused :: "ext \<Rightarrow> db \<Rightarrow> bool" where
  "ids_unused X w \<longleftrightarrow>
     (\<forall>n \<ge> uuid_calls w. now_v7 X n \<notin> m_id ` set (db_merchants w) \<union> kr_id ` set (db_api_keys w))"

lemma demo_merchant_accepted:
  "merchant_new i ''Demo Merchant'' demo_email now =
     Inr \<lparr>m_id = i, m_name = ''Demo Merchant'', m_email = demo_email, m_domains = [], m_created_at = now\<rparr>"
proof -
  have "trim (CHR ''D'' # ''emo Merchan'' @ [CHR ''t'']) = CHR ''D'' # ''emo Merchan'' @ [CHR ''t'']"
    by (rule trim_visible) (simp_all add: ascii_visible_def)
  then show ?thesis by (simp add: merchant_new_def is_plausible_email_def demo_email_def)
qed

lemma demo_email_like [simp]: "email_like demo_email"
  by (simp add: email_like_def demo_email_def)

lemma seed_merchant_found:
  assumes "ids_unused X w" and "uuids_unique X"
  shows "\<exists>m w'. seed_merchant X now w = (Inr m, w') \<and> m \<in> set (db_merchants w') \<and>
     fst (merchant_find_by_email X demo_email w') = Inr m \<and> ids_unused X w' \<and>
     w' = w\<lparr>db_merchants := db_merchants w', uuid_calls := uuid_calls w'\<rparr> \<and>
     prefix (db_merchants w) (db_merchants w') \<and>
     ((\<exists>q \<in> set (db_merchants w). db_lower X (m_email q) = db_lower X demo_email) \<longrightarrow> w' = w)"
proof (cases "find (\<lambda>m. db_lower X (m_email m) = db_lower X demo_email) (db_merchants w)")
  case (Some m)
  then have f: "merchant_find_by_email X demo_email w = (Inr m, w)"
    by (simp add: merchant_find_by_email_def query_def)
  have "m \<in> set (db_merchants w)" using Some by (auto simp: find_Some_iff)
  then show ?thesis
    using assms(1) by (intro exI [of _ m] exI [of _ w]) (simp add: seed_merchant_def tbind_def tattempt_def f)
next
  case None
  let ?i = "now_v7 X (uuid_calls w)"
  let ?m = "\<lparr>m_id = ?i, m_name = ''Demo Merchant'', m_email = demo_email, m_domains = [], m_created_at = now\<rparr>"
  let ?u = "w\<lparr>uuid_calls := Suc (uuid_calls w)\<rparr>"
  let ?w = "w\<lparr>db_merchants := db_merchants w @ [?m], uuid_calls := Suc (uuid_calls w)\<rparr>"
  have f: "fst (merchant_find_by_email X demo_email w) = Inl (S_NotFound ''merchant'')"
    and s: "snd (merchant_find_by_email X demo_email w) = w"
    using None by (simp_all add: merchant_find_by_email_def query_def)
  have new: "\<not> has_row m_id ?i (db_merchants w)" using assms by (simp add: ids_unused_def has_row_iff)
  have other: "\<forall>q \<in> set (db_merchants w). db_lower X (m_email q) \<noteq> db_lower X demo_email"
    using None by (auto simp: find_None_iff)
  then have "\<not> list_ex (\<lambda>q. db_lower X (m_email q) = db_lower X demo_email) (db_merchants w)"
    by (auto simp: list_ex_iff)
  then have ins: "merchant_insert X ?m ?u = (Inr (), ?w)"
    using new by (simp add: merchant_insert_def guarded_Inr)
  have run: "seed_merchant X now w = (Inr ?m, ?w)"
    using f s by (simp add: seed_merchant_def tbind_def tattempt_def split_beta fresh_id_def demo_merchant_accepted
        ins tmap_err_def)
  have found: "fst (merchant_find_by_email X demo_email ?w) = Inr ?m"
    using None by (simp add: merchant_find_by_email_def query_def find_append_None)
  have "now_v7 X n \<noteq> ?i" if "Suc (uuid_calls w) \<le> n" for n
    using that assms(2) by (auto simp: uuids_unique_def inj_eq)
  then have "ids_unused X ?w" using assms(1) by (simp add: ids_unused_def)
  then show ?thesis
    using run found other by (intro exI [of _ ?m] exI [of _ ?w]) auto
qed

lemma seed_key_inserts:
  fixes X :: ext and w :: db and k :: generated_key and m :: uuid and now :: instant and kind :: api_key_kind
  assumes "ids_unused X w" and "uuids_unique X" and "m \<in> m_id ` set (db_merchants w)"
    and "gk_hash k \<notin> kr_secret_hash ` set (db_api_keys w)"
  defines "r \<equiv> api_key_new (now_v7 X (uuid_calls w)) m kind ''seeded'' (gk_hash k) now"
  defines "w' \<equiv> w\<lparr>db_api_keys := db_api_keys w @ [key_to_row r], uuid_calls := Suc (uuid_calls w)\<rparr>"
  shows "seed_key X m kind k now w = (Inr (), w')" and "ids_unused X w'"
    and "find_active_by_hash (gk_hash k) w' = (Inr r, w')"
proof -
  let ?u = "w\<lparr>uuid_calls := Suc (uuid_calls w)\<rparr>"
  have i: "kr_id (key_to_row r) = now_v7 X (uuid_calls w)" "kr_merchant_id (key_to_row r) = m"
      "kr_secret_hash (key_to_row r) = gk_hash k"
    by (simp_all add: r_def key_to_row_def api_key_new_def)
  have "now_v7 X (uuid_calls w) \<notin> kr_id ` set (db_api_keys w)" using assms(1) by (simp add: ids_unused_def)
  moreover have "\<not> list_ex (\<lambda>q. kr_secret_hash q = gk_hash k) (db_api_keys w)"
    using assms(4) by (force simp: list_ex_iff)
  ultimately have ins: "key_insert X r ?u = (Inr (), w')"
    using assms(3) by (auto simp: key_insert_def Let_def guarded_Inr i has_row_iff w'_def)
  then show "seed_key X m kind k now w = (Inr (), w')"
    by (simp add: seed_key_def tbind_def fresh_id_def tmap_err_def flip: r_def)
  have "now_v7 X n \<noteq> now_v7 X (uuid_calls w)" if "Suc (uuid_calls w) \<le> n" for n
    using that assms(2) by (auto simp: uuids_unique_def inj_eq)
  then show "ids_unused X w'" using assms(1) by (simp add: ids_unused_def w'_def i)
  show "find_active_by_hash (gk_hash k) w' = (Inr r, w')"
    using find_issued [OF ins] by (simp add: r_def api_key_new_def)
qed

text \<open>A key that is found stays found when rows are added.\<close>

lemma find_active_append:
  "find_active_by_hash h w = (Inr k, u) \<Longrightarrow>
     find_active_by_hash h (w\<lparr>db_api_keys := db_api_keys w @ rs, db_merchants := ms, uuid_calls := n\<rparr>)
       = (Inr k, w\<lparr>db_api_keys := db_api_keys w @ rs, db_merchants := ms, uuid_calls := n\<rparr>)"
proof -
  have app: "find P rs = Some r \<Longrightarrow> find P (rs @ qs) = Some r" for P :: "api_key_row \<Rightarrow> bool" and rs qs r
    by (induction rs) auto
  assume "find_active_by_hash h w = (Inr k, u)"
  then show ?thesis by (auto simp: find_active_by_hash_def rbind_Inr query_def app)
qed

text \<open>What a request with a key of each kind gets from an empty cache.\<close>

lemma resolve_secret:
  "find_active_by_hash h w = (Inr k, w) \<Longrightarrow> k_kind k = Secret \<Longrightarrow>
     fst (resolve (key_lookup Link_Up h w) h t cache_new) = Inr (ctx_of_key k)"
  by (simp add: resolve_def cache_new_def cache_with_settings_def cache_lookup_def Let_def split_beta)

lemma resolve_publishable:
  "find_active_by_hash h w = (Inr k, w) \<Longrightarrow> k_kind k = Publishable \<Longrightarrow>
     fst (resolve (key_lookup Link_Up h w) h t cache_new) = Inl invalid_key"
  by (simp add: resolve_def cache_new_def cache_with_settings_def cache_lookup_def)

lemma seed_keys_work:
  assumes "ids_unused X w" and "uuids_unique X" and "m \<in> m_id ` set (db_merchants w)"
    and "gk_hash sk \<noteq> gk_hash pk" and "gk_hash sk \<notin> kr_secret_hash ` set (db_api_keys w)"
    and "gk_hash pk \<notin> kr_secret_hash ` set (db_api_keys w)"
  shows "\<exists>w2 w3 i rs. seed_key X m Secret sk now w = (Inr (), w2) \<and> seed_key X m Publishable pk now w2 = (Inr (), w3) \<and>
     w3 = w\<lparr>db_api_keys := db_api_keys w @ rs, uuid_calls := uuid_calls w3\<rparr> \<and>
     fst (resolve (key_lookup Link_Up (gk_hash sk) w3) (gk_hash sk) t cache_new) =
       Inr \<lparr>ac_merchant_id = m, ac_key_id = i, ac_scopes = scope_set_of all_scopes\<rparr> \<and>
     fst (resolve (key_lookup Link_Up (gk_hash pk) w3) (gk_hash pk) t cache_new) = Inl invalid_key"
proof -
  define r1 where "r1 = api_key_new (now_v7 X (uuid_calls w)) m Secret ''seeded'' (gk_hash sk) now"
  define w2 where "w2 = w\<lparr>db_api_keys := db_api_keys w @ [key_to_row r1], uuid_calls := Suc (uuid_calls w)\<rparr>"
  define r2 where "r2 = api_key_new (now_v7 X (uuid_calls w2)) m Publishable ''seeded'' (gk_hash pk) now"
  define w3 where "w3 = w2\<lparr>db_api_keys := db_api_keys w2 @ [key_to_row r2], uuid_calls := Suc (uuid_calls w2)\<rparr>"
  note s1 = seed_key_inserts [OF assms(1,2,3,5), where kind = Secret and now = now, folded r1_def, folded w2_def]
  have h2: "gk_hash pk \<notin> kr_secret_hash ` set (db_api_keys w2)"
    using assms(4,6) by (auto simp: w2_def r1_def key_to_row_def api_key_new_def)
  have m2: "m \<in> m_id ` set (db_merchants w2)" using assms(3) by (simp add: w2_def)
  note s2 = seed_key_inserts [OF s1(2) assms(2) m2 h2, where kind = Publishable and now = now, folded r2_def, folded w3_def]
  have f1: "find_active_by_hash (gk_hash sk) w3 = (Inr r1, w3)"
    using find_active_append [OF s1(3), where rs = "[key_to_row r2]" and ms = "db_merchants w2" and n = "Suc (uuid_calls w2)"]
    by (simp add: w3_def)
  have ctx: "ctx_of_key r1 = \<lparr>ac_merchant_id = m, ac_key_id = k_id r1, ac_scopes = scope_set_of all_scopes\<rparr>"
    by (simp add: ctx_of_key_def r1_def api_key_new_def full_access_def all_scopes_def)
  have "fst (resolve (key_lookup Link_Up (gk_hash sk) w3) (gk_hash sk) t cache_new) =
      Inr \<lparr>ac_merchant_id = m, ac_key_id = k_id r1, ac_scopes = scope_set_of all_scopes\<rparr>"
    using resolve_secret [OF f1] by (simp add: ctx, simp add: r1_def api_key_new_def)
  moreover have "fst (resolve (key_lookup Link_Up (gk_hash pk) w3) (gk_hash pk) t cache_new) = Inl invalid_key"
    using resolve_publishable [OF s2(3)] by (simp add: r2_def api_key_new_def)
  moreover have "w3 = w\<lparr>db_api_keys := db_api_keys w @ [key_to_row r1, key_to_row r2], uuid_calls := uuid_calls w3\<rparr>"
    by (simp add: w3_def w2_def)
  ultimately show ?thesis using s1(1) s2(1) by blast
qed

text \<open>
  C34. The command \<open>seed\<close> mints keys that work and breaks none: on a database where its identifiers and the hashes
  of its two keys are new it succeeds, for the merchant with the demo address, which it creates only when there is
  none; a request with the printed secret key is then resolved to that merchant with every scope, one with the
  printed publishable key is refused; every key that authenticated before still does, as the same key; running
  \<open>seed\<close> again finds the same merchant; and no other table has changed.
\<close>
theorem seed_mints_working_keys:
  assumes "uuids_unique X" and "ids_unused X w"
    and "gk_hash (generate_key X ''sk_test'' sb) \<noteq> gk_hash (generate_key X ''pk_test'' pb)"
    and "gk_hash (generate_key X ''sk_test'' sb) \<notin> kr_secret_hash ` set (db_api_keys w)"
    and "gk_hash (generate_key X ''pk_test'' pb) \<notin> kr_secret_hash ` set (db_api_keys w)"
  shows "\<exists>m w'. seed_run X sb pb now w =
        (Inr (m, generate_key X ''sk_test'' sb, generate_key X ''pk_test'' pb), w') \<and>
      fst (merchant_find_by_email X demo_email w') = Inr m \<and>
      ((\<exists>q \<in> set (db_merchants w). db_lower X (m_email q) = db_lower X demo_email) \<longrightarrow>
        db_merchants w' = db_merchants w) \<and>
      (let h = gk_hash (generate_key X ''sk_test'' sb)
       in \<exists>i. fst (resolve (key_lookup Link_Up h w') h t cache_new) =
           Inr \<lparr>ac_merchant_id = m_id m, ac_key_id = i, ac_scopes = scope_set_of all_scopes\<rparr>) \<and>
      (let h = gk_hash (generate_key X ''pk_test'' pb)
       in fst (resolve (key_lookup Link_Up h w') h t cache_new) = Inl invalid_key) \<and>
      (\<forall>h k. find_active_by_hash h w = (Inr k, w) \<longrightarrow> find_active_by_hash h w' = (Inr k, w')) \<and>
      w' = w\<lparr>db_merchants := db_merchants w', db_api_keys := db_api_keys w', uuid_calls := uuid_calls w'\<rparr>"
proof -
  let ?sk = "generate_key X ''sk_test'' sb" and ?pk = "generate_key X ''pk_test'' pb"
  obtain m w1 where m: "seed_merchant X now w = (Inr m, w1)" "m \<in> set (db_merchants w1)"
      "fst (merchant_find_by_email X demo_email w1) = Inr m" "ids_unused X w1"
      "w1 = w\<lparr>db_merchants := db_merchants w1, uuid_calls := uuid_calls w1\<rparr>"
      "(\<exists>q \<in> set (db_merchants w). db_lower X (m_email q) = db_lower X demo_email) \<longrightarrow> w1 = w"
    using seed_merchant_found [OF assms(2,1)] by blast
  have keys1: "db_api_keys w1 = db_api_keys w" by (subst m(5)) simp
  obtain w2 w3 i rs where k: "seed_key X (m_id m) Secret ?sk now w1 = (Inr (), w2)"
      "seed_key X (m_id m) Publishable ?pk now w2 = (Inr (), w3)"
      "w3 = w1\<lparr>db_api_keys := db_api_keys w @ rs, uuid_calls := uuid_calls w3\<rparr>"
      "fst (resolve (key_lookup Link_Up (gk_hash ?sk) w3) (gk_hash ?sk) t cache_new) =
         Inr \<lparr>ac_merchant_id = m_id m, ac_key_id = i, ac_scopes = scope_set_of all_scopes\<rparr>"
      "fst (resolve (key_lookup Link_Up (gk_hash ?pk) w3) (gk_hash ?pk) t cache_new) = Inl invalid_key"
    using seed_keys_work [OF m(4) assms(1) _ assms(3), where m = "m_id m" and now = now and t = t] m(2) assms(4,5)
    unfolding keys1 by blast
  have frame: "w3 = w\<lparr>db_api_keys := db_api_keys w @ rs, db_merchants := db_merchants w1, uuid_calls := uuid_calls w3\<rparr>"
    by (subst k(3), subst m(5)) simp
  then have old: "find_active_by_hash h w3 = (Inr k, w3)" if "find_active_by_hash h w = (Inr k, w)" for h k
    using find_active_append [OF that] by metis
  have "seed_run X sb pb now w = (Inr (m, ?sk, ?pk), w3)"
    by (simp add: seed_run_def Let_def tbind_ok [where m = "seed_merchant X now", OF m(1)]
        tbind_ok [where m = "seed_key X (m_id m) Secret ?sk now", OF k(1)]
        tbind_ok [where m = "seed_key X (m_id m) Publishable ?pk now", OF k(2)])
  moreover have merchants: "db_merchants w3 = db_merchants w1" by (subst frame) simp
  then have "fst (merchant_find_by_email X demo_email w3) = Inr m"
    using m(3) by (simp add: merchant_find_by_email_def query_def)
  moreover have "w3 = w\<lparr>db_merchants := db_merchants w3, db_api_keys := db_api_keys w3, uuid_calls := uuid_calls w3\<rparr>"
    by (subst frame) (simp add: merchants, subst frame, simp)
  moreover have "(\<exists>q \<in> set (db_merchants w). db_lower X (m_email q) = db_lower X demo_email) \<longrightarrow>
      db_merchants w3 = db_merchants w"
    using m(6) merchants by auto
  ultimately show ?thesis
    using k(4,5) old by (intro exI [of _ m] exI [of _ w3]) (simp add: Let_def)
qed

theorem seed_mints_working_keys_witness:
  "\<exists>m w'. seed_run demo_ext ''other'' demo_bytes 3 demo_issue =
        (Inr (m, generate_key demo_ext ''sk_test'' ''other'', generate_key demo_ext ''pk_test'' demo_bytes), w') \<and>
      fst (merchant_find_by_email demo_ext demo_email w') = Inr m \<and>
      is_ok (fst (find_active_by_hash (gk_hash (generate_key demo_ext ''sk_test'' demo_bytes)) w'))"
proof -
  let ?h = "gk_hash (generate_key demo_ext ''sk_test'' demo_bytes)"
  have u: "uuids_unique demo_ext" by (simp add: uuids_unique_def demo_ext_def inj_def)
  have rows: "map m_id (db_merchants demo_issue) = [7] \<and> map kr_id (db_api_keys demo_issue) = [9]" by code_simp
  then have "m_id ` set (db_merchants demo_issue) \<union> kr_id ` set (db_api_keys demo_issue) = {7, 9}"
    by (metis insert_is_Un list.set(1,2) list.set_map)
  then have f: "ids_unused demo_ext demo_issue" by (simp add: ids_unused_def demo_ext_def)
  have d: "gk_hash (generate_key demo_ext ''sk_test'' ''other'') \<noteq> gk_hash (generate_key demo_ext ''pk_test'' demo_bytes)"
    by code_simp
  have s: "gk_hash (generate_key demo_ext ''sk_test'' ''other'') \<notin> kr_secret_hash ` set (db_api_keys demo_issue)"
    and p: "gk_hash (generate_key demo_ext ''pk_test'' demo_bytes) \<notin> kr_secret_hash ` set (db_api_keys demo_issue)"
    by code_simp+
  have "is_ok (fst (find_active_by_hash ?h demo_issue))" by code_simp
  then obtain k where k: "find_active_by_hash ?h demo_issue = (Inr k, demo_issue)"
    by (auto simp: is_ok_def find_active_by_hash_def query_def split: sum.splits)
  from seed_mints_working_keys [OF u f d s p, of 3 0] show ?thesis
  proof (elim exE conjE)
    fix m w'
    assume run: "seed_run demo_ext ''other'' demo_bytes 3 demo_issue =
        (Inr (m, generate_key demo_ext ''sk_test'' ''other'', generate_key demo_ext ''pk_test'' demo_bytes), w')"
      and found: "fst (merchant_find_by_email demo_ext demo_email w') = Inr m"
      and old: "\<forall>h k. find_active_by_hash h demo_issue = (Inr k, demo_issue) \<longrightarrow> find_active_by_hash h w' = (Inr k, w')"
    have "fst (find_active_by_hash ?h w') = Inr k" using old [rule_format, OF k] by (simp only: fst_conv)
    then have "is_ok (fst (find_active_by_hash ?h w'))" by (simp only: is_ok_simps)
    then show ?thesis using run found by (intro exI conjI)
  qed
qed

end
