(* ===== verification/Engine_Gateway.thy ===== *)
theory Engine_Gateway
  imports Engine_Properties
begin

text \<open>
  What the engine promises, as a machine of its own: orders, payments and balances as maps, and one action per call,
  refused or carried out at once. The engine refines it: a call that succeeds is its action on the tables seen through
  \<open>gateway_of\<close>, a call that fails leaves the view as it was. What holds of the machine then holds of the engine.
\<close>

section \<open>Refinement\<close>

text \<open>
  A step relation with an invariant that a view maps to steps of another, or to none; and runs of the one
  to runs of the other.
\<close>

locale refinement_mapping =
  fixes cstep :: "'c \<Rightarrow> 'c \<Rightarrow> bool" and cinv :: "'c \<Rightarrow> bool" and view :: "'c \<Rightarrow> 'a" and astep :: "'a \<Rightarrow> 'a \<Rightarrow> bool"
  assumes inv_step: "cinv w \<Longrightarrow> cstep w w' \<Longrightarrow> cinv w'"
    and step_matched: "cinv w \<Longrightarrow> cstep w w' \<Longrightarrow> view w' = view w \<or> astep (view w) (view w')"
begin

lemma runs_matched:
  assumes "cstep\<^sup>*\<^sup>* w w'" and "cinv w"
  shows "astep\<^sup>*\<^sup>* (view w) (view w') \<and> cinv w'"
  using assms(1)
proof (induction rule: rtranclp_induct)
  case (step v w')
  then have "view w' = view v \<or> astep (view v) (view w')" "cinv w'"
    using step_matched inv_step by blast+
  then show ?case using step.IH by (metis rtranclp.rtrancl_into_rtrancl)
qed (simp add: assms(2))

text \<open>What every abstract step preserves holds along the runs of the concrete machine.\<close>

lemma transfer_relation:
  assumes "cstep\<^sup>*\<^sup>* w w'" and "cinv w"
    and "\<And>a. R a a" and "\<And>a b c. R a b \<Longrightarrow> astep b c \<Longrightarrow> R a c"
  shows "R (view w) (view w')"
proof -
  have "astep\<^sup>*\<^sup>* (view w) (view w')" using runs_matched [OF assms(1,2)] by blast
  then show ?thesis by (induction rule: rtranclp_induct) (use assms(3,4) in blast)+
qed

end

section \<open>The machine\<close>

record g_order =
  go_merchant :: uuid
  go_minor :: int
  go_currency :: string
  go_status :: order_status

record g_payment =
  gp_order :: uuid
  gp_merchant :: uuid
  gp_minor :: int
  gp_currency :: string
  gp_status :: payment_status
  gp_refunded :: int

record gateway =
  g_orders :: "uuid \<Rightarrow> g_order option"
  g_payments :: "uuid \<Rightarrow> g_payment option"
  g_balance :: "account_key \<Rightarrow> int"

datatype gateway_action =
    Place uuid uuid int string
  | Attempt uuid uuid uuid attempt_outcome
  | Capture uuid uuid
  | Give_Back uuid uuid "int option"

fun after_attempt :: "attempt_outcome \<Rightarrow> payment_status" where
  "after_attempt Out_Capture = Pay_Captured"
| "after_attempt Out_CaptureThenDispute = Pay_Captured"
| "after_attempt Out_Authorize = Pay_Authorized"
| "after_attempt (Out_Decline _ _) = Pay_Failed"
| "after_attempt Out_RequireAction = Pay_RequiresAction"
| "after_attempt Out_RiskHold = Pay_Created"

text \<open>What a payment holds on an account, and a payment stored with the balances that follow.\<close>

definition holds :: "account_key \<Rightarrow> g_payment \<Rightarrow> int" where
  "holds k p =
     (if gp_status p \<in> {Pay_Captured, Pay_Refunded}
      then (case currency_from_str (gp_currency p) of
          Inl _ \<Rightarrow> 0 | Inr c \<Rightarrow> settled k (gp_merchant p) (money_new (gp_minor p) c) (gp_refunded p))
      else 0)"

definition put_payment :: "uuid \<Rightarrow> g_payment \<Rightarrow> gateway \<Rightarrow> gateway" where
  "put_payment j p g = g\<lparr>g_payments := (g_payments g)(j \<mapsto> p),
     g_balance := (\<lambda>k. g_balance g k + holds k p - (case g_payments g j of None \<Rightarrow> 0 | Some p0 \<Rightarrow> holds k p0))\<rparr>"

definition put_order :: "uuid \<Rightarrow> g_order \<Rightarrow> gateway \<Rightarrow> gateway" where
  "put_order i q g = g\<lparr>g_orders := (g_orders g)(i \<mapsto> q)\<rparr>"

fun gateway_do :: "gateway_action \<Rightarrow> gateway \<Rightarrow> gateway option" where
  "gateway_do (Place i m a c) g =
     (if g_orders g i = None \<and> 100 \<le> a
      then Some (put_order i \<lparr>go_merchant = m, go_minor = a, go_currency = c, go_status = Order_Created\<rparr> g) else None)"
| "gateway_do (Attempt j i m out) g =
     (case g_orders g i of
        None \<Rightarrow> None
      | Some q \<Rightarrow>
          if go_merchant q = m \<and> go_status q \<in> {Order_Created, Order_Attempted} \<and> g_payments g j = None
          then Some (put_payment j \<lparr>gp_order = i, gp_merchant = m, gp_minor = go_minor q, gp_currency = go_currency q,
                 gp_status = after_attempt out, gp_refunded = 0\<rparr>
               (put_order i (q\<lparr>go_status := if after_attempt out = Pay_Captured then Order_Paid else Order_Attempted\<rparr>) g))
          else None)"
| "gateway_do (Capture m j) g =
     (case g_payments g j of
        None \<Rightarrow> None
      | Some p \<Rightarrow> (case g_orders g (gp_order p) of
          None \<Rightarrow> None
        | Some q \<Rightarrow>
            if gp_merchant p = m \<and> gp_status p = Pay_Authorized \<and> go_status q = Order_Attempted
            then Some (put_payment j (p\<lparr>gp_status := Pay_Captured\<rparr>) (put_order (gp_order p) (q\<lparr>go_status := Order_Paid\<rparr>) g))
            else None))"
| "gateway_do (Give_Back m j v) g =
     (case g_payments g j of
        None \<Rightarrow> None
      | Some p \<Rightarrow>
          let left = gp_minor p - gp_refunded p; v = unwrap_or left v in
          if gp_merchant p = m \<and> gp_status p = Pay_Captured \<and> 0 < v \<and> v \<le> left
          then Some (put_payment j (p\<lparr>gp_status := if v = left then Pay_Refunded else Pay_Captured,
                 gp_refunded := gp_refunded p + v\<rparr>) g)
          else None)"

definition gateway_step :: "gateway \<Rightarrow> gateway \<Rightarrow> bool" where
  "gateway_step g g' \<longleftrightarrow> (\<exists>a. gateway_do a g = Some g')"

section \<open>The view of the tables\<close>

definition order_view :: "order_row \<Rightarrow> g_order" where
  "order_view q = \<lparr>go_merchant = or_merchant_id q, go_minor = or_amount_minor q, go_currency = or_currency q,
     go_status = or_status q\<rparr>"

definition payment_view :: "payment_row \<Rightarrow> g_payment" where
  "payment_view r = \<lparr>gp_order = pr_order_id r, gp_merchant = pr_merchant_id r, gp_minor = pr_amount_minor r,
     gp_currency = pr_currency r, gp_status = pr_status r, gp_refunded = pr_amount_refunded r\<rparr>"

text \<open>The balance of an account by its key; an account that does not exist has none.\<close>

definition balance_of :: "db \<Rightarrow> account_key \<Rightarrow> int" where
  "balance_of w k = (\<Sum>a \<leftarrow> db_accounts w. if acct_key a = k then account_sum (ar_id a) (db_entries w) else 0)"

definition table_view :: "('r \<Rightarrow> 'v) \<Rightarrow> ('r \<Rightarrow> uuid) \<Rightarrow> 'r list \<Rightarrow> uuid \<Rightarrow> 'v option" where
  "table_view v k rs = (\<lambda>i. map_option v (find (\<lambda>r. k r = i) rs))"

definition gateway_of :: "db \<Rightarrow> gateway" where
  "gateway_of w =
     \<lparr>g_orders = table_view order_view or_id (db_orders w),
      g_payments = table_view payment_view pr_id (db_payments w),
      g_balance = balance_of w\<rparr>"

lemma gateway_of_cong: "money_tables w' = money_tables w \<Longrightarrow> gateway_of w' = gateway_of w"
  by (simp add: gateway_of_def money_tables_def ledger_tables_def balance_of_def [abs_def] cong: if_cong)

lemma holds_view [simp]: "holds k (payment_view r) = contribution k r"
  by (simp add: holds_def payment_view_def contribution_def captured_row_def split: sum.split)

lemma balance_explained:
  assumes "engine_inv w"
  shows "balance_of w k = (\<Sum>r \<leftarrow> db_payments w. contribution k r)"
proof (cases "k \<in> acct_key ` set (db_accounts w)")
  case True
  then obtain a where a: "a \<in> set (db_accounts w)" "acct_key a = k" by blast
  have d: "distinct (map acct_key (db_accounts w))" using assms by (simp add: engine_inv_def books_ok_def)
  have "(\<Sum>b \<leftarrow> as. if acct_key b = k then f b else 0) = (f a :: int)"
    if "distinct (map acct_key as)" "a \<in> set as" for as and f :: "account_row \<Rightarrow> int"
    using that
  proof (induction as)
    case (Cons b as)
    show ?case
    proof (cases "b = a")
      case True
      then have "acct_key x \<noteq> k" if "x \<in> set as" for x using Cons.prems(1) a(2) that by (auto simp: rev_image_eqI)
      then have "(\<Sum>b \<leftarrow> as. if acct_key b = k then f b else 0) = 0" by (intro sum_zero_nonneg) simp
      then show ?thesis using True a(2) by simp
    next
      case False
      then have "a \<in> set as" using Cons.prems(2) by simp
      moreover from this have "acct_key b \<noteq> k" using Cons.prems(1) a(2) by auto
      ultimately show ?thesis using Cons by simp
    qed
  qed simp
  then have "balance_of w k = account_sum (ar_id a) (db_entries w)" using d a(1) by (simp add: balance_of_def)
  then show ?thesis using assms a by (simp add: engine_inv_def book_equation_def)
next
  case False
  then have "balance_of w k = 0" unfolding balance_of_def by (intro sum_zero_nonneg) auto
  then show ?thesis using accounts_existD [OF _ False] assms by (simp add: engine_inv_def)
qed

text \<open>How the view follows a row that is added or changed.\<close>

lemma table_view_append:
  "k r \<notin> k ` set rs \<Longrightarrow> table_view v k (rs @ [r]) = (table_view v k rs)(k r \<mapsto> v r)"
  using find_key_None [of k "k r" rs]
  by (auto simp: table_view_def find_key_append fun_eq_iff split: option.splits)

lemma table_view_update:
  assumes "distinct (map k rs)" and "r \<in> set rs" and "\<And>x. k (f x) = k x"
  shows "table_view v k (update_row k (k r) f rs) = (table_view v k rs)(k r \<mapsto> v (f r))"
proof
  have "find (\<lambda>x. k x = k r) rs = Some r" using find_key_Some [OF assms(1)] assms(2) by blast
  then show "table_view v k (update_row k (k r) f rs) i = ((table_view v k rs)(k r \<mapsto> v (f r))) i" for i
    by (auto simp: table_view_def find_update_row assms(3) option.map_comp comp_def dest!: find_mem
        intro!: map_option_cong)
qed

lemma table_view_row:
  assumes "distinct (map k rs)" and "r \<in> set rs"
  shows "table_view v k rs (k r) = Some (v r)"
proof -
  have "find (\<lambda>x. k x = k r) rs = Some r" using find_key_Some [OF assms(1)] assms(2) by blast
  then show ?thesis by (simp add: table_view_def)
qed

lemma table_view_absent: "i \<notin> k ` set rs \<Longrightarrow> table_view v k rs i = None"
  using find_key_None [of k i rs] by (simp add: table_view_def)

lemma gateway_of_sel [simp]:
  "g_orders (gateway_of w) = table_view order_view or_id (db_orders w)"
  "g_payments (gateway_of w) = table_view payment_view pr_id (db_payments w)"
  "g_balance (gateway_of w) = balance_of w"
  by (simp_all add: gateway_of_def)

lemma put_order_sel [simp]:
  "g_orders (put_order i q g) = (g_orders g)(i \<mapsto> q)" "g_payments (put_order i q g) = g_payments g"
  "g_balance (put_order i q g) = g_balance g"
  by (simp_all add: put_order_def)

lemma put_payment_sel [simp]:
  "g_orders (put_payment j p g) = g_orders g" "g_payments (put_payment j p g) = (g_payments g)(j \<mapsto> p)"
  "g_balance (put_payment j p g) =
     (\<lambda>k. g_balance g k + holds k p - (case g_payments g j of None \<Rightarrow> 0 | Some p0 \<Rightarrow> holds k p0))"
  by (simp_all add: put_payment_def)

lemma gateway_eqI:
  "g_orders g = g_orders h \<Longrightarrow> g_payments g = g_payments h \<Longrightarrow> g_balance g = g_balance h \<Longrightarrow> g = (h :: gateway)"
  by (cases g; cases h) simp

lemma view_new_payment:
  assumes "engine_inv w" and "engine_inv w'" and "pr_id r \<notin> pr_id ` set (db_payments w)"
    and "db_payments w' = db_payments w @ [r]"
    and "table_view order_view or_id (db_orders w') = g_orders g" and "g_payments g = g_payments (gateway_of w)"
    and "g_balance g = balance_of w"
  shows "gateway_of w' = put_payment (pr_id r) (payment_view r) g"
proof (rule gateway_eqI)
  show "g_payments (gateway_of w') = g_payments (put_payment (pr_id r) (payment_view r) g)"
    using assms(3) by (simp add: assms(4,6) table_view_append)
  show "g_balance (gateway_of w') = g_balance (put_payment (pr_id r) (payment_view r) g)"
    using table_view_absent [OF assms(3), where v = payment_view]
    by (simp add: assms(4,6,7) balance_explained [OF assms(1)] balance_explained [OF assms(2)] fun_eq_iff)
qed (simp add: assms(5))

lemma view_changed_payment:
  assumes "engine_inv w" and "engine_inv w'" and "r \<in> set (db_payments w)" and "\<And>x. pr_id (f x) = pr_id x"
    and "db_payments w' = update_row pr_id (pr_id r) f (db_payments w)"
    and "table_view order_view or_id (db_orders w') = g_orders g" and "g_payments g = g_payments (gateway_of w)"
    and "g_balance g = balance_of w"
  shows "gateway_of w' = put_payment (pr_id r) (payment_view (f r)) g"
proof (rule gateway_eqI)
  have d: "distinct (map pr_id (db_payments w))" using assms(1) by (simp add: engine_inv_def ids_ok_def)
  show "g_payments (gateway_of w') = g_payments (put_payment (pr_id r) (payment_view (f r)) g)"
    by (simp add: assms(5,7) table_view_update [OF d assms(3,4)])
  show "g_balance (gateway_of w') = g_balance (put_payment (pr_id r) (payment_view (f r)) g)"
    using table_view_row [OF d assms(3), where v = payment_view]
    by (simp add: assms(5,7,8) balance_explained [OF assms(1)] balance_explained [OF assms(2)]
        sum_update_row [OF d assms(3)] fun_eq_iff)
qed (simp add: assms(6))

section \<open>The calls are the actions\<close>

lemma order_create_matches:
  assumes "order_create X m inp now w = (Inr q, w')"
  shows "gateway_do (Place (o_id q) m (co_amount_minor inp) (code (co_currency inp))) (gateway_of w) = Some (gateway_of w')"
proof -
  note s = order_create_Inr [OF assms]
  have w': "w' = w\<lparr>db_orders := db_orders w @ [order_to_row q], uuid_calls := Suc (uuid_calls w)\<rparr>" using s by blast
  have row: "or_id (order_to_row q) = o_id q"
    "order_view (order_to_row q) = \<lparr>go_merchant = m, go_minor = co_amount_minor inp, go_currency = code (co_currency inp),
       go_status = Order_Created\<rparr>"
    using s by (simp_all add: order_to_row_def order_view_def)
  have new: "or_id (order_to_row q) \<notin> or_id ` set (db_orders w)" using s by (simp add: row)
  have "gateway_of w' = put_order (o_id q) (order_view (order_to_row q)) (gateway_of w)"
    using table_view_append [OF new, of order_view]
    by (intro gateway_eqI) (simp_all add: w' row(1) balance_of_def fun_eq_iff cong: if_cong)
  then show ?thesis using table_view_absent [OF new, of order_view] s by (simp add: row)
qed

text \<open>What a decision does to the new payment and to its order.\<close>

lemma apply_decision_effect:
  assumes "apply_decision X d m p ord eps now w = (Inr p', w')" and "engine_inv w"
    and r: "payment_to_row p \<in> set (db_payments w)" "p_status p = Pay_Created" "p_amount_refunded p = 0"
      "p_captured_at p = None" "p_error_code p = None" "p_error_description p = None"
    and q: "q \<in> set (db_orders w)" "held_order ord q" "p_order_id p = o_id ord"
  shows "(\<exists>c ec ed. p' = p\<lparr>p_status := after_attempt (dec_outcome d), p_error_code := ec,
      p_error_description := ed, p_captured_at := c\<rparr>) \<and>
    db_orders w' = (if after_attempt (dec_outcome d) = Pay_Captured
      then update_row or_id (or_id q) (set_order Order_Paid (minor (p_amount p))) (db_orders w) else db_orders w) \<and>
    (\<exists>f. (\<forall>x. pr_id (f x) = pr_id x) \<and> db_payments w' = update_row pr_id (p_id p) f (db_payments w) \<and>
       f (payment_to_row p) = payment_to_row p')"
proof -
  have status: ?thesis
    if "db_payments w' = update_row pr_id (p_id p) (set_payment_status s c 0 ec ed) (db_payments w)"
      "p' = p\<lparr>p_status := s, p_error_code := ec, p_error_description := ed, p_captured_at := c\<rparr>"
      "s = after_attempt (dec_outcome d)"
      "db_orders w' = (if s = Pay_Captured
         then update_row or_id (or_id q) (set_order Order_Paid (minor (p_amount p))) (db_orders w) else db_orders w)"
    for s c ec ed
    using that r(3)
    by (intro conjI exI [of _ "set_payment_status s c 0 ec ed"] exI [of _ c] exI [of _ ec] exI [of _ ed])
      (simp_all add: payment_to_row_def set_payment_status_def)
  have updated: ?thesis
    if "payment_update_status X (p_id p) s None 0 ec ed w = (Inr (), v)" "money_tables w' = money_tables v"
      "p' = p\<lparr>p_status := s, p_error_code := ec, p_error_description := ed, p_captured_at := None\<rparr>"
      "s = after_attempt (dec_outcome d)" "s \<noteq> Pay_Captured" for s ec ed v
  proof -
    have "db_payments w' = update_row pr_id (p_id p) (set_payment_status s None 0 ec ed) (db_payments w)"
      and "db_orders w' = db_orders w"
      using that(1) money_tables_sel [OF that(2)] unfolding payment_update_status_Inr by auto
    from status [OF this(1) that(3,4)] this(2) that(5) show ?thesis by simp
  qed
  have settled: ?thesis
    if "settle X p ord eps now w = (Inr res, v)" "money_tables w' = money_tables v" "p' = fst res"
      "after_attempt (dec_outcome d) = Pay_Captured" for res v
  proof -
    note s = settle_step [OF that(1) assms(2) r(1) held_written q] and t = money_tables_sel [OF that(2)]
    have id: "pr_id (payment_to_row p) = p_id p" "pr_amount_minor (payment_to_row p) = minor (p_amount p)"
      by (simp_all add: payment_to_row_def)
    show ?thesis by (rule status [where s = Pay_Captured and c = "Some now" and ec = None and ed = None])
        (use s t that(3,4) r(5,6) id in simp_all)
  qed
  show ?thesis
  proof (cases "dec_outcome d")
    case Out_Capture
    then obtain res where st: "settle X p ord eps now w = (Inr res, w')" and p': "p' = fst res"
      using assms(1) by (auto simp: apply_decision_def tbind_Inr split: prod.splits)
    show ?thesis by (rule settled [OF st refl p']) (simp add: Out_Capture)
  next
    case Out_CaptureThenDispute
    then obtain res w1 k pl t where st: "settle X p ord eps now w = (Inr res, w1)"
      and job: "job_enqueue X open_dispute pl t 3 now w1 = (Inr k, w')" and p': "p' = fst res"
      using assms(1) by (auto simp: apply_decision_def tbind_Inr split: prod.splits)
    show ?thesis by (rule settled [OF st money_tables_job [OF job] p']) (simp add: Out_CaptureThenDispute)
  next
    case Out_Authorize
    then obtain w1 ev j where st: "payment_update_status X (p_id p) Pay_Authorized None 0 None None w = (Inr (), w1)"
      and em: "emit X eps m ''payment.authorized'' j now w1 = (Inr ev, w')" and p': "p' = p\<lparr>p_status := Pay_Authorized\<rparr>"
      using assms(1) r(2)
      by (auto simp: apply_decision_def tbind_Inr mark_authorized_def rbind_Inr payment_machine.trans_Inr_iff)
    show ?thesis by (rule updated [OF st money_tables_emit [OF em]]) (use p' r(4-6) in \<open>simp_all add: Out_Authorize\<close>)
  next
    case (Out_Decline c desc)
    then obtain w1 ev j where st: "payment_update_status X (p_id p) Pay_Failed None 0 (Some c) (Some desc) w = (Inr (), w1)"
      and em: "emit X eps m ''payment.failed'' j now w1 = (Inr ev, w')"
      and p': "p' = p\<lparr>p_status := Pay_Failed, p_error_code := Some c, p_error_description := Some desc\<rparr>"
      using assms(1) r(2)
      by (auto simp: apply_decision_def tbind_Inr mark_failed_def rbind_Inr payment_machine.trans_Inr_iff)
    show ?thesis by (rule updated [OF st money_tables_emit [OF em]]) (use p' r(4) in \<open>simp_all add: Out_Decline\<close>)
  next
    case Out_RequireAction
    then have st: "payment_update_status X (p_id p) Pay_RequiresAction None 0 None None w = (Inr (), w')"
      and p': "p' = p\<lparr>p_status := Pay_RequiresAction\<rparr>"
      using assms(1) r(2)
      by (auto simp: apply_decision_def tbind_Inr mark_requires_action_def rbind_Inr payment_machine.trans_Inr_iff)
    show ?thesis by (rule updated [OF st refl]) (use p' r(4-6) in \<open>simp_all add: Out_RequireAction\<close>)
  next
    case Out_RiskHold
    then obtain k pl t where job: "job_enqueue X ''resolve_risk_review'' pl t 3 now w = (Inr k, w')" and p': "p' = p"
      using assms(1) by (auto simp: apply_decision_def tbind_Inr)
    have "p = p\<lparr>p_status := Pay_Created, p_error_code := None, p_error_description := None, p_captured_at := None\<rparr>"
      using r(2,4-6) by (cases p) simp
    then show ?thesis
      using money_tables_sel [OF money_tables_job [OF job]]
      by (intro conjI exI [of _ "\<lambda>x. x"]) (auto simp: p' Out_RiskHold update_row_def)
  qed
qed

text \<open>
  What a successful creation leaves: the payment as it is returned, in a new row, and its order in the
  status that goes with it.
\<close>

lemma payment_create_tx_rows:
  assumes "payment_create_tx X pepper m inp d eps now w = (Inr p', w')" and "engine_inv w"
  obtains q n details where "q \<in> set (db_orders w)" "or_id q = cp_order_id inp" "or_merchant_id q = m"
    "or_status q \<in> {Order_Created, Order_Attempted}"
    "db_payments w' = db_payments w @ [payment_to_row p']" "p_id p' \<notin> pr_id ` set (db_payments w)"
    "db_orders w' = update_row or_id (or_id q) (set_order
       (if after_attempt (dec_outcome d) = Pay_Captured then Order_Paid else Order_Attempted) n) (db_orders w)"
    "payment_view (payment_to_row p') = \<lparr>gp_order = or_id q, gp_merchant = m, gp_minor = or_amount_minor q,
       gp_currency = or_currency q, gp_status = after_attempt (dec_outcome d), gp_refunded = 0\<rparr>"
    "p_card p' = Some details" "exp_month details \<le> 12" "exp_year details = cp_exp_year inp"
    "p_merchant_id p' = m" "engine_inv w'"
  using assms
proof (rule payment_create_tx_prefix)
  fix ord :: order and q :: order_row and details p w3
  let ?q = "set_order Order_Attempted (or_amount_paid q) q" and ?ord = "ord\<lparr>o_status := Order_Attempted\<rparr>"
    and ?out = "after_attempt (dec_outcome d)" and ?r = "payment_to_row p"
  assume q: "q \<in> set (db_orders w)" "held_order ord q" "or_id q = cp_order_id inp" "or_merchant_id q = m"
      "\<not> order_is_terminal (or_status q)"
    and p: "p = new_card_attempt (now_v7 X (uuid_calls w)) (o_id ord) m (o_amount ord) details (cp_notes inp) now"
    and inv3: "engine_inv w3" and new: "p_id p \<notin> pr_id ` set (db_payments w)"
    and pay: "db_payments w3 = db_payments w @ [?r]"
    and ords: "db_orders w3 = update_row or_id (or_id q) (set_order Order_Attempted (or_amount_paid q)) (db_orders w)"
    and held: "?q \<in> set (db_orders w3)" "held_order ?ord ?q" "p_order_id p = o_id ?ord"
    and rest: "apply_decision X d m p ?ord eps now w3 = (Inr p', w')"
    and details: "card_details_new (cp_card_number inp) (card_fingerprint X pepper (cp_card_number inp))
      (cp_exp_month inp) (cp_exp_year inp) = Inr details"
  have r: "?r \<in> set (db_payments w3)" "p_status p = Pay_Created" "p_amount_refunded p = 0" "p_captured_at p = None"
      "p_error_code p = None" "p_error_description p = None"
    by (simp_all add: pay p new_card_attempt_def)
  note effect = apply_decision_effect [OF rest inv3 r held]
  obtain c ec ed where p': "p' = p\<lparr>p_status := ?out, p_error_code := ec, p_error_description := ed, p_captured_at := c\<rparr>"
    using effect by blast
  obtain f where f: "\<forall>x. pr_id (f x) = pr_id x" "db_payments w' = update_row pr_id (p_id p) f (db_payments w3)"
      "f ?r = payment_to_row p'"
    using effect by blast
  have "db_payments w' = db_payments w @ [payment_to_row p']"
    using new f(3) by (simp add: f(2) pay update_row_append update_row_absent) (simp add: payment_to_row_def)
  moreover obtain n where "db_orders w' = update_row or_id (or_id q)
      (set_order (if ?out = Pay_Captured then Order_Paid else Order_Attempted) n) (db_orders w)"
    using effect by (cases "?out = Pay_Captured") (simp_all add: ords set_order_twice)
  moreover have "engine_inv w'"
    by (rule apply_decision_inv [OF rest inv3 r(1) held_written r(2)]) (use held in simp_all)
  moreover have "payment_view (payment_to_row p') = \<lparr>gp_order = or_id q, gp_merchant = m, gp_minor = or_amount_minor q,
      gp_currency = or_currency q, gp_status = ?out, gp_refunded = 0\<rparr>"
    using q(2) by (simp add: payment_view_def payment_to_row_def p' p held_order_def)
  moreover have "or_status q \<in> {Order_Created, Order_Attempted}" using q(5) by (cases "or_status q") auto
  moreover have "exp_month details \<le> 12" "exp_year details = cp_exp_year inp"
    using details by (auto simp: card_details_new_def Let_def split: if_splits)
  moreover have "p_id p' = p_id p" "p_card p' = Some details" "p_merchant_id p' = m"
    by (simp_all add: p' p new_card_attempt_def)
  ultimately show thesis using q(1,3,4) new by (intro that [of q n details]) simp_all
qed

lemma payment_create_tx_matches:
  assumes "payment_create_tx X pepper m inp d eps now w = (Inr p', w')" and "engine_inv w"
  shows "gateway_do (Attempt (p_id p') (cp_order_id inp) m (dec_outcome d)) (gateway_of w) = Some (gateway_of w')"
  using assms
proof (rule payment_create_tx_rows)
  fix q n
  let ?out = "after_attempt (dec_outcome d)" and ?r = "payment_to_row p'"
  let ?s = "if ?out = Pay_Captured then Order_Paid else Order_Attempted"
  assume q: "q \<in> set (db_orders w)" "or_id q = cp_order_id inp" "or_merchant_id q = m"
      "or_status q \<in> {Order_Created, Order_Attempted}"
    and pays: "db_payments w' = db_payments w @ [?r]" and new: "p_id p' \<notin> pr_id ` set (db_payments w)"
    and ords: "db_orders w' = update_row or_id (or_id q) (set_order ?s n) (db_orders w)"
    and view: "payment_view ?r = \<lparr>gp_order = or_id q, gp_merchant = m, gp_minor = or_amount_minor q,
       gp_currency = or_currency q, gp_status = ?out, gp_refunded = 0\<rparr>"
    and inv': "engine_inv w'"
  have d: "distinct (map or_id (db_orders w))" using assms(2) by (simp add: engine_inv_def ids_ok_def)
  have id: "pr_id ?r = p_id p'" by (simp add: payment_to_row_def)
  have "gateway_of w' = put_payment (pr_id ?r) (payment_view ?r)
      (put_order (or_id q) ((order_view q)\<lparr>go_status := ?s\<rparr>) (gateway_of w))"
    by (rule view_new_payment [OF assms(2) inv' _ pays])
      (use new ords table_view_update [OF d q(1), of "set_order ?s n" order_view] in
        \<open>simp_all add: id order_view_def\<close>)
  then show ?thesis
    using table_view_row [OF d q(1), of order_view] table_view_absent [OF new, of payment_view] q(2-4)
    by (simp add: id view order_view_def)
qed

lemma payment_capture_tx_matches:
  assumes "payment_capture_tx X m i eps now w = (Inr p', w')" and inv: "engine_inv w"
  shows "gateway_do (Capture m i) (gateway_of w) = Some (gateway_of w')"
  using assms(1)
proof (rule payment_capture_tx_steps)
  fix p ord res
  assume find: "payment_find_by_id_for_update X i w = (Inr p, w)" and m: "p_merchant_id p = m"
    and auth: "p_status p = Pay_Authorized"
    and ford: "order_find_by_id_for_update X (p_order_id p) w = (Inr ord, w)"
    and st: "settle X p ord eps now w = (Inr res, w')"
  obtain r where r: "p_id p = i" "r \<in> set (db_payments w)" "held_payment p r"
    using held_found_payment [OF find] by blast
  obtain q where q: "o_id ord = p_order_id p" "q \<in> set (db_orders w)" "held_order ord q"
    using held_found_order [OF ford] by blast
  note step = settle_step [OF st inv r(2,3) q(2,3) q(1) [symmetric]]
  have d: "distinct (map or_id (db_orders w))" "distinct (map pr_id (db_payments w))"
    using inv by (simp_all add: engine_inv_def ids_ok_def)
  have zero: "pr_amount_refunded r = 0" and ids: "pr_id r = i" "or_id q = pr_order_id r" "pr_merchant_id r = m"
      "pr_status r = Pay_Authorized"
    using inv r q(1,3) m auth unfolding engine_inv_def payment_ok_def held_payment_def held_order_def captured_row_def
    by auto
  let ?f = "set_payment_status Pay_Captured (Some now) 0 None None" and ?q = "(order_view q)\<lparr>go_status := Order_Paid\<rparr>"
  have "gateway_of w' = put_payment (pr_id r) (payment_view (?f r)) (put_order (or_id q) ?q (gateway_of w))"
    by (rule view_changed_payment [OF inv _ r(2)])
      (use step table_view_update [OF d(1) q(2), of "set_order Order_Paid (pr_amount_minor r)" order_view] in
        \<open>simp_all add: order_view_def\<close>)
  moreover have "payment_view (?f r) = (payment_view r)\<lparr>gp_status := Pay_Captured\<rparr>"
    by (simp add: payment_view_def zero)
  ultimately show ?thesis
    using table_view_row [OF d(1) q(2), of order_view] table_view_row [OF d(2) r(2), of payment_view] step ids
    by (simp add: order_view_def payment_view_def)
qed

lemma refund_create_tx_matches:
  assumes "refund_create_tx X m inp eps now w = (Inr rf, w')" and inv: "engine_inv w"
  shows "gateway_do (Give_Back m (cr_payment_id inp) (cr_amount_minor inp)) (gateway_of w) = Some (gateway_of w')"
  using assms
proof (rule refund_create_tx_steps)
  fix p :: payment and r :: payment_row and fee :: fee_refund and v w1 w2 w3 j ev
  let ?w = "w\<lparr>uuid_calls := Suc (uuid_calls w)\<rparr>" and ?n = "p_amount_refunded p" and ?a = "minor (p_amount p)"
  let ?s = "if ?n + v \<ge> ?a then Pay_Refunded else Pay_Captured"
  assume find: "payment_find_by_id_for_update X (cr_payment_id inp) w = (Inr p, w)"
    and r: "r \<in> set (db_payments w)" "held_payment p r" "captured_row r" and m: "p_merchant_id p = m"
    and v: "0 < v" "?n + v \<le> ?a" and vd: "v = unwrap_or (?a - ?n) (cr_amount_minor inp)"
    and ins: "refund_insert X rf ?w = (Inr (), w1)"
    and post: "post_refund X m (money_new v (curr (p_amount p))) fee (re_id rf) now w1 = (Inr (), w2)"
    and upd: "payment_update_status X (p_id p) ?s (p_captured_at p) (?n + v) None None w2 = (Inr (), w3)"
    and em: "emit X eps m ''refund.processed'' j now w3 = (Inr ev, w')"
  note tail = refund_tail [OF ins post upd em]
  have d: "distinct (map pr_id (db_payments w))" using inv by (simp add: engine_inv_def ids_ok_def)
  have ids: "pr_id r = cr_payment_id inp" "pr_merchant_id r = m" "pr_amount_refunded r = ?n" "pr_amount_minor r = ?a"
    using r(2) held_found_payment [OF find] m by (simp_all add: held_payment_def)
  have "pr_status r \<noteq> Pay_Refunded"
    using inv r(1) v ids unfolding engine_inv_def payment_ok_def by force
  then have cap: "pr_status r = Pay_Captured" using r(3) by (simp add: captured_row_def)
  let ?f = "set_payment_status ?s (p_captured_at p) (?n + v) None None"
  have "gateway_of w' = put_payment (pr_id r) (payment_view (?f r)) (gateway_of w)"
    by (rule view_changed_payment [OF inv refund_create_tx_inv [OF assms] r(1)])
      (use tail r(2) in \<open>simp_all add: held_payment_def\<close>)
  moreover have "payment_view (?f r) = (payment_view r)\<lparr>gp_status := if v = ?a - ?n then Pay_Refunded else Pay_Captured,
      gp_refunded := ?n + v\<rparr>"
    using v(2) by (auto simp: payment_view_def)
  ultimately show ?thesis
    using table_view_row [OF d r(1), of payment_view] cap v ids by (simp add: payment_view_def Let_def flip: vd)
qed

lemma failed_view: "\<exists>n. w' = w\<lparr>uuid_calls := n\<rparr> \<Longrightarrow> gateway_of w' = gateway_of w"
  by (rule gateway_of_cong) (auto simp: money_tables_def ledger_tables_def)

lemma payment_create_matches:
  assumes "payment_create X pepper m inp d now w = (res, w')" and "engine_inv w"
  shows "case res of
      Inl _ \<Rightarrow> gateway_of w' = gateway_of w
    | Inr p \<Rightarrow> gateway_do (Attempt (p_id p) (cp_order_id inp) m (dec_outcome d)) (gateway_of w) = Some (gateway_of w')"
proof (cases res)
  case (Inl e)
  then show ?thesis
    using failed_view [OF run_after_endpoints_Inl [OF assms(1) [unfolded payment_create_def Inl]]] by simp
next
  case (Inr p)
  then obtain eps where "payment_create_tx X pepper m inp d eps now w = (Inr p, w')"
    using assms(1) by (auto simp: payment_create_def after_endpoints run_tx_Inr)
  from payment_create_tx_matches [OF this assms(2)] show ?thesis by (simp only: Inr sum.case)
qed

lemma payment_capture_matches:
  assumes "payment_capture X m i now w = (res, w')" and "engine_inv w"
  shows "case res of
      Inl _ \<Rightarrow> gateway_of w' = gateway_of w
    | Inr p \<Rightarrow> gateway_do (Capture m i) (gateway_of w) = Some (gateway_of w')"
proof (cases res)
  case (Inl e)
  then show ?thesis
    using failed_view [OF run_after_endpoints_Inl [OF assms(1) [unfolded payment_capture_def Inl]]] by simp
next
  case (Inr p)
  then obtain eps where "payment_capture_tx X m i eps now w = (Inr p, w')"
    using assms(1) by (auto simp: payment_capture_def after_endpoints run_tx_Inr)
  from payment_capture_tx_matches [OF this assms(2)] show ?thesis by (simp only: Inr sum.case)
qed

lemma refund_create_matches:
  assumes "refund_create X m inp now w = (res, w')" and "engine_inv w"
  shows "case res of
      Inl _ \<Rightarrow> gateway_of w' = gateway_of w
    | Inr rf \<Rightarrow> gateway_do (Give_Back m (cr_payment_id inp) (cr_amount_minor inp)) (gateway_of w) = Some (gateway_of w')"
proof (cases res)
  case (Inl e)
  have "w' = w \<or> (\<exists>n. w' = w\<lparr>uuid_calls := n\<rparr>)"
    using assms(1) Inl by (auto simp: refund_create_def dest: run_after_endpoints_Inl split: if_splits)
  then show ?thesis using failed_view Inl by auto
next
  case (Inr rf)
  then obtain eps where "refund_create_tx X m inp eps now w = (Inr rf, w')"
    using assms(1) refund_create_run by blast
  from refund_create_tx_matches [OF this assms(2)] show ?thesis by (simp only: Inr sum.case)
qed

lemma order_create_step_matches:
  assumes "order_create X m inp now w = (res, w')"
  shows "case res of
      Inl _ \<Rightarrow> gateway_of w' = gateway_of w
    | Inr q \<Rightarrow> gateway_do (Place (o_id q) m (co_amount_minor inp) (code (co_currency inp))) (gateway_of w)
        = Some (gateway_of w')"
proof (cases res)
  case (Inl e)
  show ?thesis using failed_view [OF order_create_Inl [OF assms [unfolded Inl]]] by (simp only: Inl sum.case)
next
  case (Inr q)
  show ?thesis using order_create_matches [OF assms [unfolded Inr]] by (simp only: Inr sum.case)
qed

lemma matches_step:
  "(case res of Inl _ \<Rightarrow> gateway_of w' = gateway_of w | Inr x \<Rightarrow> gateway_do (a x) (gateway_of w) = Some (gateway_of w')) \<Longrightarrow>
     gateway_of w' = gateway_of w \<or> gateway_step (gateway_of w) (gateway_of w')"
  by (cases res) (auto simp: gateway_step_def)

lemma engine_step_matched:
  assumes "engine_inv w" and "engine_step X w w'"
  shows "gateway_of w' = gateway_of w \<or> gateway_step (gateway_of w) (gateway_of w')"
  using assms(2)
proof cases
  case (create_order m inp now res)
  show ?thesis by (rule matches_step [OF order_create_step_matches [OF create_order(1)]])
next
  case (create_payment pepper m pin d now pres)
  show ?thesis by (rule matches_step [OF payment_create_matches [OF create_payment assms(1)]])
next
  case (capture m i now pres)
  show ?thesis by (rule matches_step [OF payment_capture_matches [OF capture assms(1)]])
next
  case (create_refund m rin now rres)
  show ?thesis by (rule matches_step [OF refund_create_matches [OF create_refund assms(1)]])
next
  case elsewhere
  then show ?thesis using gateway_of_cong by blast
qed

interpretation engine: refinement_mapping "engine_step X" engine_inv gateway_of gateway_step
  by unfold_locales (rule engine_step_inv engine_step_matched; assumption)+

lemma engine_reachable_run: "engine_reachable X w w' \<Longrightarrow> (engine_step X)\<^sup>*\<^sup>* w w'"
  by (induction rule: engine_reachable.induct) (auto intro: rtranclp.rtrancl_into_rtrancl)

section \<open>What the machine keeps\<close>

text \<open>
  How a state of the machine may follow another: orders and payments stay, for the same merchant and amount,
  their statuses move as the status machines of the domain allow, and no refund is taken back.
\<close>

definition order_follows :: "g_order \<Rightarrow> g_order \<Rightarrow> bool" where
  "order_follows q q' \<longleftrightarrow> go_merchant q' = go_merchant q \<and> go_minor q' = go_minor q \<and> go_currency q' = go_currency q \<and>
     order_can_transition_to\<^sup>*\<^sup>* (go_status q) (go_status q')"

definition payment_follows :: "g_payment \<Rightarrow> g_payment \<Rightarrow> bool" where
  "payment_follows p p' \<longleftrightarrow> gp_order p' = gp_order p \<and> gp_merchant p' = gp_merchant p \<and> gp_minor p' = gp_minor p \<and>
     gp_currency p' = gp_currency p \<and> gp_refunded p \<le> gp_refunded p' \<and>
     payment_can_transition_to\<^sup>*\<^sup>* (gp_status p) (gp_status p')"

definition map_follows :: "('v \<Rightarrow> 'v \<Rightarrow> bool) \<Rightarrow> (uuid \<Rightarrow> 'v option) \<Rightarrow> (uuid \<Rightarrow> 'v option) \<Rightarrow> bool" where
  "map_follows R f g \<longleftrightarrow> (\<forall>i v. f i = Some v \<longrightarrow> (\<exists>v'. g i = Some v' \<and> R v v'))"

definition gateway_follows :: "gateway \<Rightarrow> gateway \<Rightarrow> bool" where
  "gateway_follows g g' \<longleftrightarrow>
     map_follows order_follows (g_orders g) (g_orders g') \<and> map_follows payment_follows (g_payments g) (g_payments g')"

lemma follows_trans: "transp order_follows" "transp payment_follows"
  by (auto simp: transp_def order_follows_def payment_follows_def)

lemma follows_refl [simp]: "order_follows q q" "payment_follows p p"
  by (simp_all add: order_follows_def payment_follows_def)

lemma map_followsD: "map_follows R f g \<Longrightarrow> f i = Some v \<Longrightarrow> \<exists>v'. g i = Some v' \<and> R v v'"
  by (simp add: map_follows_def)

lemma map_follows_refl: "(\<And>v. R v v) \<Longrightarrow> map_follows R f f"
  by (simp add: map_follows_def)

lemma map_follows_trans: "transp R \<Longrightarrow> map_follows R f g \<Longrightarrow> map_follows R g h \<Longrightarrow> map_follows R f h"
  unfolding map_follows_def transp_def by meson

lemma map_follows_update:
  "(\<And>v. R v v) \<Longrightarrow> (\<And>v. f i = Some v \<Longrightarrow> R v v') \<Longrightarrow> map_follows R f (f(i \<mapsto> v'))"
  by (auto simp: map_follows_def)

lemmas follows_update = map_follows_update [of order_follows, OF follows_refl(1)]
  map_follows_update [of payment_follows, OF follows_refl(2)]

lemma gateway_follows_refl: "gateway_follows g g"
  by (simp add: gateway_follows_def map_follows_refl)

lemma gateway_follows_trans: "gateway_follows f g \<Longrightarrow> gateway_follows g h \<Longrightarrow> gateway_follows f h"
  unfolding gateway_follows_def using follows_trans by (blast intro: map_follows_trans)

lemma order_paid_reachable:
  "order_can_transition_to\<^sup>*\<^sup>* Order_Attempted Order_Paid" "order_can_transition_to\<^sup>*\<^sup>* Order_Created Order_Paid"
  "order_can_transition_to\<^sup>*\<^sup>* Order_Created Order_Attempted"
proof -
  have s: "order_can_transition_to Order_Created Order_Attempted" "order_can_transition_to Order_Attempted Order_Paid"
    by simp_all
  show "order_can_transition_to\<^sup>*\<^sup>* Order_Attempted Order_Paid" "order_can_transition_to\<^sup>*\<^sup>* Order_Created Order_Attempted"
    using s by blast+
  show "order_can_transition_to\<^sup>*\<^sup>* Order_Created Order_Paid"
    using s by (metis rtranclp.rtrancl_into_rtrancl rtranclp.rtrancl_refl)
qed

lemma payment_moves:
  "payment_can_transition_to\<^sup>*\<^sup>* Pay_Authorized Pay_Captured" "payment_can_transition_to\<^sup>*\<^sup>* Pay_Captured Pay_Refunded"
  by (rule r_into_rtranclp, simp)+

lemma gateway_do_follows: "gateway_do a g = Some g' \<Longrightarrow> gateway_follows g g'"
proof (cases a)
  case (Place i m n c)
  then show "gateway_do a g = Some g' \<Longrightarrow> gateway_follows g g'"
    by (auto simp: gateway_follows_def map_follows_refl intro!: follows_update split: if_splits)
next
  case (Attempt j i m out)
  then show "gateway_do a g = Some g' \<Longrightarrow> gateway_follows g g'"
    by (auto simp: gateway_follows_def order_follows_def order_paid_reachable intro!: follows_update
        split: if_splits option.splits)
next
  case (Capture m j)
  then show "gateway_do a g = Some g' \<Longrightarrow> gateway_follows g g'"
    by (auto simp: gateway_follows_def order_follows_def payment_follows_def order_paid_reachable payment_moves
        intro!: follows_update split: if_splits option.splits)
next
  case (Give_Back m j v)
  then show "gateway_do a g = Some g' \<Longrightarrow> gateway_follows g g'"
    by (auto simp: gateway_follows_def map_follows_refl payment_follows_def payment_moves Let_def
        intro!: follows_update split: if_splits option.splits)
qed

lemma reachable_follows:
  assumes "engine_reachable X w w'" and "engine_inv w"
  shows "gateway_follows (gateway_of w) (gateway_of w')"
proof (rule engine.transfer_relation [OF engine_reachable_run [OF assms(1)] assms(2)])
  show "gateway_follows a b \<Longrightarrow> gateway_step b c \<Longrightarrow> gateway_follows a c" for a b c
    using gateway_do_follows gateway_follows_trans unfolding gateway_step_def by blast
qed (rule gateway_follows_refl)

lemma view_row:
  assumes "table_view v k rs i = Some x"
  shows "\<exists>r \<in> set rs. k r = i \<and> v r = x"
  using assms by (auto simp: table_view_def dest!: find_mem)

section \<open>The engine refines the machine\<close>

text \<open>
  C3. The engine implements the machine: in every state it reaches, each of its four calls that succeeds does to
  the orders, the payments and the balances exactly what its action does, one that fails does nothing to them, and so a call
  whose action the machine refuses (an order of another merchant or already paid, a payment that is not
  authorized, a refund beyond what is left) fails.
\<close>
theorem engine_refines_gateway:
  assumes "engine_reachable X w0 w" and "fresh_books w0"
  shows "(case order_create X m oin now w of
      (Inl _, w') \<Rightarrow> gateway_of w' = gateway_of w
    | (Inr q, w') \<Rightarrow> gateway_do (Place (o_id q) m (co_amount_minor oin) (code (co_currency oin))) (gateway_of w)
        = Some (gateway_of w')) \<and>
    (case payment_create X pepper m pin d now w of
      (Inl _, w') \<Rightarrow> gateway_of w' = gateway_of w
    | (Inr p, w') \<Rightarrow> gateway_do (Attempt (p_id p) (cp_order_id pin) m (dec_outcome d)) (gateway_of w)
        = Some (gateway_of w')) \<and>
    (case payment_capture X m i now w of
      (Inl _, w') \<Rightarrow> gateway_of w' = gateway_of w
    | (Inr p, w') \<Rightarrow> gateway_do (Capture m i) (gateway_of w) = Some (gateway_of w')) \<and>
    (case refund_create X m rin now w of
      (Inl _, w') \<Rightarrow> gateway_of w' = gateway_of w
    | (Inr rf, w') \<Rightarrow> gateway_do (Give_Back m (cr_payment_id rin) (cr_amount_minor rin)) (gateway_of w)
        = Some (gateway_of w'))"
proof -
  have inv: "engine_inv w" by (rule engine_reachable_inv [OF assms])
  have pair: "case c of (Inl e, w') \<Rightarrow> P w' | (Inr a, w') \<Rightarrow> Q a w'"
    if "\<And>res w'. c = (res, w') \<Longrightarrow> case res of Inl e \<Rightarrow> P w' | Inr a \<Rightarrow> Q a w'"
    for c :: "('e + 'a) \<times> db" and P Q
    using that by (cases c; cases "fst c") auto
  show ?thesis
    by (intro conjI; rule pair)
      (fact order_create_step_matches payment_create_matches [OF _ inv] payment_capture_matches [OF _ inv]
        refund_create_matches [OF _ inv])+
qed

lemma demo_w3_run: "engine_reachable demo_ext demo_w1 demo_w3"
  unfolding demo_w3_def demo_w2_def
  by (rule engine_reachable.step [OF engine_reachable.step [OF engine_reachable.start
        engine_step.create_payment [OF prod.collapse [symmetric]]] engine_step.create_refund [OF prod.collapse [symmetric]]])

theorem engine_refines_gateway_witness:
  "is_ok (fst (refund_create demo_ext 7 demo_refund 0 demo_w2)) \<and>
   gateway_do (Give_Back 7 1001 (Some 4000)) (gateway_of demo_w2) = Some (gateway_of demo_w3)"
proof -
  have ok: "is_ok (fst (refund_create demo_ext 7 demo_refund 0 demo_w2))" by code_simp
  then obtain rf where run: "refund_create demo_ext 7 demo_refund 0 demo_w2 = (Inr rf, demo_w3)"
    unfolding demo_w3_def by (metis is_ok_def old.sum.exhaust old.sum.simps(5) prod.collapse)
  have "cr_payment_id demo_refund = 1001" "cr_amount_minor demo_refund = Some 4000" by (simp_all add: demo_refund_def)
  then have "gateway_do (Give_Back 7 1001 (Some 4000)) (gateway_of demo_w2) = Some (gateway_of demo_w3)"
    using engine_refines_gateway [OF demo_w2_reachable demo_fresh, THEN conjunct2, THEN conjunct2, THEN conjunct2,
        of 7 demo_refund 0] run by (simp only: prod.case sum.case)
  then show ?thesis using ok by blast
qed

text \<open>
  C7. Histories are those of the domain: between any two states the engine reaches one after the other, no order
  and no payment is lost, each keeps its merchant, its amount and its order, its status has moved along the transitions
  of the domain's status machine only, and what was refunded of a payment has not shrunk.
\<close>
theorem histories_follow_status_machines:
  assumes "engine_reachable X w0 w" and "fresh_books w0" and "engine_reachable X w w'"
  shows "(\<forall>q \<in> set (db_orders w). \<exists>q' \<in> set (db_orders w'). or_id q' = or_id q \<and>
      or_merchant_id q' = or_merchant_id q \<and> or_amount_minor q' = or_amount_minor q \<and> or_currency q' = or_currency q \<and>
      order_can_transition_to\<^sup>*\<^sup>* (or_status q) (or_status q')) \<and>
    (\<forall>r \<in> set (db_payments w). \<exists>r' \<in> set (db_payments w'). pr_id r' = pr_id r \<and> pr_order_id r' = pr_order_id r \<and>
      pr_merchant_id r' = pr_merchant_id r \<and> pr_amount_minor r' = pr_amount_minor r \<and> pr_currency r' = pr_currency r \<and>
      pr_amount_refunded r \<le> pr_amount_refunded r' \<and>
      payment_can_transition_to\<^sup>*\<^sup>* (pr_status r) (pr_status r'))"
proof -
  have inv: "engine_inv w" by (rule engine_reachable_inv [OF assms(1,2)])
  have f: "map_follows order_follows (table_view order_view or_id (db_orders w)) (table_view order_view or_id (db_orders w'))"
    "map_follows payment_follows (table_view payment_view pr_id (db_payments w)) (table_view payment_view pr_id (db_payments w'))"
    using reachable_follows [OF assms(3) inv] by (simp_all add: gateway_follows_def)
  have d: "distinct (map or_id (db_orders w))" "distinct (map pr_id (db_payments w))"
    using inv by (simp_all add: engine_inv_def ids_ok_def)
  show ?thesis
  proof (intro conjI ballI)
    fix q assume "q \<in> set (db_orders w)"
    then have "table_view order_view or_id (db_orders w) (or_id q) = Some (order_view q)" by (rule table_view_row [OF d(1)])
    then obtain v where v: "table_view order_view or_id (db_orders w') (or_id q) = Some v" "order_follows (order_view q) v"
      using map_followsD [OF f(1)] by blast
    obtain q' where "q' \<in> set (db_orders w')" "or_id q' = or_id q" "order_view q' = v" using view_row [OF v(1)] by blast
    then show "\<exists>q' \<in> set (db_orders w'). or_id q' = or_id q \<and>
      or_merchant_id q' = or_merchant_id q \<and> or_amount_minor q' = or_amount_minor q \<and> or_currency q' = or_currency q \<and>
      order_can_transition_to\<^sup>*\<^sup>* (or_status q) (or_status q')"
      using v(2) by (intro bexI [of _ q']) (auto simp: order_follows_def order_view_def)
  next
    fix r assume "r \<in> set (db_payments w)"
    then have "table_view payment_view pr_id (db_payments w) (pr_id r) = Some (payment_view r)"
      by (rule table_view_row [OF d(2)])
    then obtain v where v: "table_view payment_view pr_id (db_payments w') (pr_id r) = Some v" "payment_follows (payment_view r) v"
      using map_followsD [OF f(2)] by blast
    obtain r' where "r' \<in> set (db_payments w')" "pr_id r' = pr_id r" "payment_view r' = v" using view_row [OF v(1)] by blast
    then show "\<exists>r' \<in> set (db_payments w'). pr_id r' = pr_id r \<and> pr_order_id r' = pr_order_id r \<and>
      pr_merchant_id r' = pr_merchant_id r \<and> pr_amount_minor r' = pr_amount_minor r \<and> pr_currency r' = pr_currency r \<and>
      pr_amount_refunded r \<le> pr_amount_refunded r' \<and>
      payment_can_transition_to\<^sup>*\<^sup>* (pr_status r) (pr_status r')"
      using v(2) by (intro bexI [of _ r']) (auto simp: payment_follows_def payment_view_def)
  qed
qed

theorem histories_follow_status_machines_witness:
  "\<exists>q \<in> set (db_orders demo_w1). or_status q = Order_Created \<and>
     (\<exists>q' \<in> set (db_orders demo_w3). or_id q' = or_id q \<and> or_amount_minor q' = or_amount_minor q \<and> or_status q' = Order_Paid)"
proof -
  have "map or_status (db_orders demo_w1) = [Order_Created]" by code_simp
  then obtain q where q: "q \<in> set (db_orders demo_w1)" "or_status q = Order_Created"
    by (cases "db_orders demo_w1") auto
  obtain q' where q': "q' \<in> set (db_orders demo_w3)" "or_id q' = or_id q" "or_amount_minor q' = or_amount_minor q"
    using histories_follow_status_machines [OF demo_w1_reachable demo_fresh demo_w3_run] q(1) by blast
  have "map (\<lambda>q. (or_id q, or_status q)) (db_orders demo_w3) = [(1000, Order_Paid)]" using demo_w3_facts by blast
  then have "or_status q' = Order_Paid" using q'(1) by (cases "db_orders demo_w3") auto
  then show ?thesis using q q' by blast
qed

end
