(* ===== verification/Locks.thy ===== *)
theory Locks
  imports Engine_Properties
begin

text \<open>
  The lock-ordering contract of \<open>crates/store/src/tx.rs\<close>: transactions that run side by side, each with the
  rows it locks in the order it locks them, and the promise that ranked locks cannot deadlock, discharged on
  the transactions of the engine.

  \<open>SELECT ... FOR UPDATE\<close> waits while another open transaction holds the row; all locks go when the
  transaction ends. An insert into \<open>ledger_accounts\<close> that meets the uncommitted insert of the same merchant,
  type and currency waits for it in the same way (\<open>ON CONFLICT DO NOTHING\<close>), so the place of a new account
  is locked too, at the rank of the ledger accounts. What foreign keys lock on merchants and endpoints is
  shared and meets no exclusive lock; jobs are claimed with \<open>SKIP LOCKED\<close> and never waited for.
\<close>

section \<open>Sessions\<close>

record 'r session =
  ses_held :: "'r list"
  ses_todo :: "'r list"

definition ended :: "'r session" where
  "ended = \<lparr>ses_held = [], ses_todo = []\<rparr>"

definition taken :: "'r session list \<Rightarrow> nat \<Rightarrow> 'r \<Rightarrow> bool" where
  "taken ss i r \<longleftrightarrow> list_ex (\<lambda>j. j \<noteq> i \<and> r \<in> set (ses_held (ss ! j))) [0..<length ss]"

text \<open>A session locks its next row when nobody else holds it, and commits when it has no row left to lock.\<close>

inductive proceed :: "'r session list \<Rightarrow> 'r session list \<Rightarrow> bool" where
  lock: "i < length ss \<Longrightarrow> ses_todo (ss ! i) = r # rest \<Longrightarrow> \<not> taken ss i r \<Longrightarrow>
    proceed ss (ss[i := \<lparr>ses_held = r # ses_held (ss ! i), ses_todo = rest\<rparr>])"
| commit: "i < length ss \<Longrightarrow> ses_todo (ss ! i) = [] \<Longrightarrow> ss ! i \<noteq> ended \<Longrightarrow> proceed ss (ss[i := ended])"

text \<open>An error, or a client that goes away, rolls a session back wherever it is.\<close>

inductive contend :: "'r session list \<Rightarrow> 'r session list \<Rightarrow> bool" where
  proceed: "proceed ss ss' \<Longrightarrow> contend ss ss'"
| roll_back: "i < length ss \<Longrightarrow> contend ss (ss[i := ended])"

definition exclusive :: "'r session list \<Rightarrow> bool" where
  "exclusive ss \<longleftrightarrow> (\<forall>i < length ss. \<forall>j < length ss. i \<noteq> j \<longrightarrow>
     set (ses_held (ss ! i)) \<inter> set (ses_held (ss ! j)) = {})"

definition begin_all :: "'r list list \<Rightarrow> 'r session list" where
  "begin_all plans = map (\<lambda>p. \<lparr>ses_held = [], ses_todo = p\<rparr>) plans"

text \<open>The steps a session still has to make.\<close>

definition work :: "'r session list \<Rightarrow> nat" where
  "work ss = (\<Sum>s \<leftarrow> ss. if s = ended then 0 else Suc (length (ses_todo s)))"

lemma ended_sel [simp]: "ses_held ended = []" "ses_todo ended = []"
  by (simp_all add: ended_def)

lemma taken_iff: "taken ss i r \<longleftrightarrow> (\<exists>j < length ss. j \<noteq> i \<and> r \<in> set (ses_held (ss ! j)))"
  by (auto simp: taken_def list_ex_iff)

lemma sum_list_change:
  fixes f :: "'a \<Rightarrow> nat"
  shows "i < length xs \<Longrightarrow> (\<Sum>x \<leftarrow> xs[i := y]. f x) + f (xs ! i) = (\<Sum>x \<leftarrow> xs. f x) + f y"
  by (induction xs arbitrary: i) (auto split: nat.splits)

lemma work_proceed: "proceed ss ss' \<Longrightarrow> work ss = Suc (work ss')"
proof (induction rule: proceed.induct)
  case (lock i ss r rest)
  let ?s = "\<lparr>ses_held = r # ses_held (ss ! i), ses_todo = rest\<rparr>"
  have "ss ! i \<noteq> ended" "?s \<noteq> ended" using lock by (auto simp: ended_def)
  then show ?case
    using sum_list_change [OF lock(1), where y = ?s and f = "\<lambda>s. if s = ended then 0 else Suc (length (ses_todo s))"]
      lock(2) by (simp add: work_def)
next
  case (commit i ss)
  then show ?case
    using sum_list_change [OF commit(1), where y = ended and f = "\<lambda>s. if s = ended then 0 else Suc (length (ses_todo s))"]
    by (simp add: work_def)
qed

lemma work_zero: "work ss = 0 \<longleftrightarrow> (\<forall>s \<in> set ss. s = ended)"
  by (auto simp: work_def)

lemma exclusive_update:
  assumes "exclusive ss" and "i < length ss"
    and "\<And>j r. j < length ss \<Longrightarrow> j \<noteq> i \<Longrightarrow> r \<in> set (ses_held s) \<Longrightarrow> r \<notin> set (ses_held (ss ! j))"
  shows "exclusive (ss[i := s])"
  using assms unfolding exclusive_def by (auto simp: nth_list_update)

section \<open>Ranked locks\<close>

text \<open>
  The contract: whoever locks follows one of the plans, and a plan locks in the order of the ranks, at most one
  row of each rank.
\<close>

locale ranked_locks =
  fixes rank :: "'r \<Rightarrow> nat" and plans :: "'r list set"
  assumes ranked: "p \<in> plans \<Longrightarrow> sorted_wrt (\<lambda>a b. rank a < rank b) p"
begin

definition disciplined :: "'r session \<Rightarrow> bool" where
  "disciplined s \<longleftrightarrow> sorted_wrt (\<lambda>a b. rank a < rank b) (ses_todo s) \<and>
     (\<forall>h \<in> set (ses_held s). \<forall>t \<in> set (ses_todo s). rank h < rank t)"

definition orderly :: "'r session list \<Rightarrow> bool" where
  "orderly ss \<longleftrightarrow> exclusive ss \<and> (\<forall>s \<in> set ss. disciplined s)"

lemma disciplined_ended: "disciplined ended"
  by (simp add: disciplined_def)

lemma orderly_begin: "set ps \<subseteq> plans \<Longrightarrow> orderly (begin_all ps)"
  using ranked by (auto simp: orderly_def begin_all_def disciplined_def exclusive_def)

lemma orderly_update:
  assumes "orderly ss" and "i < length ss" and "disciplined s"
    and "\<And>j r. j < length ss \<Longrightarrow> j \<noteq> i \<Longrightarrow> r \<in> set (ses_held s) \<Longrightarrow> r \<notin> set (ses_held (ss ! j))"
  shows "orderly (ss[i := s])"
  using assms exclusive_update [of ss i s] set_update_subset_insert [of ss i s] unfolding orderly_def by blast

lemma orderly_proceed: "proceed ss ss' \<Longrightarrow> orderly ss \<Longrightarrow> orderly ss'"
proof (induction rule: proceed.induct)
  case (lock i ss r rest)
  have "disciplined (ss ! i)" using lock(1,4) by (simp add: orderly_def)
  then have "disciplined \<lparr>ses_held = r # ses_held (ss ! i), ses_todo = rest\<rparr>"
    using lock(2) by (auto simp: disciplined_def)
  then show ?case
    by (rule orderly_update [OF lock(4,1)])
      (use lock(1,3,4) in \<open>auto simp: taken_iff orderly_def exclusive_def\<close>)
qed (rule orderly_update, auto simp: disciplined_ended)

lemma orderly_contend: "contend ss ss' \<Longrightarrow> orderly ss \<Longrightarrow> orderly ss'"
  by (induction rule: contend.induct) (auto intro: orderly_proceed orderly_update simp: disciplined_ended)

lemma orderly_reachable: "contend\<^sup>*\<^sup>* ss ss' \<Longrightarrow> orderly ss \<Longrightarrow> orderly ss'"
  by (induction rule: rtranclp_induct) (auto intro: orderly_contend)

text \<open>Among the sessions that wait, the one that wants the row of the highest rank waits for nobody.\<close>

lemma somebody_proceeds:
  assumes "orderly ss" and "s \<in> set ss" and "s \<noteq> ended"
  shows "\<exists>ss'. proceed ss ss'"
proof (rule ccontr)
  assume stuck: "\<nexists>ss'. proceed ss ss'"
  let ?I = "{i. i < length ss \<and> ss ! i \<noteq> ended}"
  have wants: "ses_todo (ss ! i) \<noteq> []" if "i \<in> ?I" for i using that stuck proceed.commit [of i ss] by auto
  have ne: "?I \<noteq> {}" and fin: "finite ?I" using assms(2,3) by (auto simp: in_set_conv_nth)
  obtain i where i: "i \<in> ?I"
    and max: "\<And>j. j \<in> ?I \<Longrightarrow> rank (hd (ses_todo (ss ! j))) \<le> rank (hd (ses_todo (ss ! i)))"
    using Max_in [of "(\<lambda>i. rank (hd (ses_todo (ss ! i)))) ` ?I"] Max_ge [of "(\<lambda>i. rank (hd (ses_todo (ss ! i)))) ` ?I"]
      fin ne by (smt (verit) finite_imageI image_iff image_is_empty)
  obtain r rest where todo: "ses_todo (ss ! i) = r # rest" using wants [OF i] by (cases "ses_todo (ss ! i)") auto
  obtain j where j: "j < length ss" "r \<in> set (ses_held (ss ! j))"
    using stuck proceed.lock [OF _ todo] i by (auto simp: taken_iff)
  then have J: "j \<in> ?I" by auto
  have "disciplined (ss ! j)" using assms(1) j(1) by (simp add: orderly_def)
  then have "rank r < rank (hd (ses_todo (ss ! j)))"
    using wants [OF J] j(2) by (auto simp: disciplined_def)
  with max [OF J] todo show False by simp
qed

lemma runs_out:
  assumes "orderly ss"
  shows "\<exists>ss'. (proceed ^^ work ss) ss ss' \<and> (\<forall>s \<in> set ss'. s = ended)"
  using assms
proof (induction "work ss" arbitrary: ss)
  case 0
  then have "(proceed ^^ work ss) ss ss" "\<forall>s \<in> set ss. s = ended" using work_zero [of ss] by simp_all
  then show ?case by blast
next
  case (Suc n)
  then have "\<not> (\<forall>s \<in> set ss. s = ended)" using work_zero [of ss] by simp
  then obtain ss1 where step: "proceed ss ss1" using somebody_proceeds [OF Suc.prems] by blast
  then have "n = work ss1" using Suc.hyps(2) work_proceed by fastforce
  from Suc.hyps(1) [OF this orderly_proceed [OF step Suc.prems]] obtain ss' where
    "(proceed ^^ n) ss1 ss'" "\<forall>s \<in> set ss'. s = ended" using \<open>n = work ss1\<close> by blast
  then show ?case using step Suc.hyps(2) relpowp_Suc_I2 by metis
qed

end

section \<open>The transactions of the engine\<close>

datatype lock_target = Row lock_order uuid | Account_Slot uuid account_type currency

fun target_rank :: "lock_target \<Rightarrow> nat" where
  "target_rank (Row k i) = lock_rank k"
| "target_rank (Account_Slot m t c) = lock_rank Lock_LedgerAccount"

text \<open>
  What each transaction locks at most, in this order, read off the state it runs in: a creation the order and
  then the merchant's account when that is still missing, a capture the payment before the order, a refund the
  payment.
\<close>

definition account_locks :: "uuid \<Rightarrow> currency \<Rightarrow> db \<Rightarrow> lock_target list" where
  "account_locks m c w = (case fst (find_merchant_account m MerchantPending c w) of
      Inr _ \<Rightarrow> [] | Inl _ \<Rightarrow> [Account_Slot m MerchantPending c])"

definition payment_create_locks :: "ext \<Rightarrow> uuid \<Rightarrow> create_payment_input \<Rightarrow> db \<Rightarrow> lock_target list" where
  "payment_create_locks X m inp w = Row Lock_Order (cp_order_id inp) #
     (case fst (order_find_by_id_for_update X (cp_order_id inp) w) of
        Inl _ \<Rightarrow> [] | Inr r \<Rightarrow> account_locks m (curr (o_amount r)) w)"

definition payment_capture_locks :: "ext \<Rightarrow> uuid \<Rightarrow> uuid \<Rightarrow> db \<Rightarrow> lock_target list" where
  "payment_capture_locks X m i w = Row Lock_Payment i #
     (case fst (payment_find_by_id_for_update X i w) of
        Inl _ \<Rightarrow> []
      | Inr p \<Rightarrow> Row Lock_Order (p_order_id p) # account_locks (p_merchant_id p) (curr (p_amount p)) w)"

definition refund_create_locks :: "ext \<Rightarrow> uuid \<Rightarrow> create_refund_input \<Rightarrow> db \<Rightarrow> lock_target list" where
  "refund_create_locks X m inp w = Row Lock_Payment (cr_payment_id inp) #
     (case fst (payment_find_by_id_for_update X (cr_payment_id inp) w) of
        Inl _ \<Rightarrow> [] | Inr p \<Rightarrow> account_locks m (curr (p_amount p)) w)"

datatype locking_call =
    Creates_Payment uuid create_payment_input
  | Captures uuid uuid
  | Creates_Refund uuid create_refund_input

fun call_locks :: "ext \<Rightarrow> locking_call \<Rightarrow> db \<Rightarrow> lock_target list" where
  "call_locks X (Creates_Payment m inp) w = payment_create_locks X m inp w"
| "call_locks X (Captures m i) w = payment_capture_locks X m i w"
| "call_locks X (Creates_Refund m inp) w = refund_create_locks X m inp w"

lemma account_locks_ranked:
  "sorted_wrt R (account_locks m c w)" "t \<in> set (account_locks m c w) \<Longrightarrow> target_rank t = 5"
  by (auto simp: account_locks_def split: sum.splits)

interpretation engine_locks: ranked_locks target_rank "{call_locks X c w | c w. True}"
proof
  fix p assume "p \<in> {call_locks X c w | c w. True}"
  then obtain c w where p: "p = call_locks X c w" by blast
  show "sorted_wrt (\<lambda>a b. target_rank a < target_rank b) p"
    unfolding p by (cases c)
      (auto simp: payment_create_locks_def payment_capture_locks_def refund_create_locks_def account_locks_ranked
        split: sum.split)
qed

lemma proceeds_work: "(proceed ^^ n) ss ss' \<Longrightarrow> work ss = n + work ss'"
  by (induction n arbitrary: ss') (auto dest: work_proceed)

text \<open>
  C9. Transactions of the engine cannot deadlock. However many payments are created and captured and refunds
  made side by side, whatever state each of them sees, in whatever order they lock and roll back: no row is ever
  locked by two of them; and whoever goes on from there, one lock or one commit at a time, the run is over after
  a number of steps that is known beforehand, and when nobody can go on it is because everybody is done. This is
  what the ranks of \<open>LockOrder\<close> are for: two transactions that lock the same two rows in opposite orders can
  wait for each other for ever (\<open>unranked_locks_deadlock\<close>).
\<close>
theorem engine_never_deadlocks:
  assumes "contend\<^sup>*\<^sup>* (begin_all (map (\<lambda>(c, w). call_locks X c w) calls)) ss"
  shows "exclusive ss \<and>
    (\<forall>n ss'. (proceed ^^ n) ss ss' \<longrightarrow>
       n + work ss' = work ss \<and> ((\<nexists>ss''. proceed ss' ss'') \<longleftrightarrow> (\<forall>s \<in> set ss'. s = ended)))"
proof -
  have "set (map (\<lambda>(c, w). call_locks X c w) calls) \<subseteq> {call_locks X c w | c w. True}" by auto
  from engine_locks.orderly_reachable [OF assms engine_locks.orderly_begin [OF this]]
  have ord: "engine_locks.orderly ss" .
  have "(\<nexists>ss''. proceed ss' ss'') \<longleftrightarrow> (\<forall>s \<in> set ss'. s = ended)" if "(proceed ^^ n) ss ss'" for n ss'
  proof -
    have "contend\<^sup>*\<^sup>* ss ss'"
      using relpowp_imp_rtranclp [OF that] by (rule rtranclp_mono [THEN predicate2D, rotated]) (auto intro: contend.proceed)
    then have "engine_locks.orderly ss'" using engine_locks.orderly_reachable ord by blast
    then show ?thesis
      using engine_locks.somebody_proceeds [of ss'] work_zero [of ss'] work_proceed by fastforce
  qed
  then show ?thesis using ord proceeds_work unfolding engine_locks.orderly_def by fastforce
qed

theorem engine_never_deadlocks_witness:
  "call_locks demo_ext (Captures 7 1001) demo_w2 = [Row Lock_Payment 1001, Row Lock_Order 1000] \<and>
   call_locks demo_ext (Creates_Payment 7 demo_card) demo_w1 =
     [Row Lock_Order 1000, Account_Slot 7 MerchantPending INR] \<and>
   exclusive (begin_all [[Row Lock_Payment 1001, Row Lock_Order 1000], [Row Lock_Order 1000, Account_Slot 7 MerchantPending INR]]) \<and>
   (\<exists>ss. proceed (begin_all [[Row Lock_Payment 1001, Row Lock_Order 1000],
       [Row Lock_Order 1000, Account_Slot 7 MerchantPending INR]]) ss)"
proof -
  have c: "call_locks demo_ext (Captures 7 1001) demo_w2 = [Row Lock_Payment 1001, Row Lock_Order 1000]"
    "call_locks demo_ext (Creates_Payment 7 demo_card) demo_w1 =
       [Row Lock_Order 1000, Account_Slot 7 MerchantPending INR]" by code_simp+
  let ?ss = "begin_all [[Row Lock_Payment 1001, Row Lock_Order 1000],
       [Row Lock_Order 1000, Account_Slot 7 MerchantPending INR]]"
  have "contend\<^sup>*\<^sup>* (begin_all (map (\<lambda>(c, w). call_locks demo_ext c w)
      [(Captures 7 1001, demo_w2), (Creates_Payment 7 demo_card, demo_w1)])) ?ss"
    by (simp only: list.map prod.case c rtranclp.rtrancl_refl)
  note safe = engine_never_deadlocks [OF this]
  have "\<not> (\<forall>s \<in> set ?ss. s = ended)" by (simp add: begin_all_def ended_def)
  moreover have "(proceed ^^ 0) ?ss ?ss" by simp
  ultimately have "\<exists>ss. proceed ?ss ss" using safe by blast
  then show ?thesis using c safe by blast
qed

text \<open>Two sessions that lock the same two rows in opposite orders can wait for each other for ever.\<close>

lemma unranked_locks_deadlock:
  assumes "a \<noteq> b"
  shows "\<exists>ss. proceed\<^sup>*\<^sup>* (begin_all [[a, b], [b, a]]) ss \<and> (\<nexists>ss'. proceed ss ss') \<and> (\<forall>s \<in> set ss. s \<noteq> ended)"
proof -
  let ?s0 = "begin_all [[a, b], [b, a]]"
    and ?s1 = "[\<lparr>ses_held = [a], ses_todo = [b]\<rparr>, \<lparr>ses_held = [], ses_todo = [b, a]\<rparr>]"
    and ?s2 = "[\<lparr>ses_held = [a], ses_todo = [b]\<rparr>, \<lparr>ses_held = [b], ses_todo = [a]\<rparr>]"
  have "proceed ?s0 ?s1" using proceed.lock [of 0 ?s0 a "[b]"] by (simp add: begin_all_def taken_def)
  moreover have "proceed ?s1 ?s2" using proceed.lock [of 1 ?s1 b "[a]"] assms by (simp add: taken_def)
  moreover have "\<not> proceed ?s2 ss'" for ss'
  proof
    assume "proceed ?s2 ss'"
    then show False
    proof cases
      case (lock i r rest)
      then have "i = 0 \<or> i = 1" by auto
      then show False using lock by (auto simp: taken_def)
    next
      case (commit i)
      then have "i = 0 \<or> i = 1" by auto
      then show False using commit by auto
    qed
  qed
  moreover have "\<forall>s \<in> set ?s2. s \<noteq> ended" by (simp add: ended_def)
  ultimately show ?thesis by (intro exI [of _ ?s2]) (simp add: converse_rtranclp_into_rtranclp)
qed

end
