(* ===== verification/Domain_Clock.thy ===== *)
theory Domain_Clock
  imports Webhooks
begin

text \<open>
  \<open>crates/domain/src/clock.rs\<close>: the clocks behind every reading of the time. The other theories take the
  time of an operation as an argument; this one models where it comes from. A fixed clock is a cell that its
  clones share, behind a lock that a panic poisons; the operations see through the poison.
\<close>

record clock_cell =
  cl_at :: instant
  cl_poisoned :: bool

text \<open>A fixed clock is the index of its cell; \<open>os\<close> is what the operating system's clock shows.\<close>

datatype clock = SystemClock | FixedClock nat | ArcClock clock

fun clock_now :: "instant \<Rightarrow> clock_cell list \<Rightarrow> clock \<Rightarrow> instant" where
  "clock_now os cells SystemClock = os"
| "clock_now os cells (FixedClock i) = cl_at (cells ! i)"
| "clock_now os cells (ArcClock c) = clock_now os cells c"

definition clock_unix_timestamp :: "instant \<Rightarrow> clock_cell list \<Rightarrow> clock \<Rightarrow> int" where
  "clock_unix_timestamp os cells c = unix_timestamp (clock_now os cells c)"

definition fixed_clock_new :: "instant \<Rightarrow> clock_cell list \<Rightarrow> clock \<times> clock_cell list" where
  "fixed_clock_new at cells = (FixedClock (length cells), cells @ [\<lparr>cl_at = at, cl_poisoned = False\<rparr>])"

definition fixed_clock_frozen_now :: "instant \<Rightarrow> clock_cell list \<Rightarrow> clock \<times> clock_cell list" where
  "fixed_clock_frozen_now os cells = fixed_clock_new os cells"

text \<open>
  Adding a duration panics when the sum is outside the dates that the crate \<open>time\<close> represents
  (\<open>in_range\<close>), with the lock held: the cell keeps its instant and is poisoned. \<^const>\<open>None\<close> is the panic.
\<close>

definition fixed_clock_advance ::
  "(instant \<Rightarrow> bool) \<Rightarrow> nat \<Rightarrow> int \<Rightarrow> clock_cell list \<Rightarrow> unit option \<times> clock_cell list" where
  "fixed_clock_advance in_range i by cells =
     (let cell = cells ! i; t = cl_at cell + by in
      if in_range t then (Some (), cells[i := cell\<lparr>cl_at := t\<rparr>])
      else (None, cells[i := cell\<lparr>cl_poisoned := True\<rparr>]))"

definition fixed_clock_set :: "nat \<Rightarrow> instant \<Rightarrow> clock_cell list \<Rightarrow> clock_cell list" where
  "fixed_clock_set i t cells = cells[i := (cells ! i)\<lparr>cl_at := t\<rparr>]"

section \<open>What a clock shows\<close>

datatype clock_op = Clock_Advance nat int | Clock_Set nat instant

fun clock_op_cell :: "clock_op \<Rightarrow> nat" where
  "clock_op_cell (Clock_Advance i by) = i"
| "clock_op_cell (Clock_Set i t) = i"

fun clock_op_run :: "(instant \<Rightarrow> bool) \<Rightarrow> clock_op \<Rightarrow> clock_cell list \<Rightarrow> clock_cell list" where
  "clock_op_run in_range (Clock_Advance i by) cells = snd (fixed_clock_advance in_range i by cells)"
| "clock_op_run in_range (Clock_Set i t) cells = fixed_clock_set i t cells"

text \<open>One hand on a dial: what an operation means for an instant.\<close>

fun turned :: "(instant \<Rightarrow> bool) \<Rightarrow> clock_op \<Rightarrow> instant \<Rightarrow> instant" where
  "turned in_range (Clock_Advance i by) t = (if in_range (t + by) then t + by else t)"
| "turned in_range (Clock_Set i t') t = t'"

lemma clock_op_length [simp]: "length (clock_op_run in_range a cells) = length cells"
  by (cases a) (simp_all add: fixed_clock_advance_def fixed_clock_set_def Let_def)

lemma clock_op_shows:
  "i < length cells \<Longrightarrow> cl_at (clock_op_run in_range a cells ! i) =
     (if clock_op_cell a = i then turned in_range a (cl_at (cells ! i)) else cl_at (cells ! i))"
  by (cases a) (auto simp: fixed_clock_advance_def fixed_clock_set_def Let_def nth_list_update)

text \<open>
  Whoever turns it, and whatever panics on the way, a fixed clock and everything cloned from it or wrapped
  around it show the instant that the operations on its own cell add up to; an advance out of range leaves it
  where it was, and it goes on working.
\<close>

lemma clones_show_the_same:
  "i < length cells \<Longrightarrow>
     clock_now os (fold (clock_op_run in_range) ops cells) (FixedClock i) =
     fold (turned in_range) (filter (\<lambda>a. clock_op_cell a = i) ops) (clock_now os cells (FixedClock i))"
  by (induction ops arbitrary: cells) (auto simp: clock_op_shows)

lemma advance_panics_iff:
  "fst (fixed_clock_advance in_range i by cells) = None \<longleftrightarrow> \<not> in_range (cl_at (cells ! i) + by)"
  by (simp add: fixed_clock_advance_def Let_def)

lemma new_clock_is_fresh:
  "fixed_clock_new at cells = (c, cells') \<Longrightarrow>
     clock_now os cells' c = at \<and> (\<forall>i < length cells. clock_now os cells' (FixedClock i) = clock_now os cells (FixedClock i))"
  by (auto simp: fixed_clock_new_def nth_append)

end
