(* ===== verification/Domain_Errors.thy ===== *)
theory Domain_Errors
  imports Api_Error
begin

text \<open>
  \<open>crates/domain/src/errors.rs\<close>: the errors of the domain under one roof, and what serde makes of an
  identifier (\<open>id.rs\<close>).
\<close>

section \<open>Identifiers on the wire\<close>

definition id_parse_error_text :: "id_parse_error \<Rightarrow> string" where
  "id_parse_error_text e = (case e of
     WrongPrefix expected got \<Rightarrow> ''expected prefix '' @ quoted (expected @ ''_'') @ '', found '' @ quoted got
   | InvalidUuid \<Rightarrow> ''invalid UUID portion'')"

definition id_serialize :: "ext \<Rightarrow> marker \<Rightarrow> uuid \<Rightarrow> json" where
  "id_serialize X k u = JStr (id_to_string X k u)"

text \<open>\<open>not_a_string\<close> is serde's message for a value of another type.\<close>

definition id_deserialize :: "ext \<Rightarrow> (json \<Rightarrow> string) \<Rightarrow> marker \<Rightarrow> json \<Rightarrow> string + uuid" where
  "id_deserialize X not_a_string k j =
     rbind (ok_or (jas_str j) (not_a_string j)) (\<lambda>s. map_err id_parse_error_text (id_from_str X k s))"

lemma id_serde_roundtrip: "uuid_text_ok X \<Longrightarrow> id_deserialize X f k (id_serialize X k u) = Inr u"
  by (simp add: id_deserialize_def id_serialize_def jas_str_def id_from_own_text)

section \<open>The errors of the domain\<close>

datatype domain_error =
    D_Money money_error
  | D_InvalidOrderTransition invalid_order_transition
  | D_InvalidPaymentTransition invalid_payment_transition
  | D_IdParse id_parse_error
  | D_Validation string string
  | D_NotFound string string

fun domain_error_text :: "domain_error \<Rightarrow> string" where
  "domain_error_text (D_Money e) = money_error_text e"
| "domain_error_text (D_InvalidOrderTransition e) = order_transition_text e"
| "domain_error_text (D_InvalidPaymentTransition e) = payment_transition_text e"
| "domain_error_text (D_IdParse e) = id_parse_error_text e"
| "domain_error_text (D_Validation field reason) = ''validation failed: '' @ field @ '': '' @ reason"
| "domain_error_text (D_NotFound resource i) = resource @ '' not found: '' @ i"

definition domain_validation :: "string \<Rightarrow> string \<Rightarrow> domain_error" where
  "domain_validation field reason = D_Validation field reason"

definition domain_not_found :: "string \<Rightarrow> string \<Rightarrow> domain_error" where
  "domain_not_found resource i = D_NotFound resource i"

end
