(* ===== verification/Passwords.thy ===== *)
theory Passwords
  imports Crypto
begin

text \<open>
  The rest of \<open>crates/crypto\<close>: the Argon2 hash of a secret and its verification (\<open>api_key.rs\<close>), and the
  generation of a master key (\<open>encryption.rs\<close>). Argon2 and its string format are the crate's, and so are the
  salt and the random bytes that the operating system's generator fills in: parameters here.
\<close>

section \<open>Slow hashes\<close>

datatype key_error = Hashing string | MalformedHash string

text \<open>\<open>hash_password\<close> with a salt, \<open>PasswordHash::new\<close> and \<open>verify_password\<close>.\<close>

record 'h argon2 =
  ag_hash :: "string \<Rightarrow> string \<Rightarrow> string + string"
  ag_parse :: "string \<Rightarrow> string + 'h"
  ag_verify :: "string \<Rightarrow> 'h \<Rightarrow> bool"

definition key_hash :: "'h argon2 \<Rightarrow> string \<Rightarrow> string \<Rightarrow> key_error + string" where
  "key_hash A salt plaintext = map_err Hashing (ag_hash A plaintext salt)"

definition key_verify :: "'h argon2 \<Rightarrow> string \<Rightarrow> string \<Rightarrow> key_error + bool" where
  "key_verify A plaintext stored_hash =
     rbind (map_err MalformedHash (ag_parse A stored_hash)) (\<lambda>parsed. Inr (ag_verify A plaintext parsed))"

text \<open>What the crate documents: a hash it made parses, and the password it was made of verifies.\<close>

definition argon2_ok :: "'h argon2 \<Rightarrow> bool" where
  "argon2_ok A \<longleftrightarrow> (\<forall>p s h. ag_hash A p s = Inr h \<longrightarrow> (case ag_parse A h of Inl _ \<Rightarrow> False | Inr q \<Rightarrow> ag_verify A p q))"

lemma hashed_key_verifies: "argon2_ok A \<Longrightarrow> key_hash A salt p = Inr h \<Longrightarrow> key_verify A p h = Inr True"
  unfolding argon2_ok_def key_hash_def key_verify_def
  by (cases "ag_parse A h"; cases "ag_hash A p salt") force+

lemma verify_error_is_malformed:
  "key_verify A p h = Inl e \<longleftrightarrow> (\<exists>m. ag_parse A h = Inl m \<and> e = MalformedHash m)"
  by (cases "ag_parse A h") (auto simp: key_verify_def)

section \<open>Master keys\<close>

definition generate_kek :: "ext \<Rightarrow> string \<Rightarrow> string" where
  "generate_kek X bytes = hex_encode X bytes"

lemma generated_kek_parses:
  "hex_text_ok X \<Longrightarrow> length bytes = 32 \<Longrightarrow> parse_key X (generate_kek X bytes) = Inr bytes"
  by (simp add: parse_key_def generate_kek_def hex_text_ok_def)

end
