(* ===== verification/Api_Wire.thy ===== *)
theory Api_Wire
  imports Api_Properties
begin

text \<open>
  What becomes of the bytes of a request before a handler sees it: the types that the handlers of
  \<open>crates/api/routes\<close> read a body or a query into, with what their derived \<open>Deserialize\<close> accepts, and the
  browser policy of \<open>routes/mod.rs\<close>.

  Reading JSON text is serde_json's, the content type and the form decoding of a query axum's, and so are the
  words of their messages: parameters. What a derived reader accepts follows from the type it is derived for,
  and is written out here: every field by name, in the order of the document, an unknown or repeated one
  refused; an array is read as the fields in their order. The text is parsed whole before it is read, where the
  code does both in one pass: a body with a fault of both kinds is answered as malformed here.
\<close>

section \<open>Values on the wire\<close>

text \<open>A number is an integer or has a fraction or an exponent; the members of an object are as they are written.\<close>

datatype wire =
    W_Null
  | W_Bool bool
  | W_Int int
  | W_Float string
  | W_Str string
  | W_Arr "wire list"
  | W_Obj "(string \<times> wire) list"

datatype de_problem =
    Wrong_Type string
  | Wrong_Value string
  | Missing_Field string
  | Unknown_Field string
  | Duplicate_Field string
  | Wrong_Length nat
  | Trailing

text \<open>A value, or where reading failed and why.\<close>

type_synonym 'a de = "(string list \<times> de_problem) + 'a"

definition de_at :: "string \<Rightarrow> 'a de \<Rightarrow> 'a de" where
  "de_at k r = map_err (\<lambda>(path, e). (k # path, e)) r"

section \<open>Readers\<close>

definition de_int :: "int \<Rightarrow> int \<Rightarrow> wire \<Rightarrow> int de" where
  "de_int lo hi j = (case j of
      W_Int n \<Rightarrow> if lo \<le> n \<and> n \<le> hi then Inr n else Inl ([], Wrong_Value ''integer'')
    | _ \<Rightarrow> Inl ([], Wrong_Type ''integer''))"

abbreviation de_i64 :: "wire \<Rightarrow> int de" where
  "de_i64 \<equiv> de_int i64_min i64_max"

definition de_nat :: "nat \<Rightarrow> wire \<Rightarrow> nat de" where
  "de_nat hi j = rbind (de_int 0 (int hi) j) (\<lambda>n. Inr (nat n))"

definition de_str :: "wire \<Rightarrow> string de" where
  "de_str j = (case j of W_Str s \<Rightarrow> Inr s | _ \<Rightarrow> Inl ([], Wrong_Type ''string''))"

definition de_option :: "(wire \<Rightarrow> 'a de) \<Rightarrow> wire \<Rightarrow> 'a option de" where
  "de_option d j = (if j = W_Null then Inr None else rbind (d j) (\<lambda>a. Inr (Some a)))"

definition de_vec :: "(wire \<Rightarrow> 'a de) \<Rightarrow> wire \<Rightarrow> 'a list de" where
  "de_vec d j = (case j of
      W_Arr xs \<Rightarrow> traverse (\<lambda>(i, x). de_at (''['' @ show_nat i @ '']'') (d x)) (zip [0..<length xs] xs)
    | _ \<Rightarrow> Inl ([], Wrong_Type ''sequence''))"

text \<open>A hash map takes the last of equal keys.\<close>

definition note_put :: "string \<times> string \<Rightarrow> note_map \<Rightarrow> note_map" where
  "note_put kv n = insort_key fst kv (filter (\<lambda>p. fst p \<noteq> fst kv) n)"

definition de_notes :: "wire \<Rightarrow> note_map de" where
  "de_notes j = (case j of
      W_Obj kvs \<Rightarrow> rbind (traverse (\<lambda>(k, v). de_at k (rbind (de_str v) (\<lambda>s. Inr (k, s)))) kvs)
        (\<lambda>ps. Inr (fold note_put ps []))
    | _ \<Rightarrow> Inl ([], Wrong_Type ''map''))"

text \<open>A field: its name, whether it must be there, and what its value must read as.\<close>

record field =
  fd_name :: string
  fd_required :: bool
  fd_check :: "wire \<Rightarrow> unit de"

definition field_of :: "string \<Rightarrow> bool \<Rightarrow> (wire \<Rightarrow> 'a de) \<Rightarrow> field" where
  "field_of k required d = \<lparr>fd_name = k, fd_required = required, fd_check = (\<lambda>j. rbind (d j) (\<lambda>_. Inr ()))\<rparr>"

definition field_named :: "field list \<Rightarrow> string \<Rightarrow> field option" where
  "field_named fs k = find (\<lambda>f. fd_name f = k) fs"

fun de_members :: "field list \<Rightarrow> string list \<Rightarrow> (string \<times> wire) list \<Rightarrow> unit de" where
  "de_members fs seen [] = Inr ()"
| "de_members fs seen ((k, v) # rest) =
     (case field_named fs k of
        None \<Rightarrow> Inl ([], Unknown_Field k)
      | Some f \<Rightarrow>
          if k \<in> set seen then Inl ([], Duplicate_Field k)
          else rbind (de_at k (fd_check f v)) (\<lambda>_. de_members fs (k # seen) rest))"

fun de_elements :: "nat \<Rightarrow> field list \<Rightarrow> wire list \<Rightarrow> (string \<times> wire) list de" where
  "de_elements i [] [] = Inr []"
| "de_elements i [] (x # xs) = Inl ([], Trailing)"
| "de_elements i (f # fs) [] =
     (if fd_required f then Inl ([], Wrong_Length i) else de_elements (Suc i) fs [])"
| "de_elements i (f # fs) (x # xs) =
     rbind (de_at (''['' @ show_nat i @ '']'') (fd_check f x)) (\<lambda>_.
     rbind (de_elements (Suc i) fs xs) (\<lambda>rest. Inr ((fd_name f, x) # rest)))"

text \<open>A derived reader of a struct that refuses unknown fields: the fields that are there, by name.\<close>

definition de_struct :: "field list \<Rightarrow> wire \<Rightarrow> (string \<times> wire) list de" where
  "de_struct fs j = (case j of
      W_Obj kvs \<Rightarrow> rbind (de_members fs [] kvs) (\<lambda>_.
        case find (\<lambda>f. fd_required f \<and> fd_name f \<notin> set (map fst kvs)) fs of
          None \<Rightarrow> Inr kvs | Some f \<Rightarrow> Inl ([], Missing_Field (fd_name f)))
    | W_Arr xs \<Rightarrow> de_elements 0 fs xs
    | _ \<Rightarrow> Inl ([], Wrong_Type ''struct''))"

definition need :: "string \<Rightarrow> (wire \<Rightarrow> 'a de) \<Rightarrow> (string \<times> wire) list \<Rightarrow> 'a de" where
  "need k d m = (case map_of m k of None \<Rightarrow> Inl ([], Missing_Field k) | Some v \<Rightarrow> de_at k (d v))"

definition defaulted :: "string \<Rightarrow> (wire \<Rightarrow> 'a de) \<Rightarrow> 'a \<Rightarrow> (string \<times> wire) list \<Rightarrow> 'a de" where
  "defaulted k d a m = (case map_of m k of None \<Rightarrow> Inr a | Some v \<Rightarrow> de_at k (d v))"

section \<open>The bodies\<close>

definition order_fields :: "field list" where
  "order_fields = [field_of ''amount'' True de_i64, field_of ''currency'' True de_str,
     field_of ''receipt'' False (de_option de_str), field_of ''notes'' False de_notes]"

definition de_order :: "wire \<Rightarrow> create_order_request de" where
  "de_order j =
     rbind (de_struct order_fields j) (\<lambda>m.
     rbind (need ''amount'' de_i64 m) (\<lambda>amount.
     rbind (need ''currency'' de_str m) (\<lambda>currency.
     rbind (defaulted ''receipt'' (de_option de_str) None m) (\<lambda>receipt.
     rbind (defaulted ''notes'' de_notes [] m) (\<lambda>notes.
     Inr \<lparr>oq_amount = amount, oq_currency = currency, oq_receipt = receipt, oq_notes = notes\<rparr>)))))"

record card_request =
  cq_number :: string
  cq_exp_month :: nat
  cq_exp_year :: nat
  cq_cvc :: "string option"

definition card_fields :: "field list" where
  "card_fields = [field_of ''number'' True de_str, field_of ''exp_month'' True (de_nat 255),
     field_of ''exp_year'' True (de_nat 65535), field_of ''cvc'' False (de_option de_str)]"

definition de_card :: "wire \<Rightarrow> card_request de" where
  "de_card j =
     rbind (de_struct card_fields j) (\<lambda>m.
     rbind (need ''number'' de_str m) (\<lambda>number.
     rbind (need ''exp_month'' (de_nat 255) m) (\<lambda>month.
     rbind (need ''exp_year'' (de_nat 65535) m) (\<lambda>year.
     rbind (defaulted ''cvc'' (de_option de_str) None m) (\<lambda>cvc.
     Inr \<lparr>cq_number = number, cq_exp_month = month, cq_exp_year = year, cq_cvc = cvc\<rparr>)))))"

text \<open>The hand-written \<open>Debug\<close>, which shows neither the number nor the verification code.\<close>

definition card_request_debug :: "card_request \<Rightarrow> string" where
  "card_request_debug c =
     ''CardRequest { number: \"[redacted]\", exp_month: '' @ show_nat (cq_exp_month c) @
     '', exp_year: '' @ show_nat (cq_exp_year c) @ '', cvc: '' @
     (case cq_cvc c of None \<Rightarrow> ''None'' | Some _ \<Rightarrow> ''Some(\"[redacted]\")'') @ '' }''"

definition payment_fields :: "field list" where
  "payment_fields = [field_of ''order_id'' True de_str, field_of ''card'' True de_card,
     field_of ''notes'' False de_notes]"

definition de_payment :: "wire \<Rightarrow> create_payment_request de" where
  "de_payment j =
     rbind (de_struct payment_fields j) (\<lambda>m.
     rbind (need ''order_id'' de_str m) (\<lambda>order_id.
     rbind (need ''card'' de_card m) (\<lambda>card.
     rbind (defaulted ''notes'' de_notes [] m) (\<lambda>notes.
     Inr \<lparr>yq_order_id = order_id, yq_number = cq_number card, yq_exp_month = cq_exp_month card,
       yq_exp_year = cq_exp_year card, yq_cvc = cq_cvc card, yq_notes = notes\<rparr>))))"

definition refund_fields :: "field list" where
  "refund_fields = [field_of ''payment_id'' True de_str, field_of ''amount'' False (de_option de_i64),
     field_of ''reason'' False (de_option de_str)]"

definition de_refund :: "wire \<Rightarrow> create_refund_request de" where
  "de_refund j =
     rbind (de_struct refund_fields j) (\<lambda>m.
     rbind (need ''payment_id'' de_str m) (\<lambda>payment_id.
     rbind (defaulted ''amount'' (de_option de_i64) None m) (\<lambda>amount.
     rbind (defaulted ''reason'' (de_option de_str) None m) (\<lambda>reason.
     Inr \<lparr>fq_payment_id = payment_id, fq_amount = amount, fq_reason = reason\<rparr>))))"

definition endpoint_fields_wire :: "field list" where
  "endpoint_fields_wire = [field_of ''url'' True de_str, field_of ''enabled_events'' False (de_vec de_str)]"

definition de_endpoint :: "wire \<Rightarrow> create_endpoint_request de" where
  "de_endpoint j =
     rbind (de_struct endpoint_fields_wire j) (\<lambda>m.
     rbind (need ''url'' de_str m) (\<lambda>url.
     rbind (defaulted ''enabled_events'' (de_vec de_str) [] m) (\<lambda>events.
     Inr \<lparr>wq_url = url, wq_enabled_events = events\<rparr>)))"

section \<open>The queries\<close>

text \<open>The values of a query are text; a number is parsed from it as \<open>str::parse\<close> does.\<close>

definition de_i64_text :: "wire \<Rightarrow> int de" where
  "de_i64_text j = rbind (de_str j) (\<lambda>s. ok_or (parse_i64 s) ([], Wrong_Value ''integer''))"

definition de_some :: "(wire \<Rightarrow> 'a de) \<Rightarrow> wire \<Rightarrow> 'a option de" where
  "de_some d j = rbind (d j) (\<lambda>a. Inr (Some a))"

definition list_fields :: "field list" where
  "list_fields = [field_of ''limit'' False de_i64_text, field_of ''before'' False de_str]"

definition de_list_params :: "wire \<Rightarrow> list_params de" where
  "de_list_params j =
     rbind (de_struct list_fields j) (\<lambda>m.
     rbind (defaulted ''limit'' (de_some de_i64_text) None m) (\<lambda>limit.
     rbind (defaulted ''before'' (de_some de_str) None m) (\<lambda>before.
     Inr \<lparr>lp_limit = limit, lp_before = before\<rparr>)))"

definition de_list_refunds :: "wire \<Rightarrow> string de" where
  "de_list_refunds j =
     rbind (de_struct [field_of ''payment_id'' True de_str] j) (need ''payment_id'' de_str)"

section \<open>The extractors\<close>

text \<open>
  axum's part: whether a content type is JSON, the value of a JSON text, the text of a rejection, the pairs of a
  query and a percent-decoded path segment.
\<close>

record wire_env =
  wv_is_json :: "string option \<Rightarrow> bool"
  wv_parse :: "string \<Rightarrow> wire option"
  wv_text :: "string list \<Rightarrow> de_problem \<Rightarrow> string"
  wv_query :: "api_request \<Rightarrow> (string \<times> string) list"
  wv_query_text :: "string list \<Rightarrow> de_problem \<Rightarrow> string"
  wv_segment :: "string \<Rightarrow> string option"

definition json_body :: "wire_env \<Rightarrow> nat \<Rightarrow> (wire \<Rightarrow> 'a de) \<Rightarrow> api_request \<Rightarrow> json_rejection + 'a" where
  "json_body W limit d req =
     (if \<not> wv_is_json W (map_of (aq_headers req) ''content-type'') then Inl MissingJsonContentType
      else if length (aq_body req) > limit then Inl (BodyRejection 413)
      else case wv_parse W (aq_body req) of
          None \<Rightarrow> Inl JsonSyntaxError
        | Some j \<Rightarrow> map_err (\<lambda>(path, e). if e = Trailing then JsonSyntaxError else JsonDataError (wv_text W path e)) (d j))"

definition query_string :: "wire_env \<Rightarrow> (wire \<Rightarrow> 'a de) \<Rightarrow> api_request \<Rightarrow> string + 'a" where
  "query_string W d req = map_err (\<lambda>(path, e). wv_query_text W path e)
     (d (W_Obj (map (\<lambda>(k, v). (k, W_Str v)) (wv_query W req))))"

definition wire_extractors :: "wire_env \<Rightarrow> api_config \<Rightarrow> extractors" where
  "wire_extractors W cfg = (let limit = cf_max_body_bytes cfg in
     \<lparr>ex_order = json_body W limit de_order, ex_payment = json_body W limit de_payment,
      ex_refund = json_body W limit de_refund, ex_endpoint = json_body W limit de_endpoint,
      ex_list = query_string W de_list_params, ex_refund_list = query_string W de_list_refunds,
      ex_path = wv_segment W\<rparr>)"

section \<open>The browser policy\<close>

text \<open>
  What \<open>cors_layer\<close> configures: any origin without credentials, the methods and request headers a page may
  use, the response headers it may read, and for how many seconds a browser may remember it.
\<close>

record cors_policy =
  co_any_origin :: bool
  co_credentials :: bool
  co_methods :: "string list"
  co_headers :: "string list"
  co_exposed :: "string list"
  co_max_age :: nat

definition cors_layer :: cors_policy where
  "cors_layer = \<lparr>co_any_origin = True, co_credentials = False,
     co_methods = [''GET'', ''POST'', ''DELETE'', ''OPTIONS''],
     co_headers = [''authorization'', ''content-type'', ''idempotency-key'', ''x-request-id''],
     co_exposed = [''x-request-id'', ''idempotent-replayed'', ''retry-after''], co_max_age = 600\<rparr>"

text \<open>A page may call every endpoint there is.\<close>

lemma pages_reach_every_route: "list_all (\<lambda>e. fst e \<in> set (co_methods cors_layer)) (path_table segments)"
  by (simp add: path_table_def cors_layer_def split: list.split)

section \<open>What is accepted\<close>

lemma de_at_Inr [simp]: "de_at k r = Inr a \<longleftrightarrow> r = Inr a"
  by (simp add: de_at_def)

lemma de_int_Inr: "de_int lo hi j = Inr n \<longleftrightarrow> j = W_Int n \<and> lo \<le> n \<and> n \<le> hi"
  by (auto simp: de_int_def split: wire.splits)

lemma de_nat_Inr: "de_nat hi j = Inr n \<longleftrightarrow> j = W_Int (int n) \<and> n \<le> hi"
  by (auto simp: de_nat_def rbind_Inr de_int_Inr)

lemma de_str_Inr: "de_str j = Inr s \<longleftrightarrow> j = W_Str s"
  by (auto simp: de_str_def split: wire.splits)

lemma de_option_Inr:
  "de_option d j = Inr v \<longleftrightarrow> (j = W_Null \<and> v = None) \<or> (j \<noteq> W_Null \<and> (\<exists>a. d j = Inr a \<and> v = Some a))"
  by (auto simp: de_option_def rbind_Inr)

lemmas de_scalars = de_int_Inr de_nat_Inr de_str_Inr de_option_Inr

lemma fd_check_field_of [simp]: "fd_check (field_of k r d) v = Inr u \<longleftrightarrow> (\<exists>a. d v = Inr a)"
  by (auto simp: field_of_def rbind_Inr)

lemma field_of_sel [simp]: "fd_name (field_of k r d) = k" "fd_required (field_of k r d) = r"
  by (simp_all add: field_of_def)

lemma de_members_Inr:
  "de_members fs seen kvs = Inr u \<longleftrightarrow> distinct (map fst kvs) \<and> set (map fst kvs) \<inter> set seen = {} \<and>
     (\<forall>(k, v) \<in> set kvs. \<exists>f. field_named fs k = Some f \<and> fd_check f v = Inr ())"
  by (induction fs seen kvs rule: de_members.induct) (auto simp: rbind_Inr split: option.splits)

lemma de_elements_Inr:
  "de_elements i fs xs = Inr m \<longleftrightarrow> length xs \<le> length fs \<and> m = zip (map fd_name fs) xs \<and>
     (\<forall>(f, x) \<in> set (zip fs xs). fd_check f x = Inr ()) \<and> (\<forall>f \<in> set (drop (length xs) fs). \<not> fd_required f)"
  by (induction i fs xs arbitrary: m rule: de_elements.induct) (auto simp: rbind_Inr)

lemma de_struct_Inr:
  "de_struct fs j = Inr m \<longleftrightarrow>
     (j = W_Obj m \<and> distinct (map fst m) \<and> (\<forall>f \<in> set fs. fd_required f \<longrightarrow> fd_name f \<in> set (map fst m)) \<and>
        (\<forall>(k, v) \<in> set m. \<exists>f. field_named fs k = Some f \<and> fd_check f v = Inr ())) \<or>
     (\<exists>xs. j = W_Arr xs \<and> de_elements 0 fs xs = Inr m)"
  by (auto simp: de_struct_def rbind_Inr de_members_Inr find_None_iff find_Some_iff split: wire.splits option.splits)

lemma need_Inr: "need k d m = Inr a \<longleftrightarrow> (\<exists>v. map_of m k = Some v \<and> d v = Inr a)"
  by (auto simp: need_def split: option.splits)

lemma defaulted_Inr:
  "defaulted k d b m = Inr a \<longleftrightarrow> (case map_of m k of None \<Rightarrow> a = b | Some v \<Rightarrow> d v = Inr a)"
  by (auto simp: defaulted_def split: option.splits)

lemmas de_readers = rbind_Inr need_Inr defaulted_Inr

lemma de_notes_Inr:
  "de_notes j = Inr n \<longleftrightarrow> (\<exists>ps. j = W_Obj (map (\<lambda>(k, s). (k, W_Str s)) ps) \<and> n = fold note_put ps [])"
proof -
  have pairs: "list_all2 (\<lambda>x y. (case x of (k, v) \<Rightarrow> de_at k (rbind (de_str v) (\<lambda>s. Inr (k, s)))) = Inr y) kvs ps \<longleftrightarrow>
      kvs = map (\<lambda>(k, s). (k, W_Str s)) ps" for kvs ps
    by (induction kvs arbitrary: ps) (auto simp: list_all2_Cons1 rbind_Inr de_str_Inr map_eq_Cons_conv Cons_eq_map_conv)
  show ?thesis
    unfolding de_notes_def by (cases j) (simp_all only: wire.case rbind_Inr traverse_Inr pairs, auto)
qed

lemma field_named_simps [simp]:
  "field_named [] k = None"
  "field_named (field_of k' r d # fs) k = (if k' = k then Some (field_of k' r d) else field_named fs k)"
  by (simp_all add: field_named_def)

text \<open>The four fields of an order, read off the members that are there.\<close>

definition order_names :: "string list" where
  "order_names = [''amount'', ''currency'', ''receipt'', ''notes'']"

definition order_reads :: "(string \<times> wire) list \<Rightarrow> create_order_request \<Rightarrow> bool" where
  "order_reads m q \<longleftrightarrow>
     map_of m ''amount'' = Some (W_Int (oq_amount q)) \<and> in_i64 (oq_amount q) \<and>
     map_of m ''currency'' = Some (W_Str (oq_currency q)) \<and>
     (case map_of m ''receipt'' of None \<Rightarrow> oq_receipt q = None
      | Some v \<Rightarrow> v = (case oq_receipt q of None \<Rightarrow> W_Null | Some s \<Rightarrow> W_Str s)) \<and>
     (case map_of m ''notes'' of None \<Rightarrow> oq_notes q = []
      | Some v \<Rightarrow> (\<exists>ps. v = W_Obj (map (\<lambda>(k, s). (k, W_Str s)) ps) \<and> oq_notes q = fold note_put ps []))"

lemma order_fields_read:
  "(\<exists>amount currency receipt notes.
      need ''amount'' de_i64 m = Inr amount \<and> need ''currency'' de_str m = Inr currency \<and>
      defaulted ''receipt'' (de_option de_str) None m = Inr receipt \<and> defaulted ''notes'' de_notes [] m = Inr notes \<and>
      q = \<lparr>oq_amount = amount, oq_currency = currency, oq_receipt = receipt, oq_notes = notes\<rparr>) \<longleftrightarrow> order_reads m q"
proof -
  have opt: "de_option de_str v = Inr r \<longleftrightarrow> v = (case r of None \<Rightarrow> W_Null | Some s \<Rightarrow> W_Str s)" for v r
    by (auto simp: de_option_Inr de_str_Inr split: option.splits)
  show ?thesis
    by (cases q) (auto simp: order_reads_def need_Inr defaulted_Inr de_int_Inr de_str_Inr de_notes_Inr opt in_i64_def
        split: option.splits)
qed

lemma order_field_named:
  "field_named order_fields ''amount'' = Some (field_of ''amount'' True de_i64)"
  "field_named order_fields ''currency'' = Some (field_of ''currency'' True de_str)"
  "field_named order_fields ''receipt'' = Some (field_of ''receipt'' False (de_option de_str))"
  "field_named order_fields ''notes'' = Some (field_of ''notes'' False de_notes)"
  by (simp_all add: order_fields_def)

lemma order_field_reads:
  assumes "order_reads m q" and "map_of m k = Some v" and "k \<in> set order_names"
  shows "\<exists>f. field_named order_fields k = Some f \<and> fd_check f v = Inr ()"
proof -
  consider "k = ''amount''" | "k = ''currency''" | "k = ''receipt''" | "k = ''notes''"
    using assms(3) by (auto simp: order_names_def)
  then show ?thesis
  proof cases
    case 1
    then show ?thesis using assms(1,2) unfolding 1 order_field_named
      by (simp add: order_reads_def de_int_Inr in_i64_def)
  next
    case 2
    then show ?thesis using assms(1,2) unfolding 2 order_field_named by (simp add: order_reads_def de_str_Inr)
  next
    case 3
    then show ?thesis using assms(1,2) unfolding 3 order_field_named
      by (auto simp: order_reads_def de_option_Inr de_str_Inr split: option.splits)
  next
    case 4
    then show ?thesis using assms(1,2) unfolding 4 order_field_named by (auto simp: order_reads_def de_notes_Inr)
  qed
qed

lemma de_order_struct: "de_order j = Inr q \<longleftrightarrow> (\<exists>m. de_struct order_fields j = Inr m \<and> order_reads m q)"
  unfolding de_order_def rbind_Inr order_fields_read [symmetric] by blast

lemma order_object:
  assumes "order_reads m q"
  shows "distinct (map fst m) \<and> (\<forall>f \<in> set order_fields. fd_required f \<longrightarrow> fd_name f \<in> set (map fst m)) \<and>
      (\<forall>(k, v) \<in> set m. \<exists>f. field_named order_fields k = Some f \<and> fd_check f v = Inr ()) \<longleftrightarrow>
    distinct (map fst m) \<and> set (map fst m) \<subseteq> set order_names"
proof -
  have present: "''amount'' \<in> fst ` set m" "''currency'' \<in> fst ` set m"
    using assms unfolding order_reads_def by (force dest: map_of_SomeD)+
  then have required: "\<forall>f \<in> set order_fields. fd_required f \<longrightarrow> fd_name f \<in> set (map fst m)"
    by (simp add: order_fields_def)
  have "k \<in> set order_names" if "field_named order_fields k = Some f" for k f
    using that by (simp add: order_fields_def order_names_def split: if_splits)
  moreover have "\<exists>f. field_named order_fields k = Some f \<and> fd_check f v = Inr ()"
    if "distinct (map fst m)" "set (map fst m) \<subseteq> set order_names" "(k, v) \<in> set m" for k v
    by (rule order_field_reads [OF assms map_of_is_SomeI [OF that(1,3)]]) (use that in force)
  ultimately show ?thesis using required by fastforce
qed

lemma order_field_self: "\<forall>f \<in> set order_fields. field_named order_fields (fd_name f) = Some f"
  by (simp add: order_fields_def)

lemma order_array:
  assumes "order_reads (zip order_names xs) q"
  shows "de_elements 0 order_fields xs = Inr m \<longleftrightarrow> length xs \<le> 4 \<and> m = zip order_names xs"
proof -
  have names: "map fd_name order_fields = order_names" "distinct order_names" "length order_fields = 4"
    by (simp_all add: order_fields_def order_names_def)
  have "fd_check f x = Inr ()" if fx: "(f, x) \<in> set (zip order_fields xs)" for f x
  proof -
    have "(fd_name f, x) \<in> set (zip order_names xs)"
      using fx unfolding names(1) [symmetric] zip_map1 by force
    moreover have "distinct (map fst (zip order_names xs))" using names(2) by (simp add: distinct_take map_fst_zip_take)
    ultimately have at: "map_of (zip order_names xs) (fd_name f) = Some x" by (rule map_of_is_SomeI [rotated])
    have f: "f \<in> set order_fields" using fx by (rule set_zip_leftD)
    then have "fd_name f \<in> set order_names" by (simp flip: names(1))
    from order_field_reads [OF assms at this] obtain f'
      where f': "field_named order_fields (fd_name f) = Some f'" "fd_check f' x = Inr ()" by (elim exE conjE)
    have "field_named order_fields (fd_name f) = Some f" using order_field_self f by (rule bspec)
    then show ?thesis using f' by (simp only: option.inject)
  qed
  moreover have "\<not> fd_required f" if "f \<in> set (drop (length xs) order_fields)" for f
  proof -
    have "2 \<le> length xs"
      using assms by (cases xs; cases "tl xs") (auto simp: order_reads_def order_names_def)
    then have "f \<in> set (drop 2 order_fields)"
      by (rule subsetD [OF set_drop_subset_set_drop that])
    then show ?thesis by (auto simp: order_fields_def)
  qed
  ultimately show ?thesis unfolding de_elements_Inr names(1,3) by blast
qed

text \<open>
  C24. What body makes an order. An object does exactly when each of its members is one of the four fields and
  none is there twice, the amount is an integer of 64 bits, the currency a text, the receipt a text or null and
  the notes an object of texts, the last two being optional: a misspelt field is never ignored. So does an array
  of two to four values, read as the same fields by position; nothing else does.
\<close>
theorem order_body_reads:
  "de_order j = Inr q \<longleftrightarrow>
     (\<exists>m. order_reads m q \<and>
        (j = W_Obj m \<and> distinct (map fst m) \<and> set (map fst m) \<subseteq> set order_names \<or>
         (\<exists>xs. j = W_Arr xs \<and> length xs \<le> 4 \<and> m = zip order_names xs)))"
proof -
  have "de_struct order_fields j = Inr m \<and> order_reads m q \<longleftrightarrow> order_reads m q \<and>
      (j = W_Obj m \<and> distinct (map fst m) \<and> set (map fst m) \<subseteq> set order_names \<or>
       (\<exists>xs. j = W_Arr xs \<and> length xs \<le> 4 \<and> m = zip order_names xs))" for m
  proof (cases "order_reads m q")
    case True
    have "map fd_name order_fields = order_names" "length order_fields = 4"
      by (simp_all add: order_fields_def order_names_def)
    then have arr: "de_elements 0 order_fields xs = Inr m \<longleftrightarrow> length xs \<le> 4 \<and> m = zip order_names xs" for xs
      using True order_array [of xs q m] de_elements_Inr [of 0 order_fields xs m] by metis
    show ?thesis using True order_object [OF True] unfolding de_struct_Inr arr by blast
  qed simp
  then show ?thesis unfolding de_order_struct by blast
qed

section \<open>The server from its bytes\<close>

lemma json_body_Inr:
  "json_body W limit d req = Inr a \<longleftrightarrow> wv_is_json W (map_of (aq_headers req) ''content-type'') \<and>
     length (aq_body req) \<le> limit \<and> (\<exists>j. wv_parse W (aq_body req) = Some j \<and> d j = Inr a)"
  by (auto simp: json_body_def split: option.splits)

lemma wire_extractors_sel [simp]:
  "ex_order (wire_extractors W cfg) = json_body W (cf_max_body_bytes cfg) de_order"
  "ex_payment (wire_extractors W cfg) = json_body W (cf_max_body_bytes cfg) de_payment"
  "ex_refund (wire_extractors W cfg) = json_body W (cf_max_body_bytes cfg) de_refund"
  "ex_endpoint (wire_extractors W cfg) = json_body W (cf_max_body_bytes cfg) de_endpoint"
  by (simp_all add: wire_extractors_def Let_def)

lemma card_numbers_fit: "de_card j = Inr c \<Longrightarrow> cq_exp_month c < 256 \<and> cq_exp_year c < 65536"
  by (auto simp: de_card_def de_readers de_nat_Inr)

lemma payment_numbers_fit: "de_payment j = Inr p \<Longrightarrow> yq_exp_month p < 256 \<and> yq_exp_year p < 65536"
  by (auto simp: de_payment_def de_readers dest!: card_numbers_fit)

lemma card_debug_tells_nothing:
  "cq_exp_month a = cq_exp_month b \<Longrightarrow> cq_exp_year a = cq_exp_year b \<Longrightarrow> (cq_cvc a = None) = (cq_cvc b = None) \<Longrightarrow>
     card_request_debug a = card_request_debug b"
  by (auto simp: card_request_debug_def split: option.splits)

text \<open>A small wire: every body is read as the same value.\<close>

definition demo_wire :: "wire \<Rightarrow> wire_env" where
  "demo_wire j = \<lparr>wv_is_json = (\<lambda>_. True), wv_parse = (\<lambda>_. Some j), wv_text = (\<lambda>_ _. ''bad''), wv_query = (\<lambda>_. []),
     wv_query_text = (\<lambda>_ _. ''bad''), wv_segment = Some\<rparr>"

section \<open>Misspelt bodies\<close>

fun body_fields :: "call \<Rightarrow> field list" where
  "body_fields Orders_Create = order_fields"
| "body_fields Payments_Create = payment_fields"
| "body_fields Refunds_Create = refund_fields"
| "body_fields Endpoints_Create = endpoint_fields_wire"
| "body_fields _ = []"

definition well_spelt :: "field list \<Rightarrow> (string \<times> wire) list \<Rightarrow> bool" where
  "well_spelt fs kvs \<longleftrightarrow> distinct (map fst kvs) \<and> list_all (\<lambda>k. field_named fs k \<noteq> None) (map fst kvs)"

lemma de_struct_well_spelt: "de_struct fs (W_Obj kvs) = Inr m \<Longrightarrow> well_spelt fs kvs"
  by (auto simp: de_struct_Inr well_spelt_def list_all_iff)

lemma bodies_well_spelt:
  "de_order (W_Obj kvs) = Inr q \<Longrightarrow> well_spelt order_fields kvs"
  "de_payment (W_Obj kvs) = Inr y \<Longrightarrow> well_spelt payment_fields kvs"
  "de_refund (W_Obj kvs) = Inr f \<Longrightarrow> well_spelt refund_fields kvs"
  "de_endpoint (W_Obj kvs) = Inr e \<Longrightarrow> well_spelt endpoint_fields_wire kvs"
  unfolding de_order_def de_payment_def de_refund_def de_endpoint_def rbind_Inr
  by (elim exE conjE, erule de_struct_well_spelt)+

lemma json_rejection_status: "ae_status (from_json_rejection r) \<in> {400, 413, 415}"
  by (cases r) (auto simp: from_json_rejection_def Let_def api_error_fields)

lemma refused_body:
  assumes "wv_parse W (aq_body req) = Some j" and "\<And>a. d j = Inr a \<Longrightarrow> False"
  shows "\<exists>e. tbind (tlift (from_json (json_body W limit d req))) k st = (Inl (from_json_rejection e), st)"
proof -
  obtain e where "json_body W limit d req = Inl e"
    using assms by (cases "json_body W limit d req") (auto simp: json_body_Inr)
  then show ?thesis by (auto simp: from_json_def tbind_def)
qed

lemma misspelt_route:
  assumes "call_of req = Inr c" and "c \<in> {Orders_Create, Payments_Create, Refunds_Create, Endpoints_Create}"
    and "wv_parse W (aq_body req) = Some (W_Obj kvs)" and "\<not> well_spelt (body_fields c) kvs"
  shows "\<exists>r. route (wire_extractors W cfg) H env auth req st = (Done r, st) \<and> rp_status r \<in> {400, 413, 415}"
proof -
  have "\<exists>e. run_call_of (wire_extractors W cfg) H' auth req c st = (Inl (from_json_rejection e), st)" for H'
  proof -
    note refused = refused_body [OF assms(3)] and spelt = bodies_well_spelt [of kvs]
    consider "c = Orders_Create" | "c = Payments_Create" | "c = Refunds_Create" | "c = Endpoints_Create"
      using assms(2) by blast
    then show ?thesis
    proof cases
      case 1
      then show ?thesis using assms(4) spelt(1) by (simp add: run_call_of_def) (rule refused, blast)
    next
      case 2
      then show ?thesis using assms(4) spelt(2) by (simp add: run_call_of_def) (rule refused, blast)
    next
      case 3
      then show ?thesis using assms(4) spelt(3) by (simp add: run_call_of_def) (rule refused, blast)
    next
      case 4
      then show ?thesis using assms(4) spelt(4) by (simp add: run_call_of_def) (rule refused, blast)
    qed
  qed
  then obtain e where "run_call_of (wire_extractors W cfg) (H\<lparr>he_env := env\<rparr>) auth req c st = (Inl (from_json_rejection e), st)"
    by blast
  then show ?thesis
    using json_rejection_status [of e] by (simp add: route_def assms(1) tbind_def)
qed

text \<open>
  What the layers add to a route that changes nothing: of the tables, the row of the request's own idempotency key.
\<close>

definition own_key :: "uuid \<Rightarrow> string option \<Rightarrow> idem_row \<Rightarrow> bool" where
  "own_key m k r \<longleftrightarrow> ir_merchant_id r = m \<and> k = Some (ir_key r)"

definition same_but_key :: "uuid \<Rightarrow> string option \<Rightarrow> db \<Rightarrow> db \<Rightarrow> bool" where
  "same_but_key m k w w' \<longleftrightarrow> (\<exists>rows. w' = w\<lparr>db_idem := rows\<rparr> \<and>
     filter (\<lambda>r. \<not> own_key m k r) rows = filter (\<lambda>r. \<not> own_key m k r) (db_idem w))"

lemma same_but_keyI:
  "filter (\<lambda>r. \<not> own_key m k r) rows = filter (\<lambda>r. \<not> own_key m k r) (db_idem w) \<Longrightarrow> same_but_key m k w (w\<lparr>db_idem := rows\<rparr>)"
  by (auto simp: same_but_key_def)

lemma same_but_key_refl [simp]: "same_but_key m k w w"
  using same_but_keyI [of m k "db_idem w" w] by simp

lemma same_but_key_trans: "same_but_key m k w w' \<Longrightarrow> same_but_key m k w' w'' \<Longrightarrow> same_but_key m k w w''"
  by (auto simp: same_but_key_def)

lemma same_but_key_calls:
  "acquire X m k ep h ex now w = (r, w') \<Longrightarrow> same_but_key m (Some k) w w'"
  "idem_complete m k s b w = (u, w') \<Longrightarrow> same_but_key m (Some k) w w'"
  "idem_release m k w = (u, w') \<Longrightarrow> same_but_key m (Some k) w w'"
proof -
  have "filter (\<lambda>r. \<not> own_key m (Some k) r) (map (\<lambda>r. if same_key m k r then f r else r) rs) = filter (\<lambda>r. \<not> own_key m (Some k) r) rs"
    if "\<And>r. ir_merchant_id (f r) = ir_merchant_id r \<and> ir_key (f r) = ir_key r" for f rs
    by (induction rs) (auto simp: own_key_def same_key_def that)
  then show "idem_complete m k s b w = (u, w') \<Longrightarrow> same_but_key m (Some k) w w'"
    by (auto simp: idem_complete_def modify_def intro: same_but_keyI)
  show "idem_release m k w = (u, w') \<Longrightarrow> same_but_key m (Some k) w w'"
    by (auto simp: idem_release_def modify_def intro!: same_but_keyI)
      (rule filter_cong [OF refl], auto simp: own_key_def same_key_def)
  show "acquire X m k ep h ex now w = (r, w') \<Longrightarrow> same_but_key m (Some k) w w'"
    by (auto simp: acquire_def own_key_def new_idem_row_def split: if_splits sum.splits option.splits intro!: same_but_keyI)
qed

lemma record_response_key:
  "same_but_key (ac_merchant_id ctx) (Some k) (as_db st) (as_db (snd (record_response parse links cfg ctx k r st)))"
proof -
  have "same_but_key (ac_merchant_id ctx) (Some k) w (snd (idem_complete (ac_merchant_id ctx) k s b w))"
    "same_but_key (ac_merchant_id ctx) (Some k) w (snd (idem_release (ac_merchant_id ctx) k w))" for s b w
    using same_but_key_calls(2,3) by (metis prod.collapse)+
  then show ?thesis
    by (auto simp: record_response_def release_key_def over_link_def case_prod_beta split: option.split)
qed

lemma idle_enforce:
  assumes idle: "\<And>st. \<exists>r. next_layer req st = (Done r, st) \<and> rp_status r \<in> S"
    and m_def: "m = ac_merchant_id ctx" and k_def: "k = header_value (aq_headers req)"
  shows "same_but_key m k (as_db st) (as_db (snd (idempotency_enforce X parse links cfg env (Some ctx) next_layer req st)))"
    and "k = None \<Longrightarrow> \<exists>r. idempotency_enforce X parse links cfg env (Some ctx) next_layer req st = (Done r, st) \<and> rp_status r \<in> S"
proof -
  have plain: "\<exists>r. idempotency_enforce X parse links cfg env (Some ctx) next_layer req st = (Done r, st) \<and> rp_status r \<in> S"
    if "\<not> is_mutating (aq_method req) \<or> k = None"
    using that idle [of st] by (auto simp: idempotency_enforce_def idempotency_guarded_def k_def)
  then show "k = None \<Longrightarrow> \<exists>r. idempotency_enforce X parse links cfg env (Some ctx) next_layer req st = (Done r, st) \<and> rp_status r \<in> S"
    by blast
  show "same_but_key m k (as_db st) (as_db (snd (idempotency_enforce X parse links cfg env (Some ctx) next_layer req st)))"
  proof (cases "\<not> is_mutating (aq_method req) \<or> k = None")
    case True
    then show ?thesis using plain by auto
  next
    case False
    then obtain raw where k: "k = Some raw" and mutating: "is_mutating (aq_method req)" by auto
    have acq: "same_but_key m (Some raw) (as_db st) (as_db s)" if "over_link l (acquire X m raw ep h ex now) st = (r, s)" for l ep h ex now r s
      using that same_but_key_calls(1) [of X m raw ep h ex now "as_db st"]
      by (auto simp: over_link_def split: option.splits prod.splits)
    have rec: "same_but_key m (Some raw) (as_db st) (as_db s')"
      if "record_response parse links cfg ctx raw r s = (r', s')" "same_but_key m (Some raw) (as_db st) (as_db s)" for s r r' s'
      using same_but_key_trans [OF that(2)] record_response_key [of ctx raw s parse links cfg r] that(1) by (simp add: m_def)
    have key: "idempotency_key raw = Inr key \<Longrightarrow> key = raw" for key by (simp add: idempotency_key_def split: if_splits)
    have same: "req\<lparr>aq_body := aq_body req\<rparr> = req" by simp
    have still: "next_layer req s = (f, s') \<Longrightarrow> s' = s" for s f s' using idle [of s] by auto
    show ?thesis
      using mutating k
      by (auto simp: idempotency_enforce_def idempotency_guarded_def Let_def buffer_def m_def [symmetric] k_def [symmetric] same
          split: prod.splits sum.splits fate.splits acquire_outcome.splits if_splits dest!: key still intro: rec acq)
  qed
qed



end
