(* ===== verification/Api_Readback.thy ===== *)
theory Api_Readback
  imports Api_Properties Engine_Gateway Domain_Errors
begin

text \<open>
  The handlers that create and the handlers that read, together: what a merchant is told about a resource when
  it is created is what it reads under the identifier of the reply.

  The columns of the database keep instants to the microsecond and the clock of the server ticks in
  nanoseconds; the model stores instants as they are. The comparison therefore leaves the members that are
  instants out.
\<close>

definition without_times :: "json \<Rightarrow> json" where
  "without_times j = (case j of
      JObj kvs \<Rightarrow> JObj (filter (\<lambda>kv. fst kv \<notin> set [''created_at'', ''captured_at'', ''processed_at'']) kvs)
    | _ \<Rightarrow> j)"

text \<open>A handler for one resource reads back a reply: by the \<open>id\<close> in it, and without a change to the state.\<close>

definition reads_back :: "(string \<Rightarrow> (nat \<times> json) handler_tx) \<Rightarrow> json \<Rightarrow> api_state \<Rightarrow> bool" where
  "reads_back retrieve j st = (case Option.bind (jget ''id'' j) jas_str of
      None \<Rightarrow> False
    | Some i \<Rightarrow> (case retrieve i st of
          (Inr (status, j'), st') \<Rightarrow> status = 200 \<and> without_times j' = without_times j \<and> st' = st
        | _ \<Rightarrow> False))"

lemma engine_read_ok: "m (as_db st) = (Inr a, as_db st) \<Longrightarrow> on_engine m st = (Inr a, st)"
  by (simp add: on_engine_def)

lemma engine_returned: "on_engine m st = (Inr a, st') \<Longrightarrow> m (as_db st) = (Inr a, as_db st')"
  by (auto simp: on_engine_def split: prod.splits)

text \<open>Every handler for one resource has this shape.\<close>

lemma retrieved:
  assumes "uuid_text_ok X" and "scope_contains (ac_scopes auth) s"
    and "get_by i (as_db st) = (Inr d, as_db st)"
  shows "tbind (tlift (require_scope auth s)) (\<lambda>_.
     tbind (tlift (parse_id X k what (id_to_string X k i))) (\<lambda>i.
     tbind (on_engine (get_by i)) (\<lambda>d. treturn (200, render d)))) st = (Inr (200, render d), st)"
proof -
  have "require_scope auth s = Inr ()" using assms(2) by simp
  moreover have "parse_id X k what (id_to_string X k i) = Inr i"
    by (simp add: parse_id_def id_from_own_text [OF assms(1)])
  ultimately show ?thesis by (simp del: require_scope_ok add: tbind_def engine_read_ok [where m = "get_by i", OF assms(3)])
qed

lemma json_ids:
  "jget ''id'' (order_json X q) = Some (JStr (id_to_string X OrderMarker (o_id q)))"
  "jget ''id'' (payment_json X p) = Some (JStr (id_to_string X PaymentMarker (p_id p)))"
  "jget ''id'' (refund_json X r) = Some (JStr (id_to_string X RefundMarker (re_id r)))"
  by (simp_all add: order_json_def payment_json_def refund_json_def jget_jobject)

lemma reads_backI:
  assumes "jget ''id'' j = Some (JStr i)" and "retrieve i st = (Inr (200, j), st)"
  shows "reads_back retrieve j st"
  using assms by (simp add: reads_back_def jas_str_def)

section \<open>The three resources\<close>

lemma order_reads_back:
  assumes "orders_create H auth req st = (Inr (s, j), st')" and "uuid_text_ok (he_ext H)" and "he_ext H' = he_ext H"
    and "ac_merchant_id auth' = ac_merchant_id auth" and "scope_contains (ac_scopes auth') OrdersRead"
  shows "s = 201 \<and> reads_back (orders_retrieve H' auth') j st'"
proof -
  obtain inp q now where mk: "order_create (he_ext H) (ac_merchant_id auth) inp now (as_db st) = (Inr q, as_db st')"
    and j: "s = 201" "j = order_json (he_ext H) q"
    using assms(1) by (auto simp: orders_create_def tbind_Inr dest!: engine_returned)
  note new = order_create_Inr [OF mk]
  have "fetch_row ''order'' or_id (order_into_domain (he_ext H)) (o_id q) (db_orders (as_db st')) = Inr q"
    using order_rows.fetch_inserted [of q "db_orders (as_db st)"] new by simp
  then have "order_get (he_ext H) (ac_merchant_id auth') (o_id q) (as_db st') = (Inr q, as_db st')"
    using new assms(4) by (simp add: order_get_def tbind_def order_find_by_id_def store_query)
  from retrieved [where get_by = "order_get (he_ext H) (ac_merchant_id auth')", OF assms(2,5) this]
  have "orders_retrieve H' auth' (id_to_string (he_ext H) OrderMarker (o_id q)) st' = (Inr (200, j), st')"
    by (simp add: orders_retrieve_def assms(3) j)
  with j show ?thesis by (auto intro: reads_backI json_ids)
qed

lemma order_get_keeps: "order_get X m i w = (Inr q, w') \<Longrightarrow> w' = w"
  by (auto simp: order_get_def tbind_Inr order_find_by_id_def split: if_splits)

lemma payment_create_run:
  "payment_create X pepper m inp d now w = (Inr p, w') \<Longrightarrow> \<exists>eps. payment_create_tx X pepper m inp d eps now w = (Inr p, w')"
  by (auto simp: payment_create_def after_endpoints run_tx_Inr)

lemma payment_reads_back:
  assumes "payments_create H auth req st = (Inr (s, j), st')" and "uuid_text_ok (he_ext H)" and "he_ext H' = he_ext H"
    and "ac_merchant_id auth' = ac_merchant_id auth" and "scope_contains (ac_scopes auth') PaymentsRead"
    and "engine_inv (as_db st)" and year: "yq_exp_year req < 32768"
  shows "s = 201 \<and> reads_back (payments_retrieve H' auth') j st'"
proof -
  let ?inp = "\<lambda>i. \<lparr>cp_order_id = i, cp_card_number = yq_number req, cp_exp_month = yq_exp_month req,
       cp_exp_year = yq_exp_year req, cp_notes = yq_notes req\<rparr>"
  obtain st1 i q d p where steps: "on_engine (order_get (he_ext H) (ac_merchant_id auth) i) st = (Inr q, st1)"
    "on_engine (payment_create (he_ext H) (he_pepper H) (ac_merchant_id auth) (?inp i)
       (map_decision d) (en_now (he_env H))) st1 = (Inr p, st')"
    and j: "s = 201" "j = payment_json (he_ext H) p"
    using assms(1) by (auto simp: payments_create_def tbind_Inr split: if_splits)
  note q = engine_returned [OF steps(1)] and mk = engine_returned [OF steps(2)]
  have st1: "as_db st1 = as_db st" by (rule order_get_keeps [OF q])
  obtain eps where tx: "payment_create_tx (he_ext H) (he_pepper H) (ac_merchant_id auth) (?inp i) (map_decision d) eps (en_now (he_env H)) (as_db st) = (Inr p, as_db st')"
    using payment_create_run [OF mk] by (auto simp: st1)
  obtain details where rows: "db_payments (as_db st') = db_payments (as_db st) @ [payment_to_row p]"
    "p_id p \<notin> pr_id ` set (db_payments (as_db st))" "p_merchant_id p = ac_merchant_id auth"
    and card: "p_card p = Some details" "exp_month details \<le> 12" "exp_year details = yq_exp_year req"
    using payment_create_tx_rows [OF tx assms(6)] by (metis create_payment_input.select_convs(4))
  have "fetch_row ''payment'' pr_id (payment_into_domain (he_ext H)) (p_id p) (db_payments (as_db st')) = Inr p"
    unfolding rows(1) by (rule payment_rows.fetch_inserted) (use card year rows in \<open>simp_all add: card_storable_def\<close>)
  then have "payment_get (he_ext H) (ac_merchant_id auth') (p_id p) (as_db st') = (Inr p, as_db st')"
    using rows assms(4) by (simp add: payment_get_def tbind_def payment_find_by_id_def store_query)
  from retrieved [where get_by = "payment_get (he_ext H) (ac_merchant_id auth')", OF assms(2,5) this]
  have "payments_retrieve H' auth' (id_to_string (he_ext H) PaymentMarker (p_id p)) st' = (Inr (200, j), st')"
    by (simp add: payments_retrieve_def assms(3) j)
  with j show ?thesis by (auto intro: reads_backI json_ids)
qed

lemma refund_tx_row:
  assumes "refund_create_tx X m inp eps now w = (Inr rf, w')" and "engine_inv w"
  shows "db_refunds w' = db_refunds w @ [refund_to_row rf] \<and> re_id rf \<notin> rr_id ` set (db_refunds w) \<and> re_merchant_id rf = m"
  using assms
proof (rule refund_create_tx_steps)
  fix p :: payment and r :: payment_row and fee :: fee_refund and v w1 w2 w3 j ev
  assume rf: "rf = \<lparr>re_id = now_v7 X (uuid_calls w), re_payment_id = p_id p, re_merchant_id = m,
       re_amount = money_new v (curr (p_amount p)), re_reason = cr_reason inp, re_status = Ref_Processed,
       re_created_at = now, re_processed_at = Some now\<rparr>"
    and ins: "refund_insert X rf (w\<lparr>uuid_calls := Suc (uuid_calls w)\<rparr>) = (Inr (), w1)"
    and post: "post_refund X m (money_new v (curr (p_amount p))) fee (re_id rf) now w1 = (Inr (), w2)"
    and upd: "payment_update_status X (p_id p)
       (if p_amount_refunded p + v \<ge> minor (p_amount p) then Pay_Refunded else Pay_Captured)
       (p_captured_at p) (p_amount_refunded p + v) None None w2 = (Inr (), w3)"
    and em: "emit X eps m ''refund.processed'' j now w3 = (Inr ev, w')"
  have "rr_id (refund_to_row rf) = re_id rf" by (simp add: refund_to_row_def)
  then show ?thesis using refund_tail [OF ins post upd em] rf by auto
qed

lemma refund_reads_back:
  assumes "refunds_create H auth req st = (Inr (s, j), st')" and "uuid_text_ok (he_ext H)" and "he_ext H' = he_ext H"
    and "ac_merchant_id auth' = ac_merchant_id auth" and "scope_contains (ac_scopes auth') PaymentsRead"
    and "engine_inv (as_db st)"
  shows "s = 201 \<and> reads_back (refunds_retrieve H' auth') j st'"
proof -
  obtain inp now rf where mk: "refund_create (he_ext H) (ac_merchant_id auth) inp now (as_db st) = (Inr rf, as_db st')"
    and j: "s = 201" "j = refund_json (he_ext H) rf"
    using assms(1) by (auto simp: refunds_create_def tbind_Inr dest!: engine_returned)
  obtain eps where "refund_create_tx (he_ext H) (ac_merchant_id auth) inp eps now (as_db st) = (Inr rf, as_db st')"
    using refund_create_run [OF mk] by blast
  note new = refund_tx_row [OF this assms(6)]
  have "fetch_row ''refund'' rr_id refund_into_domain (re_id rf) (db_refunds (as_db st')) = Inr rf"
    using refund_rows.fetch_inserted [of rf "db_refunds (as_db st)"] new by simp
  then have "refund_get (he_ext H) (ac_merchant_id auth') (re_id rf) (as_db st') = (Inr rf, as_db st')"
    using new assms(4) by (simp add: refund_get_def tbind_def refund_find_by_id_def store_query)
  from retrieved [where get_by = "refund_get (he_ext H) (ac_merchant_id auth')", OF assms(2,5) this]
  have "refunds_retrieve H' auth' (id_to_string (he_ext H) RefundMarker (re_id rf)) st' = (Inr (200, j), st')"
    by (simp add: refunds_retrieve_def assms(3) j)
  with j show ?thesis by (auto intro: reads_backI json_ids)
qed

text \<open>
  C16. What a merchant creates it can read. After a reply 201 to an order, a payment or a refund, the handler for
  one resource, asked for the \<open>id\<close> in the reply by any key of the same merchant with the scope to read it,
  answers 200 with the same body, instants apart (the database keeps them to the microsecond only), and changes
  nothing. Of a payment this needs a card that expires before the year 32768: the column is signed.
\<close>
theorem created_resources_read_back:
  assumes "uuid_text_ok (he_ext H)" and "fresh_books w0" and "engine_reachable (he_ext H) w0 (as_db st)"
    and "he_ext H' = he_ext H" and "ac_merchant_id reader = ac_merchant_id auth"
    and "scope_contains (ac_scopes reader) OrdersRead" and "scope_contains (ac_scopes reader) PaymentsRead"
  shows "(orders_create H auth oq st = (Inr (s, j), st') \<longrightarrow>
      s = 201 \<and> reads_back (orders_retrieve H' reader) j st') \<and>
    (payments_create H auth yq st = (Inr (s, j), st') \<and> yq_exp_year yq < 32768 \<longrightarrow>
      s = 201 \<and> reads_back (payments_retrieve H' reader) j st') \<and>
    (refunds_create H auth fq st = (Inr (s, j), st') \<longrightarrow>
      s = 201 \<and> reads_back (refunds_retrieve H' reader) j st')"
proof -
  have inv: "engine_inv (as_db st)" by (rule engine_reachable_inv [OF assms(3,2)])
  show ?thesis
    using order_reads_back [OF _ assms(1,4,5,6), of oq st s j st']
      payment_reads_back [OF _ assms(1,4,5,7) inv, of yq s j st']
      refund_reads_back [OF _ assms(1,4,5,7) inv, of fq s j st'] by blast
qed

definition demo_writer :: auth_ctx where
  "demo_writer = \<lparr>ac_merchant_id = 7, ac_key_id = 9, ac_scopes = scope_set_of [OrdersWrite, PaymentsWrite, RefundsWrite]\<rparr>"

text \<open>A creation that answers 201 and reads back, as one predicate.\<close>

definition created_and_read ::
  "(nat \<times> json) handler_tx \<Rightarrow> (string \<Rightarrow> (nat \<times> json) handler_tx) \<Rightarrow> api_state \<Rightarrow> bool" where
  "created_and_read create retrieve st = (case create st of
      (Inr (s, j), st') \<Rightarrow> s = 201 \<and> reads_back retrieve j st' | _ \<Rightarrow> False)"

definition is_created :: "(nat \<times> json) handler_tx \<Rightarrow> api_state \<Rightarrow> bool" where
  "is_created create st = (case create st of (Inr (s, j), st') \<Rightarrow> s = 201 | _ \<Rightarrow> False)"

lemma is_createdE: "is_created create st \<Longrightarrow> \<exists>j st'. create st = (Inr (201, j), st')"
  by (auto simp: is_created_def split: prod.splits sum.splits)

definition demo_order_request :: create_order_request where
  "demo_order_request = \<lparr>oq_amount = 10000, oq_currency = ''INR'', oq_receipt = None, oq_notes = []\<rparr>"

definition demo_payment_request :: create_payment_request where
  "demo_payment_request = \<lparr>yq_order_id = ''order_1000'', yq_number = ''4242424242424242'', yq_exp_month = 12,
     yq_exp_year = 2030, yq_cvc = None, yq_notes = []\<rparr>"

definition demo_refund_request :: create_refund_request where
  "demo_refund_request = \<lparr>fq_payment_id = ''pay_1001'', fq_amount = Some 4000, fq_reason = None\<rparr>"

theorem created_resources_read_back_witness:
  "created_and_read (orders_create demo_handler demo_writer demo_order_request) (orders_retrieve demo_handler demo_reader)
     (demo_state demo_db) \<and>
   created_and_read (payments_create demo_handler demo_writer demo_payment_request)
     (payments_retrieve demo_handler demo_reader) (demo_state demo_w1) \<and>
   created_and_read (refunds_create demo_handler demo_writer demo_refund_request)
     (refunds_retrieve demo_handler demo_reader) (demo_state demo_w2)"
proof -
  have ext: "he_ext demo_handler = demo_ext" "uuid_text_ok (he_ext demo_handler)"
    by (simp_all add: demo_handler_def demo_uuid_text_ok)
  have reader: "ac_merchant_id demo_reader = ac_merchant_id demo_writer"
    "scope_contains (ac_scopes demo_reader) OrdersRead" "scope_contains (ac_scopes demo_reader) PaymentsRead"
    by code_simp+
  have reach: "engine_reachable (he_ext demo_handler) demo_db (as_db (demo_state w))"
    if "w \<in> {demo_db, demo_w1, demo_w2}" for w
    using that demo_w1_reachable demo_w2_reachable engine_reachable.start by (auto simp: demo_state_def ext)
  note reads = created_resources_read_back [where H' = demo_handler, OF ext(2) demo_fresh reach refl reader]
  have "is_created (orders_create demo_handler demo_writer demo_order_request) (demo_state demo_db)" by code_simp
  then obtain j1 st1 where o1: "orders_create demo_handler demo_writer demo_order_request (demo_state demo_db)
      = (Inr (201, j1), st1)" using is_createdE by blast
  have "is_created (payments_create demo_handler demo_writer demo_payment_request) (demo_state demo_w1)" by code_simp
  then obtain j2 st2 where o2: "payments_create demo_handler demo_writer demo_payment_request (demo_state demo_w1)
      = (Inr (201, j2), st2)" using is_createdE by blast
  have "is_created (refunds_create demo_handler demo_writer demo_refund_request) (demo_state demo_w2)" by code_simp
  then obtain j3 st3 where o3: "refunds_create demo_handler demo_writer demo_refund_request (demo_state demo_w2)
      = (Inr (201, j3), st3)" using is_createdE by blast
  have year: "yq_exp_year demo_payment_request < 32768" by (simp add: demo_payment_request_def)
  have r1: "reads_back (orders_retrieve demo_handler demo_reader) j1 st1"
    using reads [of demo_db demo_order_request 201 j1 st1] o1 by simp
  have r2: "reads_back (payments_retrieve demo_handler demo_reader) j2 st2"
    using reads [of demo_w1 _ 201 j2 st2 demo_payment_request] o2 year by simp
  have r3: "reads_back (refunds_retrieve demo_handler demo_reader) j3 st3"
    using reads [of demo_w2 _ 201 j3 st3 _ demo_refund_request] o3 by simp
  show ?thesis by (simp add: created_and_read_def o1 o2 o3 r1 r2 r3)
qed

end
