(* ===== verification/Server_Run.thy ===== *)
theory Server_Run
  imports Api_Wire Server Queue_Properties "HOL-Library.Code_Target_Nat"
begin

text \<open>
  The running server: what \<open>startup.rs\<close> puts together from the parts, with the configuration of the API
  (\<open>api/config.rs\<close>), its shared state (\<open>api/state.rs\<close>) and the pool (\<open>store/pool.rs\<close>). Requests and ticks of
  the job worker share the database; here they run one after the other, in any order.
\<close>

section \<open>Wiring\<close>

definition api_config_for_tests :: api_config where
  "api_config_for_tests = api_config_default\<lparr>cf_simulate_latency := False\<rparr>"

text \<open>The common case of the shared state: the defaults, but for the artificial latency.\<close>

definition app_config :: "bool \<Rightarrow> api_config" where
  "app_config simulate_latency = api_config_default\<lparr>cf_simulate_latency := simulate_latency\<rparr>"

definition app_state :: "db \<Rightarrow> api_state" where
  "app_state w = \<lparr>as_db = w, as_cache = cache_new, as_spawned = []\<rparr>"

record pool_config =
  pl_url :: string
  pl_max_connections :: nat
  pl_min_connections :: nat
  pl_acquire_timeout :: int
  pl_idle_timeout :: int

definition pool_config_new :: "string \<Rightarrow> pool_config" where
  "pool_config_new url = \<lparr>pl_url = url, pl_max_connections = 20, pl_min_connections = 2,
     pl_acquire_timeout = seconds 5, pl_idle_timeout = seconds 600\<rparr>"

section \<open>The server as it runs\<close>

text \<open>A server: its state, whether the worker's task is alive, and the replies so far, the last one first.\<close>

record server =
  sv_config :: server_config
  sv_worker_id :: string
  sv_state :: api_state
  sv_worker_alive :: bool
  sv_replies :: "reply list"

datatype happening = Request arrival | Tick "delivery_env tick_env"

definition server_start :: "server_config \<Rightarrow> string \<Rightarrow> db \<Rightarrow> server" where
  "server_start c worker migrated = \<lparr>sv_config = c, sv_worker_id = worker, sv_state = app_state migrated,
     sv_worker_alive = True, sv_replies = []\<rparr>"

text \<open>Every handler has the configuration and the pepper that the server was started with.\<close>

definition wired :: "server_config \<Rightarrow> arrival \<Rightarrow> arrival" where
  "wired c a = a\<lparr>ar_handler := (ar_handler a)\<lparr>he_config := app_config (sc_simulate_latency c),
     he_pepper := sc_fingerprint_pepper c\<rparr>\<rparr>"

fun server_step :: "ext \<Rightarrow> (string \<Rightarrow> json option) \<Rightarrow> wire_env \<Rightarrow> happening \<Rightarrow> server \<Rightarrow> server" where
  "server_step X parse W (Request a) s =
     (let cfg = app_config (sc_simulate_latency (sv_config s)) in
      case answer X parse cfg (wire_extractors W cfg) (wired (sv_config s) a) (sv_state s) of
        (r, st) \<Rightarrow> s\<lparr>sv_state := st, sv_replies := r # sv_replies s\<rparr>)"
| "server_step X parse W (Tick e) s =
     (if \<not> sv_worker_alive s then s
      else case worker_tick X (worker_config_default (sv_worker_id s)) (server_handlers X) e (as_db (sv_state s)) of
        (alive, w) \<Rightarrow> s\<lparr>sv_state := (sv_state s)\<lparr>as_db := w\<rparr>, sv_worker_alive := alive\<rparr>)"

definition server_run :: "ext \<Rightarrow> (string \<Rightarrow> json option) \<Rightarrow> wire_env \<Rightarrow> happening list \<Rightarrow> server \<Rightarrow> server" where
  "server_run X parse W hs s = fold (server_step X parse W) hs s"

section \<open>The worker leaves the money alone\<close>

lemma jobs_keep_money: "money_tables (w\<lparr>db_jobs := js\<rparr>) = money_tables w"
  by (simp add: money_tables_def ledger_tables_def)

lemma deliveries_keep_money: "deliveries_only w w' \<Longrightarrow> money_tables w' = money_tables w"
  by (auto simp: deliveries_only_def money_tables_def ledger_tables_def)

lemma job_statements_keep_money:
  "money_tables (snd (job_complete i now w)) = money_tables w"
  "money_tables (snd (fail_and_reschedule i msg t now w)) = money_tables w"
  "money_tables (snd (reap_stale_leases before now w)) = money_tables w"
  by (simp_all add: job_complete_def fail_and_reschedule_def reap_stale_leases_def modify_def jobs_keep_money)

lemma execute_keeps_money:
  assumes "execute (server_handlers X) env now j w = (ok, w')"
  shows "money_tables w' = money_tables w"
proof (cases "server_handlers X (j_kind j)")
  case None
  then show ?thesis using assms by (auto simp: execute_def job_statements_keep_money)
next
  case (Some h)
  then have h: "h = deliver X webhook_config_default" by (simp add: server_handlers_def register_def split: if_splits)
  obtain r v where run: "h env (j_payload j) w = (r, v)" by fastforce
  have "money_tables v = money_tables w"
    using deliver_frame [OF run [unfolded h]] deliveries_keep_money by blast
  then show ?thesis
    using assms Some run
    by (auto simp: execute_def job_statements_keep_money split: option.splits sum.splits job_error.splits)
qed

lemma execute_all_keeps_money:
  "execute_all (server_handlers X) envs n js w = (ok, w') \<Longrightarrow> money_tables w' = money_tables w"
proof (induction js arbitrary: n w)
  case (Cons j js)
  obtain b v where run: "execute (server_handlers X) (snd (envs n)) (fst (envs n)) j w = (b, v)" by fastforce
  show ?case
    using Cons.prems Cons.IH [of "Suc n" v] execute_keeps_money [OF run] by (cases b) (auto simp: run)
qed simp

lemma claim_keeps_money:
  assumes "run_tx X conv (claim_batch X locked wk batch now) w = (res, w')"
  shows "money_tables w' = money_tables w"
proof (cases res)
  case (Inl e)
  then show ?thesis using assms claim_failed by blast
next
  case (Inr js)
  then have "claim_batch X locked wk batch now w = (Inr js, w')" using assms by (simp add: run_tx_Inr)
  then show ?thesis by (auto simp: claim_batch_def Let_def jobs_keep_money split: if_splits sum.splits)
qed

lemma tick_keeps_money:
  assumes "worker_tick X c (server_handlers X) e w = (ok, w')"
  shows "money_tables w' = money_tables w"
proof -
  let ?w1 = "snd (reap_stale_leases (tick_now e - lease_timeout c) (tick_now e) w)"
  obtain res w2 where claim: "run_tx X (\<lambda>err. err)
      (claim_batch X (tick_locked e) (worker_id c) (batch_size c) (tick_now e)) ?w1 = (res, w2)" by fastforce
  have "money_tables w' = money_tables w2"
    using assms execute_all_keeps_money by (cases res) (auto simp: worker_tick_def Let_def claim)
  then show ?thesis using claim_keeps_money [OF claim] by (simp add: job_statements_keep_money)
qed

section \<open>The whole server\<close>

lemma request_reaches:
  "maintains (\<lambda>s. engine_reachable X w0 (as_db s)) (answer X parse cfg (wire_extractors W cfg) a)"
proof (rule answer_maintains [OF _ calls_reach])
  fix w and rows :: "idem_row list" assume "engine_reachable X w0 w"
  then show "engine_reachable X w0 (w\<lparr>db_idem := rows\<rparr>)"
    by (rule engine_reachable.step) (rule engine_step.elsewhere, simp add: money_tables_def ledger_tables_def)
next
  show "in_i64 (oq_amount q)" if "ex_order (wire_extractors W cfg) req = Inr q" for req q
    using that by (auto simp: json_body_Inr de_order_struct order_reads_def)
qed simp

lemma server_step_reaches:
  assumes "engine_reachable X w0 (as_db (sv_state s))" and "sv_worker_alive s"
  shows "engine_reachable X w0 (as_db (sv_state (server_step X parse W h s))) \<and> sv_worker_alive (server_step X parse W h s)"
proof (cases h)
  case (Request a)
  let ?cfg = "app_config (sc_simulate_latency (sv_config s))"
  obtain r st where run: "answer X parse ?cfg (wire_extractors W ?cfg) (wired (sv_config s) a) (sv_state s) = (r, st)"
    by fastforce
  show ?thesis
    using maintains_case [OF request_reaches assms(1) run] assms(2) by (simp add: Request Let_def run)
next
  case (Tick e)
  obtain ok w where run: "worker_tick X (worker_config_default (sv_worker_id s)) (server_handlers X) e (as_db (sv_state s)) = (ok, w)"
    by fastforce
  have "engine_reachable X w0 w"
    using assms(1) engine_step.elsewhere [OF tick_keeps_money [OF run]] by (rule engine_reachable.step)
  then show ?thesis using server_tick_returns [OF run] assms(2) by (simp add: Tick run)
qed

lemma server_run_reaches:
  "engine_reachable X w0 (as_db (sv_state s)) \<Longrightarrow> sv_worker_alive s \<Longrightarrow>
     engine_reachable X w0 (as_db (sv_state (server_run X parse W hs s))) \<and> sv_worker_alive (server_run X parse W hs s)"
  unfolding server_run_def by (induction hs arbitrary: s) (simp_all add: server_step_reaches)

text \<open>
  C2. The books stay in order whatever the server meets. It starts on the migrated database with any
  configuration, and then requests with any bodies, queries, headers and keys and ticks of its job worker, with
  whatever the endpoints answer, come in any order: every state it is in is one the engine reaches from the
  migrated database, every transaction in the ledger sums to zero in every currency, an order is paid exactly
  when one of its payments was captured and then by that one alone, no payment is refunded beyond its amount,
  and no job has brought the worker down.
\<close>
theorem running_server_keeps_books:
  assumes "fresh_books migrated" and "s = server_run X parse W hs (server_start c worker migrated)"
  shows "engine_reachable X migrated (as_db (sv_state s)) \<and> sv_worker_alive s \<and>
    (\<forall>t \<in> set (db_ltxns (as_db (sv_state s))). \<forall>c.
       sum_in c (entries_of (lt_id t) (db_entries (as_db (sv_state s)))) = 0) \<and>
    (\<forall>q \<in> set (db_orders (as_db (sv_state s))).
       (\<Sum>r \<leftarrow> db_payments (as_db (sv_state s)).
          if pr_order_id r = or_id q \<and> pr_status r \<in> {Pay_Captured, Pay_Refunded} then 1 else 0)
        = (if or_status q = Order_Paid then 1 else (0::int))) \<and>
    (\<forall>r \<in> set (db_payments (as_db (sv_state s))).
       refunds_against (pr_id r) (db_refunds (as_db (sv_state s))) \<le> pr_amount_minor r)"
proof -
  let ?w = "as_db (sv_state s)"
  have run: "engine_reachable X migrated ?w" "sv_worker_alive s"
    using server_run_reaches [of X migrated "server_start c worker migrated" parse W hs]
    by (simp_all add: assms(2) server_start_def app_state_def engine_reachable.start)
  note books = engine_books [OF engine_reachable_inv [OF run(1) assms(1)]]
  show ?thesis using run books by blast
qed

definition demo_server_config :: server_config where
  "demo_server_config = \<lparr>sc_database_url = ''postgres://'', sc_host = ''127.0.0.1'', sc_port = 8080,
     sc_fingerprint_pepper = ''pepper'', sc_master_key = ''key'', sc_simulate_latency = False\<rparr>"

definition demo_run :: "happening list \<Rightarrow> server" where
  "demo_run hs = server_run demo_ext (\<lambda>_. Some JNull)
     (demo_wire (W_Obj [(''currency'', W_Str ''INR''), (''amount'', W_Int 10000)])) hs
     (server_start demo_server_config ''1'' demo_issue)"

definition demo_day :: "happening list" where
  "demo_day = [Request (demo_arrival (demo_api_request ''POST'' ''/orders'' '''')), Tick demo_tick]"

definition demo_done :: "server \<Rightarrow> bool" where
  "demo_done s \<longleftrightarrow> map rp_status (sv_replies s) = [201] \<and> length (db_orders (as_db (sv_state s))) = 1"

theorem running_server_keeps_books_witness:
  "demo_done (demo_run demo_day) \<and> sv_worker_alive (demo_run demo_day) \<and>
   engine_reachable demo_ext demo_issue (as_db (sv_state (demo_run demo_day)))"
proof -
  have "demo_done (demo_run demo_day)" by code_simp
  moreover have "fresh_books demo_issue" by code_simp
  note running_server_keeps_books [OF this demo_run_def]
  ultimately show ?thesis by blast
qed

end
