(* ===== verification/Spec2Isabelle.thy ===== *)
theory Spec2Isabelle
  imports Ids Money Status Card Simulator Ledger_Domain Aggregates Merchant_Key Fees Crypto Db
    Store_Order Store_Payment Store_Refund Store_Ledger Store_Jobs Store_Events Store_Idempotency
    Store_Merchant Engine_Event Engine_Ledger Engine_Order Engine_Payment Engine_Refund
    Engine_Invariant Engine_Properties Queue_Worker Webhooks Queue_Properties
    Api_Error Api_Auth Api_Pagination Api_Idempotency Api_Extract Api_Routes Engine_Frames Api_Properties Api_Answers Api_Envelope Store_Late Server
    Engine_Gateway Locks Domain_Clock Domain_Errors Passwords Api_Wire Api_Readback Server_Run
begin

text \<open>
  A verification development for the payment gateway sandbox, a Rust workspace under \<open>src/crates\<close>.

  The program. A merchant creates an order, then payments against it with test cards; a payment is
  authorized, captured or declined as the simulator decides, a captured one can be refunded in parts.
  Every money movement is posted to a double-entry ledger, every event is written to an outbox in the
  transaction that causes it, and a job worker delivers it to the merchant's webhook endpoints. The
  crates are \<open>domain\<close> (types and rules), \<open>store\<close> (one repository per table), \<open>crypto\<close>, \<open>simulator\<close>,
  \<open>engine\<close> (the use cases), \<open>queue\<close>, \<open>webhooks\<close>, \<open>api\<close> and \<open>sandbox-server\<close>.

  The model. A Rust function is a HOL function of the same name; one that may fail returns a sum with
  the error on the left; one that works on the database is a function from the database to its result and
  the database it leaves, sequenced by \<open>tbind\<close>, which stops at the first error as the question mark does.
  The clock and randomness are arguments. What the repository takes from other crates beyond the standard
  library (identifiers, time formatting, hashes, encryption, the texts of database errors) is the record
  \<open>ext\<close>, and a theorem that relies on more than its being a function names the law (\<open>uuid_text_ok\<close>,
  \<open>hex_text_ok\<close>, \<open>aes_gcm_ok\<close>). \<open>demo_ext\<close> is an instance that satisfies them, for the witnesses.

  Theories, in the order of the code:
    \<open>Sandbox_Prelude\<close> (machine integers, results, the transaction monad, the locale of text codecs),
    \<open>Decimal\<close>, \<open>Json\<close>, \<open>External\<close> (printing of integers, JSON values, external functions);
    \<open>domain/src\<close>: \<open>Ids\<close>, \<open>Money\<close>, \<open>Status\<close>, \<open>Card\<close>, \<open>Ledger_Domain\<close>, \<open>Aggregates\<close>, \<open>Merchant_Key\<close>;
    \<open>Domain_Clock\<close>, \<open>Domain_Errors\<close> (\<open>errors.rs\<close>, identifiers on the wire);
    \<open>simulator\<close>: \<open>Simulator\<close>; \<open>crypto/src\<close>: \<open>Crypto\<close>, \<open>Passwords\<close>; \<open>engine/fees.rs\<close>: \<open>Fees\<close>;
    \<open>store/src\<close>: \<open>Db\<close> (rows, constraints, errors, transactions, the locale \<open>row_codec\<close>) and one
    \<open>Store_...\<close> theory per repository;
    \<open>engine\<close>: \<open>Engine_Event\<close> (the outbox), \<open>Engine_Ledger\<close> (posting rules and what they move),
    \<open>Engine_Order\<close>, \<open>Engine_Payment\<close>, \<open>Engine_Refund\<close>, \<open>Engine_Invariant\<close> (the invariant, a step relation
    over the calls and its reachable states), \<open>Engine_Properties\<close>, \<open>Engine_Gateway\<close> (an abstract gateway of
    orders, payments and balances with four actions, and the refinement: locale \<open>refinement_mapping\<close>) and
    \<open>Locks\<close> (\<open>store/src/tx.rs\<close>: transactions side by side with the rows they lock, locale \<open>ranked_locks\<close>);
    \<open>queue\<close>: \<open>Queue_Worker\<close> (retries, the worker, the locale \<open>job_handlers\<close>, a step relation of workers that
    share the queue); \<open>webhooks\<close>: \<open>Webhooks\<close> (the delivery handler, which interprets that locale);
    \<open>Queue_Properties\<close>;
    \<open>api\<close>: \<open>Api_Error\<close> (\<open>error.rs\<close>, \<open>validate.rs\<close>), \<open>Api_Auth\<close> (\<open>auth.rs\<close>: scope sets, the cache of keys, the
    middleware), \<open>Api_Pagination\<close> (\<open>config.rs\<close>, \<open>pagination.rs\<close>), \<open>Api_Extract\<close> (\<open>extract.rs\<close>, the replies of
    \<open>routes/health.rs\<close>), \<open>Api_Idempotency\<close> (\<open>middleware\<close>, and the stack of layers \<open>routes/mod.rs\<close> puts around
    the routes), \<open>Api_Routes\<close> (every handler under \<open>routes\<close> and the table of paths); \<open>Engine_Frames\<close> (what each
    call of the engine leaves alone), \<open>Api_Properties\<close> and \<open>Api_Answers\<close> (what holds of whole requests),
    \<open>Api_Envelope\<close> (what ends a statement, a call and a handler: the errors a caller can be told),
    \<open>Api_Wire\<close> (what the derived readers of the request types accept, and the browser policy), \<open>Api_Readback\<close>;
    \<open>Store_Late\<close> (\<open>store/src/dispute.rs\<close>, \<open>settlement.rs\<close>, \<open>audit_log.rs\<close>); \<open>sandbox-server/src\<close>: \<open>Server\<close>
    (the command line and \<open>seed\<close>) and \<open>Server_Run\<close> (\<open>startup.rs\<close>: requests and ticks of the worker on one server).

  A request is an \<open>api_request\<close>, a step of the state \<open>api_state\<close> (the database, the cache of keys, the tasks
  spawned) that ends in a \<open>fate\<close>: a reply, a panic, or being dropped by the timeout. \<open>serve\<close> is the stack:
  request identifier, timeout, authentication, idempotency, \<open>route\<close>; \<open>answer\<close> and \<open>answer_all\<close> run one
  request and a sequence of them.

  The database is the record \<open>db\<close>: one list of rows per table in insertion order, under the CHECK, unique
  and foreign-key constraints of \<open>src/migrations\<close>, which every insert and update evaluates in the order in
  which PostgreSQL reports them. \<open>run_tx\<close> runs a transaction, evaluates the deferred ledger trigger at
  its commit and restores every table when it fails. Transactions run one after another: the row locks
  the code takes serialise the ones that conflict, and \<open>Locks\<close> shows that they do so without a deadlock.
  Instants are stored as they are, where the columns keep microseconds; no property compares a stored instant
  with the clock's at a finer grain.

  What the lemmas show. The codecs round-trip (locale \<open>string_codec\<close>, interpreted by currencies, account
  types and the text of identifiers; locale \<open>row_codec\<close>, interpreted by the repositories). Amounts, fees
  and fee returns are computed exactly, to the nearest unit, in range. A posting changes a balance by
  what it moves on that account (locale \<open>book\<close>). In every state the engine reaches from the migrated
  database the books balance, each balance is explained by the captured payments, an order is paid by one
  payment, and no payment is refunded beyond its amount; a failed call changes nothing. Seen from outside,
  the engine is the abstract gateway: each call is one of its actions or none, so what is proved of the four
  actions holds of every history. However transactions interleave, none waits for ever. Workers that share
  the queue never run a job twice at once and a finished job stays finished, as long as no lease is
  outlived; a tick runs the due jobs as long as their attempts last and stops at one that has none left; what a delivery handler sends verifies under the
  endpoint's secret. The answers of the key cache are fresh, the cache is bounded, and no handler runs for an
  unknown caller or without its scope. Every sequence of requests keeps the engine's invariant; a retry
  under an idempotency key gets the recorded reply and changes nothing, and a server error frees the key, each when
  the statement that records or frees it succeeds, with the refusals that follow when it does not; what another
  merchant owns cannot be told from what does not exist, endpoints excepted; following the cursors
  visits every order once; whatever is asked, the answer is an object or the envelope with an error that follows
  from the request or stands in a fixed list, so no text of the database leaves the server.
  A body is read field by field and a misspelt one changes nothing but the record of its idempotency key; what is created reads back. The server as
  it is put together keeps the books over any run of requests and ticks, and no job brings its worker down.
  Disputes, settlements and the audit log stay consistent under their operations, and the keys \<open>seed\<close>
  prints work.

  Bounds. Integers are \<open>int\<close> with the range of their Rust type written out (\<open>in_i64\<close>, \<open>wrap64\<close>, \<open>wrap16\<close>);
  checked operations fail outside it and unchecked ones wrap as a release build does. Strings are lists of
  bytes. No definition needs fuel.

  Not modelled: the interleaving of the statements of two transactions (only that of their locks), the
  connection pool, the reading of the environment, tracing, the HTTP server and client and the process around
  them, and what axum, tower-http and serde do below the derived readers: reading JSON text and forms, content
  types, percent-encoding, the answer to a preflight. They are parameters (\<open>wire_env\<close>), and most properties take
  the extractors whole (\<open>extractors\<close>), as any functions that give the decoded value or the rejection; a path is
  the part after \<open>/v1\<close>. The lookup of a
  key, its task and a request's transactions are steps that do not overlap. The tables of \<open>Store_Late\<close> stand beside \<open>db\<close>, since
  nothing else of the program reads or writes them. A text with a zero byte, which PostgreSQL refuses, is refused in the
  model only by \<open>record_attempt\<close>, the one statement that stores text of another server.
\<close>

end
